(* ===== verification/Prelude.thy ===== *)
theory Prelude
  imports Complex_Main "HOL-Library.Multiset" "HOL-Library.Sublist"
begin

text \<open>
  Shared vocabulary of the development: the collections of simplification rules the
  component theories add to, and generic facts on lists, maps and orders.

  \<^item> \<open>io_simps\<close>: unfolding rules of the effect combinators of \<open>Effects\<close>.
  \<^item> \<open>keeps_intros\<close>: introduction rules showing that a computation leaves a view of
    the state alone.
  \<^item> \<open>schema_simps\<close>: unfolding rules of the schema predicates of \<open>Models\<close>.
\<close>

named_theorems io_simps "unfolding of the effect combinators"
named_theorems keeps_intros "computations that leave a view of the state unchanged"
named_theorems schema_simps "unfolding of the schema predicates"

type_synonym oid = string
type_synonym date = int

section \<open>Lists\<close>

text \<open>Removing a suffix of elements that satisfy a predicate.\<close>

definition drop_tail_while :: "('a \<Rightarrow> bool) \<Rightarrow> 'a list \<Rightarrow> 'a list" where
  "drop_tail_while P xs = rev (dropWhile P (rev xs))"

lemma drop_tail_while_Nil [simp]: "drop_tail_while P [] = []"
  by (simp add: drop_tail_while_def)

lemma drop_tail_while_snoc [simp]:
  "drop_tail_while P (xs @ [x]) = (if P x then drop_tail_while P xs else xs @ [x])"
  by (simp add: drop_tail_while_def)

lemma drop_tail_while_append:
  "\<forall>y\<in>set ys. P y \<Longrightarrow> drop_tail_while P (xs @ ys) = drop_tail_while P xs"
  by (induction ys rule: rev_induct) (simp_all flip: append_assoc)

lemma drop_tail_while_idem [simp]:
  "drop_tail_while P (drop_tail_while P xs) = drop_tail_while P xs"
  by (simp add: drop_tail_while_def)

lemma drop_tail_while_prefix: "prefix (drop_tail_while P xs) xs"
  by (metis drop_tail_while_def rev_rev_ident suffix_dropWhile suffix_to_prefix)

lemma drop_tail_while_subset: "set (drop_tail_while P xs) \<subseteq> set xs"
  by (rule set_mono_prefix) (rule drop_tail_while_prefix)

lemma drop_tail_while_Cons:
  "drop_tail_while P (x # xs) =
     (if drop_tail_while P xs = [] then (if P x then [] else [x]) else x # drop_tail_while P xs)"
proof -
  have empty: "drop_tail_while P xs = [] \<longleftrightarrow> (\<forall>y\<in>set xs. P y)"
    by (auto simp: drop_tail_while_def dropWhile_eq_Nil_conv)
  show ?thesis
  proof (cases "\<forall>y\<in>set xs. P y")
    case True
    then have "dropWhile P (rev xs @ [x]) = dropWhile P [x]"
      by (intro dropWhile_append2) auto
    with True empty show ?thesis by (auto simp: drop_tail_while_def)
  next
    case False
    then obtain y where "y \<in> set (rev xs)" "\<not> P y" by auto
    then have "dropWhile P (rev xs @ [x]) = dropWhile P (rev xs) @ [x]"
      by (rule dropWhile_append1)
    with False empty show ?thesis by (auto simp: drop_tail_while_def)
  qed
qed

lemma drop_tail_while_eq_Nil: "drop_tail_while P xs = [] \<longleftrightarrow> (\<forall>x\<in>set xs. P x)"
  by (auto simp: drop_tail_while_def dropWhile_eq_Nil_conv)

lemma drop_tail_while_last: "drop_tail_while P xs \<noteq> [] \<Longrightarrow> \<not> P (last (drop_tail_while P xs))"
  by (induction xs rule: rev_induct) auto

section \<open>Insertion sort by a comparison\<close>

text \<open>
  The stable insertion sort, with the comparison as an argument. It is the reference for every
  sort of the code: \<open>Array.prototype.sort\<close> is stable, and a database cursor's sort
  returns some sorted arrangement.
\<close>

fun insort_by :: "('a \<Rightarrow> 'a \<Rightarrow> bool) \<Rightarrow> 'a \<Rightarrow> 'a list \<Rightarrow> 'a list" where
  "insort_by le x [] = [x]"
| "insort_by le x (y # ys) = (if le x y then x # y # ys else y # insort_by le x ys)"

definition sort_by :: "('a \<Rightarrow> 'a \<Rightarrow> bool) \<Rightarrow> 'a list \<Rightarrow> 'a list" where
  "sort_by le xs = foldr (insort_by le) xs []"

lemma mset_insort_by [simp]: "mset (insort_by le x xs) = add_mset x (mset xs)"
  by (induction xs) auto

lemma mset_sort_by [simp]: "mset (sort_by le xs) = mset xs"
  by (induction xs) (auto simp: sort_by_def)

lemma set_sort_by [simp]: "set (sort_by le xs) = set xs"
  by (metis mset_sort_by set_mset_mset)

lemma length_sort_by [simp]: "length (sort_by le xs) = length xs"
  by (metis mset_sort_by size_mset)

definition total_preorder :: "('a \<Rightarrow> 'a \<Rightarrow> bool) \<Rightarrow> bool" where
  "total_preorder le \<longleftrightarrow> (\<forall>a b. le a b \<or> le b a) \<and> (\<forall>a b c. le a b \<longrightarrow> le b c \<longrightarrow> le a c)"

lemma total_preorder_key [simp]: "total_preorder (\<lambda>a b. (f a :: 'k :: linorder) \<le> f b)"
  by (auto simp: total_preorder_def)

lemma total_preorder_key_desc [simp]: "total_preorder (\<lambda>a b. (f b :: 'k :: linorder) \<le> f a)"
  by (auto simp: total_preorder_def)

lemma total_preorder_True [simp]: "total_preorder (\<lambda>a b. True)"
  by (simp add: total_preorder_def)

lemma sorted_insort_by:
  "total_preorder le \<Longrightarrow> sorted_wrt le xs \<Longrightarrow> sorted_wrt le (insort_by le x xs)"
proof (induction xs)
  case Nil
  then show ?case by simp
next
  case (Cons y ys)
  have "set (insort_by le x ys) = insert x (set ys)"
    by (metis mset_insort_by set_mset_add_mset_insert set_mset_mset)
  with Cons show ?case by (auto simp: total_preorder_def)
qed

lemma sorted_sort_by: "total_preorder le \<Longrightarrow> sorted_wrt le (sort_by le xs)"
  by (induction xs) (auto simp: sort_by_def sorted_insort_by)

section \<open>Default values\<close>

fun default_to :: "'a \<Rightarrow> 'a option \<Rightarrow> 'a" where
  "default_to d None = d"
| "default_to d (Some x) = x"

section \<open>Slices of a list\<close>

text \<open>The documents of one page: \<open>skip\<close> of them left out, at most \<open>limit\<close> kept.\<close>

definition slice :: "nat \<Rightarrow> nat option \<Rightarrow> 'a list \<Rightarrow> 'a list" where
  "slice sk lm xs = (case lm of None \<Rightarrow> drop sk xs | Some l \<Rightarrow> take l (drop sk xs))"

lemma slice_0_None [simp]: "slice 0 None xs = xs"
  by (simp add: slice_def)

lemma set_slice_subset: "set (slice sk lm xs) \<subseteq> set xs"
  by (auto simp: slice_def split: option.splits dest: in_set_takeD in_set_dropD)

lemma length_slice_le: "length (slice sk (Some l) xs) \<le> l"
  by (simp add: slice_def)

lemma concat_slices:
  "0 < l \<Longrightarrow> concat (map (\<lambda>p. slice (p * l) (Some l) xs) [0..<n]) = take (n * l) xs"
proof (induction n)
  case 0
  then show ?case by simp
next
  case (Suc n)
  have "take (n * l) xs @ take l (drop (n * l) xs) = take (n * l + l) xs"
    by (simp add: take_add)
  with Suc show ?case by (simp add: slice_def add.commute)
qed

end
