(* ===== verification/Js.thy ===== *)
theory Js
  imports Prelude
begin

text \<open>
  The part of JavaScript the code uses: dynamically typed values, property access, and the
  string functions of the standard library.

  A string is a list of \<^typ>\<open>char\<close>, one per UTF-16 code unit; the model covers the
  code units up to 0xFF (Latin-1). On these, white space (\<open>trim\<close>, \<open>\s\<close>) is the
  set of \<open>is_ws\<close>; \<open>toLowerCase\<close> is exact; \<open>toUpperCase\<close> is exact but for the
  two letters (0xB5 and 0xFF) whose upper case lies outside the range, which are left alone.
  Numbers are NaN, the infinities and exact rationals; the code only compares, tests and
  counts with them, and rounding is not modelled.
\<close>

section \<open>Strings\<close>

definition code_unit :: "char \<Rightarrow> nat" where
  "code_unit c = of_char c"

definition is_ws :: "char \<Rightarrow> bool" where
  "is_ws c \<longleftrightarrow> code_unit c \<in> {9, 10, 11, 12, 13, 32, 160}"

definition is_digit :: "char \<Rightarrow> bool" where
  "is_digit c \<longleftrightarrow> 48 \<le> code_unit c \<and> code_unit c \<le> 57"

definition is_hex :: "char \<Rightarrow> bool" where
  "is_hex c \<longleftrightarrow> is_digit c \<or> (97 \<le> code_unit c \<and> code_unit c \<le> 102) \<or> (65 \<le> code_unit c \<and> code_unit c \<le> 70)"

definition js_trim_start :: "string \<Rightarrow> string" where
  "js_trim_start s = dropWhile is_ws s"

definition js_trim_end :: "string \<Rightarrow> string" where
  "js_trim_end s = drop_tail_while is_ws s"

definition js_trim :: "string \<Rightarrow> string" where
  "js_trim s = js_trim_end (js_trim_start s)"

definition upper_char :: "char \<Rightarrow> string" where
  "upper_char c = (let n = code_unit c in
     if 97 \<le> n \<and> n \<le> 122 then [char_of (n - 32)]
     else if 224 \<le> n \<and> n \<le> 254 \<and> n \<noteq> 247 then [char_of (n - 32)]
     else if n = 223 then ''SS''
     else [c])"

definition lower_char :: "char \<Rightarrow> char" where
  "lower_char c = (let n = code_unit c in
     if 65 \<le> n \<and> n \<le> 90 then char_of (n + 32)
     else if 192 \<le> n \<and> n \<le> 222 \<and> n \<noteq> 215 then char_of (n + 32)
     else c)"

definition js_upper :: "string \<Rightarrow> string" where
  "js_upper s = concat (map upper_char s)"

definition js_lower :: "string \<Rightarrow> string" where
  "js_lower s = map lower_char s"

text \<open>\<open>s.split(c)\<close> for a separator of one code unit, and \<open>xs.join(sep)\<close>.\<close>

fun js_split :: "char \<Rightarrow> string \<Rightarrow> string list" where
  "js_split c [] = [[]]"
| "js_split c (x # xs) =
     (if x = c then [] # js_split c xs
      else (case js_split c xs of [] \<Rightarrow> [[x]] | w # ws \<Rightarrow> (x # w) # ws))"

fun js_join :: "string \<Rightarrow> string list \<Rightarrow> string" where
  "js_join sep [] = []"
| "js_join sep [w] = w"
| "js_join sep (w # ws) = w @ sep @ js_join sep ws"

definition js_starts_with :: "string \<Rightarrow> string \<Rightarrow> bool" where
  "js_starts_with s p \<longleftrightarrow> take (length p) s = p"

fun js_includes :: "string \<Rightarrow> string \<Rightarrow> bool" where
  "js_includes [] p = (p = [])"
| "js_includes (x # xs) p = (js_starts_with (x # xs) p \<or> js_includes xs p)"

text \<open>\<open>Buffer.byteLength(s, 'utf8')\<close>: two bytes for a code unit from 0x80 to 0xFF.\<close>

definition utf8_length :: "string \<Rightarrow> nat" where
  "utf8_length s = sum_list (map (\<lambda>c. if code_unit c < 128 then 1 else 2) s)"

text \<open>Decimal digits, as in a template literal \<open>${n}\<close>.\<close>

fun digits_of :: "nat \<Rightarrow> string" where
  "digits_of n = (if n < 10 then [char_of (48 + n)] else digits_of (n div 10) @ [char_of (48 + n mod 10)])"

declare digits_of.simps [simp del]

definition show_int :: "int \<Rightarrow> string" where
  "show_int z = (if z < 0 then CHR ''-'' # digits_of (nat (- z)) else digits_of (nat z))"

text \<open>\<open>parseInt(s, 10)\<close>; \<open>None\<close> is NaN.\<close>

definition digits_value :: "string \<Rightarrow> nat" where
  "digits_value ds = foldl (\<lambda>n c. 10 * n + (code_unit c - 48)) 0 ds"

definition js_parse_int :: "string \<Rightarrow> int option" where
  "js_parse_int s =
     (let t = js_trim_start s;
          neg = (case t of c # _ \<Rightarrow> c = CHR ''-'' | [] \<Rightarrow> False);
          body = (case t of c # r \<Rightarrow> if c = CHR ''-'' \<or> c = CHR ''+'' then r else t | [] \<Rightarrow> []);
          ds = takeWhile is_digit body
      in if ds = [] then None
         else Some (if neg then - int (digits_value ds) else int (digits_value ds)))"

section \<open>Values\<close>

datatype jsnum = NaN | Infinite bool | Finite rat

datatype jsval =
    JUndefined
  | JNull
  | JBool bool
  | JNum jsnum
  | JStr string
  | JArr "jsval list"
  | JObj "(string \<times> jsval) list"

text \<open>The coercion of a condition \<open>if (v)\<close>, \<open>!v\<close>.\<close>

fun truthy :: "jsval \<Rightarrow> bool" where
  "truthy JUndefined = False"
| "truthy JNull = False"
| "truthy (JBool b) = b"
| "truthy (JNum NaN) = False"
| "truthy (JNum (Infinite b)) = True"
| "truthy (JNum (Finite r)) = (r \<noteq> 0)"
| "truthy (JStr s) = (s \<noteq> [])"
| "truthy (JArr vs) = True"
| "truthy (JObj fs) = True"

text \<open>\<open>typeof v === 'string'\<close> and \<open>Array.isArray(v)\<close>, with the payload.\<close>

fun as_string :: "jsval \<Rightarrow> string option" where
  "as_string (JStr s) = Some s"
| "as_string v = None"

fun as_array :: "jsval \<Rightarrow> jsval list option" where
  "as_array (JArr vs) = Some vs"
| "as_array v = None"

text \<open>\<open>typeof v === 'object'\<close> (true of null and of arrays).\<close>

fun is_object :: "jsval \<Rightarrow> bool" where
  "is_object JNull = True"
| "is_object (JArr vs) = True"
| "is_object (JObj fs) = True"
| "is_object v = False"

text \<open>
  Reading, writing and deleting a property of an object; own properties keep their insertion
  order, as \<open>Object.keys\<close> lists them. Reading a property of any other value the code may
  hold here gives \<open>undefined\<close>.
\<close>

fun field :: "jsval \<Rightarrow> string \<Rightarrow> jsval" where
  "field (JObj fs) k = (case map_of fs k of Some v \<Rightarrow> v | None \<Rightarrow> JUndefined)"
| "field v k = JUndefined"

fun assoc_put :: "'k \<Rightarrow> 'v \<Rightarrow> ('k \<times> 'v) list \<Rightarrow> ('k \<times> 'v) list" where
  "assoc_put k v [] = [(k, v)]"
| "assoc_put k v ((k', v') # r) = (if k' = k then (k, v) # r else (k', v') # assoc_put k v r)"

fun set_field :: "string \<Rightarrow> jsval \<Rightarrow> jsval \<Rightarrow> jsval" where
  "set_field k v (JObj fs) = JObj (assoc_put k v fs)"
| "set_field k v w = w"

fun del_field :: "string \<Rightarrow> jsval \<Rightarrow> jsval" where
  "del_field k (JObj fs) = JObj (filter (\<lambda>(k', v). k' \<noteq> k) fs)"
| "del_field k w = w"

definition del_fields :: "string list \<Rightarrow> jsval \<Rightarrow> jsval" where
  "del_fields ks v = foldl (\<lambda>w k. del_field k w) v ks"

fun keys_of :: "jsval \<Rightarrow> string list" where
  "keys_of (JObj fs) = map fst fs"
| "keys_of v = []"

lemma map_of_assoc_put [simp]: "map_of (assoc_put k v fs) = (map_of fs)(k \<mapsto> v)"
  by (induction k v fs rule: assoc_put.induct) auto

lemma map_of_filter_key: "map_of (filter (\<lambda>(k', v). k' \<noteq> k) fs) = (map_of fs)(k := None)"
  by (induction fs) auto

lemma field_set_field:
  "field (set_field k v w) k' = (case w of JObj fs \<Rightarrow> (if k' = k then v else field w k') | _ \<Rightarrow> field w k')"
  by (cases w) auto

lemma field_del_field [simp]: "field (del_field k w) k' = (if k' = k then JUndefined else field w k')"
  by (cases w) (auto simp: map_of_filter_key)

lemma field_del_fields [simp]:
  "field (del_fields ks w) k' = (if k' \<in> set ks then JUndefined else field w k')"
  by (induction ks arbitrary: w) (auto simp: del_fields_def)

lemma as_string_Some [simp]: "as_string v = Some s \<longleftrightarrow> v = JStr s"
  by (cases v) auto

lemma as_array_Some [simp]: "as_array v = Some vs \<longleftrightarrow> v = JArr vs"
  by (cases v) auto

section \<open>Facts on strings\<close>

lemma js_trim_idem [simp]: "js_trim (js_trim s) = js_trim s"
proof -
  have hd: "\<not> is_ws (hd (dropWhile is_ws s))" if "dropWhile is_ws s \<noteq> []"
    using that by (rule hd_dropWhile)
  have "dropWhile is_ws (drop_tail_while is_ws (dropWhile is_ws s)) = drop_tail_while is_ws (dropWhile is_ws s)"
  proof (cases "dropWhile is_ws s")
    case (Cons c r)
    with hd have "\<not> is_ws c" by simp
    with Cons show ?thesis by (simp add: drop_tail_while_Cons)
  next
    case Nil
    show ?thesis unfolding Nil by simp
  qed
  then show ?thesis by (simp add: js_trim_def js_trim_end_def js_trim_start_def)
qed

lemma js_trim_Nil_iff: "js_trim s = [] \<longleftrightarrow> (\<forall>c\<in>set s. is_ws c)"
proof
  assume "js_trim s = []"
  then have "\<forall>c\<in>set (dropWhile is_ws s). is_ws c"
    by (simp add: js_trim_def js_trim_end_def js_trim_start_def drop_tail_while_eq_Nil)
  then have "dropWhile is_ws s = []"
    by (metis hd_dropWhile hd_in_set)
  then show "\<forall>c\<in>set s. is_ws c" by (simp add: dropWhile_eq_Nil_conv)
next
  assume "\<forall>c\<in>set s. is_ws c"
  then have none: "dropWhile is_ws s = []" by (simp add: dropWhile_eq_Nil_conv)
  show "js_trim s = []" unfolding js_trim_def js_trim_end_def js_trim_start_def none by simp
qed

lemma length_js_trim: "length (js_trim s) \<le> length s"
proof -
  have "length (js_trim s) \<le> length (dropWhile is_ws s)"
    unfolding js_trim_def js_trim_end_def js_trim_start_def
    by (rule prefix_length_le) (rule drop_tail_while_prefix)
  also have "\<dots> \<le> length s" by (rule length_dropWhile_le)
  finally show ?thesis .
qed

lemma js_split_ne_Nil [simp]: "js_split c s \<noteq> []"
  by (induction s) (auto split: list.splits)

lemma js_join_Cons: "js_join sep (w # ws) = (if ws = [] then w else w @ sep @ js_join sep ws)"
  by (cases ws) auto

lemma js_join_split: "js_join [c] (js_split c s) = s"
proof (induction s)
  case (Cons x xs)
  then show ?case
    by (cases "js_split c xs") (auto simp: js_join_Cons)
qed simp

lemma js_split_no_sep: "c \<notin> set s \<Longrightarrow> js_split c s = [s]"
  by (induction s) auto

lemma js_split_parts: "w \<in> set (js_split c s) \<Longrightarrow> c \<notin> set w"
proof (induction s arbitrary: w)
  case (Cons x xs)
  then show ?case by (cases "js_split c xs") (auto split: if_splits)
qed simp

lemma js_join_snoc: "ws \<noteq> [] \<Longrightarrow> js_join sep (ws @ [w]) = js_join sep ws @ sep @ w"
  by (induction ws) (auto simp: js_join_Cons)

lemma js_split_join:
  "ws \<noteq> [] \<Longrightarrow> \<forall>w\<in>set ws. c \<notin> set w \<Longrightarrow> js_split c (js_join [c] ws) = ws"
proof (induction ws)
  case Nil
  then show ?case by simp
next
  case (Cons w ws)
  have glue: "c \<notin> set w \<Longrightarrow> js_split c (w @ c # r) = w # js_split c r" for w r
    by (induction w) auto
  from Cons glue show ?case by (auto simp: js_join_Cons js_split_no_sep)
qed

lemma js_includes_sublist: "js_includes s p \<longleftrightarrow> (\<exists>a b. s = a @ p @ b)"
proof (induction s)
  case Nil
  then show ?case by auto
next
  case IH: (Cons x xs)
  have pre: "js_starts_with (x # xs) p \<longleftrightarrow> (\<exists>b. x # xs = p @ b)"
    unfolding js_starts_with_def by (metis append_eq_conv_conj append_take_drop_id)
  show ?case
  proof
    assume "js_includes (x # xs) p"
    with pre IH show "\<exists>a b. x # xs = a @ p @ b"
      by (metis append_Cons append_Nil js_includes.simps(2))
  next
    assume "\<exists>a b. x # xs = a @ p @ b"
    then obtain a b where ab: "x # xs = a @ p @ b" by blast
    show "js_includes (x # xs) p"
    proof (cases a)
      case Nil
      with ab have "\<exists>b. x # xs = p @ b" by auto
      with pre have "js_starts_with (x # xs) p" by blast
      then show ?thesis by simp
    next
      case (Cons y ys)
      with ab have "xs = ys @ p @ b" by simp
      with IH show ?thesis by (simp only: js_includes.simps) blast
    qed
  qed
qed

lemma js_starts_with_iff: "js_starts_with s p \<longleftrightarrow> (\<exists>r. s = p @ r)"
  unfolding js_starts_with_def by (metis append_eq_conv_conj append_take_drop_id)

lemma utf8_length_ge: "length s \<le> utf8_length s"
  by (induction s) (auto simp: utf8_length_def)

lemma utf8_length_ascii: "\<forall>c\<in>set s. code_unit c < 128 \<Longrightarrow> utf8_length s = length s"
  by (induction s) (auto simp: utf8_length_def)

lemma utf8_length_replicate: "128 \<le> code_unit c \<Longrightarrow> utf8_length (replicate n c) = 2 * n"
  by (induction n) (auto simp: utf8_length_def)

end
