(* ===== verification/Effects.thy ===== *)
theory Effects
  imports Js
begin

text \<open>
  Effectful code: a computation takes the state and returns the thrown error or the value,
  with the new state. \<open>await m k\<close> is \<open>const x = await m; k(x)\<close>, an error of \<open>m\<close>
  skipping \<open>k\<close>; the other combinators are \<open>throw\<close>, \<open>try/catch\<close> and
  \<open>try/finally\<close>.
\<close>

section \<open>Error objects\<close>

text \<open>
  The fields of a thrown \<open>Error\<close> the code reads: \<open>name\<close>, \<open>message\<close>,
  \<open>statusCode\<close>, \<open>errorCode\<close>, the numeric \<open>code\<close> of the database driver, the
  textual \<open>code\<close> of the operating system (\<open>ENOENT\<close>), \<open>isNonRetryable\<close>, and
  the \<open>path\<close> and \<open>errors\<close> of the object mapper's errors.
\<close>

record err =
  ename :: string
  emessage :: string
  statusCode :: "int option"
  errorCode :: "string option"
  dbCode :: "int option"
  sysCode :: "string option"
  isNonRetryable :: bool
  epath :: "string option"
  eerrors :: "string list option"

definition js_error :: "string \<Rightarrow> string \<Rightarrow> err" where
  "js_error nm msg =
     \<lparr>ename = nm, emessage = msg, statusCode = None, errorCode = None, dbCode = None,
      sysCode = None, isNonRetryable = False, epath = None, eerrors = None\<rparr>"

text \<open>\<open>new Error(msg)\<close>.\<close>

definition plain_error :: "string \<Rightarrow> err" where
  "plain_error msg = js_error ''Error'' msg"

text \<open>A chain of guards \<open>if (...) throw ...\<close> is passed exactly when none of them fires.\<close>

lemma guard_Inr: "((if b then Inl e else x) = Inr u) = (\<not> b \<and> x = Inr u)"
  by simp

lemma guard_end: "(Inr () = Inr u) = True"
  by simp

section \<open>Combinators\<close>

type_synonym ('s, 'a) io = "'s \<Rightarrow> (err + 'a) \<times> 's"

definition ret :: "'a \<Rightarrow> ('s, 'a) io" where
  "ret a = (\<lambda>s. (Inr a, s))"

definition throw :: "err \<Rightarrow> ('s, 'a) io" where
  "throw e = (\<lambda>s. (Inl e, s))"

definition await :: "('s, 'a) io \<Rightarrow> ('a \<Rightarrow> ('s, 'b) io) \<Rightarrow> ('s, 'b) io" where
  "await m k = (\<lambda>s. case m s of (Inl e, s') \<Rightarrow> (Inl e, s') | (Inr a, s') \<Rightarrow> k a s')"

definition try_catch :: "('s, 'a) io \<Rightarrow> (err \<Rightarrow> ('s, 'a) io) \<Rightarrow> ('s, 'a) io" where
  "try_catch m h = (\<lambda>s. case m s of (Inl e, s') \<Rightarrow> h e s' | (Inr a, s') \<Rightarrow> (Inr a, s'))"

text \<open>An error of the \<open>finally\<close> block replaces the outcome.\<close>

definition try_finally :: "('s, 'a) io \<Rightarrow> ('s, unit) io \<Rightarrow> ('s, 'a) io" where
  "try_finally m f =
     (\<lambda>s. case m s of (r, s') \<Rightarrow>
        (case f s' of (Inl e, s'') \<Rightarrow> (Inl e, s'') | (Inr _, s'') \<Rightarrow> (r, s'')))"

text \<open>Reading and changing the state.\<close>

definition gets :: "('s \<Rightarrow> 'a) \<Rightarrow> ('s, 'a) io" where
  "gets f = (\<lambda>s. (Inr (f s), s))"

definition modify_state :: "('s \<Rightarrow> 's) \<Rightarrow> ('s, unit) io" where
  "modify_state f = (\<lambda>s. (Inr (), f s))"

text \<open>A loop over a list that stops at the first error.\<close>

fun each :: "('a \<Rightarrow> ('s, unit) io) \<Rightarrow> 'a list \<Rightarrow> ('s, unit) io" where
  "each f [] = ret ()"
| "each f (x # xs) = await (f x) (\<lambda>_. each f xs)"

lemmas io_defs = ret_def throw_def await_def try_catch_def try_finally_def gets_def modify_state_def

lemma ret_run [simp]: "ret a s = (Inr a, s)"
  by (simp add: ret_def)

lemma throw_run [simp]: "throw e s = (Inl e, s)"
  by (simp add: throw_def)

lemma gets_run [simp]: "gets f s = (Inr (f s), s)"
  by (simp add: gets_def)

lemma modify_state_run [simp]: "modify_state f s = (Inr (), f s)"
  by (simp add: modify_state_def)

lemma await_ok: "m s = (Inr a, s') \<Longrightarrow> await m k s = k a s'"
  by (simp add: await_def)

lemma await_err: "m s = (Inl e, s') \<Longrightarrow> await m k s = (Inl e, s')"
  by (simp add: await_def)

lemma await_ret [simp]: "await (ret a) k = k a"
  by (simp add: await_def ret_def)

lemma await_throw [simp]: "await (throw e) k = throw e"
  by (simp add: await_def throw_def)

lemma await_assoc: "await (await m f) g = await m (\<lambda>a. await (f a) g)"
  by (auto simp: await_def split: prod.splits sum.splits)

text \<open>Case analysis on the outcome of an awaited call.\<close>

lemma await_cases:
  assumes "await m k s = (r, s')"
  obtains (err) e where "m s = (Inl e, s')" "r = Inl e"
    | (ok) a s1 where "m s = (Inr a, s1)" "k a s1 = (r, s')"
  using assms by (auto simp: await_def split: prod.splits sum.splits)

lemma try_catch_cases:
  assumes "try_catch m h s = (r, s')"
  obtains (caught) e s1 where "m s = (Inl e, s1)" "h e s1 = (r, s')"
    | (ok) a where "m s = (Inr a, s')" "r = Inr a"
  using assms by (auto simp: try_catch_def split: prod.splits sum.splits)

section \<open>Views that a computation keeps\<close>

definition keeps :: "('s \<Rightarrow> 'v) \<Rightarrow> ('s \<Rightarrow> 'r \<times> 's) \<Rightarrow> bool" where
  "keeps view m \<longleftrightarrow> (\<forall>s. view (snd (m s)) = view s)"

lemma keepsD: "keeps view m \<Longrightarrow> m s = (r, s') \<Longrightarrow> view s' = view s"
  by (metis keeps_def snd_conv)

lemma keeps_ret [keeps_intros, simp]: "keeps view (ret a)"
  by (simp add: keeps_def)

lemma keeps_throw [keeps_intros, simp]: "keeps view (throw e)"
  by (simp add: keeps_def)

lemma keeps_gets [keeps_intros, simp]: "keeps view (gets f)"
  by (simp add: keeps_def)

lemma keeps_await [keeps_intros]:
  "keeps view m \<Longrightarrow> (\<And>a. keeps view (k a)) \<Longrightarrow> keeps view (await m k)"
  by (auto simp: keeps_def await_def split: prod.splits sum.splits) (metis snd_conv)+

lemma keeps_try_catch [keeps_intros]:
  "keeps view m \<Longrightarrow> (\<And>e. keeps view (h e)) \<Longrightarrow> keeps view (try_catch m h)"
  by (auto simp: keeps_def try_catch_def split: prod.splits sum.splits) (metis snd_conv)+

lemma keeps_try_finally [keeps_intros]:
  "keeps view m \<Longrightarrow> keeps view f \<Longrightarrow> keeps view (try_finally m f)"
  by (auto simp: keeps_def try_finally_def split: prod.splits sum.splits) (metis snd_conv)+

lemma keeps_each [keeps_intros]: "(\<And>x. keeps view (f x)) \<Longrightarrow> keeps view (each f xs)"
  by (induction xs) (auto intro: keeps_intros)

text \<open>
  The relational form: whatever its outcome, a computation moves the view along \<open>R\<close>, a
  reflexive and transitive relation.
\<close>

definition moves :: "('v \<Rightarrow> 'v \<Rightarrow> bool) \<Rightarrow> ('s \<Rightarrow> 'v) \<Rightarrow> ('s \<Rightarrow> 'r \<times> 's) \<Rightarrow> bool" where
  "moves R view m \<longleftrightarrow> (\<forall>s. R (view s) (view (snd (m s))))"

lemma movesD: "moves R view m \<Longrightarrow> m s = (r, s') \<Longrightarrow> R (view s) (view s')"
  by (metis moves_def snd_conv)

lemma movesI: "(\<And>s r s'. m s = (r, s') \<Longrightarrow> R (view s) (view s')) \<Longrightarrow> moves R view m"
  by (metis moves_def prod.collapse)

lemma moves_keeps: "reflp R \<Longrightarrow> keeps view m \<Longrightarrow> moves R view m"
  by (simp add: moves_def keeps_def reflpD)

lemma moves_await:
  assumes R: "transp R" and m: "moves R view m"
    and k: "\<And>a s s'. m s = (Inr a, s') \<Longrightarrow> moves R view (k a)"
  shows "moves R view (await m k)"
proof (rule movesI)
  fix s r s'
  assume "await m k s = (r, s')"
  then show "R (view s) (view s')"
    by (cases rule: await_cases) (blast dest: movesD [OF m] movesD [OF k] transpD [OF R])+
qed

lemma moves_try_catch:
  assumes R: "transp R" and m: "moves R view m" and h: "\<And>e. moves R view (h e)"
  shows "moves R view (try_catch m h)"
proof (rule movesI)
  fix s r s'
  assume "try_catch m h s = (r, s')"
  then show "R (view s) (view s')"
    by (cases rule: try_catch_cases) (blast dest: movesD [OF m] movesD [OF h] transpD [OF R])+
qed

section \<open>Promises that may stay pending\<close>

text \<open>
  A promise that is never settled: the outcome \<open>None\<close>. An \<open>await\<close> of it does not
  return, and no enclosing \<open>finally\<close> runs.
\<close>

type_synonym ('s, 'a) pio = "'s \<Rightarrow> (err + 'a) option \<times> 's"

definition prompt :: "('s, 'a) io \<Rightarrow> ('s, 'a) pio" where
  "prompt m = (\<lambda>s. case m s of (r, s') \<Rightarrow> (Some r, s'))"

definition pawait :: "('s, 'a) pio \<Rightarrow> ('a \<Rightarrow> ('s, 'b) pio) \<Rightarrow> ('s, 'b) pio" where
  "pawait m k = (\<lambda>s. case m s of
     (None, s') \<Rightarrow> (None, s') | (Some (Inl e), s') \<Rightarrow> (Some (Inl e), s') | (Some (Inr a), s') \<Rightarrow> k a s')"

definition pfinally :: "('s, 'a) pio \<Rightarrow> ('s, unit) io \<Rightarrow> ('s, 'a) pio" where
  "pfinally m f = (\<lambda>s. case m s of
     (None, s') \<Rightarrow> (None, s')
   | (Some r, s') \<Rightarrow> (case f s' of (Inl e, s'') \<Rightarrow> (Some (Inl e), s'') | (Inr _, s'') \<Rightarrow> (Some r, s'')))"

lemma pawait_cases:
  assumes "pawait m k s = (r, s')"
  obtains (pending) "m s = (None, s')" "r = None"
    | (err) e where "m s = (Some (Inl e), s')" "r = Some (Inl e)"
    | (ok) a s1 where "m s = (Some (Inr a), s1)" "k a s1 = (r, s')"
  using assms by (auto simp: pawait_def split: prod.splits sum.splits option.splits)

lemma prompt_result [simp]: "prompt m s = (r, s') \<longleftrightarrow> (\<exists>r0. m s = (r0, s') \<and> r = Some r0)"
  by (auto simp: prompt_def split: prod.splits)

lemma keeps_prompt [keeps_intros]: "keeps view m \<Longrightarrow> keeps view (prompt m)"
  by (auto simp: keeps_def prompt_def split: prod.splits) (metis snd_conv)

lemma keeps_pawait [keeps_intros]:
  "keeps view m \<Longrightarrow> (\<And>a. keeps view (k a)) \<Longrightarrow> keeps view (pawait m k)"
  by (auto simp: keeps_def pawait_def split: prod.splits sum.splits option.splits) (metis snd_conv)+

text \<open>\<open>try\<close> and \<open>catch\<close>: what stays pending is not caught.\<close>

definition ptry_catch :: "('s, 'a) pio \<Rightarrow> (err \<Rightarrow> ('s, 'a) pio) \<Rightarrow> ('s, 'a) pio" where
  "ptry_catch m h = (\<lambda>s. case m s of
     (None, s') \<Rightarrow> (None, s') | (Some (Inl e), s') \<Rightarrow> h e s' | (Some (Inr a), s') \<Rightarrow> (Some (Inr a), s'))"

lemma keeps_ptry_catch [keeps_intros]:
  "keeps view m \<Longrightarrow> (\<And>e. keeps view (h e)) \<Longrightarrow> keeps view (ptry_catch m h)"
  by (auto simp: keeps_def ptry_catch_def split: prod.splits sum.splits option.splits) (metis snd_conv)+

text \<open>Computations that always settle.\<close>

definition settled :: "('s, 'a) pio \<Rightarrow> bool" where
  "settled m \<longleftrightarrow> (\<forall>s. fst (m s) \<noteq> None)"

lemma settled_prompt [simp]: "settled (prompt m)"
  by (simp add: settled_def prompt_def split: prod.splits)

lemma settledE: "settled m \<Longrightarrow> m s = (r, s') \<Longrightarrow> r \<noteq> None"
  unfolding settled_def by (metis fst_conv)

lemma settled_pawait: "settled m \<Longrightarrow> (\<And>a. settled (k a)) \<Longrightarrow> settled (pawait m k)"
  unfolding settled_def [of "pawait m k"]
proof (intro allI notI)
  fix s
  assume m: "settled m" and k: "\<And>a. settled (k a)" and none: "fst (pawait m k s) = None"
  obtain s' where "pawait m k s = (None, s')" using none by (metis prod.collapse)
  then show False
    using settledE [OF m] settledE [OF k] by (cases rule: pawait_cases) blast+
qed

lemma settled_pfinally: "settled m \<Longrightarrow> settled (pfinally m f)"
  unfolding settled_def [of "pfinally m f"]
proof (intro allI)
  fix s
  assume m: "settled m"
  obtain r s' where run: "m s = (r, s')" by fastforce
  with settledE [OF m] obtain q where "r = Some q" by blast
  with run show "fst (pfinally m f s) \<noteq> None"
    by (auto simp: pfinally_def split: prod.splits sum.splits)
qed

lemma settled_ptry_catch: "settled m \<Longrightarrow> (\<And>e. settled (h e)) \<Longrightarrow> settled (ptry_catch m h)"
  unfolding settled_def [of "ptry_catch m h"]
proof (intro allI)
  fix s
  assume m: "settled m" and h: "\<And>e. settled (h e)"
  obtain r s' where run: "m s = (r, s')" by fastforce
  with settledE [OF m] obtain q where "r = Some q" by blast
  with run h show "fst (ptry_catch m h s) \<noteq> None"
    by (auto simp: ptry_catch_def settled_def split: prod.splits sum.splits)
qed

section \<open>Running a computation on a part of the state\<close>

definition on_part :: "('s \<Rightarrow> 'w) \<Rightarrow> ('w \<Rightarrow> 's \<Rightarrow> 's) \<Rightarrow> ('w, 'a) io \<Rightarrow> ('s, 'a) io" where
  "on_part get put m = (\<lambda>s. case m (get s) of (r, w) \<Rightarrow> (r, put w s))"

end
