(* ===== verification/EngineConfig.thy ===== *)
theory EngineConfig
  imports Effects
begin

text \<open>
  The constants, error classes and language table of the execution engine
  (\<open>execution-engine/src/config\<close>, \<open>utils/errors.js\<close>).
\<close>

section \<open>constants.js\<close>

datatype verdict =
    V_PENDING
  | ACCEPTED
  | WRONG_ANSWER
  | COMPILATION_ERROR
  | RUNTIME_ERROR
  | TIME_LIMIT_EXCEEDED
  | MEMORY_LIMIT_EXCEEDED
  | OUTPUT_LIMIT_EXCEEDED

text \<open>The object \<open>execute\<close> of \<open>execution.service.js\<close> returns.\<close>

record exec_result =
  x_verdict :: verdict
  x_stdout :: string
  x_stderr :: string
  x_runtimeMs :: "int option"
  x_compileOutput :: string

definition SUPPORTED_LANGUAGES :: "string list" where
  "SUPPORTED_LANGUAGES = [''CPP'', ''PYTHON'', ''JAVASCRIPT'']"

record limits =
  MAX_SOURCE_CODE_BYTES :: nat
  COMPILE_TIMEOUT_MS :: nat
  EXECUTION_TIMEOUT_MS :: nat
  MAX_OUTPUT_BYTES :: nat
  MAX_BUFFER_BYTES :: nat
  MEMORY_LIMIT_MB :: nat
  PID_LIMIT :: nat
  CPU_QUOTA :: nat

definition LIMITS :: limits where
  "LIMITS =
     \<lparr>MAX_SOURCE_CODE_BYTES = 65536,
      COMPILE_TIMEOUT_MS = 10000,
      EXECUTION_TIMEOUT_MS = 5000,
      MAX_OUTPUT_BYTES = 512 * 1024,
      MAX_BUFFER_BYTES = 512 * 1024,
      MEMORY_LIMIT_MB = 256,
      PID_LIMIT = 64,
      CPU_QUOTA = 1\<rparr>"

lemma LIMITS_simps [simp]:
  "MAX_SOURCE_CODE_BYTES LIMITS = 65536"
  "COMPILE_TIMEOUT_MS LIMITS = 10000"
  "EXECUTION_TIMEOUT_MS LIMITS = 5000"
  "MAX_OUTPUT_BYTES LIMITS = 524288"
  "MAX_BUFFER_BYTES LIMITS = 524288"
  "MEMORY_LIMIT_MB LIMITS = 256"
  "PID_LIMIT LIMITS = 64"
  "CPU_QUOTA LIMITS = 1"
  by (simp_all add: LIMITS_def)

section \<open>errors.js\<close>

text \<open>Each class sets \<open>name\<close> to its own name and \<open>errorCode\<close> to its code.\<close>

definition ExecutionEngineError :: "string \<Rightarrow> err" where
  "ExecutionEngineError msg =
     (js_error ''ExecutionEngineError'' msg)\<lparr>errorCode := Some ''EXECUTION_ENGINE_ERROR''\<rparr>"

definition ValidationError :: "string \<Rightarrow> err" where
  "ValidationError msg = (js_error ''ValidationError'' msg)\<lparr>errorCode := Some ''VALIDATION_ERROR''\<rparr>"

lemma engine_error_fields [simp]:
  "ename (ExecutionEngineError m) = ''ExecutionEngineError''"
  "ename (ValidationError m) = ''ValidationError''"
  "emessage (ExecutionEngineError m) = m"
  "emessage (ValidationError m) = m"
  "statusCode (ExecutionEngineError m) = None"
  "statusCode (ValidationError m) = None"
  by (simp_all add: ExecutionEngineError_def ValidationError_def js_error_def)

section \<open>languages.js\<close>

record language_config =
  lc_identifier :: string
  sourceFilename :: string
  compiler :: "string option"
  compileArgs :: "string list"
  executableFilename :: string
  command :: string
  cmdArgs :: "string list"
  isCompiled :: bool

definition LANGUAGE_CONFIGS :: "string \<rightharpoonup> language_config" where
  "LANGUAGE_CONFIGS =
     [''CPP'' \<mapsto>
        \<lparr>lc_identifier = ''CPP'', sourceFilename = ''main.cpp'', compiler = Some ''g++'',
         compileArgs = [''-O2'', ''-std=c++17'', ''main.cpp'', ''-o'', ''main''],
         executableFilename = ''main'', command = ''./main'', cmdArgs = [], isCompiled = True\<rparr>,
      ''PYTHON'' \<mapsto>
        \<lparr>lc_identifier = ''PYTHON'', sourceFilename = ''main.py'', compiler = None,
         compileArgs = [], executableFilename = ''main.py'',
         command = ''python3'', cmdArgs = [''main.py''], isCompiled = False\<rparr>,
      ''JAVASCRIPT'' \<mapsto>
        \<lparr>lc_identifier = ''JAVASCRIPT'', sourceFilename = ''main.js'', compiler = None,
         compileArgs = [], executableFilename = ''main.js'',
         command = ''node'', cmdArgs = [''main.js''], isCompiled = False\<rparr>]"

definition resolveLanguage :: "jsval \<Rightarrow> err + language_config" where
  "resolveLanguage language =
     (case as_string language of
        None \<Rightarrow> Inl (ValidationError ''Language is required and must be a string'')
      | Some l \<Rightarrow>
          if l = [] then Inl (ValidationError ''Language is required and must be a string'')
          else
            (let normalizedLanguage = js_upper (js_trim l) in
             if normalizedLanguage \<notin> set SUPPORTED_LANGUAGES then
               Inl (ValidationError (''Language '' @ [CHR 0x27] @ l @ [CHR 0x27] @
                  '' is not supported. Supported languages: '' @ js_join '', '' SUPPORTED_LANGUAGES))
             else
               (case LANGUAGE_CONFIGS normalizedLanguage of
                  None \<Rightarrow> Inl (ValidationError (''Configuration for language '' @ [CHR 0x27] @
                     normalizedLanguage @ [CHR 0x27] @ '' not found''))
                | Some config \<Rightarrow> Inr config)))"

text \<open>The last branch of \<open>resolveLanguage\<close> is dead: every supported language has a row.\<close>

lemma LANGUAGE_CONFIGS_dom: "dom LANGUAGE_CONFIGS = set SUPPORTED_LANGUAGES"
  by (auto simp: LANGUAGE_CONFIGS_def SUPPORTED_LANGUAGES_def)

lemma LANGUAGE_CONFIGS_identifier: "LANGUAGE_CONFIGS l = Some c \<Longrightarrow> lc_identifier c = l"
  by (auto simp: LANGUAGE_CONFIGS_def split: if_splits)

text \<open>The commands that can ever be run, whatever string the request carries.\<close>

lemma resolveLanguage_Inr:
  "resolveLanguage v = Inr c \<longleftrightarrow>
     (\<exists>l. v = JStr l \<and> js_upper (js_trim l) \<in> set SUPPORTED_LANGUAGES \<and>
          LANGUAGE_CONFIGS (js_upper (js_trim l)) = Some c)"
proof -
  have ne: "js_upper (js_trim []) \<notin> set SUPPORTED_LANGUAGES"
    by (simp add: js_trim_def js_trim_end_def js_trim_start_def js_upper_def SUPPORTED_LANGUAGES_def)
  then show ?thesis
    by (cases v) (auto simp: resolveLanguage_def Let_def split: option.splits if_splits)
qed

lemma LANGUAGE_CONFIGS_command:
  "LANGUAGE_CONFIGS l = Some c \<Longrightarrow>
     (command c, cmdArgs c) \<in>
       {(''./main'', []), (''python3'', [''main.py'']), (''node'', [''main.js''])} \<and>
     (isCompiled c \<longrightarrow> compiler c = Some ''g++'' \<and>
        compileArgs c = [''-O2'', ''-std=c++17'', ''main.cpp'', ''-o'', ''main'']) \<and>
     sourceFilename c \<in> {''main.cpp'', ''main.py'', ''main.js''}"
  by (auto simp: LANGUAGE_CONFIGS_def split: if_splits)

end
