(* ===== verification/Sandbox.thy ===== *)
theory Sandbox
  imports EngineConfig
begin

text \<open>
  Running untrusted code: the output sanitizer (\<open>utils/sanitizer.js\<close>), the arguments of
  \<open>docker run\<close> and the event handlers around the child process (\<open>docker.sandbox.js\<close>,
  \<open>process.runner.js\<close>, \<open>cpp.compiler.js\<close>).

  A child process is seen through the events Node delivers for it, in their order: chunks of
  output, the firing of the safety timer, an \<open>error\<close> event, and \<open>close\<close> with the exit
  code or the signal. Which events occur is up to the operating system, so a run is a list of
  events; the handlers are functions of the state they share.
\<close>

section \<open>sanitizer.js\<close>

text \<open>The regular expression is the escaped directory followed by an optional slash or backslash.\<close>

definition skip_separator :: "string \<Rightarrow> string" where
  "skip_separator s = (case s of c # r \<Rightarrow> (if c = CHR ''/'' \<or> c = CHR 0x5C then r else s) | [] \<Rightarrow> [])"

lemma length_skip_separator: "length (skip_separator s) \<le> length s"
  by (cases s) (auto simp: skip_separator_def)

function strip_dir :: "string \<Rightarrow> string \<Rightarrow> string" where
  "strip_dir d [] = []"
| "strip_dir d (x # xs) =
     (if d \<noteq> [] \<and> js_starts_with (x # xs) d
      then strip_dir d (skip_separator (drop (length d) (x # xs)))
      else x # strip_dir d xs)"
  by pat_completeness auto
termination
proof (relation "measure (length \<circ> snd)")
  fix d x and xs :: string
  assume "d \<noteq> [] \<and> js_starts_with (x # xs) d"
  then have "0 < length d" by simp
  moreover have "length (skip_separator (drop (length d) (x # xs))) \<le> length (drop (length d) (x # xs))"
    by (rule length_skip_separator)
  moreover have "length (drop (length d) (x # xs)) = length (x # xs) - length d" "0 < length (x # xs)"
    by simp_all
  ultimately have "length (skip_separator (drop (length d) (x # xs))) < length (x # xs)"
    by linarith
  then show "((d, skip_separator (drop (length d) (x # xs))), d, x # xs) \<in> measure (length \<circ> snd)"
    by simp
qed simp_all

definition sanitizeOutput :: "string \<Rightarrow> string \<Rightarrow> string" where
  "sanitizeOutput output workspaceDir =
     (if output = [] then [] else if workspaceDir = [] then output else strip_dir workspaceDir output)"

lemma length_strip_dir: "length (strip_dir d s) \<le> length s"
proof (induction d s rule: strip_dir.induct)
  case (2 d x xs)
  show ?case
  proof (cases "d \<noteq> [] \<and> js_starts_with (x # xs) d")
    case True
    with 2 length_skip_separator [of "drop (length d) (x # xs)"] show ?thesis by simp
  next
    case False
    with 2 show ?thesis by auto
  qed
qed simp

lemma length_sanitizeOutput: "length (sanitizeOutput s d) \<le> length s"
  by (simp add: sanitizeOutput_def length_strip_dir)

lemma strip_dir_no_occurrence: "\<not> js_includes s d \<Longrightarrow> strip_dir d s = s"
  by (induction d s rule: strip_dir.induct) auto

lemma strip_dir_subset: "set (strip_dir d s) \<subseteq> set s"
proof (induction d s rule: strip_dir.induct)
  case (2 d x xs)
  have "set (skip_separator t) \<subseteq> set t" for t
    by (cases t) (auto simp: skip_separator_def)
  then have "set (skip_separator (drop (length d) (x # xs))) \<subseteq> set (x # xs)"
    by (meson set_drop_subset subset_trans)
  with 2 show ?case by (auto simp del: set_drop_subset)
qed simp

section \<open>docker run\<close>

text \<open>The caps of a container: parameters of \<open>runInDockerSandbox\<close>, with these defaults.\<close>

record run_caps =
  caps_memoryMb :: nat
  caps_pidsLimit :: nat
  caps_cpuQuota :: nat

definition default_caps :: run_caps where
  "default_caps = \<lparr>caps_memoryMb = MEMORY_LIMIT_MB LIMITS, caps_pidsLimit = PID_LIMIT LIMITS,
     caps_cpuQuota = CPU_QUOTA LIMITS\<rparr>"

definition sandboxOptions :: "run_caps \<Rightarrow> string \<Rightarrow> string \<Rightarrow> string list" where
  "sandboxOptions caps containerName workspaceDir =
     [''run'',
      ''--name'', containerName,
      ''--rm'',
      ''-i'',
      ''--network'', ''none'',
      ''--user'', ''1000:1000'',
      ''--cpus'', show_int (int (caps_cpuQuota caps)),
      ''--memory'', show_int (int (caps_memoryMb caps)) @ ''m'',
      ''--memory-swap'', show_int (int (caps_memoryMb caps)) @ ''m'',
      ''--pids-limit'', show_int (int (caps_pidsLimit caps)),
      ''--cap-drop'', ''ALL'',
      ''--security-opt'', ''no-new-privileges'',
      ''--read-only'',
      ''--tmpfs'', ''/tmp:rw,noexec,nosuid,size=32m'',
      ''-v'', workspaceDir @ '':/workspace:rw'',
      ''-w'', ''/workspace'']"

definition dockerArgs :: "run_caps \<Rightarrow> string \<Rightarrow> string \<Rightarrow> string \<Rightarrow> string \<Rightarrow> string list \<Rightarrow> string list" where
  "dockerArgs caps containerName workspaceDir img cmd args =
     sandboxOptions caps containerName workspaceDir @ [img, cmd] @ args"

section \<open>Events of a child process\<close>

datatype child_event =
    OutData string
  | ErrData string
  | TimerFired
  | ChildError err
  | Closed "int option" "string option" int

record run_result =
  r_success :: bool
  r_exitCode :: "int option"
  r_signal :: "string option"
  r_stdout :: string
  r_stderr :: string
  r_runtimeMs :: int
  r_timedOut :: bool
  r_oom :: bool
  r_outputLimit :: bool
  r_processLimit :: bool

text \<open>
  The variables the handlers share: the captured output, the flags, whether the timer is still
  set, the outcome the promise was settled with, and the number of kill and removal commands.
\<close>

record run_state =
  rs_stdout :: string
  rs_stderr :: string
  rs_timedOut :: bool
  rs_outputLimit :: bool
  rs_timer :: bool
  rs_outcome :: "(err + run_result) option"
  rs_kills :: nat
  rs_removals :: nat

definition run_start :: run_state where
  "run_start = \<lparr>rs_stdout = [], rs_stderr = [], rs_timedOut = False, rs_outputLimit = False,
     rs_timer = True, rs_outcome = None, rs_kills = 0, rs_removals = 0\<rparr>"

text \<open>\<open>resolve\<close> and \<open>reject\<close>: only the first call has an effect.\<close>

definition settle :: "err + run_result \<Rightarrow> run_state \<Rightarrow> run_state" where
  "settle r s = s\<lparr>rs_outcome := (case rs_outcome s of None \<Rightarrow> Some r | Some r0 \<Rightarrow> Some r0)\<rparr>"

text \<open>\<open>Math.max(0, Math.round(ns / 1e6))\<close>.\<close>

definition runtime_ms :: "int \<Rightarrow> int" where
  "runtime_ms ns = max 0 ((ns + 500000) div 1000000)"

text \<open>The output threshold, checked after each chunk; \<open>rs_kills\<close> counts the kill commands.\<close>

definition check_output :: "run_state \<Rightarrow> run_state" where
  "check_output s =
     (if length (rs_stdout s) + length (rs_stderr s) \<ge> MAX_OUTPUT_BYTES LIMITS
      then s\<lparr>rs_outputLimit := True, rs_kills := Suc (rs_kills s)\<rparr> else s)"

fun on_data :: "child_event \<Rightarrow> run_state \<Rightarrow> run_state" where
  "on_data (OutData c) s = check_output (s\<lparr>rs_stdout := rs_stdout s @ c\<rparr>)"
| "on_data (ErrData c) s = check_output (s\<lparr>rs_stderr := rs_stderr s @ c\<rparr>)"
| "on_data TimerFired s =
     (if rs_timer s then s\<lparr>rs_timedOut := True, rs_timer := False, rs_kills := Suc (rs_kills s)\<rparr> else s)"
| "on_data e s = s"

text \<open>\<open>if (data.length > MAX) data = data.slice(0, MAX)\<close>.\<close>

definition truncate_buffer :: "string \<Rightarrow> string" where
  "truncate_buffer s =
     (if length s > MAX_BUFFER_BYTES LIMITS then take (MAX_BUFFER_BYTES LIMITS) s else s)"

definition oom_text :: "string \<Rightarrow> bool" where
  "oom_text stderr \<longleftrightarrow> js_includes stderr ''bad_alloc'' \<or> js_includes stderr ''MemoryError'' \<or>
     js_includes stderr ''out of memory'' \<or> js_includes stderr ''JavaScript heap out of memory''"

text \<open>The \<open>close\<close> handler of \<open>runInDockerSandbox\<close>.\<close>

definition docker_close :: "string \<Rightarrow> run_state \<Rightarrow> int option \<Rightarrow> string option \<Rightarrow> int \<Rightarrow> run_result" where
  "docker_close workspaceDir s code signal ns =
     (let sanitizedStdout = sanitizeOutput (truncate_buffer (rs_stdout s)) workspaceDir;
          sanitizedStderr = sanitizeOutput (truncate_buffer (rs_stderr s)) workspaceDir;
          isOom = (code = Some 137 \<and> \<not> rs_timedOut s \<and> \<not> rs_outputLimit s) \<or> oom_text sanitizedStderr;
          isProcessLimit = js_includes sanitizedStderr ''Resource temporarily unavailable'' \<or>
            js_includes sanitizedStderr ''EAGAIN'' \<or>
            (js_includes sanitizedStderr ''Cannot allocate memory'' \<and> \<not> isOom)
      in \<lparr>r_success = (code = Some 0 \<and> signal = None \<and> \<not> rs_timedOut s \<and> \<not> rs_outputLimit s \<and> \<not> isOom),
          r_exitCode = code, r_signal = signal, r_stdout = sanitizedStdout, r_stderr = sanitizedStderr,
          r_runtimeMs = runtime_ms ns, r_timedOut = rs_timedOut s, r_oom = isOom,
          r_outputLimit = rs_outputLimit s, r_processLimit = isProcessLimit\<rparr>)"

text \<open>The \<open>close\<close> handler of \<open>runProcess\<close>; its result has no \<open>isOom\<close>.\<close>

definition process_close :: "string \<Rightarrow> run_state \<Rightarrow> int option \<Rightarrow> string option \<Rightarrow> int \<Rightarrow> run_result" where
  "process_close workspaceDir s code signal ns =
     \<lparr>r_success = (code = Some 0 \<and> signal = None \<and> \<not> rs_timedOut s \<and> \<not> rs_outputLimit s),
      r_exitCode = code, r_signal = signal,
      r_stdout = sanitizeOutput (truncate_buffer (rs_stdout s)) workspaceDir,
      r_stderr = sanitizeOutput (truncate_buffer (rs_stderr s)) workspaceDir,
      r_runtimeMs = runtime_ms ns, r_timedOut = rs_timedOut s, r_oom = False,
      r_outputLimit = rs_outputLimit s, r_processLimit = False\<rparr>"

text \<open>
  All handlers of \<open>runInDockerSandbox\<close>. Both the \<open>error\<close> and the \<open>close\<close> handler
  clear the timer and remove the container (\<open>docker rm -f\<close>); an \<open>error\<close> may be
  followed by a \<open>close\<close>, whose handler runs all the same.
\<close>

fun docker_on :: "string \<Rightarrow> child_event \<Rightarrow> run_state \<Rightarrow> run_state" where
  "docker_on dir (ChildError e) s =
     settle (Inl (ExecutionEngineError (''Docker sandbox process error: '' @ emessage e)))
       (s\<lparr>rs_timer := False, rs_removals := Suc (rs_removals s)\<rparr>)"
| "docker_on dir (Closed code sig ns) s =
     settle (Inr (docker_close dir s code sig ns))
       (s\<lparr>rs_timer := False, rs_removals := Suc (rs_removals s),
          rs_stdout := truncate_buffer (rs_stdout s), rs_stderr := truncate_buffer (rs_stderr s)\<rparr>)"
| "docker_on dir e s = on_data e s"

definition docker_run :: "string \<Rightarrow> child_event list \<Rightarrow> run_state" where
  "docker_run dir es = fold (docker_on dir) es run_start"

text \<open>The handlers of \<open>runProcess\<close>.\<close>

fun process_on :: "string \<Rightarrow> child_event \<Rightarrow> run_state \<Rightarrow> run_state" where
  "process_on dir (ChildError e) s =
     settle (Inl (ExecutionEngineError (''Process execution error: '' @ emessage e)))
       (s\<lparr>rs_timer := False\<rparr>)"
| "process_on dir (Closed code sig ns) s =
     settle (Inr (process_close dir s code sig ns))
       (s\<lparr>rs_timer := False,
          rs_stdout := truncate_buffer (rs_stdout s), rs_stderr := truncate_buffer (rs_stderr s)\<rparr>)"
| "process_on dir e s = on_data e s"

definition process_run :: "string \<Rightarrow> child_event list \<Rightarrow> run_state" where
  "process_run dir es = fold (process_on dir) es run_start"

section \<open>cpp.compiler.js\<close>

text \<open>The compiler's output is captured while a buffer has room; no limit kills it.\<close>

record compile_result =
  c_success :: bool
  c_exitCode :: "int option"
  c_signal :: "string option"
  c_stdout :: string
  c_stderr :: string
  c_timedOut :: bool

record compile_state =
  cs_stdout :: string
  cs_stderr :: string
  cs_timedOut :: bool
  cs_timer :: bool
  cs_outcome :: "(err + compile_result) option"

definition compile_start :: compile_state where
  "compile_start = \<lparr>cs_stdout = [], cs_stderr = [], cs_timedOut = False, cs_timer = True, cs_outcome = None\<rparr>"

definition compile_settle :: "err + compile_result \<Rightarrow> compile_state \<Rightarrow> compile_state" where
  "compile_settle r s = s\<lparr>cs_outcome := (case cs_outcome s of None \<Rightarrow> Some r | Some r0 \<Rightarrow> Some r0)\<rparr>"

text \<open>\<open>`...${code}`\<close> of a code that may be \<open>null\<close>.\<close>

definition show_code :: "int option \<Rightarrow> string" where
  "show_code c = (case c of None \<Rightarrow> ''null'' | Some z \<Rightarrow> show_int z)"

definition compile_close :: "string \<Rightarrow> compile_state \<Rightarrow> int option \<Rightarrow> string option \<Rightarrow> compile_result" where
  "compile_close workspaceDir s code signal =
     (let sanitizedStderr = sanitizeOutput (cs_stderr s) workspaceDir;
          sanitizedStdout = sanitizeOutput (cs_stdout s) workspaceDir
      in if cs_timedOut s then
           \<lparr>c_success = False, c_exitCode = code, c_signal = signal, c_stdout = sanitizedStdout,
            c_stderr = ''Compilation timed out.'', c_timedOut = True\<rparr>
         else if code \<noteq> Some 0 then
           \<lparr>c_success = False, c_exitCode = code, c_signal = signal, c_stdout = sanitizedStdout,
            c_stderr = (if sanitizedStderr = [] then ''Compilation failed with exit code '' @ show_code code
                        else sanitizedStderr),
            c_timedOut = False\<rparr>
         else
           \<lparr>c_success = True, c_exitCode = Some 0, c_signal = None, c_stdout = sanitizedStdout,
            c_stderr = sanitizedStderr, c_timedOut = False\<rparr>)"

fun compile_on :: "string \<Rightarrow> language_config \<Rightarrow> child_event \<Rightarrow> compile_state \<Rightarrow> compile_state" where
  "compile_on dir cfg (OutData c) s =
     (if length (cs_stdout s) < MAX_BUFFER_BYTES LIMITS then s\<lparr>cs_stdout := cs_stdout s @ c\<rparr> else s)"
| "compile_on dir cfg (ErrData c) s =
     (if length (cs_stderr s) < MAX_BUFFER_BYTES LIMITS then s\<lparr>cs_stderr := cs_stderr s @ c\<rparr> else s)"
| "compile_on dir cfg TimerFired s = (if cs_timer s then s\<lparr>cs_timedOut := True, cs_timer := False\<rparr> else s)"
| "compile_on dir cfg (ChildError e) s =
     compile_settle
       (Inl (ExecutionEngineError
         (if sysCode e = Some ''ENOENT''
          then ''Compiler '' @ [CHR 0x27] @ (case compiler cfg of Some c \<Rightarrow> c | None \<Rightarrow> ''null'') @
            [CHR 0x27] @ '' is not available on this system.''
          else ''Compilation process error: '' @ emessage e)))
       (s\<lparr>cs_timer := False\<rparr>)"
| "compile_on dir cfg (Closed code sig ns) s =
     compile_settle (Inr (compile_close dir s code sig)) (s\<lparr>cs_timer := False\<rparr>)"

definition compile_run :: "string \<Rightarrow> language_config \<Rightarrow> child_event list \<Rightarrow> compile_state" where
  "compile_run dir cfg es = fold (compile_on dir cfg) es compile_start"

section \<open>Invariant of the handlers\<close>

text \<open>
  Until the promise is settled the flags say exactly what has happened, and a kill was issued
  exactly when one is set.
\<close>

definition run_inv :: "run_state \<Rightarrow> bool" where
  "run_inv s \<longleftrightarrow>
     (rs_outputLimit s \<longleftrightarrow> MAX_OUTPUT_BYTES LIMITS \<le> length (rs_stdout s) + length (rs_stderr s)) \<and>
     (rs_timer s \<longleftrightarrow> \<not> rs_timedOut s) \<and>
     (0 < rs_kills s \<longleftrightarrow> rs_timedOut s \<or> rs_outputLimit s)"

lemma run_start_simps [simp]:
  "rs_stdout run_start = []" "rs_stderr run_start = []" "rs_timedOut run_start = False"
  "rs_outputLimit run_start = False" "rs_timer run_start = True" "rs_outcome run_start = None"
  "rs_kills run_start = 0" "rs_removals run_start = 0"
  by (simp_all add: run_start_def)

lemma run_inv_start [simp]: "run_inv run_start"
  by (simp add: run_inv_def)

lemma run_inv_on_data: "run_inv s \<Longrightarrow> run_inv (on_data e s)"
  by (cases e) (auto simp: run_inv_def check_output_def)

lemma check_output_keeps [simp]:
  "rs_removals (check_output s) = rs_removals s" "rs_outcome (check_output s) = rs_outcome s"
  by (simp_all add: check_output_def)

lemma on_data_keeps [simp]:
  "rs_removals (on_data e s) = rs_removals s" "rs_outcome (on_data e s) = rs_outcome s"
  by (cases e; simp)+

text \<open>The events before the promise settles, and the output they carry.\<close>

fun settles :: "child_event \<Rightarrow> bool" where
  "settles (ChildError e) = True"
| "settles (Closed c sg ns) = True"
| "settles e = False"

definition before_settle :: "child_event list \<Rightarrow> child_event list" where
  "before_settle es = takeWhile (\<lambda>e. \<not> settles e) es"

lemma before_settle_simps [simp]:
  "before_settle [] = []"
  "before_settle (e # es) = (if settles e then [] else e # before_settle es)"
  by (simp_all add: before_settle_def)

fun out_data :: "child_event \<Rightarrow> string" where
  "out_data (OutData c) = c"
| "out_data e = []"

fun err_data :: "child_event \<Rightarrow> string" where
  "err_data (ErrData c) = c"
| "err_data e = []"

definition run_data :: "child_event list \<Rightarrow> run_state" where
  "run_data es = fold on_data (before_settle es) run_start"

lemma fold_on_data_inv: "run_inv s \<Longrightarrow> run_inv (fold on_data es s)"
  by (induction es arbitrary: s) (auto intro: run_inv_on_data)

lemma run_inv_run_data: "run_inv (run_data es)"
  by (simp add: run_data_def fold_on_data_inv)

lemma on_data_fields:
  "rs_stdout (on_data e s) = rs_stdout s @ out_data e"
  "rs_stderr (on_data e s) = rs_stderr s @ err_data e"
  by (cases e; simp add: check_output_def)+

lemma on_data_timed: "run_inv s \<Longrightarrow> rs_timedOut (on_data e s) = (rs_timedOut s \<or> e = TimerFired)"
  by (cases e) (auto simp: check_output_def run_inv_def)

lemma fold_on_data_fields:
  "rs_stdout (fold on_data es s) = rs_stdout s @ concat (map out_data es)"
  "rs_stderr (fold on_data es s) = rs_stderr s @ concat (map err_data es)"
  "run_inv s \<Longrightarrow> rs_timedOut (fold on_data es s) = (rs_timedOut s \<or> TimerFired \<in> set es)"
  by (induction es arbitrary: s) (auto simp: on_data_fields on_data_timed run_inv_on_data)

lemma run_data_fields:
  "rs_stdout (run_data es) = concat (map out_data (before_settle es))"
  "rs_stderr (run_data es) = concat (map err_data (before_settle es))"
  "rs_timedOut (run_data es) = (TimerFired \<in> set (before_settle es))"
  by (simp_all add: run_data_def fold_on_data_fields)

text \<open>
  Both runners: the handlers collect until the first settling event, which decides the outcome;
  no later event changes it.
\<close>

lemma settle_outcome [simp]:
  "rs_outcome (settle r s) = (case rs_outcome s of None \<Rightarrow> Some r | Some r0 \<Rightarrow> Some r0)"
  by (simp add: settle_def)

lemma docker_on_no_settle: "\<not> settles e \<Longrightarrow> docker_on dir e s = on_data e s"
  by (cases e) simp_all

lemma process_on_no_settle: "\<not> settles e \<Longrightarrow> process_on dir e s = on_data e s"
  by (cases e) simp_all

lemma docker_on_settled: "rs_outcome s = Some r \<Longrightarrow> rs_outcome (docker_on dir e s) = Some r"
  by (cases e) simp_all

lemma process_on_settled: "rs_outcome s = Some r \<Longrightarrow> rs_outcome (process_on dir e s) = Some r"
  by (cases e) simp_all

lemma fold_settled:
  assumes "\<And>e s. rs_outcome s = Some r \<Longrightarrow> rs_outcome (h e s) = Some r" and "rs_outcome s = Some r"
  shows "rs_outcome (fold h es s) = Some r"
  using assms(2) by (induction es arbitrary: s) (auto simp: assms(1))

lemma fold_on_data_outcome [simp]: "rs_outcome (fold on_data es s) = rs_outcome s"
  by (induction es arbitrary: s) auto

lemma fold_outcome:
  assumes collect: "\<And>e s. \<not> settles e \<Longrightarrow> h e s = on_data e s"
    and stable: "\<And>e s r. rs_outcome s = Some r \<Longrightarrow> rs_outcome (h e s) = Some r"
    and decides: "\<And>e s. settles e \<Longrightarrow> rs_outcome (h e s) \<noteq> None"
  shows "rs_outcome (fold h es s) =
    (case find settles es of
       None \<Rightarrow> rs_outcome (fold on_data (before_settle es) s)
     | Some e \<Rightarrow> rs_outcome (h e (fold on_data (before_settle es) s)))"
proof (induction es arbitrary: s)
  case Nil
  then show ?case by simp
next
  case (Cons e es)
  show ?case
  proof (cases "settles e")
    case True
    with decides obtain r where r: "rs_outcome (h e s) = Some r" by blast
    with True fold_settled [of r h "h e s" es] stable show ?thesis by simp
  next
    case False
    with Cons [of "on_data e s"] collect [OF False] show ?thesis by (auto split: option.splits)
  qed
qed

lemma docker_run_outcome:
  "rs_outcome (docker_run dir es) =
     (case find settles es of None \<Rightarrow> None | Some e \<Rightarrow> rs_outcome (docker_on dir e (run_data es)))"
proof -
  have "rs_outcome (docker_on dir e s) \<noteq> None" if "settles e" for e s
    using that by (cases e) (auto split: option.splits)
  then show ?thesis
    using fold_outcome [of "docker_on dir" es run_start] docker_on_no_settle docker_on_settled
    by (simp add: docker_run_def run_data_def split: option.split)
qed

lemma process_run_outcome:
  "rs_outcome (process_run dir es) =
     (case find settles es of None \<Rightarrow> None | Some e \<Rightarrow> rs_outcome (process_on dir e (run_data es)))"
proof -
  have "rs_outcome (process_on dir e s) \<noteq> None" if "settles e" for e s
    using that by (cases e) (auto split: option.splits)
  then show ?thesis
    using fold_outcome [of "process_on dir" es run_start] process_on_no_settle process_on_settled
    by (simp add: process_run_def run_data_def split: option.split)
qed

lemma run_data_outcome [simp]: "rs_outcome (run_data es) = None"
  by (simp add: run_data_def)

lemma find_settlesD: "find settles es = Some e \<Longrightarrow> e \<in> set es \<and> settles e"
  by (induction es) (auto split: if_splits)

lemma find_settles_None: "(find settles es = None) = (\<forall>e\<in>set es. \<not> settles e)"
  by (induction es) auto

lemma docker_run_InrD:
  assumes "rs_outcome (docker_run dir es) = Some (Inr r)"
  obtains code sg ns where "r = docker_close dir (run_data es) code sg ns" "Closed code sg ns \<in> set es"
proof (cases "find settles es")
  case None
  with assms show ?thesis by (simp add: docker_run_outcome)
next
  case (Some e)
  with assms show ?thesis
    by (cases e) (auto simp: docker_run_outcome dest: find_settlesD intro: that)
qed

lemma process_run_InrD:
  assumes "rs_outcome (process_run dir es) = Some (Inr r)"
  obtains code sg ns where "r = process_close dir (run_data es) code sg ns"
proof (cases "find settles es")
  case None
  with assms show ?thesis by (simp add: process_run_outcome)
next
  case (Some e)
  with assms show ?thesis
    by (cases e) (auto simp: process_run_outcome dest: find_settlesD intro: that)
qed

lemma docker_run_decided: "(rs_outcome (docker_run dir es) \<noteq> None) = (\<exists>e\<in>set es. settles e)"
proof -
  have decides: "rs_outcome (docker_on dir e (run_data es)) \<noteq> None" if "settles e" for e
    using that by (cases e) auto
  have "(rs_outcome (docker_run dir es) \<noteq> None) = (find settles es \<noteq> None)"
    using decides find_settlesD [of es] by (auto simp: docker_run_outcome split: option.splits)
  also have "\<dots> = (\<exists>e\<in>set es. settles e)" by (metis find_settles_None)
  finally show ?thesis .
qed

lemma docker_on_removals:
  "rs_removals (docker_on dir e s) = rs_removals s + (if settles e then 1 else 0)"
  by (cases e) (simp_all add: settle_def)

lemma fold_docker_removals:
  "rs_removals (fold (docker_on dir) es s) = rs_removals s + length (filter settles es)"
  by (induction es arbitrary: s) (simp_all add: docker_on_removals)

lemma length_truncate_buffer: "length (truncate_buffer s) \<le> MAX_BUFFER_BYTES LIMITS"
  by (simp add: truncate_buffer_def)

lemma length_captured: "length (sanitizeOutput (truncate_buffer t) dir) \<le> 524288"
  using length_sanitizeOutput [of "truncate_buffer t" dir] length_truncate_buffer [of t] by simp

lemmas docker_close_simps = docker_close_def Let_def run_result.simps

section \<open>Properties\<close>

text \<open>The result of a sandboxed run, read off the events before it settled. The output limit
  is reported exactly when 512 K characters of output arrived, the time-out exactly when the timer
  fired; success means exit code 0, no signal, neither limit and no out-of-memory text on the
  sanitized standard error; by then a kill was sent exactly when a limit was hit; and both
  captured streams are at most 512 K characters.\<close>

theorem docker_run_result:
  assumes "rs_outcome (docker_run dir es) = Some (Inr r)"
  shows "(r_outputLimit r = (524288 \<le> length (concat (map out_data (before_settle es))) +
             length (concat (map err_data (before_settle es))))) \<and>
    (r_timedOut r = (TimerFired \<in> set (before_settle es))) \<and>
    (r_success r = (r_exitCode r = Some 0 \<and> r_signal r = None \<and> \<not> r_timedOut r \<and>
           \<not> r_outputLimit r \<and> \<not> oom_text (r_stderr r))) \<and>
    ((0 < rs_kills (run_data es)) = (r_timedOut r \<or> r_outputLimit r)) \<and>
    length (r_stdout r) \<le> 524288 \<and> length (r_stderr r) \<le> 524288"
proof -
  let ?d = "run_data es"
  obtain code sg ns where r: "r = docker_close dir ?d code sg ns"
    using assms by (rule docker_run_InrD)
  have inv: "run_inv ?d" by (rule run_inv_run_data)
  have flags: "r_outputLimit r = rs_outputLimit ?d" "r_timedOut r = rs_timedOut ?d"
    by (simp_all add: r docker_close_simps)
  have "r_success r = (r_exitCode r = Some 0 \<and> r_signal r = None \<and> \<not> r_timedOut r \<and>
           \<not> r_outputLimit r \<and> \<not> oom_text (r_stderr r))"
    by (auto simp: r docker_close_simps)
  moreover have "length (r_stdout r) \<le> 524288" "length (r_stderr r) \<le> 524288"
    by (simp_all add: r docker_close_simps length_captured)
  ultimately show ?thesis
    using inv by (simp add: flags run_inv_def run_data_fields)
qed

theorem docker_run_result_witness:
  "r_success (docker_close ''/tmp/w'' (run_data [OutData ''42'']) (Some 0) None 7400000)"
proof -
  let ?es = "[OutData ''42'', Closed (Some 0) None 7400000]"
  let ?r = "docker_close ''/tmp/w'' (run_data ?es) (Some 0) None 7400000"
  have data: "run_data ?es = run_data [OutData ''42'']" by (simp add: run_data_def)
  have run: "rs_outcome (docker_run ''/tmp/w'' ?es) = Some (Inr ?r)"
    by (simp add: docker_run_outcome)
  have err: "r_stderr ?r = []"
    by (simp add: docker_close_simps run_data_fields truncate_buffer_def sanitizeOutput_def)
  have codes: "r_exitCode ?r = Some 0" "r_signal ?r = None"
    by (simp_all add: docker_close_simps)
  have "\<not> oom_text []" by (simp add: oom_text_def)
  with docker_run_result [OF run] err codes data show ?thesis
    by simp
qed

text \<open>A sandboxed run settles exactly when the child reports an error or closes; each of these
  events removes the container. The timer alone settles nothing: it only sends a kill.\<close>

theorem docker_run_settles:
  "((\<exists>res. rs_outcome (docker_run dir es) = Some res) = (\<exists>e\<in>set es. settles e)) \<and>
   rs_removals (docker_run dir es) = length (filter settles es)"
  using docker_run_decided [of dir es]
  by (auto simp: docker_run_def fold_docker_removals)

end
