(* ===== verification/Workspace.thy ===== *)
theory Workspace
  imports EngineConfig
begin

text \<open>
  Temporary workspaces (\<open>execution-engine/src/utils/workspace.js\<close>) and the POSIX path
  functions they use. The file system is a parameter; what the code relies on is the locale
  \<open>filesystem\<close>, over the set of paths that exist.
\<close>

section \<open>Paths\<close>

text \<open>
  The segments of a path without the empty ones, \<open>.\<close> and \<open>..\<close>; \<open>keepUp\<close> says
  whether a \<open>..\<close> past the start is kept (relative paths) or dropped (absolute ones).
\<close>

fun norm_segs :: "bool \<Rightarrow> string list \<Rightarrow> string list \<Rightarrow> string list" where
  "norm_segs keepUp acc [] = rev acc"
| "norm_segs keepUp acc (s # ss) =
     (if s = [] \<or> s = ''.'' then norm_segs keepUp acc ss
      else if s = ''..'' then
        (case acc of
           [] \<Rightarrow> norm_segs keepUp (if keepUp then [''..''] else []) ss
         | a # as \<Rightarrow> norm_segs keepUp (if a = ''..'' then ''..'' # acc else as) ss)
      else norm_segs keepUp (s # acc) ss)"

definition is_absolute :: "string \<Rightarrow> bool" where
  "is_absolute p = js_starts_with p ''/''"

definition path_normalize :: "string \<Rightarrow> string" where
  "path_normalize p =
     (if p = [] then ''.''
      else
        (let absolute = is_absolute p;
             body = js_join ''/'' (norm_segs (\<not> absolute) [] (js_split (CHR ''/'') p));
             body = (if body = [] \<and> \<not> absolute then ''.'' else body);
             body = (if body \<noteq> [] \<and> last p = CHR ''/'' then body @ ''/'' else body)
         in if absolute then ''/'' @ body else body))"

definition path_join :: "string \<Rightarrow> string \<Rightarrow> string" where
  "path_join a b =
     (if a = [] then path_normalize b else if b = [] then path_normalize a
      else path_normalize (a @ ''/'' @ b))"

definition path_resolve :: "string \<Rightarrow> string \<Rightarrow> string" where
  "path_resolve cwd p =
     ''/'' @ js_join ''/'' (norm_segs False []
        (js_split (CHR ''/'') (if is_absolute p then p else cwd @ ''/'' @ p)))"

definition path_basename :: "string \<Rightarrow> string" where
  "path_basename p =
     (let segs = filter (\<lambda>s. s \<noteq> []) (js_split (CHR ''/'') p) in if segs = [] then [] else last segs)"

section \<open>The file system\<close>

text \<open>
  \<open>lstatIsSymlink\<close> is \<open>lstat\<close> followed by \<open>isSymbolicLink()\<close>; \<open>rmrf\<close> is
  \<open>rm\<close> with \<open>recursive\<close> and \<open>force\<close>. The environment variable
  \<open>CODEARENA_WORKSPACE_BASE\<close>, the working directory and \<open>os.tmpdir()\<close> are fields.
\<close>

record 'w files =
  f_workspaceBase :: "string option"
  f_cwd :: string
  f_tmpdir :: string
  f_mkdirp :: "string \<Rightarrow> ('w, unit) io"
  f_chmod :: "string \<Rightarrow> nat \<Rightarrow> ('w, unit) io"
  f_mkdtemp :: "string \<Rightarrow> ('w, string) io"
  f_writeFile :: "string \<Rightarrow> string \<Rightarrow> nat \<Rightarrow> ('w, unit) io"
  f_lstatIsSymlink :: "string \<Rightarrow> ('w, bool) io"
  f_unlink :: "string \<Rightarrow> ('w, unit) io"
  f_rmrf :: "string \<Rightarrow> ('w, unit) io"

text \<open>\<open>process.env.X || d\<close>: an unset or empty variable gives the default.\<close>

definition env_or :: "string option \<Rightarrow> string \<Rightarrow> string" where
  "env_or v d = (case v of None \<Rightarrow> d | Some s \<Rightarrow> if s = [] then d else s)"

section \<open>workspace.js\<close>

definition WORKSPACE_BASE_DIR :: "('w, 'm) files_scheme \<Rightarrow> string" where
  "WORKSPACE_BASE_DIR F = path_resolve (f_cwd F) (env_or (f_workspaceBase F) ''/tmp/codearena-workspaces'')"

definition ensureBaseDir :: "('w, 'm) files_scheme \<Rightarrow> ('w, unit) io" where
  "ensureBaseDir F =
     try_catch
       (await (f_mkdirp F (WORKSPACE_BASE_DIR F)) (\<lambda>_. f_chmod F (WORKSPACE_BASE_DIR F) 511))
       (\<lambda>_. ret ())"

definition createWorkspace :: "('w, 'm) files_scheme \<Rightarrow> ('w, string) io" where
  "createWorkspace F =
     await (ensureBaseDir F) (\<lambda>_.
     await (f_mkdtemp F (path_join (WORKSPACE_BASE_DIR F) ''sbx-'')) (\<lambda>workspaceDir.
     await (f_chmod F workspaceDir 511) (\<lambda>_. ret workspaceDir)))"

definition writeSourceFile :: "('w, 'm) files_scheme \<Rightarrow> string \<Rightarrow> string \<Rightarrow> string \<Rightarrow> ('w, string) io" where
  "writeSourceFile F workspaceDir filename sourceCode =
     (let filePath = path_join workspaceDir (path_basename filename) in
      await (f_writeFile F filePath sourceCode 438) (\<lambda>_. ret filePath))"

text \<open>
  The guard of the removal: inside one of the two bases and with a managed name. A
  \<open>catch\<close> around everything only logs.
\<close>

definition inside :: "string \<Rightarrow> string \<Rightarrow> bool" where
  "inside base p = js_starts_with p (base @ ''/'')"

definition managed :: "('w, 'm) files_scheme \<Rightarrow> string \<Rightarrow> bool" where
  "managed F resolved \<longleftrightarrow>
     (inside (path_resolve (f_cwd F) (WORKSPACE_BASE_DIR F)) resolved \<or>
      inside (path_resolve (f_cwd F) (f_tmpdir F)) resolved) \<and>
     (js_starts_with (path_basename resolved) ''sbx-'' \<or>
      js_starts_with (path_basename resolved) ''codearena-exec-'')"

definition cleanupWorkspace :: "('w, 'm) files_scheme \<Rightarrow> string \<Rightarrow> ('w, unit) io" where
  "cleanupWorkspace F workspaceDir =
     (if workspaceDir = [] then ret ()
      else
        (let resolved = path_resolve (f_cwd F) workspaceDir in
         try_catch
           (if \<not> managed F resolved then ret ()
            else await (f_lstatIsSymlink F resolved) (\<lambda>link.
              if link then await (f_unlink F resolved) (\<lambda>_. ret ()) else f_rmrf F resolved))
           (\<lambda>_. ret ())))"

section \<open>Normal paths\<close>

definition normal :: "string list \<Rightarrow> bool" where
  "normal segs \<longleftrightarrow> (\<forall>s\<in>set segs. s \<noteq> [] \<and> s \<noteq> ''.'' \<and> s \<noteq> ''..'' \<and> CHR ''/'' \<notin> set s)"

definition abs_path :: "string list \<Rightarrow> string" where
  "abs_path segs = ''/'' @ js_join ''/'' segs"

lemma normal_Nil [simp]: "normal []"
  by (simp add: normal_def)

lemma normal_Cons: "normal (s # ss) \<longleftrightarrow> s \<noteq> [] \<and> s \<noteq> ''.'' \<and> s \<noteq> ''..'' \<and> CHR ''/'' \<notin> set s \<and> normal ss"
  by (auto simp: normal_def)

lemma normal_norm_segs:
  "normal acc \<Longrightarrow> \<forall>s\<in>set ss. CHR ''/'' \<notin> set s \<Longrightarrow> normal (norm_segs False acc ss)"
proof (induction ss arbitrary: acc)
  case Nil
  then show ?case by (simp add: normal_def)
next
  case (Cons s ss)
  then have IH: "\<And>acc. normal acc \<Longrightarrow> normal (norm_segs False acc ss)" by simp
  consider (skip) "s = [] \<or> s = ''.''" | (up) "s = ''..''" | (name) "s \<noteq> []" "s \<noteq> ''.''" "s \<noteq> ''..''"
    by blast
  then show ?case
  proof cases
    case skip
    then have "norm_segs False acc (s # ss) = norm_segs False acc ss" by auto
    with IH Cons.prems(1) show ?thesis by simp
  next
    case up
    show ?thesis
    proof (cases acc)
      case Nil
      with up IH show ?thesis by simp
    next
      case (Cons a as)
      with Cons.prems(1) have "a \<noteq> ''..''" "normal as" by (simp_all add: normal_Cons)
      with up Cons IH show ?thesis by simp
    qed
  next
    case name
    then have "norm_segs False acc (s # ss) = norm_segs False (s # acc) ss" by simp
    moreover have "normal (s # acc)" using name Cons.prems unfolding normal_Cons by simp
    ultimately show ?thesis using IH by simp
  qed
qed

lemma norm_segs_normal: "normal ss \<Longrightarrow> norm_segs keepUp acc ss = rev acc @ ss"
proof (induction ss arbitrary: acc)
  case Nil
  show ?case by simp
next
  case (Cons s ss)
  from Cons.prems have s: "\<not> (s = [] \<or> s = ''.'')" "s \<noteq> ''..''" and n: "normal ss"
    unfolding normal_Cons by blast+
  have "norm_segs keepUp acc (s # ss) = norm_segs keepUp (s # acc) ss"
    by (simp only: norm_segs.simps(2) if_not_P [OF s(1)] if_not_P [OF s(2)])
  with Cons.IH [OF n] show ?case by simp
qed

lemma js_split_abs_path:
  "normal segs \<Longrightarrow> js_split (CHR ''/'') (abs_path segs) = [] # (if segs = [] then [[]] else segs)"
  by (auto simp: abs_path_def normal_def js_split_join)

lemma resolve_abs_path: "normal segs \<Longrightarrow> path_resolve cwd (abs_path segs) = abs_path segs"
proof -
  assume n: "normal segs"
  have "is_absolute (abs_path segs)" by (simp add: is_absolute_def js_starts_with_def abs_path_def)
  with n show ?thesis
    by (simp add: path_resolve_def js_split_abs_path norm_segs_normal) (simp add: abs_path_def)
qed

lemma resolve_normal: "\<exists>segs. normal segs \<and> path_resolve cwd p = abs_path segs"
  unfolding path_resolve_def abs_path_def
  by (intro exI conjI, rule normal_norm_segs) (auto simp: normal_def dest: js_split_parts)

lemma basename_abs_path: "normal (segs @ [s]) \<Longrightarrow> path_basename (abs_path (segs @ [s])) = s"
proof -
  assume n: "normal (segs @ [s])"
  then have "filter (\<lambda>s. s \<noteq> []) (segs @ [s]) = segs @ [s]" by (auto simp: normal_def)
  with n show ?thesis by (simp add: path_basename_def js_split_abs_path)
qed

lemma inside_abs_path: "segs \<noteq> [] \<Longrightarrow> inside (abs_path segs) (abs_path (segs @ [s]))"
  by (simp add: inside_def js_starts_with_def abs_path_def js_join_snoc)

lemma join_abs_path:
  assumes n: "normal segs" and s: "normal [s]"
  shows "path_join (abs_path segs) s = abs_path (segs @ [s])"
proof -
  from s have s': "s \<noteq> []" "last s \<noteq> CHR ''/''" "CHR ''/'' \<notin> set s"
    by (auto simp: normal_def dest: last_in_set)
  have "js_split (CHR ''/'') (abs_path segs @ ''/'' @ s) = [] # (if segs = [] then [[], s] else segs @ [s])"
  proof (cases "segs = []")
    case True
    with s' show ?thesis by (simp add: abs_path_def js_split_no_sep)
  next
    case False
    with n s js_split_abs_path [of "segs @ [s]"]
    show ?thesis by (simp add: abs_path_def js_join_snoc normal_def)
  qed
  moreover have "norm_segs False [] (segs @ [s]) = segs @ [s]"
    using n s by (subst norm_segs_normal) (auto simp: normal_def)
  moreover have "norm_segs False [] [s] = [s]" using s by (subst norm_segs_normal) auto
  moreover have "js_join ''/'' (segs @ [s]) \<noteq> []"
    using s' by (cases segs) (auto simp: js_join_Cons)
  ultimately show ?thesis using s'
    by (auto simp: path_join_def path_normalize_def is_absolute_def js_starts_with_def abs_path_def)
qed

section \<open>What the code relies on\<close>

text \<open>A path at or below another.\<close>

definition under :: "string \<Rightarrow> string \<Rightarrow> bool" where
  "under d p \<longleftrightarrow> p = d \<or> inside d p"

text \<open>
  Removal, with links. A path names the place that its directory leads to, so that with a symbolic
  link among its ancestors it names a place elsewhere: \<open>place w p\<close>. The last component is not
  followed, by \<open>lstat\<close>, \<open>unlink\<close> or \<open>rm\<close>. \<open>entries\<close> are the existing places.
\<close>

locale removal =
  fixes F :: "('w, 'm) files_scheme" and entries :: "'w \<Rightarrow> string set" and place :: "'w \<Rightarrow> string \<Rightarrow> string"
  assumes lstat_reads: "keeps (\<lambda>w. (entries w, place w)) (f_lstatIsSymlink F p)"
    and unlink_at: "f_unlink F p w = (r, w') \<Longrightarrow> entries w' \<subseteq> entries w \<and> entries w - entries w' \<subseteq> {place w p}"
    and rmrf_at: "f_rmrf F p w = (r, w') \<Longrightarrow>
      entries w' \<subseteq> entries w \<and> (\<forall>q \<in> entries w - entries w'. under (place w p) q)"
begin

lemma cleanup_at:
  assumes "cleanupWorkspace F d w = (r, w')"
  shows "r = Inr () \<and> entries w' \<subseteq> entries w \<and>
    (\<forall>q \<in> entries w - entries w'. managed F (path_resolve (f_cwd F) d) \<and> under (place w (path_resolve (f_cwd F) d)) q)"
proof (cases "d = [] \<or> \<not> managed F (path_resolve (f_cwd F) d)")
  case True
  with assms show ?thesis by (auto simp: cleanupWorkspace_def Let_def try_catch_def split: if_splits)
next
  case False
  let ?r = "path_resolve (f_cwd F) d"
  let ?m = "await (f_lstatIsSymlink F ?r) (\<lambda>link.
              if link then await (f_unlink F ?r) (\<lambda>_. ret ()) else f_rmrf F ?r)"
  obtain r1 w1 where m: "?m w = (r1, w1)" by fastforce
  have eff: "entries w1 \<subseteq> entries w \<and> (\<forall>q \<in> entries w - entries w1. under (place w ?r) q)"
    using m
  proof (cases rule: await_cases)
    case (err e)
    with lstat_reads show ?thesis by (auto dest: keepsD)
  next
    case (ok link w2)
    from keepsD [OF lstat_reads ok(1)] have same: "entries w2 = entries w" "place w2 = place w" by simp_all
    show ?thesis
    proof (cases link)
      case True
      with ok(2) obtain r2 where "f_unlink F ?r w2 = (r2, w1)"
        by (auto simp: await_def split: prod.splits sum.splits)
      from unlink_at [OF this] same show ?thesis by (auto simp: under_def)
    next
      case False
      with ok(2) rmrf_at [of ?r w2 r1 w1] same show ?thesis by auto
    qed
  qed
  from False assms m have "r = Inr ()" "w' = w1"
    by (auto simp: cleanupWorkspace_def Let_def try_catch_def split: sum.splits)
  with eff False show ?thesis by blast
qed

end

text \<open>
  The file system of the workspaces, where no directory above a workspace is a symbolic link, so that
  a path is its own place. Only \<open>unlink\<close> and \<open>rm\<close> remove entries, and only the path they are
  given or what lies below it; \<open>mkdtemp\<close> makes a path that did not exist
  by adding a name without a slash to its prefix. \<open>lstat\<close> fails on paths that do not exist only,
  and nothing lies below a symbolic link.
\<close>

locale filesystem =
  fixes F :: "('w, 'm) files_scheme" and entries :: "'w \<Rightarrow> string set"
  assumes mkdirp_adds: "f_mkdirp F d w = (r, w') \<Longrightarrow> entries w \<subseteq> entries w' \<and> (\<forall>p \<in> entries w' - entries w. under p d)"
    and chmod_keeps: "keeps entries (f_chmod F d m)"
    and mkdtemp_ok: "f_mkdtemp F pre w = (Inr p, w') \<Longrightarrow>
      (\<forall>q \<in> entries w. \<not> under p q) \<and> entries w' = insert p (entries w) \<and> (\<exists>x. p = pre @ x \<and> x \<noteq> [] \<and> x \<noteq> ''.'' \<and> CHR ''/'' \<notin> set x)"
    and mkdtemp_err: "f_mkdtemp F pre w = (Inl e, w') \<Longrightarrow> entries w' = entries w"
    and writeFile_adds: "f_writeFile F p s m w = (r, w') \<Longrightarrow>
      entries w' = entries w \<or> entries w' = insert p (entries w)"
    and lstat_keeps: "keeps entries (f_lstatIsSymlink F p)"
    and lstat_err: "f_lstatIsSymlink F p w = (Inl e, w') \<Longrightarrow> (\<forall>q \<in> entries w. \<not> under p q)"
    and lstat_link: "f_lstatIsSymlink F p w = (Inr True, w') \<Longrightarrow> (\<forall>q \<in> entries w. under p q \<longrightarrow> q = p)"
    and unlink_only: "f_unlink F p w = (r, w') \<Longrightarrow> entries w' \<subseteq> entries w \<and> entries w - entries w' \<subseteq> {p}"
    and unlink_ok: "f_unlink F p w = (Inr u, w') \<Longrightarrow> p \<notin> entries w'"
    and rmrf_only: "f_rmrf F p w = (r, w') \<Longrightarrow>
      entries w' \<subseteq> entries w \<and> (\<forall>q \<in> entries w - entries w'. under p q)"
    and rmrf_ok: "f_rmrf F p w = (Inr u, w') \<Longrightarrow> (\<forall>q \<in> entries w'. \<not> under p q)"

sublocale filesystem \<subseteq> plain: removal F entries "\<lambda>w p. p"
proof
  show "keeps (\<lambda>w. (entries w, \<lambda>p. p)) (f_lstatIsSymlink F p)" for p
    using lstat_keeps [of p] by (simp add: keeps_def)
qed (use unlink_only rmrf_only in blast)+

context filesystem
begin

lemma cleanup_removes:
  assumes "cleanupWorkspace F d w = (r, w')"
  shows "r = Inr () \<and> entries w' \<subseteq> entries w \<and>
    (\<forall>q \<in> entries w - entries w'. managed F (path_resolve (f_cwd F) d) \<and> under (path_resolve (f_cwd F) d) q)"
  using plain.cleanup_at [OF assms] .

lemma cleanup_complete:
  assumes d: "d \<noteq> []" "path_resolve (f_cwd F) d = d" "managed F d"
    and works: "\<And>p w. \<exists>w'. f_unlink F p w = (Inr (), w')" "\<And>p w. \<exists>w'. f_rmrf F p w = (Inr (), w')"
    and run: "cleanupWorkspace F d w = (r, w')"
  shows "\<forall>q \<in> entries w'. \<not> under d q"
proof -
  obtain l w1 where lstat: "f_lstatIsSymlink F d w = (l, w1)" by fastforce
  with lstat_keeps have same: "entries w1 = entries w" by (auto dest: keepsD)
  show ?thesis
  proof (cases l)
    case (Inl e)
    with run d lstat have "w' = w1" by (auto simp: cleanupWorkspace_def Let_def try_catch_def await_def)
    with lstat_err Inl lstat same show ?thesis by metis
  next
    case (Inr link)
    show ?thesis
    proof (cases link)
      case True
      obtain w2 where unl: "f_unlink F d w1 = (Inr (), w2)" using works(1) by blast
      then have "w' = w2" using run d lstat Inr True
        by (auto simp: cleanupWorkspace_def Let_def try_catch_def await_def)
      have "\<forall>q \<in> entries w. under d q \<longrightarrow> q = d" using lstat Inr True by (simp add: lstat_link)
      then show ?thesis
        using unlink_only [OF unl] unlink_ok [OF unl] \<open>w' = w2\<close> same by auto
    next
      case False
      obtain w2 where rm: "f_rmrf F d w1 = (Inr (), w2)" using works(2) by blast
      with run d lstat Inr False have "w' = w2"
        by (auto simp: cleanupWorkspace_def Let_def try_catch_def await_def)
      with rmrf_ok [OF rm] show ?thesis by blast
    qed
  qed
qed

text \<open>A workspace that was made is one the clean-up accepts.\<close>

lemma mkdtemp_workspace:
  assumes base: "WORKSPACE_BASE_DIR F \<noteq> ''/''"
    and mk: "f_mkdtemp F (path_join (WORKSPACE_BASE_DIR F) ''sbx-'') w = (Inr d, w')"
  shows "(\<exists>segs. normal segs \<and> segs \<noteq> [] \<and> d = abs_path segs) \<and> managed F d \<and>
    (\<forall>q \<in> entries w. \<not> under d q) \<and> entries w' = insert d (entries w)"
proof -
  obtain segs where segs: "normal segs" "WORKSPACE_BASE_DIR F = abs_path segs"
    using resolve_normal by (auto simp: WORKSPACE_BASE_DIR_def)
  with base have ne: "segs \<noteq> []" by (auto simp: abs_path_def)
  from mkdtemp_ok [OF mk] obtain x where x: "d = path_join (WORKSPACE_BASE_DIR F) ''sbx-'' @ x"
    "CHR ''/'' \<notin> set x" and d: "\<forall>q \<in> entries w. \<not> under d q" "entries w' = insert d (entries w)" by blast
  have n: "normal (segs @ [''sbx-'' @ x])" and "normal [''sbx-'']"
    using segs(1) x(2) by (auto simp: normal_def)
  then have dd: "d = abs_path (segs @ [''sbx-'' @ x])"
    using x(1) segs ne by (simp add: join_abs_path) (simp add: abs_path_def js_join_snoc)
  have "managed F d"
    using segs n ne inside_abs_path [of segs "''sbx-'' @ x"]
    by (simp add: managed_def resolve_abs_path basename_abs_path dd js_starts_with_def)
  with n d dd show ?thesis by blast
qed

lemma ensureBaseDir_effect:
  assumes "ensureBaseDir F w = (r, w')"
  shows "r = Inr () \<and> entries w \<subseteq> entries w' \<and> (\<forall>p \<in> entries w' - entries w. under p (WORKSPACE_BASE_DIR F))"
proof -
  let ?B = "WORKSPACE_BASE_DIR F"
  obtain r1 w1 where mk: "f_mkdirp F ?B w = (r1, w1)" by fastforce
  obtain r2 w2 where ch: "f_chmod F ?B 511 w1 = (r2, w2)" by fastforce
  from ch chmod_keeps have "entries w2 = entries w1" by (rule keepsD [rotated])
  with mk ch assms mkdirp_adds [OF mk] show ?thesis
    by (auto simp: ensureBaseDir_def try_catch_def await_def split: sum.splits)
qed

end

section \<open>Properties\<close>

text \<open>The segments of a path that passes the guard.\<close>

lemma js_split_append: "js_split c (a @ c # b) = js_split c a @ js_split c b"
proof (induction a)
  case Nil
  show ?case by simp
next
  case (Cons x a)
  then show ?case by (cases "js_split c a") auto
qed

lemma inside_segments:
  assumes "normal segs" and "normal bs" and "inside (abs_path bs) (abs_path segs)"
  shows "\<exists>ms m. segs = bs @ ms @ [m]"
proof -
  have split: "js_split (CHR ''/'') (abs_path ss) = [] # (if ss = [] then [[]] else ss)" if "normal ss" for ss
    by (rule js_split_abs_path [OF that])
  from assms(3) obtain r where r: "abs_path segs = abs_path bs @ CHR ''/'' # r"
    by (auto simp: inside_def js_starts_with_iff)
  have "js_split (CHR ''/'') (abs_path segs) = js_split (CHR ''/'') (abs_path bs) @ js_split (CHR ''/'') r"
    unfolding r by (rule js_split_append)
  then have eq: "(if segs = [] then [[]] else segs) = (if bs = [] then [[]] else bs) @ js_split (CHR ''/'') r"
    by (simp add: split assms(1,2))
  have ne: "js_split (CHR ''/'') r \<noteq> []" by (rule js_split_ne_Nil)
  then obtain y ys where y: "js_split (CHR ''/'') r = y # ys" by (cases "js_split (CHR ''/'') r") auto
  show ?thesis
  proof (cases "bs = []")
    case True
    with eq y have "[] \<in> set segs" by (auto split: if_splits)
    then show ?thesis using assms(1) by (auto simp: normal_def)
  next
    case False
    then have "segs \<noteq> []" using eq y by (cases bs) (auto split: if_splits)
    with False eq have "segs = bs @ js_split (CHR ''/'') r" by simp
    with ne show ?thesis by (metis append_butlast_last_id)
  qed
qed

lemma managed_segments:
  assumes "managed F (path_resolve (f_cwd F) d)"
  shows "\<exists>base bs ms name. base \<in> {WORKSPACE_BASE_DIR F, f_tmpdir F} \<and> normal (bs @ ms @ [name]) \<and>
    path_resolve (f_cwd F) base = abs_path bs \<and> path_resolve (f_cwd F) d = abs_path (bs @ ms @ [name]) \<and>
    ((\<exists>x. name = ''sbx-'' @ x) \<or> (\<exists>x. name = ''codearena-exec-'' @ x))"
proof -
  obtain base where base: "base \<in> {WORKSPACE_BASE_DIR F, f_tmpdir F}"
    and i: "inside (path_resolve (f_cwd F) base) (path_resolve (f_cwd F) d)"
    using assms unfolding managed_def by blast
  obtain bs where bs: "normal bs" "path_resolve (f_cwd F) base = abs_path bs" using resolve_normal by blast
  obtain ss where ss: "normal ss" "path_resolve (f_cwd F) d = abs_path ss" using resolve_normal by blast
  obtain ms m where m: "ss = bs @ ms @ [m]" using inside_segments [OF ss(1) bs(1)] i bs(2) ss(2) by auto
  have "path_basename (abs_path ss) = m" using basename_abs_path [of "bs @ ms" m] ss(1) m by simp
  with assms ss(2) have "(\<exists>x. m = ''sbx-'' @ x) \<or> (\<exists>x. m = ''codearena-exec-'' @ x)"
    unfolding managed_def js_starts_with_iff by simp
  with base bs ss m show ?thesis by blast
qed

text \<open>C30: the clean-up of a workspace never throws, creates nothing, and removes at most one
  directory or link and what lies below it. It does so only when the path, made absolute and without
  dots, consists of the segments of the workspace base or of the temporary directory, perhaps some
  more, and a last one that starts with \<open>sbx-\<close> or \<open>codearena-exec-\<close>. What is removed lies at
  the place that this path names; if none of the directories on the way is a symbolic link, this is
  the path itself, strictly inside that base. With a link on the way it is elsewhere: the guard
  looks at the text of the path only.\<close>

theorem cleanupWorkspace_confined:
  assumes "removal F entries place" and "cleanupWorkspace F d w = (r, w')"
  shows "r = Inr () \<and> entries w' \<subseteq> entries w \<and>
    (entries w' \<noteq> entries w \<longrightarrow> (\<exists>base bs ms name. base \<in> {WORKSPACE_BASE_DIR F, f_tmpdir F} \<and> normal (bs @ ms @ [name]) \<and>
       path_resolve (f_cwd F) base = abs_path bs \<and> path_resolve (f_cwd F) d = abs_path (bs @ ms @ [name]) \<and>
       ((\<exists>x. name = ''sbx-'' @ x) \<or> (\<exists>x. name = ''codearena-exec-'' @ x)) \<and>
       (\<forall>q \<in> entries w - entries w'. under (place w (abs_path (bs @ ms @ [name]))) q)))"
proof -
  note eff = removal.cleanup_at [OF assms]
  have "\<exists>base bs ms name. base \<in> {WORKSPACE_BASE_DIR F, f_tmpdir F} \<and> normal (bs @ ms @ [name]) \<and>
       path_resolve (f_cwd F) base = abs_path bs \<and> path_resolve (f_cwd F) d = abs_path (bs @ ms @ [name]) \<and>
       ((\<exists>x. name = ''sbx-'' @ x) \<or> (\<exists>x. name = ''codearena-exec-'' @ x)) \<and>
       (\<forall>q \<in> entries w - entries w'. under (place w (abs_path (bs @ ms @ [name]))) q)" if "entries w' \<noteq> entries w"
  proof -
    from that eff have "managed F (path_resolve (f_cwd F) d)" by blast
    from managed_segments [OF this] obtain base bs ms name where
      f: "base \<in> {WORKSPACE_BASE_DIR F, f_tmpdir F}" "normal (bs @ ms @ [name])"
        "path_resolve (f_cwd F) base = abs_path bs" "path_resolve (f_cwd F) d = abs_path (bs @ ms @ [name])"
        "(\<exists>x. name = ''sbx-'' @ x) \<or> (\<exists>x. name = ''codearena-exec-'' @ x)"
      by blast
    have "\<forall>q \<in> entries w - entries w'. under (place w (abs_path (bs @ ms @ [name]))) q"
      using eff unfolding f(4) by blast
    with f show ?thesis by blast
  qed
  with eff show ?thesis by blast
qed

section \<open>An in-memory file system\<close>

text \<open>The world keeps the list of existing paths; there are no links and no call fails but
  \<open>lstat\<close> of a missing path.\<close>

definition fresh_name :: "string \<Rightarrow> string list \<Rightarrow> string" where
  "fresh_name pre ps = pre @ replicate (Suc (sum_list (map length ps))) (CHR ''x'')"

lemma fresh_name_longer: "q \<in> set ps \<Longrightarrow> length q < length (fresh_name pre ps)"
  using member_le_sum_list [of "length q" "map length ps"] by (auto simp: fresh_name_def)

definition mem_files :: "('w \<Rightarrow> string list) \<Rightarrow> ((string list \<Rightarrow> string list) \<Rightarrow> 'w \<Rightarrow> 'w) \<Rightarrow> 'w files" where
  "mem_files get upd =
     \<lparr>f_workspaceBase = None, f_cwd = ''/srv'', f_tmpdir = ''/tmp'',
      f_mkdirp = (\<lambda>d w. (Inr (), upd (\<lambda>ps. if d \<in> set ps then ps else d # ps) w)),
      f_chmod = (\<lambda>d m w. (Inr (), w)),
      f_mkdtemp = (\<lambda>pre w. let p = fresh_name pre (get w) in (Inr p, upd (\<lambda>ps. p # ps) w)),
      f_writeFile = (\<lambda>p s m w. (Inr (), upd (\<lambda>ps. if p \<in> set ps then ps else p # ps) w)),
      f_lstatIsSymlink = (\<lambda>p w. (if \<exists>q \<in> set (get w). under p q then Inr False
         else Inl ((js_error ''Error'' ''ENOENT'')\<lparr>sysCode := Some ''ENOENT''\<rparr>), w)),
      f_unlink = (\<lambda>p w. (Inr (), upd (filter (\<lambda>q. q \<noteq> p)) w)),
      f_rmrf = (\<lambda>p w. (Inr (), upd (filter (\<lambda>q. \<not> under p q)) w))\<rparr>"

lemma under_length: "under d q \<Longrightarrow> length d \<le> length q"
  by (auto simp: under_def inside_def js_starts_with_iff)

lemma under_refl [simp]: "under d d"
  by (simp add: under_def)

lemma mem_files_filesystem:
  assumes "\<And>f w. get (upd f w) = f (get w)"
  shows "filesystem (mem_files get upd) (\<lambda>w. set (get w))"
proof
  fix pre p w w'
  assume "f_mkdtemp (mem_files get upd) pre w = (Inr p, w')"
  then have p: "p = fresh_name pre (get w)" and w': "w' = upd (\<lambda>ps. p # ps) w"
    by (auto simp: mem_files_def Let_def)
  have "\<forall>q\<in>set (get w). \<not> under p q"
    unfolding p by (auto dest!: under_length dest: fresh_name_longer [of _ _ pre])
  then show "(\<forall>q\<in>set (get w). \<not> under p q) \<and> set (get w') = insert p (set (get w)) \<and>
      (\<exists>x. p = pre @ x \<and> x \<noteq> [] \<and> x \<noteq> ''.'' \<and> CHR ''/'' \<notin> set x)"
    by (auto simp: w' assms p fresh_name_def Cons_replicate_eq)
qed (auto simp: mem_files_def assms keeps_def Let_def split: if_splits)

text \<open>The world that holds nothing but the paths.\<close>

interpretation plain_fs: filesystem "mem_files id id" set
  using mem_files_filesystem [of id id] by simp

text \<open>
  The same, but with a symbolic link \<open>/tmp/out\<close> to \<open>/home\<close>. The clean-up of
  \<open>/tmp/out/sbx-1\<close> passes the guard and removes \<open>/home/sbx-1\<close>.
\<close>

definition linked_place :: "string \<Rightarrow> string" where
  "linked_place p = (if js_starts_with p ''/tmp/out/'' then ''/home/'' @ drop 9 p else p)"

definition linked_files :: "(string list) files" where
  "linked_files = (mem_files id id)
     \<lparr>f_lstatIsSymlink := (\<lambda>p w. (Inr False, w)),
      f_unlink := (\<lambda>p w. (Inr (), filter (\<lambda>q. q \<noteq> linked_place p) w)),
      f_rmrf := (\<lambda>p w. (Inr (), filter (\<lambda>q. \<not> under (linked_place p) q) w))\<rparr>"

interpretation linked_fs: removal linked_files set "\<lambda>w. linked_place"
  by unfold_locales (auto simp: linked_files_def keeps_def)

theorem linked_ancestor_escapes:
  "cleanupWorkspace linked_files ''/tmp/out/sbx-1'' [''/home/sbx-1'', ''/home/x''] = (Inr (), [''/home/x''])"
  by code_simp

theorem cleanupWorkspace_confined_witness:
  "\<exists>base bs ms name. base \<in> {WORKSPACE_BASE_DIR linked_files, f_tmpdir linked_files} \<and> normal (bs @ ms @ [name]) \<and>
     path_resolve (f_cwd linked_files) base = abs_path bs \<and>
     path_resolve (f_cwd linked_files) ''/tmp/out/sbx-1'' = abs_path (bs @ ms @ [name]) \<and>
     ((\<exists>x. name = ''sbx-'' @ x) \<or> (\<exists>x. name = ''codearena-exec-'' @ x)) \<and>
     (\<forall>q \<in> set [''/home/sbx-1'', ''/home/x''] - set [''/home/x'']. under (linked_place (abs_path (bs @ ms @ [name]))) q)"
  by (rule cleanupWorkspace_confined [OF linked_fs.removal_axioms linked_ancestor_escapes,
      THEN conjunct2, THEN conjunct2, rule_format]) simp

end
