(* ===== verification/Evaluator.thy ===== *)
theory Evaluator
  imports EngineConfig
begin

text \<open>
  The output evaluator (\<open>execution-engine/src/evaluator/output.evaluator.js\<close>): line ends
  and trailing white space are normalised before the comparison. The lemmas relate the
  pipeline of replacements to a reference by lines.
\<close>

section \<open>The code\<close>

text \<open>\<open>.replace(/\r\n/g, '\n')\<close> and \<open>.replace(/\r/g, '\n')\<close>.\<close>

abbreviation cr :: char where "cr \<equiv> CHR 0x0D"
abbreviation lf :: char where "lf \<equiv> CHR 0x0A"

fun replace_crlf :: "string \<Rightarrow> string" where
  "replace_crlf [] = []"
| "replace_crlf [c] = [c]"
| "replace_crlf (c # d # s) = (if c = cr \<and> d = lf then lf # replace_crlf s else c # replace_crlf (d # s))"

definition replace_cr :: "string \<Rightarrow> string" where
  "replace_cr s = map (\<lambda>c. if c = cr then lf else c) s"

definition normalizeString :: "string \<Rightarrow> string" where
  "normalizeString str =
     js_trim_end (js_join [lf] (map js_trim_end (js_split lf (replace_cr (replace_crlf str)))))"

definition normalizeOutput :: "jsval \<Rightarrow> string" where
  "normalizeOutput v = (case as_string v of None \<Rightarrow> [] | Some str \<Rightarrow> normalizeString str)"

record evaluation =
  isMatch :: bool
  ev_verdict :: verdict
  normalizedActual :: string
  normalizedExpected :: string

definition evaluateOutput :: "jsval \<Rightarrow> jsval \<Rightarrow> evaluation" where
  "evaluateOutput actualOutput expectedOutput =
     (let a = normalizeOutput actualOutput; e = normalizeOutput expectedOutput; m = (a = e) in
      \<lparr>isMatch = m, ev_verdict = (if m then ACCEPTED else WRONG_ANSWER),
       normalizedActual = a, normalizedExpected = e\<rparr>)"

section \<open>Characters\<close>

lemma is_ws_cr [simp]: "is_ws cr" and is_ws_lf [simp]: "is_ws lf"
  by (simp_all add: is_ws_def code_unit_def)

lemma replace_crlf_no_cr: "cr \<notin> set s \<Longrightarrow> replace_crlf s = s"
  by (induction s rule: replace_crlf.induct) auto

lemma set_replace_crlf: "set (replace_crlf s) \<subseteq> set s"
  by (induction s rule: replace_crlf.induct) auto

lemma replace_cr_no_cr: "cr \<notin> set s \<Longrightarrow> replace_cr s = s"
  by (induction s) (auto simp: replace_cr_def)

lemma cr_replace_cr [simp]: "cr \<notin> set (replace_cr s)"
  by (auto simp: replace_cr_def)

text \<open>The line-end normalisation as a single function.\<close>

definition unix_lines :: "string \<Rightarrow> string" where
  "unix_lines s = replace_cr (replace_crlf s)"

lemma unix_lines_no_cr [simp]: "cr \<notin> set (unix_lines s)"
  by (simp add: unix_lines_def)

lemma unix_lines_id: "cr \<notin> set s \<Longrightarrow> unix_lines s = s"
  by (simp add: unix_lines_def replace_crlf_no_cr replace_cr_no_cr)

section \<open>Lines\<close>

text \<open>The reference: right-trimmed lines, without the blank ones at the end.\<close>

definition trimmed_lines :: "string \<Rightarrow> string list" where
  "trimmed_lines s = drop_tail_while (\<lambda>l. l = []) (map js_trim_end (js_split lf (unix_lines s)))"

lemma js_trim_end_append_ws: "\<forall>c\<in>set t. is_ws c \<Longrightarrow> js_trim_end (s @ t) = js_trim_end s"
  unfolding js_trim_end_def by (rule drop_tail_while_append)

lemma js_trim_end_keep: "t \<noteq> [] \<Longrightarrow> \<not> is_ws (last t) \<Longrightarrow> js_trim_end (s @ t) = s @ t"
  by (cases t rule: rev_cases) (auto simp: js_trim_end_def simp flip: append_assoc)

lemma js_trim_end_last: "js_trim_end l \<noteq> [] \<Longrightarrow> \<not> is_ws (last (js_trim_end l))"
  unfolding js_trim_end_def by (rule drop_tail_while_last)

lemma join_trimmed:
  assumes "\<forall>l\<in>set ls. l = [] \<or> \<not> is_ws (last l)"
  shows "js_trim_end (js_join [lf] ls) = js_join [lf] (drop_tail_while (\<lambda>l. l = []) ls)"
  using assms
proof (induction ls rule: rev_induct)
  case Nil
  then show ?case by (simp add: js_trim_end_def)
next
  case (snoc l ls)
  show ?case
  proof (cases "ls = []")
    case True
    with snoc.prems js_trim_end_keep [of l "[]"] show ?thesis
      by (auto simp: js_trim_end_def drop_tail_while_Cons)
  next
    case False
    show ?thesis
    proof (cases "l = []")
      case True
      with False snoc show ?thesis
        by (simp add: js_join_snoc js_trim_end_append_ws)
    next
      case ne: False
      with snoc.prems have "js_trim_end ((js_join [lf] ls @ [lf]) @ l) = (js_join [lf] ls @ [lf]) @ l"
        by (intro js_trim_end_keep) auto
      with False ne show ?thesis by (simp add: js_join_snoc)
    qed
  qed
qed

lemma normalizeString_lines: "normalizeString s = js_join [lf] (trimmed_lines s)"
proof -
  have "\<forall>l\<in>set (map js_trim_end (js_split lf (unix_lines s))). l = [] \<or> \<not> is_ws (last l)"
    by (auto dest: js_trim_end_last)
  from join_trimmed [OF this] show ?thesis
    by (simp add: normalizeString_def trimmed_lines_def unix_lines_def)
qed

lemma trimmed_lines_no_lf: "l \<in> set (trimmed_lines s) \<Longrightarrow> lf \<notin> set l"
proof -
  assume "l \<in> set (trimmed_lines s)"
  then have "l \<in> set (map js_trim_end (js_split lf (unix_lines s)))"
    unfolding trimmed_lines_def by (meson drop_tail_while_subset subsetD)
  then obtain w where w: "w \<in> set (js_split lf (unix_lines s))" "l = js_trim_end w" by auto
  then have "lf \<notin> set w" by (blast dest: js_split_parts)
  moreover have "set l \<subseteq> set w" using w(2) by (simp add: js_trim_end_def drop_tail_while_subset)
  ultimately show ?thesis by blast
qed

lemma trimmed_lines_last: "trimmed_lines s \<noteq> [] \<Longrightarrow> last (trimmed_lines s) \<noteq> []"
  unfolding trimmed_lines_def by (blast dest: drop_tail_while_last)

lemma trimmed_lines_split: "trimmed_lines s \<noteq> [] \<Longrightarrow> js_split lf (normalizeString s) = trimmed_lines s"
  by (simp add: normalizeString_lines js_split_join trimmed_lines_no_lf)

lemma normalizeString_Nil: "normalizeString s = [] \<longleftrightarrow> trimmed_lines s = []"
proof
  assume *: "normalizeString s = []"
  show "trimmed_lines s = []"
  proof (rule ccontr)
    assume ne: "trimmed_lines s \<noteq> []"
    with trimmed_lines_split * have "trimmed_lines s = [[]]" by force
    with trimmed_lines_last [OF ne] show False by simp
  qed
qed (simp add: normalizeString_lines)

lemma normalizeString_inject: "normalizeString a = normalizeString b \<longleftrightarrow> trimmed_lines a = trimmed_lines b"
  by (metis normalizeString_Nil normalizeString_lines trimmed_lines_split)

lemma js_split_subset: "w \<in> set (js_split c s) \<Longrightarrow> set w \<subseteq> set s"
proof (induction s arbitrary: w)
  case (Cons x xs)
  then show ?case by (cases "js_split c xs") (fastforce split: if_splits)+
qed simp

lemma unix_lines_normalized [simp]: "unix_lines (normalizeString s) = normalizeString s"
proof (rule unix_lines_id)
  have "cr \<notin> set (js_join [lf] ls)" if "\<forall>l\<in>set ls. cr \<notin> set l" for ls
    using that by (induction ls) (auto simp: js_join_Cons)
  moreover have "\<forall>l\<in>set (trimmed_lines s). cr \<notin> set l"
  proof
    fix l assume "l \<in> set (trimmed_lines s)"
    then obtain w where w: "w \<in> set (js_split lf (unix_lines s))" "l = js_trim_end w"
      unfolding trimmed_lines_def using drop_tail_while_subset by fastforce
    from w(1) have "set w \<subseteq> set (unix_lines s)" by (rule js_split_subset)
    then show "cr \<notin> set l"
      using w(2) drop_tail_while_subset [of is_ws w] by (auto simp: js_trim_end_def)
  qed
  ultimately show "cr \<notin> set (normalizeString s)" by (simp add: normalizeString_lines)
qed


text \<open>Line ends: a text with LF line ends and the same text with CRLF line ends.\<close>

definition to_crlf :: "string \<Rightarrow> string" where
  "to_crlf s = concat (map (\<lambda>c. if c = lf then [cr, lf] else [c]) s)"

lemma replace_crlf_step: "c \<noteq> cr \<Longrightarrow> replace_crlf (c # s) = c # replace_crlf s"
  by (cases s) auto

lemma replace_crlf_to_crlf: "cr \<notin> set s \<Longrightarrow> replace_crlf (to_crlf s) = s"
  by (induction s) (auto simp: to_crlf_def replace_crlf_step)

lemma unix_lines_to_crlf: "cr \<notin> set s \<Longrightarrow> unix_lines (to_crlf s) = unix_lines s"
  by (simp add: unix_lines_def replace_crlf_to_crlf replace_crlf_no_cr)

section \<open>Properties\<close>

text \<open>C24: the evaluator accepts exactly the outputs that agree with the expected output line by
  line, once CRLF and CR line ends are read as LF, white space at the end of each line is ignored
  and blank lines at the end of the text are ignored.\<close>

theorem evaluateOutput_by_lines:
  "isMatch (evaluateOutput (JStr a) (JStr e)) = (trimmed_lines a = trimmed_lines e)"
  by (simp add: evaluateOutput_def Let_def normalizeOutput_def normalizeString_inject)

text \<open>normalisation is idempotent, on every value it is given.\<close>

theorem normalizeOutput_idem: "normalizeOutput (JStr (normalizeOutput v)) = normalizeOutput v"
proof (cases "as_string v")
  case None
  then show ?thesis by (simp add: normalizeOutput_def normalizeString_def replace_cr_def js_trim_end_def)
next
  case (Some s)
  have "trimmed_lines (normalizeString s) = trimmed_lines s"
  proof (cases "trimmed_lines s = []")
    case True
    then have "normalizeString s = []" by (simp add: normalizeString_Nil)
    with True show ?thesis by (simp add: trimmed_lines_def unix_lines_def replace_cr_def js_trim_end_def drop_tail_while_Cons)
  next
    case False
    have "map js_trim_end (trimmed_lines s) = trimmed_lines s"
    proof (rule map_idI)
      fix l assume "l \<in> set (trimmed_lines s)"
      then have "l \<in> js_trim_end ` set (js_split lf (unix_lines s))"
        unfolding trimmed_lines_def using drop_tail_while_subset by fastforce
      then show "js_trim_end l = l" by (auto simp: js_trim_end_def)
    qed
    with False trimmed_lines_split show ?thesis
      by (simp add: trimmed_lines_def [of "normalizeString s"]) (simp add: trimmed_lines_def)
  qed
  with Some show ?thesis by (simp add: normalizeOutput_def normalizeString_inject)
qed

text \<open>a program that ends its lines with CRLF gets the verdict it would get with LF.\<close>

theorem evaluateOutput_crlf:
  assumes "cr \<notin> set s"
  shows "ev_verdict (evaluateOutput (JStr (to_crlf s)) e) = ev_verdict (evaluateOutput (JStr s) e)"
proof -
  from assms have "trimmed_lines (to_crlf s) = trimmed_lines s"
    by (simp add: trimmed_lines_def unix_lines_to_crlf)
  then have "normalizeString (to_crlf s) = normalizeString s" by (simp add: normalizeString_inject)
  then show ?thesis by (simp add: evaluateOutput_def Let_def normalizeOutput_def)
qed

theorem evaluateOutput_crlf_witness:
  "ev_verdict (evaluateOutput (JStr (to_crlf (''1 2'' @ [lf] @ ''3'' @ [lf]))) (JStr (''1 2'' @ [lf] @ ''3''))) = ACCEPTED"
proof -
  have "ev_verdict (evaluateOutput (JStr (''1 2'' @ [lf] @ ''3'' @ [lf])) (JStr (''1 2'' @ [lf] @ ''3''))) = ACCEPTED"
    by code_simp
  with evaluateOutput_crlf [of "''1 2'' @ [lf] @ ''3'' @ [lf]"] show ?thesis by simp
qed

end
