(* ===== verification/ExecService.thy ===== *)
theory ExecService
  imports Sandbox Workspace Evaluator
begin

text \<open>
  The orchestrator of the execution engine (\<open>executor/execution.service.js\<close>) with the
  spawning ends of the Docker runner, the process runner and the C++ compiler, and the runtime
  classes of \<open>runner/*.runtime.js\<close>. The operating system is a parameter: the file system of
  \<open>Workspace\<close>, \<open>docker info\<close>, random bytes, and \<open>spawn\<close>, which throws or gives
  the events the child goes through.
\<close>

section \<open>The environment\<close>

record 'w engine_env = "'w files" +
  e_executionMode :: "string option"
  e_sandboxImage :: "string option"
  e_dockerInfo :: "('w, bool) io"
  e_randomHex :: "('w, string) io"
  e_spawn :: "string \<Rightarrow> string list \<Rightarrow> string option \<Rightarrow> string \<Rightarrow> nat \<Rightarrow> ('w, child_event list) io"

text \<open>The module's variable \<open>isDockerAvailableCache\<close> and the world outside the process.\<close>

record 'w engine_state =
  dockerCache :: "bool option"
  os :: 'w

definition in_os :: "('w, 'a) io \<Rightarrow> ('w engine_state, 'a) io" where
  "in_os m = on_part os (\<lambda>w s. s\<lparr>os := w\<rparr>) m"

lemma in_os_run: "in_os m s = (fst (m (os s)), s\<lparr>os := snd (m (os s))\<rparr>)"
  by (simp add: in_os_def on_part_def split: prod.splits)

lemma in_osD: "in_os m s = (r, s') \<Longrightarrow> m (os s) = (r, os s')"
  by (auto simp: in_os_run prod_eq_iff)

section \<open>docker.sandbox.js\<close>

definition SANDBOX_IMAGE :: "'w engine_env \<Rightarrow> string" where
  "SANDBOX_IMAGE E = env_or (e_sandboxImage E) ''codearena-sandbox:v1''"

definition checkDockerAvailable :: "'w engine_env \<Rightarrow> ('w engine_state, bool) io" where
  "checkDockerAvailable E = await (gets dockerCache) (\<lambda>c. case c of
     Some b \<Rightarrow> ret b
   | None \<Rightarrow> await (in_os (e_dockerInfo E)) (\<lambda>b.
       await (modify_state (\<lambda>s. s\<lparr>dockerCache := Some b\<rparr>)) (\<lambda>_. ret b)))"

definition unavailable :: err where
  "unavailable = ExecutionEngineError
     ''EXECUTION_UNAVAILABLE: Docker sandbox runtime is required but unavailable. Untrusted code cannot be executed directly on the host.''"

text \<open>Spawning a child and waiting for the promise its handlers settle.\<close>

definition spawn_and_wait ::
  "'w engine_env \<Rightarrow> string \<Rightarrow> string \<Rightarrow> string list \<Rightarrow> string option \<Rightarrow> string \<Rightarrow> nat
    \<Rightarrow> (child_event list \<Rightarrow> (err + 'a) option) \<Rightarrow> ('w engine_state, 'a) pio" where
  "spawn_and_wait E failed prog args cwd input timeout handle = (\<lambda>s.
     case in_os (e_spawn E prog args cwd input timeout) s of
       (Inl e, s') \<Rightarrow> (Some (Inl (ExecutionEngineError (failed @ emessage e))), s')
     | (Inr es, s') \<Rightarrow> (handle es, s'))"

definition runInDockerSandbox ::
  "'w engine_env \<Rightarrow> run_caps \<Rightarrow> string \<Rightarrow> string \<Rightarrow> string list \<Rightarrow> string \<Rightarrow> nat \<Rightarrow> ('w engine_state, run_result) pio" where
  "runInDockerSandbox E caps workspaceDir cmd args input timeoutMs =
     pawait (prompt (checkDockerAvailable E)) (\<lambda>available.
       if \<not> available then prompt (throw unavailable)
       else pawait (prompt (in_os (e_randomHex E))) (\<lambda>h.
         spawn_and_wait E ''Failed to spawn Docker sandbox: '' ''docker''
           (dockerArgs caps (''codearena-sbx-'' @ h) workspaceDir (SANDBOX_IMAGE E) cmd args) None input timeoutMs
           (\<lambda>es. rs_outcome (docker_run workspaceDir es))))"

section \<open>process.runner.js and cpp.compiler.js\<close>

definition executablePath :: "string \<Rightarrow> string \<Rightarrow> string" where
  "executablePath workspaceDir cmd =
     (if js_starts_with cmd ''./'' then path_join workspaceDir (drop 2 cmd) else cmd)"

definition runProcess ::
  "'w engine_env \<Rightarrow> string \<Rightarrow> string \<Rightarrow> string list \<Rightarrow> string \<Rightarrow> nat \<Rightarrow> ('w engine_state, run_result) pio" where
  "runProcess E workspaceDir cmd args input timeoutMs =
     spawn_and_wait E ''Failed to spawn process: '' (executablePath workspaceDir cmd) args
       (Some workspaceDir) input timeoutMs (\<lambda>es. rs_outcome (process_run workspaceDir es))"

definition compileCpp :: "'w engine_env \<Rightarrow> string \<Rightarrow> language_config \<Rightarrow> ('w engine_state, compile_result) pio" where
  "compileCpp E workspaceDir cfg =
     spawn_and_wait E ''Failed to start compiler: '' (case compiler cfg of Some c \<Rightarrow> c | None \<Rightarrow> ''null'')
       (compileArgs cfg) (Some workspaceDir) [] (COMPILE_TIMEOUT_MS LIMITS)
       (\<lambda>es. cs_outcome (compile_run workspaceDir cfg es))"

section \<open>execution.service.js\<close>

definition validateExecutionRequest :: "jsval \<Rightarrow> err + unit" where
  "validateExecutionRequest request =
     (let language = field request ''language''; sourceCode = field request ''sourceCode'';
          testCase = field request ''testCase''; input = field testCase ''input'';
          expected = field testCase ''expectedOutput'' in
      if \<not> truthy request \<or> \<not> is_object request then
        Inl (ValidationError ''Execution request must be an object'')
      else if \<not> truthy language \<or> as_string language = None then
        Inl (ValidationError ''Language is required and must be a string'')
      else if (case as_string sourceCode of None \<Rightarrow> True | Some s \<Rightarrow> js_trim s = []) then
        Inl (ValidationError ''Source code is required and cannot be empty'')
      else if (case as_string sourceCode of None \<Rightarrow> True | Some s \<Rightarrow> utf8_length s > MAX_SOURCE_CODE_BYTES LIMITS) then
        Inl (ValidationError (''Source code exceeds maximum permitted size of '' @
          show_int (int (MAX_SOURCE_CODE_BYTES LIMITS)) @ '' bytes (64KB)''))
      else if \<not> truthy testCase \<or> \<not> is_object testCase then
        Inl (ValidationError ''Test case is required and must be an object'')
      else if input \<noteq> JUndefined \<and> as_string input = None then
        Inl (ValidationError ''Test case input must be a string if provided'')
      else if as_string expected = None then
        Inl (ValidationError ''Test case expectedOutput is required and must be a string'')
      else Inr ())"

definition or_default :: "string \<Rightarrow> string \<Rightarrow> string" where
  "or_default s d = (if s = [] then d else s)"

text \<open>Steps 8 to 13 of \<open>execute\<close>: the verdict of a finished run.\<close>

definition judge :: "run_result \<Rightarrow> jsval \<Rightarrow> exec_result" where
  "judge r expectedOutput =
     (let failed = (\<lambda>v msg. \<lparr>x_verdict = v, x_stdout = r_stdout r, x_stderr = or_default (r_stderr r) msg,
              x_runtimeMs = Some (r_runtimeMs r), x_compileOutput = []\<rparr>) in
      if r_timedOut r then failed TIME_LIMIT_EXCEEDED ''Time limit exceeded''
      else if r_oom r then failed MEMORY_LIMIT_EXCEEDED ''Memory limit exceeded''
      else if r_outputLimit r then
        failed OUTPUT_LIMIT_EXCEEDED ''Output limit exceeded: program generated excessive stdout/stderr''
      else if \<not> r_success r then
        failed RUNTIME_ERROR
          (case r_signal r of
             Some sg \<Rightarrow> if sg = [] then ''Process exited with code '' @ show_code (r_exitCode r)
                        else ''Process terminated by signal: '' @ sg
           | None \<Rightarrow> ''Process exited with code '' @ show_code (r_exitCode r))
      else \<lparr>x_verdict = ev_verdict (evaluateOutput (JStr (r_stdout r)) expectedOutput),
             x_stdout = r_stdout r, x_stderr = r_stderr r,
             x_runtimeMs = Some (r_runtimeMs r), x_compileOutput = []\<rparr>)"

definition isLocalMode :: "'w engine_env \<Rightarrow> bool" where
  "isLocalMode E = (e_executionMode E = Some ''local'')"

text \<open>\<open>request.testCase.input ?? ''\<close> and the source code of a validated request.\<close>

definition string_or_empty :: "jsval \<Rightarrow> string" where
  "string_or_empty v = (case as_string v of Some s \<Rightarrow> s | None \<Rightarrow> [])"

definition compileStep ::
  "'w engine_env \<Rightarrow> string \<Rightarrow> language_config \<Rightarrow> ('w engine_state, (bool \<times> string)) pio" where
  "compileStep E workspaceDir cfg =
     (if isLocalMode E then
        pawait (compileCpp E workspaceDir cfg) (\<lambda>c. prompt (ret (c_success c, c_stderr c)))
      else
        pawait (runInDockerSandbox E default_caps workspaceDir (case compiler cfg of Some c \<Rightarrow> c | None \<Rightarrow> ''null'')
            (compileArgs cfg) [] (COMPILE_TIMEOUT_MS LIMITS))
          (\<lambda>r. prompt (ret (r_success r, r_stderr r))))"

definition runStep ::
  "'w engine_env \<Rightarrow> string \<Rightarrow> language_config \<Rightarrow> string \<Rightarrow> ('w engine_state, run_result) pio" where
  "runStep E workspaceDir cfg input =
     (if isLocalMode E
      then runProcess E workspaceDir (command cfg) (cmdArgs cfg) input (EXECUTION_TIMEOUT_MS LIMITS)
      else runInDockerSandbox E default_caps workspaceDir (command cfg) (cmdArgs cfg) input (EXECUTION_TIMEOUT_MS LIMITS))"

text \<open>The body of the \<open>try\<close> once the workspace exists (steps 5 to 13).\<close>

definition runInWorkspace ::
  "'w engine_env \<Rightarrow> language_config \<Rightarrow> jsval \<Rightarrow> string \<Rightarrow> ('w engine_state, exec_result) pio" where
  "runInWorkspace E cfg request workspaceDir =
     pawait (prompt (in_os (writeSourceFile E workspaceDir (sourceFilename cfg)
               (string_or_empty (field request ''sourceCode''))))) (\<lambda>_.
     pawait (if isCompiled cfg then compileStep E workspaceDir cfg else prompt (ret (True, []))) (\<lambda>(compiled, errs).
       if \<not> compiled then
         prompt (ret \<lparr>x_verdict = COMPILATION_ERROR, x_stdout = [], x_stderr = errs,
                      x_runtimeMs = None, x_compileOutput = errs\<rparr>)
       else
         pawait (runStep E workspaceDir cfg (string_or_empty (field (field request ''testCase'') ''input'')))
           (\<lambda>r. prompt (ret (judge r (field (field request ''testCase'') ''expectedOutput''))))))"

text \<open>\<open>workspaceDir\<close> is still \<open>null\<close> when \<open>createWorkspace\<close> throws: nothing to clean up.\<close>

definition execute :: "'w engine_env \<Rightarrow> jsval \<Rightarrow> ('w engine_state, exec_result) pio" where
  "execute E request =
     (case validateExecutionRequest request of
        Inl e \<Rightarrow> prompt (throw e)
      | Inr _ \<Rightarrow>
         (case resolveLanguage (field request ''language'') of
            Inl e \<Rightarrow> prompt (throw e)
          | Inr cfg \<Rightarrow>
             pawait (prompt (if isLocalMode E then ret True else checkDockerAvailable E)) (\<lambda>available.
             if \<not> available then prompt (throw unavailable)
             else pawait (prompt (in_os (createWorkspace E))) (\<lambda>workspaceDir.
               pfinally (runInWorkspace E cfg request workspaceDir)
                 (in_os (cleanupWorkspace E workspaceDir))))))"

section \<open>The runtime classes\<close>

text \<open>
  A missing export: \<open>docker.sandbox.js\<close> exports neither \<open>runSandbox\<close> nor
  \<open>forceCleanupContainer\<close>, so calling them is a \<open>TypeError\<close>.
\<close>

definition docker_sandbox_exports :: "string list" where
  "docker_sandbox_exports = [''runInDockerSandbox'', ''checkDockerAvailable'']"

definition not_a_function :: "string \<Rightarrow> err" where
  "not_a_function f = js_error ''TypeError'' (''dockerSandbox.'' @ f @ '' is not a function'')"

definition call_export :: "string \<Rightarrow> ('s, 'a) io \<Rightarrow> ('s, 'a) io" where
  "call_export f m = (if f \<in> set docker_sandbox_exports then m else throw (not_a_function f))"

datatype runtime = DockerRuntime | GVisorRuntime | FirecrackerRuntime

definition getName :: "runtime \<Rightarrow> string" where
  "getName R = (case R of DockerRuntime \<Rightarrow> ''docker'' | GVisorRuntime \<Rightarrow> ''gvisor'' | FirecrackerRuntime \<Rightarrow> ''firecracker'')"

text \<open>The probes of the host: \<open>runsc --version\<close>, \<open>/dev/kvm\<close>, \<open>firecracker --version\<close>.\<close>

record 'w probes =
  runscVersion :: "('w, bool) io"
  devKvmExists :: "('w, bool) io"
  firecrackerVersion :: "('w, bool) io"

definition isAvailable :: "'w engine_env \<Rightarrow> 'w probes \<Rightarrow> runtime \<Rightarrow> ('w engine_state, bool) io" where
  "isAvailable E P R = (case R of
     DockerRuntime \<Rightarrow> call_export ''checkDockerAvailable'' (checkDockerAvailable E)
   | GVisorRuntime \<Rightarrow> in_os (runscVersion P)
   | FirecrackerRuntime \<Rightarrow> await (in_os (devKvmExists P)) (\<lambda>k.
       if \<not> k then ret False else in_os (firecrackerVersion P)))"

definition runSandbox :: "'w engine_env \<Rightarrow> 'w probes \<Rightarrow> runtime \<Rightarrow> ('w engine_state, run_result) io \<Rightarrow> ('w engine_state, run_result) io" where
  "runSandbox E P R inner = (case R of
     DockerRuntime \<Rightarrow> call_export ''runSandbox'' inner
   | GVisorRuntime \<Rightarrow> await (isAvailable E P R) (\<lambda>a.
       if \<not> a then throw (ExecutionEngineError
         ''gVisor (runsc) runtime is not configured or installed in the host environment. In production, gVisor requires the runsc binary registered as a containerd/Docker runtime.'')
       else call_export ''runSandbox'' inner)
   | FirecrackerRuntime \<Rightarrow> await (isAvailable E P R) (\<lambda>a.
       if \<not> a then throw (ExecutionEngineError
         ''Firecracker microVM runtime is not available. Firecracker requires host hardware virtualization (/dev/kvm) and the firecracker jailer binary.'')
       else throw (ExecutionEngineError
         ''Firecracker microVM execution pipeline is an experimental production pattern requiring dedicated bare-metal nodes.'')))"

definition cleanupRuntime :: "runtime \<Rightarrow> ('s, unit) io \<Rightarrow> ('s, unit) io" where
  "cleanupRuntime R inner = (case R of
     DockerRuntime \<Rightarrow> call_export ''forceCleanupContainer'' inner
   | GVisorRuntime \<Rightarrow> call_export ''forceCleanupContainer'' inner
   | FirecrackerRuntime \<Rightarrow> ret ())"

section \<open>What the code relies on of the host\<close>

text \<open>
  On top of the file system: probing Docker and drawing random bytes touch no file, and a
  container changes only what lies below the one directory that is mounted into it.
\<close>

locale docker_host = filesystem E entries
  for E :: "'w engine_env" and entries :: "'w \<Rightarrow> string set" +
  assumes dockerInfo_keeps: "keeps entries (e_dockerInfo E)"
    and randomHex_keeps: "keeps entries (e_randomHex E)"
    and container_writes: "e_spawn E ''docker'' (dockerArgs caps n d img cmd args) None input ms w = (r, w') \<Longrightarrow>
      {q \<in> entries w'. \<not> under d q} = {q \<in> entries w. \<not> under d q}"
begin

text \<open>The paths outside a directory.\<close>

definition outside :: "string \<Rightarrow> 'w engine_state \<Rightarrow> string set" where
  "outside d s = {q \<in> entries (os s). \<not> under d q}"

lemma keeps_outside_in_os:
  "(\<And>w r w'. m w = (r, w') \<Longrightarrow> {q \<in> entries w'. \<not> under d q} = {q \<in> entries w. \<not> under d q}) \<Longrightarrow>
   keeps (outside d) (in_os m)"
  unfolding keeps_def outside_def by (metis in_osD prod.collapse)

lemma keeps_check: "keeps (outside d) (checkDockerAvailable E)"
proof -
  have "keeps (outside d) (in_os (e_dockerInfo E))"
    using dockerInfo_keeps by (intro keeps_outside_in_os) (auto dest: keepsD)
  moreover have "keeps (outside d) (modify_state (\<lambda>s. s\<lparr>dockerCache := c\<rparr>))" for c
    by (simp add: keeps_def outside_def)
  ultimately show ?thesis
    unfolding checkDockerAvailable_def by (auto intro!: keeps_intros split: option.split)
qed

lemma keeps_docker: "keeps (outside d) (runInDockerSandbox E caps d cmd args input ms)"
proof -
  have "keeps (outside d) (in_os (e_randomHex E))"
    using randomHex_keeps by (intro keeps_outside_in_os) (auto dest: keepsD)
  moreover have "keeps (outside d) (spawn_and_wait E f ''docker'' (dockerArgs caps n d img cmd args) None input ms h)"
    for f n img h
  proof -
    have "keeps (outside d) (in_os (e_spawn E ''docker'' (dockerArgs caps n d img cmd args) None input ms))"
      by (rule keeps_outside_in_os) (rule container_writes)
    then show ?thesis
      by (auto simp: keeps_def spawn_and_wait_def split: prod.splits sum.splits) (metis snd_conv)+
  qed
  ultimately show ?thesis
    unfolding runInDockerSandbox_def by (auto intro!: keeps_intros keeps_check)
qed

lemma keeps_write:
  assumes "normal segs" "segs \<noteq> []" "f \<in> {''main.cpp'', ''main.py'', ''main.js''}"
  shows "keeps (outside (abs_path segs)) (in_os (writeSourceFile E (abs_path segs) f src))"
proof (rule keeps_outside_in_os)
  fix w r w'
  assume run: "writeSourceFile E (abs_path segs) f src w = (r, w')"
  have f: "normal [f]" using assms(3) by (elim insertE emptyE; simp add: normal_def)
  have "path_basename ''main.cpp'' = ''main.cpp''" "path_basename ''main.py'' = ''main.py''"
    "path_basename ''main.js'' = ''main.js''" by code_simp+
  with assms(3) have g: "path_basename f = f" by blast
  let ?p = "abs_path (segs @ [f])"
  from run obtain r1 where "f_writeFile E ?p src 438 w = (r1, w')"
    by (auto simp: writeSourceFile_def Let_def g join_abs_path [OF assms(1) f] await_def split: prod.splits sum.splits)
  then have "entries w' = entries w \<or> entries w' = insert ?p (entries w)" by (rule writeFile_adds)
  moreover have "under (abs_path segs) ?p" using inside_abs_path [OF assms(2)] by (simp add: under_def)
  ultimately show "{q \<in> entries w'. \<not> under (abs_path segs) q} = {q \<in> entries w. \<not> under (abs_path segs) q}"
    by auto
qed

lemma keeps_body:
  assumes "\<not> isLocalMode E" "normal segs" "segs \<noteq> []" "LANGUAGE_CONFIGS l = Some cfg"
  shows "keeps (outside (abs_path segs)) (runInWorkspace E cfg request (abs_path segs))"
proof -
  have "sourceFilename cfg \<in> {''main.cpp'', ''main.py'', ''main.js''}"
    using LANGUAGE_CONFIGS_command [OF assms(4)] by blast
  note w = keeps_write [OF assms(2,3) this]
  show ?thesis
    unfolding runInWorkspace_def compileStep_def runStep_def
    using assms(1) by (auto intro!: keeps_intros w keeps_docker split: prod.splits)
qed

text \<open>Making the workspace, when no call of the host fails.\<close>

lemma createWorkspace_effect:
  assumes base: "WORKSPACE_BASE_DIR E \<noteq> ''/''"
    and chmod: "\<And>p m w. \<exists>w'. f_chmod E p m w = (Inr (), w')"
    and run: "createWorkspace E w = (Inr d, w')"
  shows "\<exists>segs. normal segs \<and> segs \<noteq> [] \<and> d = abs_path segs \<and> managed E d \<and>
    (\<forall>q \<in> entries w. \<not> under d q) \<and> entries w \<subseteq> entries w' \<and>
    (\<forall>q \<in> entries w'. \<not> under d q \<longrightarrow> q \<in> entries w \<or> under q (WORKSPACE_BASE_DIR E))"
proof -
  obtain r0 w0 where base_dir: "ensureBaseDir E w = (r0, w0)" by fastforce
  note eff = ensureBaseDir_effect [OF base_dir]
  obtain r1 w1 where mk: "f_mkdtemp E (path_join (WORKSPACE_BASE_DIR E) ''sbx-'') w0 = (r1, w1)" by fastforce
  from run base_dir mk eff have r1: "r1 = Inr d"
    by (cases r1) (auto simp: createWorkspace_def await_def split: prod.splits sum.splits)
  obtain w2 where ch: "f_chmod E d 511 w1 = (Inr (), w2)" using chmod by blast
  from run base_dir mk eff r1 ch have "w' = w2" by (simp add: createWorkspace_def await_def)
  moreover have "entries w2 = entries w1" using chmod_keeps ch by (rule keepsD)
  ultimately have w': "entries w' = insert d (entries w0)"
    using mkdtemp_workspace [OF base mk [unfolded r1]] by simp
  from mkdtemp_workspace [OF base mk [unfolded r1]] obtain segs where
    d: "normal segs" "segs \<noteq> []" "d = abs_path segs" "managed E d" "\<forall>q \<in> entries w0. \<not> under d q"
    by blast
  show ?thesis
    by (rule exI [of _ segs]) (use d w' eff in auto)
qed

lemma createWorkspace_err:
  assumes "\<And>p m w. \<exists>w'. f_chmod E p m w = (Inr (), w')" and "createWorkspace E w = (Inl e, w')"
  shows "entries w \<subseteq> entries w' \<and> (\<forall>q \<in> entries w'. q \<in> entries w \<or> under q (WORKSPACE_BASE_DIR E))"
proof -
  obtain r0 w0 where base_dir: "ensureBaseDir E w = (r0, w0)" by fastforce
  note eff = ensureBaseDir_effect [OF base_dir]
  obtain r1 w1 where mk: "f_mkdtemp E (path_join (WORKSPACE_BASE_DIR E) ''sbx-'') w0 = (r1, w1)" by fastforce
  have "r1 = Inl e \<and> w1 = w'"
  proof (cases r1)
    case (Inr d)
    obtain w2 where "f_chmod E d 511 w1 = (Inr (), w2)" using assms(1) by blast
    with Inr assms(2) base_dir eff mk show ?thesis by (simp add: createWorkspace_def await_def)
  next
    case (Inl e')
    with assms(2) base_dir eff mk show ?thesis by (simp add: createWorkspace_def await_def)
  qed
  with mkdtemp_err mk eff show ?thesis by auto
qed

lemma execute_leaves_no_workspace:
  assumes mode: "\<not> isLocalMode E" and base: "WORKSPACE_BASE_DIR E \<noteq> ''/''"
    and works: "\<And>p m w. \<exists>w'. f_chmod E p m w = (Inr (), w')"
      "\<And>p w. \<exists>w'. f_unlink E p w = (Inr (), w')" "\<And>p w. \<exists>w'. f_rmrf E p w = (Inr (), w')"
    and run: "execute E request s = (Some r, s')"
  shows "entries (os s) \<subseteq> entries (os s') \<and>
    (\<forall>q \<in> entries (os s'). q \<in> entries (os s) \<or> under q (WORKSPACE_BASE_DIR E))"
proof -
  have nothing: ?thesis if "entries (os s') = entries (os s)" using that by simp
  show ?thesis
  proof (cases "validateExecutionRequest request")
    case (Inl e)
    with run nothing show ?thesis by (simp add: execute_def)
  next
    case valid: (Inr u)
    show ?thesis
    proof (cases "resolveLanguage (field request ''language'')")
      case (Inl e)
      with valid run nothing show ?thesis by (simp add: execute_def)
    next
      case cfg: (Inr cfg)
      then obtain l where l: "LANGUAGE_CONFIGS l = Some cfg" by (auto simp: resolveLanguage_Inr)
      obtain a s1 where check: "checkDockerAvailable E s = (a, s1)" by fastforce
      have same: "entries (os s1) = entries (os s)"
        using check dockerInfo_keeps
        by (auto simp: checkDockerAvailable_def await_def in_os_run keeps_def split: option.splits sum.splits prod.splits)
      let ?go = "pawait (prompt (in_os (createWorkspace E))) (\<lambda>d.
               pfinally (runInWorkspace E cfg request d) (in_os (cleanupWorkspace E d)))"
      from run valid cfg mode check have "(s' = s1) \<or> ?go s1 = (Some r, s')"
        by (auto simp: execute_def pawait_def prompt_def split: sum.splits if_splits)
      then consider "s' = s1" | "?go s1 = (Some r, s')" by blast
      then show ?thesis
      proof cases
        case 1
        with same nothing show ?thesis by simp
      next
        case 2
        then show ?thesis
        proof (cases rule: pawait_cases)
          case (err e)
          then have "createWorkspace E (os s1) = (Inl e, os s')" by (auto dest: in_osD)
          from createWorkspace_err [OF works(1) this] same show ?thesis by simp
        next
          case (ok d s2)
          then have mk: "createWorkspace E (os s1) = (Inr d, os s2)" by (auto dest: in_osD)
          from createWorkspace_effect [OF base works(1) mk] obtain segs where
            d: "normal segs" "segs \<noteq> []" "d = abs_path segs" "managed E d"
            and new: "\<forall>q \<in> entries (os s1). \<not> under d q" "entries (os s1) \<subseteq> entries (os s2)"
              "\<forall>q \<in> entries (os s2). \<not> under d q \<longrightarrow> q \<in> entries (os s1) \<or> under q (WORKSPACE_BASE_DIR E)"
            by blast
          obtain r3 s3 where body: "runInWorkspace E cfg request d s2 = (r3, s3)" by fastforce
          have out: "outside d s3 = outside d s2"
            using keepsD [OF keeps_body [OF mode d(1,2) l] body [unfolded d(3)]] by (simp add: d(3))
          obtain r4 w4 where clean: "cleanupWorkspace E d (os s3) = (r4, w4)" by fastforce
          have resolved: "path_resolve (f_cwd E) d = d" "d \<noteq> []"
            using d by (simp_all add: resolve_abs_path) (simp add: abs_path_def)
          from cleanup_complete [OF resolved(2,1) d(4) works(2,3) clean] cleanup_removes [OF clean] resolved
          have w4: "\<forall>q \<in> entries w4. \<not> under d q" "entries w4 \<subseteq> entries (os s3)"
            "\<forall>q \<in> entries (os s3) - entries w4. under d q" and r4: "r4 = Inr ()" by auto
          from ok(2) body clean r4 have "os s' = w4"
            by (auto simp: pfinally_def in_os_run split: option.splits)
          moreover have "entries w4 = outside d s2"
            using w4 out by (auto simp: outside_def)
          ultimately show ?thesis using new same by (auto simp: outside_def)
        qed simp
      qed
    qed
  qed
qed

end

section \<open>Properties\<close>

text \<open>C7: in the mandatory Docker mode an execution leaves no workspace behind, however it ends
  (verdict, validation error, compiler failure, sandbox failure): once it has settled, every path
  that existed still exists and the only new ones are the workspace base directory and its
  parents. This holds when the host's \<open>chmod\<close>, \<open>unlink\<close> and \<open>rm\<close> work.\<close>

theorem execute_cleans_up:
  assumes "docker_host E entries" and "\<not> isLocalMode E" and "WORKSPACE_BASE_DIR E \<noteq> ''/''"
    and "\<forall>p m w. \<exists>w'. f_chmod E p m w = (Inr (), w')"
    and "\<forall>p w. \<exists>w'. f_unlink E p w = (Inr (), w')" and "\<forall>p w. \<exists>w'. f_rmrf E p w = (Inr (), w')"
    and "execute E request s = (Some r, s')"
  shows "entries (os s) \<subseteq> entries (os s') \<and>
    (\<forall>q \<in> entries (os s'). q \<in> entries (os s) \<or> under q (WORKSPACE_BASE_DIR E))"
  using docker_host.execute_leaves_no_workspace [OF assms(1-3) _ _ _ assms(7)] assms(4-6) by blast

text \<open>No runtime object runs anything: whatever the host offers, \<open>runSandbox\<close> of each of the
  three classes throws, and the engine itself never goes through them.\<close>

theorem runSandbox_never_runs: "\<exists>e s'. runSandbox E P R inner s = (Inl e, s')"
  by (cases R) (auto simp: runSandbox_def call_export_def docker_sandbox_exports_def await_def
      split: prod.splits sum.splits if_splits)

text \<open>The verdict of a finished run follows the precedence time limit, memory limit, output
  limit, runtime error; only a run with none of them is compared with the expected output, and it
  is accepted exactly when the trimmed lines agree.\<close>

theorem judge_verdict:
  "x_verdict (judge r (JStr e)) =
     (if r_timedOut r then TIME_LIMIT_EXCEEDED else if r_oom r then MEMORY_LIMIT_EXCEEDED
      else if r_outputLimit r then OUTPUT_LIMIT_EXCEEDED else if \<not> r_success r then RUNTIME_ERROR
      else if trimmed_lines (r_stdout r) = trimmed_lines e then ACCEPTED else WRONG_ANSWER)"
  by (simp add: judge_def Let_def evaluateOutput_def normalizeOutput_def normalizeString_inject)

lemma string_guard: "(\<not> (\<not> truthy v \<or> as_string v = None)) = (\<exists>l. v = JStr l \<and> l \<noteq> [])"
  by (cases v) auto

lemma source_guard:
  "(\<not> (case as_string v of None \<Rightarrow> True | Some s \<Rightarrow> js_trim s = []) \<and>
    \<not> (case as_string v of None \<Rightarrow> True | Some s \<Rightarrow> 65536 < utf8_length s) \<and> Q) =
   ((\<exists>c. v = JStr c \<and> js_trim c \<noteq> [] \<and> utf8_length c \<le> 65536) \<and> Q)"
  by (cases v) auto

lemma optional_string_guard:
  "(\<not> (v \<noteq> JUndefined \<and> as_string v = None)) = (v = JUndefined \<or> (\<exists>i. v = JStr i))"
  by (cases v) auto

lemma object_guard: "field v k = JStr e \<Longrightarrow> (\<not> (\<not> truthy v \<or> \<not> is_object v)) = (\<exists>fs. v = JObj fs)"
  by (cases v) auto

lemma as_string_not_None: "(\<not> as_string v = None) = (\<exists>e. v = JStr e)"
  by (cases v) auto

lemma validateExecutionRequest_ok:
  "validateExecutionRequest r = Inr u \<longleftrightarrow>
     (\<exists>fs. r = JObj fs) \<and> (\<exists>l. field r ''language'' = JStr l \<and> l \<noteq> []) \<and>
     (\<exists>c. field r ''sourceCode'' = JStr c \<and> js_trim c \<noteq> [] \<and> utf8_length c \<le> 65536) \<and>
     (\<exists>t. field r ''testCase'' = JObj t) \<and>
     (field (field r ''testCase'') ''input'' = JUndefined \<or> (\<exists>i. field (field r ''testCase'') ''input'' = JStr i)) \<and>
     (\<exists>e. field (field r ''testCase'') ''expectedOutput'' = JStr e)"
  (is "_ = (?O \<and> ?L \<and> ?S \<and> ?T \<and> ?I \<and> ?E)")
proof -
  have "validateExecutionRequest r = Inr u \<longleftrightarrow>
      \<not> (\<not> truthy r \<or> \<not> is_object r) \<and> ?L \<and> ?S \<and>
      \<not> (\<not> truthy (field r ''testCase'') \<or> \<not> is_object (field r ''testCase'')) \<and> ?I \<and> ?E"
    unfolding validateExecutionRequest_def Let_def guard_Inr guard_end LIMITS_simps
      string_guard source_guard optional_string_guard as_string_not_None by (simp only: HOL.simp_thms)
  moreover have "?L \<Longrightarrow> (\<not> (\<not> truthy r \<or> \<not> is_object r)) = ?O" by (elim exE conjE) (rule object_guard)
  moreover have "?E \<Longrightarrow> (\<not> (\<not> truthy (field r ''testCase'') \<or> \<not> is_object (field r ''testCase''))) = ?T"
    by (elim exE) (rule object_guard)
  ultimately show ?thesis by argo
qed

section \<open>Which processes are started\<close>

definition engine_commands :: "(string \<times> string list) list" where
  "engine_commands =
     [(''g++'', [''-O2'', ''-std=c++17'', ''main.cpp'', ''-o'', ''main'']),
      (''./main'', []), (''python3'', [''main.py'']), (''node'', [''main.js''])]"

text \<open>The same host, except that any process other than a sandboxed engine command is replaced.\<close>

definition confined :: "'w engine_env \<Rightarrow> string \<Rightarrow> string list \<Rightarrow> bool" where
  "confined E p a \<longleftrightarrow> p = ''docker'' \<and> (\<exists>n d. \<exists>(cmd, args) \<in> set engine_commands.
     a = dockerArgs default_caps (''codearena-sbx-'' @ n) d (SANDBOX_IMAGE E) cmd args)"

definition sandbox_only ::
  "(string \<Rightarrow> string list \<Rightarrow> string option \<Rightarrow> string \<Rightarrow> nat \<Rightarrow> ('w, child_event list) io) \<Rightarrow> 'w engine_env \<Rightarrow> 'w engine_env" where
  "sandbox_only other E =
     E\<lparr>e_spawn := (\<lambda>p a c i t. if confined E p a then e_spawn E p a c i t else other p a c i t)\<rparr>"

lemma sandbox_only_sel:
  "e_executionMode (sandbox_only other E) = e_executionMode E"
  "e_sandboxImage (sandbox_only other E) = e_sandboxImage E"
  "e_dockerInfo (sandbox_only other E) = e_dockerInfo E"
  "e_randomHex (sandbox_only other E) = e_randomHex E"
  "f_workspaceBase (sandbox_only other E) = f_workspaceBase E"
  "f_cwd (sandbox_only other E) = f_cwd E"
  "f_tmpdir (sandbox_only other E) = f_tmpdir E"
  "f_mkdirp (sandbox_only other E) = f_mkdirp E"
  "f_chmod (sandbox_only other E) = f_chmod E"
  "f_mkdtemp (sandbox_only other E) = f_mkdtemp E"
  "f_writeFile (sandbox_only other E) = f_writeFile E"
  "f_lstatIsSymlink (sandbox_only other E) = f_lstatIsSymlink E"
  "f_unlink (sandbox_only other E) = f_unlink E"
  "f_rmrf (sandbox_only other E) = f_rmrf E"
  by (simp_all add: sandbox_only_def)

lemma sandbox_only_keeps:
  "isLocalMode (sandbox_only other E) = isLocalMode E"
  "SANDBOX_IMAGE (sandbox_only other E) = SANDBOX_IMAGE E"
  "checkDockerAvailable (sandbox_only other E) = checkDockerAvailable E"
  "createWorkspace (sandbox_only other E) = createWorkspace E"
  "writeSourceFile (sandbox_only other E) d f src = writeSourceFile E d f src"
  "cleanupWorkspace (sandbox_only other E) d = cleanupWorkspace E d"
  unfolding isLocalMode_def SANDBOX_IMAGE_def checkDockerAvailable_def
      createWorkspace_def ensureBaseDir_def WORKSPACE_BASE_DIR_def
      writeSourceFile_def cleanupWorkspace_def managed_def sandbox_only_sel
  by (rule refl)+

lemma sandbox_only_docker:
  assumes "(cmd, args) \<in> set engine_commands"
  shows "runInDockerSandbox (sandbox_only other E) default_caps d cmd args input ms = runInDockerSandbox E default_caps d cmd args input ms"
proof -
  have "confined E ''docker'' (dockerArgs default_caps (''codearena-sbx-'' @ h) d (SANDBOX_IMAGE E) cmd args)" for h
    using assms by (auto simp: confined_def)
  then have spawn: "spawn_and_wait (sandbox_only other E) f ''docker'' (dockerArgs default_caps (''codearena-sbx-'' @ h) d (SANDBOX_IMAGE E) cmd args) c i t k
      = spawn_and_wait E f ''docker'' (dockerArgs default_caps (''codearena-sbx-'' @ h) d (SANDBOX_IMAGE E) cmd args) c i t k"
    for f h c i t and k :: "child_event list \<Rightarrow> (err + run_result) option"
    by (simp add: spawn_and_wait_def sandbox_only_def)
  show ?thesis
    unfolding runInDockerSandbox_def sandbox_only_keeps sandbox_only_sel spawn by (rule refl)
qed

lemma LANGUAGE_CONFIGS_engine_commands:
  assumes "LANGUAGE_CONFIGS l = Some cfg"
  shows "(command cfg, cmdArgs cfg) \<in> set engine_commands"
    and "isCompiled cfg \<Longrightarrow> (case compiler cfg of Some c \<Rightarrow> c | None \<Rightarrow> ''null'', compileArgs cfg) \<in> set engine_commands"
proof -
  note c = LANGUAGE_CONFIGS_command [OF assms]
  from c show "(command cfg, cmdArgs cfg) \<in> set engine_commands"
    unfolding engine_commands_def by auto
  from c show "isCompiled cfg \<Longrightarrow> (case compiler cfg of Some c \<Rightarrow> c | None \<Rightarrow> ''null'', compileArgs cfg) \<in> set engine_commands"
    unfolding engine_commands_def by simp
qed

section \<open>Settling\<close>

text \<open>A host all of whose children report an error or close.\<close>

definition children_settle :: "'w engine_env \<Rightarrow> bool" where
  "children_settle E \<longleftrightarrow> (\<forall>p a c i t w es w'. e_spawn E p a c i t w = (Inr es, w') \<longrightarrow> (\<exists>e\<in>set es. settles e))"

lemma compile_on_settled: "cs_outcome s \<noteq> None \<Longrightarrow> cs_outcome (compile_on dir cfg e s) \<noteq> None"
  by (cases e) (auto simp: compile_settle_def)

lemma compile_fold_stays: "cs_outcome s \<noteq> None \<Longrightarrow> cs_outcome (fold (compile_on dir cfg) es s) \<noteq> None"
  by (induction es arbitrary: s) (use compile_on_settled in auto)

lemma compile_run_settles: "e \<in> set es \<Longrightarrow> settles e \<Longrightarrow> cs_outcome (fold (compile_on dir cfg) es s) \<noteq> None"
proof (induction es arbitrary: s)
  case (Cons e' es)
  have "cs_outcome (compile_on dir cfg e s) \<noteq> None" if "settles e" for s
    using that by (cases e) (auto simp: compile_settle_def split: option.splits)
  with Cons compile_fold_stays show ?case by auto
qed simp

lemma process_run_settles: "e \<in> set es \<Longrightarrow> settles e \<Longrightarrow> rs_outcome (process_run dir es) \<noteq> None"
proof -
  assume e: "e \<in> set es" "settles e"
  then obtain f where f: "find settles es = Some f" by (metis find_settles_None option.exhaust)
  then have "settles f" by (blast dest: find_settlesD)
  then have "rs_outcome (process_on dir f (run_data es)) \<noteq> None" by (cases f) auto
  with f show ?thesis by (simp add: process_run_outcome)
qed

lemma settled_spawn_and_wait:
  fixes E :: "'w engine_env"
  assumes "children_settle E" and "\<And>es. \<exists>e\<in>set es. settles e \<Longrightarrow> h es \<noteq> None"
  shows "settled (spawn_and_wait E f p a c i t h)"
  unfolding settled_def
proof
  fix s :: "'w engine_state"
  obtain r w' where run: "e_spawn E p a c i t (os s) = (r, w')" by fastforce
  show "fst (spawn_and_wait E f p a c i t h s) \<noteq> None"
  proof (cases r)
    case (Inr es)
    with run assms(1) have "\<exists>e\<in>set es. settles e" unfolding children_settle_def by blast
    with assms(2) run Inr show ?thesis by (simp add: spawn_and_wait_def in_os_run)
  qed (simp add: spawn_and_wait_def in_os_run run)
qed

lemma settled_runInDockerSandbox: "children_settle E \<Longrightarrow> settled (runInDockerSandbox E caps d cmd args i t)"
  unfolding runInDockerSandbox_def
  using docker_run_decided by (fastforce intro!: settled_pawait settled_spawn_and_wait)

lemma settled_runInWorkspace: "children_settle E \<Longrightarrow> settled (runInWorkspace E cfg request d)"
proof -
  assume c: "children_settle E"
  have "settled (compileCpp E d cfg)"
    unfolding compileCpp_def compile_run_def
    by (rule settled_spawn_and_wait [OF c]) (metis compile_run_settles)
  moreover have "settled (runProcess E d cmd args i t)" for cmd args i t
    unfolding runProcess_def by (rule settled_spawn_and_wait [OF c]) (metis process_run_settles)
  ultimately show ?thesis using settled_runInDockerSandbox [OF c]
    unfolding runInWorkspace_def compileStep_def runStep_def
    by (auto intro!: settled_pawait split: prod.splits)
qed

text \<open>C6: in Docker mode untrusted code never runs on the host: replacing every process other than
  \<open>docker run\<close> with the fixed isolation flags and one of the four trusted commands changes
  nothing in what an execution does.\<close>

theorem execute_only_in_sandbox:
  assumes "\<not> isLocalMode E"
  shows "execute (sandbox_only other E) request = execute E request"
proof -
  have body: "runInWorkspace (sandbox_only other E) cfg request d = runInWorkspace E cfg request d"
    if "LANGUAGE_CONFIGS l = Some cfg" for l cfg d
  proof -
    note cmds = LANGUAGE_CONFIGS_engine_commands [OF that]
    have run: "runStep (sandbox_only other E) d cfg input = runStep E d cfg input" for input
      using assms cmds(1) by (simp add: runStep_def sandbox_only_keeps sandbox_only_docker)
    have comp: "(if isCompiled cfg then compileStep (sandbox_only other E) d cfg else prompt (ret (True, []))) =
        (if isCompiled cfg then compileStep E d cfg else prompt (ret (True, [])))"
      using assms cmds(2) by (simp add: compileStep_def sandbox_only_keeps sandbox_only_docker)
    show ?thesis
      unfolding runInWorkspace_def sandbox_only_keeps run comp by (rule refl)
  qed
  show ?thesis
  proof (cases "resolveLanguage (field request ''language'')")
    case (Inr cfg)
    then obtain l where "LANGUAGE_CONFIGS l = Some cfg" by (auto simp: resolveLanguage_Inr)
    note same = body [OF this]
    show ?thesis
      unfolding execute_def Inr sum.case sandbox_only_keeps same by (rule refl)
  next
    case (Inl e)
    show ?thesis
      unfolding execute_def Inl sum.case by (rule refl)
  qed
qed

lemma execute_returns: "children_settle E \<Longrightarrow> \<exists>r s'. execute E request s = (Some r, s')"
proof -
  assume "children_settle E"
  then have "settled (execute E request)"
    unfolding execute_def
    by (auto intro!: settled_pawait settled_pfinally settled_runInWorkspace split: sum.split)
  then show ?thesis unfolding settled_def by (metis not_None_eq surj_pair fst_conv)
qed

text \<open>
  Children that are started and never close nor report an error: they may write, and the time
  limits may fire. What settles all the same has started none of them: it does the same with any
  other \<open>spawn\<close>.
\<close>

definition children_hang :: "'w engine_env \<Rightarrow> bool" where
  "children_hang E \<longleftrightarrow> (\<forall>p a c i t w. \<exists>es w'. e_spawn E p a c i t w = (Inr es, w') \<and> (\<forall>e\<in>set es. \<not> settles e))"

abbreviation spawning ::
  "(string \<Rightarrow> string list \<Rightarrow> string option \<Rightarrow> string \<Rightarrow> nat \<Rightarrow> ('w, child_event list) io) \<Rightarrow> 'w engine_env \<Rightarrow> 'w engine_env" where
  "spawning other E \<equiv> E\<lparr>e_spawn := other\<rparr>"

definition childless :: "('s, 'a) pio \<Rightarrow> ('s, 'a) pio \<Rightarrow> bool" where
  "childless m m' \<longleftrightarrow> (\<forall>s r s'. m s = (Some r, s') \<longrightarrow> m' s = (Some r, s'))"

lemma childless_refl [simp]: "childless m m"
  by (simp add: childless_def)

lemma childless_pawait: "childless m m' \<Longrightarrow> (\<And>a. childless (k a) (k' a)) \<Longrightarrow> childless (pawait m k) (pawait m' k')"
  unfolding childless_def
proof (intro allI impI)
  fix s r s'
  assume m: "\<forall>s r s'. m s = (Some r, s') \<longrightarrow> m' s = (Some r, s')"
    and k: "\<And>a. \<forall>s r s'. k a s = (Some r, s') \<longrightarrow> k' a s = (Some r, s')"
    and run: "pawait m k s = (Some r, s')"
  from run show "pawait m' k' s = (Some r, s')"
  proof (cases rule: pawait_cases)
    case (err e)
    with m have "m' s = (Some (Inl e), s')" by blast
    with err show ?thesis by (simp add: pawait_def)
  next
    case (ok a s1)
    with m k have "m' s = (Some (Inr a), s1)" "k' a s1 = (Some r, s')" by blast+
    then show ?thesis by (simp add: pawait_def)
  qed simp
qed

lemma childless_pfinally: "childless m m' \<Longrightarrow> childless (pfinally m f) (pfinally m' f)"
  unfolding childless_def pfinally_def by (fastforce split: prod.splits option.splits)

lemma childless_spawn:
  fixes E :: "'w engine_env"
  assumes hang: "children_hang E" and silent: "\<And>es. \<forall>e\<in>set es. \<not> settles e \<Longrightarrow> h es = None"
  shows "childless (spawn_and_wait E f p a c i t h) m"
  unfolding childless_def
proof (intro allI impI)
  fix s :: "'w engine_state" and r s'
  assume "spawn_and_wait E f p a c i t h s = (Some r, s')"
  moreover obtain es w' where "e_spawn E p a c i t (os s) = (Inr es, w')" "\<forall>e\<in>set es. \<not> settles e"
    using hang unfolding children_hang_def by blast
  ultimately show "m s = (Some r, s')" using silent by (simp add: spawn_and_wait_def in_os_run)
qed

lemma silent_runs:
  assumes "\<forall>e\<in>set es. \<not> settles e"
  shows "rs_outcome (docker_run dir es) = None" "rs_outcome (process_run dir es) = None"
    "cs_outcome (compile_run dir cfg es) = None"
proof -
  have "find settles es = None" using assms by (auto simp: find_None_iff)
  then show "rs_outcome (docker_run dir es) = None" "rs_outcome (process_run dir es) = None"
    by (simp_all add: docker_run_outcome process_run_outcome)
  have "cs_outcome (fold (compile_on dir cfg) es s) = cs_outcome s" for s
    using assms
  proof (induction es arbitrary: s)
    case (Cons e es)
    then have "cs_outcome (compile_on dir cfg e s) = cs_outcome s" by (cases e) auto
    with Cons show ?case by simp
  qed simp
  then show "cs_outcome (compile_run dir cfg es) = None" by (simp add: compile_run_def compile_start_def)
qed

lemma silent_kills:
  assumes "\<forall>e\<in>set es. \<not> settles e" and "TimerFired \<in> set es"
  shows "0 < rs_kills (docker_run dir es)"
proof -
  have "fold (docker_on dir) es s = fold on_data es s" for s
    using assms(1) by (induction es arbitrary: s) (simp_all add: docker_on_no_settle)
  moreover have "before_settle es = es" using assms(1) by (auto simp: before_settle_def takeWhile_eq_all_conv)
  ultimately have "docker_run dir es = run_data es" by (simp add: docker_run_def run_data_def)
  then show ?thesis using run_inv_run_data [of es] run_data_fields(3) [of es] assms(2) \<open>before_settle es = es\<close>
    by (simp add: run_inv_def)
qed

lemma spawning_sel:
  "e_executionMode (spawning other E) = e_executionMode E"
  "e_sandboxImage (spawning other E) = e_sandboxImage E"
  "e_dockerInfo (spawning other E) = e_dockerInfo E"
  "e_randomHex (spawning other E) = e_randomHex E"
  "f_workspaceBase (spawning other E) = f_workspaceBase E"
  "f_cwd (spawning other E) = f_cwd E"
  "f_tmpdir (spawning other E) = f_tmpdir E"
  "f_mkdirp (spawning other E) = f_mkdirp E"
  "f_chmod (spawning other E) = f_chmod E"
  "f_mkdtemp (spawning other E) = f_mkdtemp E"
  "f_writeFile (spawning other E) = f_writeFile E"
  "f_lstatIsSymlink (spawning other E) = f_lstatIsSymlink E"
  "f_unlink (spawning other E) = f_unlink E"
  "f_rmrf (spawning other E) = f_rmrf E"
  by simp_all

lemma spawning_keeps:
  "isLocalMode (spawning other E) = isLocalMode E"
  "SANDBOX_IMAGE (spawning other E) = SANDBOX_IMAGE E"
  "checkDockerAvailable (spawning other E) = checkDockerAvailable E"
  "createWorkspace (spawning other E) = createWorkspace E"
  "writeSourceFile (spawning other E) d f src = writeSourceFile E d f src"
  "cleanupWorkspace (spawning other E) d = cleanupWorkspace E d"
  unfolding isLocalMode_def SANDBOX_IMAGE_def checkDockerAvailable_def
      createWorkspace_def ensureBaseDir_def WORKSPACE_BASE_DIR_def
      writeSourceFile_def cleanupWorkspace_def managed_def spawning_sel
  by (rule refl)+

lemma childless_docker:
  "children_hang E \<Longrightarrow> childless (runInDockerSandbox E caps d cmd args i t) (runInDockerSandbox (spawning other E) caps d cmd args i t)"
  unfolding runInDockerSandbox_def spawning_keeps spawning_sel
  by (auto intro!: childless_pawait childless_spawn simp: silent_runs)

lemma childless_runInWorkspace:
  assumes "children_hang E"
  shows "childless (runInWorkspace E cfg request d) (runInWorkspace (spawning other E) cfg request d)"
proof -
  have "childless (compileCpp E d cfg) (compileCpp (spawning other E) d cfg)"
    unfolding compileCpp_def by (rule childless_spawn [OF assms]) (simp add: silent_runs)
  moreover have "childless (runProcess E d cmd args i t) (runProcess (spawning other E) d cmd args i t)" for cmd args i t
    unfolding runProcess_def by (rule childless_spawn [OF assms]) (simp add: silent_runs)
  ultimately show ?thesis
    unfolding runInWorkspace_def compileStep_def runStep_def spawning_keeps
    by (auto intro!: childless_pawait childless_docker [OF assms] split: prod.splits)
qed

lemma execute_childless:
  assumes "children_hang E" and "execute E request s = (Some r, s')"
  shows "execute (spawning other E) request s = (Some r, s')"
proof -
  have "childless (execute E request) (execute (spawning other E) request)"
    unfolding execute_def spawning_keeps
    by (auto intro!: childless_pawait childless_pfinally childless_runInWorkspace [OF assms(1)] split: sum.split)
  with assms(2) show ?thesis unfolding childless_def by blast
qed

text \<open>C25: an execution settles whenever the children it starts do, and only they settle it: if the
  children can be started but never close nor report an error, however much they write and
  whichever time limits fire, an execution that settles has started none and would end the same
  way with any other children. All that a time limit does to a container is to send it a kill.\<close>

theorem execute_settles:
  "(children_settle E \<longrightarrow> (\<exists>r s'. execute E request s = (Some r, s'))) \<and>
   ((\<forall>p a c i t w. \<exists>es w'. e_spawn E p a c i t w = (Inr es, w') \<and> (\<forall>e\<in>set es. \<not> settles e)) \<longrightarrow>
      (\<forall>r s' other. execute E request s = (Some r, s') \<longrightarrow> execute (E\<lparr>e_spawn := other\<rparr>) request s = (Some r, s'))) \<and>
   (\<forall>dir es. (\<forall>e\<in>set es. \<not> settles e) \<and> TimerFired \<in> set es \<longrightarrow>
      rs_outcome (docker_run dir es) = None \<and> 0 < rs_kills (docker_run dir es))"
  using execute_returns [of E request s] execute_childless [of E request s] silent_runs(1) silent_kills
  unfolding children_hang_def by blast

section \<open>An in-memory host\<close>

text \<open>The world holds the existing paths; every child goes through the given events.\<close>

definition mem_engine :: "string option \<Rightarrow> child_event list \<Rightarrow> string list engine_env" where
  "mem_engine mode es = files.extend (mem_files id id)
     (engine_env.fields mode None (\<lambda>w. (Inr True, w)) (\<lambda>w. (Inr ''0a1b'', w))
        (\<lambda>p a c i t w. (Inr es, w)))"

lemma mem_engine_docker_host: "docker_host (mem_engine mode es) set"
proof -
  have "filesystem (mem_engine mode es) set"
    using mem_files_filesystem [of id id]
    unfolding filesystem_def mem_engine_def by (simp add: files.defs engine_env.defs)
  then show ?thesis
    by (intro docker_host.intro docker_host_axioms.intro)
      (auto simp: mem_engine_def files.defs engine_env.defs keeps_def)
qed

interpretation mem_host: docker_host "mem_engine mode es" set for mode es
  by (rule mem_engine_docker_host)

definition sample_request :: jsval where
  "sample_request = JObj [(''language'', JStr ''python''), (''sourceCode'', JStr ''print(42)''),
     (''testCase'', JObj [(''expectedOutput'', JStr ''42'')])]"

definition sample_events :: "child_event list" where
  "sample_events = [OutData ''42'', Closed (Some 0) None 7400000]"

lemma mem_engine_simps [simp]:
  "isLocalMode (mem_engine mode es) = (mode = Some ''local'')"
  "e_spawn (mem_engine mode es) p a c i t w = (Inr es, w)"
  "f_chmod (mem_engine mode es) q m w = (Inr (), w)"
  "f_unlink (mem_engine mode es) q w = (Inr (), filter (\<lambda>p. p \<noteq> q) w)"
  "f_rmrf (mem_engine mode es) q w = (Inr (), filter (\<lambda>p. \<not> under q p) w)"
  by (simp_all add: isLocalMode_def mem_engine_def mem_files_def files.defs engine_env.defs)

lemma mem_children_settle: "children_settle (mem_engine mode sample_events)"
  by (auto simp: children_settle_def sample_events_def)

theorem execute_settles_witness:
  "(\<exists>r s'. execute (mem_engine None sample_events) sample_request \<lparr>dockerCache = None, os = []\<rparr> = (Some r, s')) \<and>
   (\<exists>e s'. \<forall>other. execute ((mem_engine None [OutData ''4'', TimerFired])\<lparr>e_spawn := other\<rparr>) JNull
      \<lparr>dockerCache = None, os = []\<rparr> = (Some (Inl e), s')) \<and>
   0 < rs_kills (docker_run ''/d'' [OutData ''4'', TimerFired])"
proof -
  have "\<exists>r s'. execute (mem_engine None sample_events) sample_request \<lparr>dockerCache = None, os = []\<rparr> = (Some r, s')"
    by (rule execute_settles [THEN conjunct1, rule_format]) (rule mem_children_settle)
  moreover have "0 < rs_kills (docker_run ''/d'' [OutData ''4'', TimerFired])"
    using execute_settles [THEN conjunct2, THEN conjunct2, rule_format, of "[OutData ''4'', TimerFired]" "''/d''"] by simp
  moreover have "\<exists>e s'. \<forall>other. execute ((mem_engine None [OutData ''4'', TimerFired])\<lparr>e_spawn := other\<rparr>) JNull
      \<lparr>dockerCache = None, os = []\<rparr> = (Some (Inl e), s')"
  proof -
    obtain e where e: "execute (mem_engine None [OutData ''4'', TimerFired]) JNull \<lparr>dockerCache = None, os = []\<rparr> =
        (Some (Inl e), \<lparr>dockerCache = None, os = []\<rparr>)"
      by (simp add: execute_def validateExecutionRequest_def prompt_def)
    have "execute ((mem_engine None [OutData ''4'', TimerFired])\<lparr>e_spawn := other\<rparr>) JNull
        \<lparr>dockerCache = None, os = []\<rparr> = (Some (Inl e), \<lparr>dockerCache = None, os = []\<rparr>)" for other
      by (rule execute_settles [THEN conjunct2, THEN conjunct1, rule_format, OF _ e]) simp
    then show ?thesis by blast
  qed
  ultimately show ?thesis by (intro conjI)
qed

theorem execute_cleans_up_witness:
  "\<exists>r s'. execute (mem_engine None sample_events) sample_request \<lparr>dockerCache = None, os = [''/tmp/x'']\<rparr> = (Some r, s') \<and>
     ''/tmp/x'' \<in> set (os s') \<and>
     (\<forall>q. q \<in> set (os s') = (q = ''/tmp/x'' \<or> q \<in> set (os s') \<and> under q (WORKSPACE_BASE_DIR (mem_engine None sample_events))))"
proof -
  obtain r s' where run: "execute (mem_engine None sample_events) sample_request \<lparr>dockerCache = None, os = [''/tmp/x'']\<rparr> = (Some r, s')"
    using execute_returns [OF mem_children_settle] by blast
  have base: "WORKSPACE_BASE_DIR (mem_engine None sample_events) \<noteq> ''/''"
    by (simp add: WORKSPACE_BASE_DIR_def path_resolve_def mem_engine_def mem_files_def files.defs
        engine_env.defs env_or_def is_absolute_def js_starts_with_def)
  from execute_cleans_up [OF mem_host.docker_host_axioms _ base _ _ _ run] run show ?thesis by auto
qed

theorem execute_only_in_sandbox_witness:
  "execute (sandbox_only (\<lambda>p a c i t w. (Inl (plain_error ''refused''), w)) (mem_engine None sample_events)) sample_request =
   execute (mem_engine None sample_events) sample_request"
  by (rule execute_only_in_sandbox) simp

end
