(* ===== verification/Mongo.thy ===== *)
theory Mongo
  imports Effects
begin

text \<open>
  The document database, which is not part of the repository. The code reaches it through
  Mongoose models; here a model is a record of the operations the code calls on it, an
  argument of every definition that uses it. What the code relies on is the locale
  \<open>collection\<close>: the documented effect of each operation on the collection's contents, a map
  from ids to documents. A call may always fail with an error; a failed write may or may not
  have reached the database.
\<close>

section \<open>The operations of a model\<close>

text \<open>
  A query filter is a predicate on documents, an update document (\<open>$set\<close>) a function on
  them. \<open>save\<close> sends the modified paths of a loaded document, so it is an update of the
  stored one. \<open>create\<close> is given the document as a function of the id and the time stamp
  the mapper assigns. \<open>findMany\<close> is \<open>find(query).sort(le).skip(n).limit(m)\<close>.
  \<open>groupCount\<close> is the aggregation \<open>$match\<close>, \<open>$group\<close> by a key, \<open>$sum: 1\<close>.
\<close>

record ('w, 'd) coll =
  findById :: "oid \<Rightarrow> ('w, 'd option) io"
  findOne :: "('d \<Rightarrow> bool) \<Rightarrow> ('w, 'd option) io"
  findMany :: "('d \<Rightarrow> bool) \<Rightarrow> ('d \<Rightarrow> 'd \<Rightarrow> bool) \<Rightarrow> nat \<Rightarrow> nat option \<Rightarrow> ('w, 'd list) io"
  countDocuments :: "('d \<Rightarrow> bool) \<Rightarrow> ('w, nat) io"
  groupCount :: "('d \<Rightarrow> bool) \<Rightarrow> ('d \<Rightarrow> string list) \<Rightarrow> ('w, (string list \<times> nat) list) io"
  distinctOf :: "('d \<Rightarrow> bool) \<Rightarrow> ('d \<Rightarrow> oid) \<Rightarrow> ('w, oid list) io"
  findOneAndUpdate :: "oid \<Rightarrow> ('d \<Rightarrow> bool) \<Rightarrow> ('d \<Rightarrow> 'd) \<Rightarrow> ('w, 'd option) io"
  updateOne :: "oid \<Rightarrow> ('d \<Rightarrow> bool) \<Rightarrow> ('d \<Rightarrow> 'd) \<Rightarrow> ('w, unit) io"
  save :: "oid \<Rightarrow> ('d \<Rightarrow> 'd) \<Rightarrow> ('w, unit) io"
  create :: "(oid \<Rightarrow> date \<Rightarrow> 'd) \<Rightarrow> ('w, 'd) io"

section \<open>Contents of a collection\<close>

definition matching :: "('d \<Rightarrow> bool) \<Rightarrow> (oid \<rightharpoonup> 'd) \<Rightarrow> oid set" where
  "matching P m = {i. \<exists>d. m i = Some d \<and> P d}"

definition modify :: "oid \<Rightarrow> ('d \<Rightarrow> bool) \<Rightarrow> ('d \<Rightarrow> 'd) \<Rightarrow> (oid \<rightharpoonup> 'd) \<Rightarrow> (oid \<rightharpoonup> 'd)" where
  "modify i P f m = (case m i of Some d \<Rightarrow> (if P d then m(i \<mapsto> f d) else m) | None \<Rightarrow> m)"

definition modified :: "oid \<Rightarrow> ('d \<Rightarrow> bool) \<Rightarrow> ('d \<Rightarrow> 'd) \<Rightarrow> (oid \<rightharpoonup> 'd) \<Rightarrow> 'd option" where
  "modified i P f m = (case m i of Some d \<Rightarrow> (if P d then Some (f d) else None) | None \<Rightarrow> None)"

definition listing :: "('d \<Rightarrow> bool) \<Rightarrow> (oid \<rightharpoonup> 'd) \<Rightarrow> 'd list \<Rightarrow> bool" where
  "listing P m ds \<longleftrightarrow> (\<exists>ks. distinct ks \<and> set ks = matching P m \<and> ds = map (\<lambda>k. the (m k)) ks)"

lemma modify_apply:
  "modify i P f m j = (if j = i then map_option (\<lambda>d. if P d then f d else d) (m i) else m j)"
  by (auto simp: modify_def split: option.splits)

lemma dom_modify [simp]: "dom (modify i P f m) = dom m"
  by (auto simp: modify_apply split: if_splits)

lemma modified_Some: "modified i P f m = Some d' \<longleftrightarrow> (\<exists>d. m i = Some d \<and> P d \<and> d' = f d)"
  by (auto simp: modified_def split: option.splits)

lemma modified_None_modify: "modified i P f m = None \<Longrightarrow> modify i P f m = m"
  by (auto simp: modified_def modify_def split: option.splits if_splits)

lemma matching_modify_other: "j \<noteq> i \<Longrightarrow> j \<in> matching P (modify i Q f m) \<longleftrightarrow> j \<in> matching P m"
  by (simp add: matching_def modify_apply)

lemma listing_length: "listing P m ds \<Longrightarrow> length ds = card (matching P m)"
  by (auto simp: listing_def distinct_card [symmetric])

lemma listing_mem: "listing P m ds \<Longrightarrow> d \<in> set ds \<longleftrightarrow> (\<exists>i. m i = Some d \<and> P d)"
  by (force simp: listing_def matching_def)

lemma listing_all: "listing P m ds \<Longrightarrow> d \<in> set ds \<Longrightarrow> P d"
  by (auto simp: listing_mem)

section \<open>What the code relies on\<close>

text \<open>
  \<open>view\<close> is the part of the world the laws speak about (all collections); \<open>docs\<close> and
  \<open>put\<close> read and replace this collection in it, so that an operation on one collection
  leaves the others alone.
\<close>

locale collection =
  fixes C :: "('w, 'd) coll"
    and view :: "'w \<Rightarrow> 'v"
    and docs :: "'v \<Rightarrow> (oid \<rightharpoonup> 'd)"
    and put :: "((oid \<rightharpoonup> 'd) \<Rightarrow> (oid \<rightharpoonup> 'd)) \<Rightarrow> 'v \<Rightarrow> 'v"
  assumes docs_put: "docs (put g v) = g (docs v)"
    and put_same: "g (docs v) = docs v \<Longrightarrow> put g v = v"
    and finite_docs: "finite (dom (docs (view w)))"
    and findById_keeps: "keeps view (findById C i)"
    and findOne_keeps: "keeps view (findOne C P)"
    and findMany_keeps: "keeps view (findMany C P le n lm)"
    and countDocuments_keeps: "keeps view (countDocuments C P)"
    and groupCount_keeps: "keeps view (groupCount C P key)"
    and distinctOf_keeps: "keeps view (distinctOf C P fld)"
    and findById_result: "findById C i w = (Inr r, w') \<Longrightarrow> r = docs (view w) i"
    and findOne_Some: "findOne C P w = (Inr (Some d), w') \<Longrightarrow> \<exists>i. docs (view w) i = Some d \<and> P d"
    and findOne_None: "findOne C P w = (Inr None, w') \<Longrightarrow> matching P (docs (view w)) = {}"
    and findMany_result:
      "total_preorder le \<Longrightarrow> findMany C P le n lm w = (Inr ds, w') \<Longrightarrow>
         \<exists>xs. listing P (docs (view w)) xs \<and> sorted_wrt le xs \<and> ds = slice n lm xs"
    and countDocuments_result:
      "countDocuments C P w = (Inr n, w') \<Longrightarrow> n = card (matching P (docs (view w)))"
    and groupCount_result:
      "groupCount C P key w = (Inr gs, w') \<Longrightarrow> distinct (map fst gs) \<and>
         (\<forall>k n. (k, n) \<in> set gs \<longleftrightarrow> 0 < n \<and> n = card (matching (\<lambda>d. P d \<and> key d = k) (docs (view w))))"
    and distinctOf_result:
      "distinctOf C P fld w = (Inr xs, w') \<Longrightarrow>
         distinct xs \<and> (\<forall>x. x \<in> set xs \<longleftrightarrow> (\<exists>i d. docs (view w) i = Some d \<and> P d \<and> fld d = x))"
    and findOneAndUpdate_ok:
      "findOneAndUpdate C i P f w = (Inr r, w') \<Longrightarrow>
         r = modified i P f (docs (view w)) \<and> view w' = put (modify i P f) (view w)"
    and findOneAndUpdate_err:
      "findOneAndUpdate C i P f w = (Inl e, w') \<Longrightarrow>
         view w' = view w \<or> view w' = put (modify i P f) (view w)"
    and updateOne_ok: "updateOne C i P f w = (Inr u, w') \<Longrightarrow> view w' = put (modify i P f) (view w)"
    and updateOne_err:
      "updateOne C i P f w = (Inl e, w') \<Longrightarrow> view w' = view w \<or> view w' = put (modify i P f) (view w)"
    and save_ok:
      "save C i f w = (Inr u, w') \<Longrightarrow>
         docs (view w) i \<noteq> None \<and> view w' = put (modify i (\<lambda>_. True) f) (view w)"
    and save_err:
      "save C i f w = (Inl e, w') \<Longrightarrow>
         view w' = view w \<or> view w' = put (modify i (\<lambda>_. True) f) (view w)"
    and create_ok:
      "create C mk w = (Inr d, w') \<Longrightarrow> \<exists>i t. docs (view w) i = None \<and> d = mk i t \<and>
         view w' = put (\<lambda>m. m(i \<mapsto> mk i t)) (view w)"
    and create_err:
      "create C mk w = (Inl e, w') \<Longrightarrow> view w' = view w \<or>
         (\<exists>i t. docs (view w) i = None \<and> view w' = put (\<lambda>m. m(i \<mapsto> mk i t)) (view w))"
begin

lemmas reads_keep =
  findById_keeps findOne_keeps findMany_keeps countDocuments_keeps groupCount_keeps distinctOf_keeps

lemma update_view_cases:
  assumes "updateOne C i P f w = (r, w')"
  shows "view w' = view w \<or> view w' = put (modify i P f) (view w)"
  using assms by (cases r) (auto dest: updateOne_ok updateOne_err)

lemma save_view_cases:
  assumes "save C i f w = (r, w')"
  shows "view w' = view w \<or> view w' = put (modify i (\<lambda>_. True) f) (view w)"
  using assms by (cases r) (auto dest: save_ok save_err)

lemma claim_view_cases:
  assumes "findOneAndUpdate C i P f w = (r, w')"
  shows "view w' = view w \<or> view w' = put (modify i P f) (view w)"
  using assms by (cases r) (auto dest: findOneAndUpdate_ok findOneAndUpdate_err)

lemma create_view_cases:
  assumes "create C mk w = (r, w')"
  shows "view w' = view w \<or>
    (\<exists>i t. docs (view w) i = None \<and> view w' = put (\<lambda>m. m(i \<mapsto> mk i t)) (view w))"
  using assms by (cases r) (auto dest: create_ok create_err)

text \<open>A filter that matches nothing leaves the database as it is, whether the call fails or not.\<close>

lemma claim_no_match:
  assumes call: "findOneAndUpdate C i P f w = (r, w')"
    and none: "modified i P f (docs (view w)) = None"
  shows "view w' = view w" and "r = Inr None \<or> (\<exists>e. r = Inl e)"
proof -
  from none have "put (modify i P f) (view w) = view w"
    by (intro put_same modified_None_modify)
  with claim_view_cases [OF call] show "view w' = view w" by auto
  from call none show "r = Inr None \<or> (\<exists>e. r = Inl e)"
    by (cases r) (auto dest: findOneAndUpdate_ok)
qed

text \<open>A group's count read from the answer, zero for a group that is not in it.\<close>

lemma group_lookup:
  assumes "groupCount C P key w = (Inr gs, w')"
  shows "default_to 0 (map_of gs k) = card (matching (\<lambda>d. P d \<and> key d = k) (docs (view w)))"
proof -
  from groupCount_result [OF assms] have dist: "distinct (map fst gs)"
    and mem: "\<And>n. (k, n) \<in> set gs \<longleftrightarrow> 0 < n \<and> n = card (matching (\<lambda>d. P d \<and> key d = k) (docs (view w)))"
    by blast+
  show ?thesis
  proof (cases "map_of gs k")
    case None
    then have "(k, n) \<notin> set gs" for n by (force simp: map_of_eq_None_iff)
    with mem None show ?thesis by auto
  next
    case (Some n)
    with mem show ?thesis by (auto dest: map_of_SomeD)
  qed
qed

lemma group_distinct: "groupCount C P key w = (Inr gs, w') \<Longrightarrow> distinct (map fst gs)"
  by (drule groupCount_result) (erule conjunct1)

lemma group_key:
  assumes "groupCount C P key w = (Inr gs, w')" and "(k, n) \<in> set gs"
  shows "\<exists>d. P d \<and> key d = k"
proof -
  have "0 < n \<and> n = card (matching (\<lambda>d. P d \<and> key d = k) (docs (view w)))"
    using conjunct2 [OF groupCount_result [OF assms(1)]] assms(2) by (elim allE iffE) blast
  then have "matching (\<lambda>d. P d \<and> key d = k) (docs (view w)) \<noteq> {}" by (auto simp: card_gt_0_iff)
  then show ?thesis unfolding matching_def by blast
qed

text \<open>The counts of all groups add up to the number of matching documents.\<close>

lemma group_total:
  assumes "groupCount C P key w = (Inr gs, w')"
  shows "sum_list (map snd gs) = card (matching P (docs (view w)))"
proof -
  let ?D = "docs (view w)"
  let ?g = "\<lambda>k. matching (\<lambda>d. P d \<and> key d = k) ?D"
  have dist: "distinct (map fst gs)" by (rule group_distinct [OF assms])
  have mem: "(k, n) \<in> set gs \<longleftrightarrow> 0 < n \<and> n = card (?g k)" for k n
    using conjunct2 [OF groupCount_result [OF assms]] by (elim allE)
  have fin: "finite (?g k)" for k
    by (rule finite_subset [OF _ finite_docs [of w]]) (auto simp: matching_def)
  have cover: "matching P ?D = (\<Union>k\<in>set (map fst gs). ?g k)"
  proof (intro equalityI subsetI)
    fix i
    assume "i \<in> matching P ?D"
    then obtain d where d: "?D i = Some d" "P d" by (auto simp: matching_def)
    then have i: "i \<in> ?g (key d)" by (auto simp: matching_def)
    then have "0 < card (?g (key d))" using fin by (auto simp: card_gt_0_iff)
    then have "(key d, card (?g (key d))) \<in> set gs" using mem by blast
    then have "key d \<in> set (map fst gs)" by force
    with i show "i \<in> (\<Union>k\<in>set (map fst gs). ?g k)" by blast
  qed (auto simp: matching_def)
  have "card (matching P ?D) = (\<Sum>k\<in>set (map fst gs). card (?g k))"
    unfolding cover by (rule card_UN_disjoint) (use fin in \<open>auto simp: matching_def\<close>)
  also have "\<dots> = sum_list (map (\<lambda>k. card (?g k)) (map fst gs))"
    by (rule sum_list_distinct_conv_sum_set [OF dist, symmetric])
  also have "map (\<lambda>k. card (?g k)) (map fst gs) = map snd gs"
    using mem by (auto simp: comp_def)
  finally show ?thesis ..
qed

text \<open>A window of a query together with the count of its results.\<close>

lemma window_and_count:
  assumes "total_preorder le" and "findMany C P le n lm w = (Inr ds, w1)" and "countDocuments C P w1 = (Inr k, w')"
  shows "\<exists>xs. listing P (docs (view w)) xs \<and> sorted_wrt le xs \<and> ds = slice n lm xs \<and> k = length xs \<and> view w' = view w"
proof -
  obtain xs where xs: "listing P (docs (view w)) xs" "sorted_wrt le xs" "ds = slice n lm xs"
    using findMany_result [OF assms(1,2)] by blast
  have v: "view w1 = view w" using assms(2) by (rule keepsD [OF findMany_keeps])
  have "view w' = view w" using keepsD [OF countDocuments_keeps assms(3)] v by simp
  moreover have "k = length xs" using countDocuments_result [OF assms(3)] listing_length [OF xs(1)] v by simp
  ultimately show ?thesis using xs by blast
qed

end

text \<open>A collection whose \<open>updateOne\<close> is replaced by another that obeys the same laws.\<close>

lemma collection_updateOne:
  assumes "collection C view docs put"
    and "\<forall>i P f w u w'. g i P f w = (Inr u, w') \<longrightarrow> view w' = put (modify i P f) (view w)"
    and "\<forall>i P f w e w'. g i P f w = (Inl e, w') \<longrightarrow> view w' = view w \<or> view w' = put (modify i P f) (view w)"
  shows "collection (C\<lparr>updateOne := g\<rparr>) view docs put"
proof -
  have sel: "findById (C\<lparr>updateOne := g\<rparr>) = findById C" "findOne (C\<lparr>updateOne := g\<rparr>) = findOne C"
    "findMany (C\<lparr>updateOne := g\<rparr>) = findMany C" "countDocuments (C\<lparr>updateOne := g\<rparr>) = countDocuments C"
    "groupCount (C\<lparr>updateOne := g\<rparr>) = groupCount C" "distinctOf (C\<lparr>updateOne := g\<rparr>) = distinctOf C"
    "findOneAndUpdate (C\<lparr>updateOne := g\<rparr>) = findOneAndUpdate C" "save (C\<lparr>updateOne := g\<rparr>) = save C"
    "create (C\<lparr>updateOne := g\<rparr>) = create C" "updateOne (C\<lparr>updateOne := g\<rparr>) = g"
    by simp_all
  show ?thesis
    using assms unfolding collection_def sel by (elim conjE) (intro conjI; assumption)
qed

end
