(* ===== verification/Models.thy ===== *)
theory Models
  imports Mongo EngineConfig
begin

text \<open>
  The documents of the backend (\<open>backend/src/modules/*/*.model.js\<close>), its error class
  (\<open>utils/app-error.js\<close>), and the environment its services run in: the five collections,
  the clock, the execution engine and the queue. The locale \<open>database\<close> collects what the
  services rely on.
\<close>

section \<open>app-error.js\<close>

definition AppError :: "string \<Rightarrow> int \<Rightarrow> string option \<Rightarrow> err" where
  "AppError message status code =
     (js_error ''Error'' message)\<lparr>statusCode := Some status, errorCode := code\<rparr>"

lemma AppError_fields [simp]:
  "ename (AppError m s c) = ''Error''" "emessage (AppError m s c) = m"
  "statusCode (AppError m s c) = Some s" "errorCode (AppError m s c) = c"
  "isNonRetryable (AppError m s c) = False" "dbCode (AppError m s c) = None"
  by (simp_all add: AppError_def js_error_def)

section \<open>submission.model.js\<close>

datatype status = S_PENDING | QUEUED | RUNNING | COMPLETED | FAILED

record execution =
  ex_workerId :: "string option"
  ex_startedAt :: "date option"
  ex_completedAt :: "date option"

record submission =
  s_id :: oid
  s_userId :: oid
  s_problemId :: oid
  s_language :: string
  s_sourceCode :: string
  s_status :: status
  s_verdict :: verdict
  s_runtimeMs :: "int option"
  s_memoryKb :: "int option"
  s_testsPassed :: "nat option"
  s_totalTests :: "nat option"
  s_queuedAt :: "date option"
  s_startedAt :: "date option"
  s_completedAt :: "date option"
  s_failedAt :: "date option"
  s_errorMessage :: "string option"
  s_execution :: execution
  s_createdAt :: date

text \<open>The validators of the schema; its verdicts have no \<open>OUTPUT_LIMIT_EXCEEDED\<close>.\<close>

definition submission_schema :: "submission \<Rightarrow> bool" where
  "submission_schema s \<longleftrightarrow>
     s_language s \<in> {''CPP'', ''PYTHON'', ''JAVASCRIPT''} \<and>
     s_sourceCode s \<noteq> [] \<and> length (s_sourceCode s) \<le> 65536 \<and>
     s_verdict s \<in> {V_PENDING, ACCEPTED, WRONG_ANSWER, COMPILATION_ERROR, RUNTIME_ERROR,
       TIME_LIMIT_EXCEEDED, MEMORY_LIMIT_EXCEEDED}"

fun status_name :: "status \<Rightarrow> string" where
  "status_name S_PENDING = ''PENDING''"
| "status_name QUEUED = ''QUEUED''"
| "status_name RUNNING = ''RUNNING''"
| "status_name COMPLETED = ''COMPLETED''"
| "status_name FAILED = ''FAILED''"

fun verdict_name :: "verdict \<Rightarrow> string" where
  "verdict_name V_PENDING = ''PENDING''"
| "verdict_name ACCEPTED = ''ACCEPTED''"
| "verdict_name WRONG_ANSWER = ''WRONG_ANSWER''"
| "verdict_name COMPILATION_ERROR = ''COMPILATION_ERROR''"
| "verdict_name RUNTIME_ERROR = ''RUNTIME_ERROR''"
| "verdict_name TIME_LIMIT_EXCEEDED = ''TIME_LIMIT_EXCEEDED''"
| "verdict_name MEMORY_LIMIT_EXCEEDED = ''MEMORY_LIMIT_EXCEEDED''"
| "verdict_name OUTPUT_LIMIT_EXCEEDED = ''OUTPUT_LIMIT_EXCEEDED''"

text \<open>JSON values of numbers, dates and optional fields.\<close>

definition js_int :: "int \<Rightarrow> jsval" where
  "js_int z = JNum (Finite (of_int z))"

definition js_opt :: "('a \<Rightarrow> jsval) \<Rightarrow> 'a option \<Rightarrow> jsval" where
  "js_opt f x = (case x of None \<Rightarrow> JNull | Some a \<Rightarrow> f a)"

text \<open>\<open>toSafeObject({ includeCode })\<close>; \<open>workerId || null\<close> turns an empty id into \<open>null\<close>.\<close>

definition toSafeSubmission :: "bool \<Rightarrow> submission \<Rightarrow> jsval" where
  "toSafeSubmission includeCode s = JObj (
     [(''id'', JStr (s_id s)), (''userId'', JStr (s_userId s)), (''problemId'', JStr (s_problemId s)),
      (''language'', JStr (s_language s)), (''status'', JStr (status_name (s_status s))),
      (''verdict'', JStr (verdict_name (s_verdict s))),
      (''runtimeMs'', js_opt js_int (s_runtimeMs s)), (''memoryKb'', js_opt js_int (s_memoryKb s)),
      (''testsPassed'', js_opt (js_int \<circ> int) (s_testsPassed s)),
      (''totalTests'', js_opt (js_int \<circ> int) (s_totalTests s)),
      (''queuedAt'', js_opt js_int (s_queuedAt s)), (''startedAt'', js_opt js_int (s_startedAt s)),
      (''completedAt'', js_opt js_int (s_completedAt s)), (''failedAt'', js_opt js_int (s_failedAt s)),
      (''errorMessage'', js_opt JStr (s_errorMessage s)),
      (''execution'', JObj
         [(''workerId'', js_opt (\<lambda>w. if w = [] then JNull else JStr w) (ex_workerId (s_execution s))),
          (''startedAt'', js_opt js_int (ex_startedAt (s_execution s))),
          (''completedAt'', js_opt js_int (ex_completedAt (s_execution s)))]),
      (''createdAt'', js_int (s_createdAt s))] @
     (if includeCode then [(''sourceCode'', JStr (s_sourceCode s))] else []))"

section \<open>test-case.model.js\<close>

datatype visibility = PUBLIC | HIDDEN

record testcase =
  t_id :: oid
  t_problemId :: oid
  t_input :: string
  t_expectedOutput :: string
  t_visibility :: visibility
  t_order :: jsnum
  t_isActive :: bool
  t_createdAt :: date

text \<open>The filter the services use for the tests of a problem.\<close>

definition activeTests :: "oid \<Rightarrow> testcase \<Rightarrow> bool" where
  "activeTests pid t \<longleftrightarrow> t_problemId t = pid \<and> t_isActive t"

text \<open>The order of numbers of the database's sort: NaN is below all others.\<close>

fun num_le :: "jsnum \<Rightarrow> jsnum \<Rightarrow> bool" where
  "num_le NaN y = True"
| "num_le x NaN = False"
| "num_le (Infinite False) y = True"
| "num_le x (Infinite False) = False"
| "num_le x (Infinite True) = True"
| "num_le (Infinite True) y = False"
| "num_le (Finite a) (Finite b) = (a \<le> b)"

definition order_le :: "testcase \<Rightarrow> testcase \<Rightarrow> bool" where
  "order_le a b = num_le (t_order a) (t_order b)"

text \<open>\<open>min: 0\<close> and \<open>required\<close>, which rejects an empty string.\<close>

definition testcase_schema :: "testcase \<Rightarrow> bool" where
  "testcase_schema t \<longleftrightarrow> t_input t \<noteq> [] \<and> t_expectedOutput t \<noteq> [] \<and>
     (case t_order t of NaN \<Rightarrow> False | Infinite b \<Rightarrow> b | Finite r \<Rightarrow> 0 \<le> r)"

fun visibility_name :: "visibility \<Rightarrow> string" where
  "visibility_name PUBLIC = ''PUBLIC''"
| "visibility_name HIDDEN = ''HIDDEN''"

definition toSafeTestCase :: "testcase \<Rightarrow> jsval" where
  "toSafeTestCase t = JObj
     [(''id'', JStr (t_id t)), (''problemId'', JStr (t_problemId t)), (''input'', JStr (t_input t)),
      (''expectedOutput'', JStr (t_expectedOutput t)), (''visibility'', JStr (visibility_name (t_visibility t))),
      (''order'', JNum (t_order t)), (''isActive'', JBool (t_isActive t)), (''createdAt'', js_int (t_createdAt t))]"

section \<open>problem.model.js\<close>

datatype difficulty = EASY | MEDIUM | HARD

record problem =
  p_id :: oid
  p_title :: string
  p_description :: string
  p_difficulty :: difficulty
  p_tags :: "string list"
  p_inputFormat :: string
  p_outputFormat :: string
  p_constraints :: string
  p_examples :: "(string \<times> string) list"
  p_authorId :: oid
  p_isActive :: bool
  p_createdAt :: date

fun difficulty_name :: "difficulty \<Rightarrow> string" where
  "difficulty_name EASY = ''EASY''"
| "difficulty_name MEDIUM = ''MEDIUM''"
| "difficulty_name HARD = ''HARD''"

definition toSafeProblem :: "problem \<Rightarrow> jsval" where
  "toSafeProblem p = JObj
     [(''id'', JStr (p_id p)), (''title'', JStr (p_title p)), (''description'', JStr (p_description p)),
      (''difficulty'', JStr (difficulty_name (p_difficulty p))), (''tags'', JArr (map JStr (p_tags p))),
      (''inputFormat'', JStr (p_inputFormat p)), (''outputFormat'', JStr (p_outputFormat p)),
      (''constraints'', JStr (p_constraints p)),
      (''examples'', JArr (map (\<lambda>(i, q). JObj [(''input'', JStr i), (''output'', JStr q)]) (p_examples p))),
      (''authorId'', JStr (p_authorId p)), (''isActive'', JBool (p_isActive p)), (''createdAt'', js_int (p_createdAt p))]"

definition problem_schema :: "problem \<Rightarrow> bool" where
  "problem_schema p \<longleftrightarrow> p_title p \<noteq> [] \<and> length (p_title p) \<le> 200 \<and> p_description p \<noteq> [] \<and>
     p_inputFormat p \<noteq> [] \<and> p_outputFormat p \<noteq> [] \<and> p_constraints p \<noteq> [] \<and> p_examples p \<noteq> [] \<and>
     (\<forall>(i, q) \<in> set (p_examples p). i \<noteq> [] \<and> q \<noteq> [])"

section \<open>user.model.js\<close>

datatype role = USER | ADMIN

record user =
  u_id :: oid
  u_name :: string
  u_email :: string
  u_passwordHash :: string
  u_role :: role
  u_isActive :: bool
  u_createdAt :: date

fun role_name :: "role \<Rightarrow> string" where
  "role_name USER = ''USER''"
| "role_name ADMIN = ''ADMIN''"

definition toSafeUser :: "user \<Rightarrow> jsval" where
  "toSafeUser u = JObj
     [(''id'', JStr (u_id u)), (''name'', JStr (u_name u)), (''email'', JStr (u_email u)),
      (''role'', JStr (role_name (u_role u))), (''isActive'', JBool (u_isActive u)),
      (''createdAt'', js_int (u_createdAt u))]"

section \<open>audit-log.model.js\<close>

datatype audit_action = PROBLEM_CREATED | PROBLEM_UPDATED | PROBLEM_DELETED
  | TEST_CASE_CREATED | TEST_CASE_UPDATED | TEST_CASE_DELETED

datatype audit_target = Problem_target | TestCase_target

record audit_log =
  a_id :: oid
  a_userId :: oid
  a_action :: audit_action
  a_targetType :: audit_target
  a_targetId :: oid
  a_details :: jsval
  a_ip :: "string option"
  a_createdAt :: date

section \<open>Validation by the object mapper\<close>

text \<open>
  \<open>Model.create\<close> and \<open>save\<close> first run the validators of the schema on the document
  (\<open>new\<close>); its error is a ValidationError, whose list of messages is not modelled.
\<close>

definition validation_failed :: err where
  "validation_failed = js_error ''ValidationError'' ''validation failed''"

definition create_valid :: "('w, 'd) coll \<Rightarrow> ('d \<Rightarrow> bool) \<Rightarrow> (oid \<Rightarrow> date \<Rightarrow> 'd) \<Rightarrow> ('w, 'd) io" where
  "create_valid C ok mk = (if ok (mk [] 0) then create C mk else throw validation_failed)"

definition save_valid :: "('w, 'd) coll \<Rightarrow> ('d \<Rightarrow> bool) \<Rightarrow> oid \<Rightarrow> 'd \<Rightarrow> ('d \<Rightarrow> 'd) \<Rightarrow> ('w, unit) io" where
  "save_valid C ok i new f = (if ok new then save C i f else throw validation_failed)"

section \<open>The environment of the services\<close>

text \<open>
  \<open>engine\<close> is \<open>None\<close> when the execution engine could not be loaded; otherwise its
  \<open>execute\<close>, given language, source code, input and expected output.
  \<open>queueAdd jobId submissionId traceparent\<close> is \<open>queue.add('execute', { submissionId }, opts)\<close>.
\<close>

record 'w backend =
  Users :: "('w, user) coll"
  Problems :: "('w, problem) coll"
  TestCases :: "('w, testcase) coll"
  Submissions :: "('w, submission) coll"
  AuditLogs :: "('w, audit_log) coll"
  now :: "('w, date) io"
  objectIdValid :: "string \<Rightarrow> bool"
  engine :: "(string \<Rightarrow> string \<Rightarrow> string \<Rightarrow> string \<Rightarrow> ('w, exec_result) io) option"
  queueAdd :: "string \<Rightarrow> string \<Rightarrow> string option \<Rightarrow> ('w, unit) io"

record db =
  db_users :: "oid \<rightharpoonup> user"
  db_problems :: "oid \<rightharpoonup> problem"
  db_testCases :: "oid \<rightharpoonup> testcase"
  db_submissions :: "oid \<rightharpoonup> submission"
  db_auditLogs :: "oid \<rightharpoonup> audit_log"

text \<open>
  What the services rely on: each collection obeys its contract and leaves the others alone;
  reading the clock, running code and adding a job touch no document; and the engine never
  answers with the verdict of a submission that was not judged.
\<close>

locale database =
  users: collection "Users B" view db_users db_users_update +
  problems: collection "Problems B" view db_problems db_problems_update +
  testCases: collection "TestCases B" view db_testCases db_testCases_update +
  submissions: collection "Submissions B" view db_submissions db_submissions_update +
  auditLogs: collection "AuditLogs B" view db_auditLogs db_auditLogs_update
  for B :: "'w backend" and view :: "'w \<Rightarrow> db" +
  assumes now_keeps: "keeps view (now B)"
    and engine_keeps: "engine B = Some run \<Longrightarrow> keeps view (run l c i e)"
    and engine_verdict: "engine B = Some run \<Longrightarrow> run l c i e w = (Inr r, w') \<Longrightarrow> x_verdict r \<noteq> V_PENDING"
    and queueAdd_keeps: "keeps view (queueAdd B j s t)"

section \<open>Facts\<close>

lemma total_preorder_order_le [simp]: "total_preorder order_le"
proof -
  have "num_le x y \<or> num_le y x" for x y
    by (cases x; cases y) (auto split: bool.splits elim!: num_le.elims)
  moreover have "num_le x y \<Longrightarrow> num_le y z \<Longrightarrow> num_le x z" for x y z
    by (cases x; cases y; cases z) (auto elim!: num_le.elims)
  ultimately show ?thesis by (auto simp: total_preorder_def order_le_def)
qed

lemma verdict_name_inject [simp]: "verdict_name a = verdict_name b \<longleftrightarrow> a = b"
  by (cases a; cases b) simp_all

lemma status_name_inject [simp]: "status_name a = status_name b \<longleftrightarrow> a = b"
  by (cases a; cases b) simp_all

end
