(* ===== verification/Backing.thy ===== *)
theory Backing
  imports Models
begin

text \<open>
  An in-memory backend: every collection an association list, a clock, the list of queued jobs.
  It meets the contract \<open>database\<close> of \<open>Models\<close>; the concrete instances of the
  properties run on it.
\<close>

section \<open>A collection kept in an association list\<close>

definition alist_keys :: "(oid \<times> 'd) list \<Rightarrow> oid list" where
  "alist_keys l = remdups (map fst l)"

definition alist_docs :: "(oid \<times> 'd) list \<Rightarrow> 'd list" where
  "alist_docs l = map (\<lambda>k. the (map_of l k)) (alist_keys l)"

definition fresh_oid :: "(oid \<times> 'd) list \<Rightarrow> oid" where
  "fresh_oid l = replicate (Suc (sum_list (map (length \<circ> fst) l))) (CHR ''a'')"

lemma fresh_oid_fresh [simp]: "map_of l (fresh_oid l) = None"
proof -
  have "length k \<le> sum_list (map (length \<circ> fst) l)" if "(k, d) \<in> set l" for k d
    using that by (induction l) auto
  then have "fresh_oid l \<notin> fst ` set l" by (fastforce simp: fresh_oid_def)
  then show ?thesis by (simp add: map_of_eq_None_iff)
qed

definition mem_update :: "oid \<Rightarrow> ('d \<Rightarrow> bool) \<Rightarrow> ('d \<Rightarrow> 'd) \<Rightarrow> (oid \<times> 'd) list \<Rightarrow> (oid \<times> 'd) list" where
  "mem_update i P f l = (case map_of l i of Some d \<Rightarrow> (if P d then assoc_put i (f d) l else l) | None \<Rightarrow> l)"

lemma map_of_mem_update: "map_of (mem_update i P f l) = modify i P f (map_of l)"
  by (auto simp: mem_update_def modify_def split: option.splits)

definition mem_coll ::
  "('w \<Rightarrow> (oid \<times> 'd) list) \<Rightarrow> (((oid \<times> 'd) list \<Rightarrow> (oid \<times> 'd) list) \<Rightarrow> 'w \<Rightarrow> 'w) \<Rightarrow> ('w \<Rightarrow> date) \<Rightarrow> ('w, 'd) coll" where
  "mem_coll get upd time =
     \<lparr>findById = (\<lambda>i w. (Inr (map_of (get w) i), w)),
      findOne = (\<lambda>P w. (Inr (find P (alist_docs (get w))), w)),
      findMany = (\<lambda>P le n lm w. (Inr (slice n lm (sort_by le (filter P (alist_docs (get w))))), w)),
      countDocuments = (\<lambda>P w. (Inr (length (filter P (alist_docs (get w)))), w)),
      groupCount = (\<lambda>P key w.
        (Inr (map (\<lambda>k. (k, length (filter (\<lambda>d. P d \<and> key d = k) (alist_docs (get w)))))
           (remdups (map key (filter P (alist_docs (get w)))))), w)),
      distinctOf = (\<lambda>P fld w. (Inr (remdups (map fld (filter P (alist_docs (get w))))), w)),
      findOneAndUpdate = (\<lambda>i P f w. (Inr (modified i P f (map_of (get w))), upd (mem_update i P f) w)),
      updateOne = (\<lambda>i P f w. (Inr (), upd (mem_update i P f) w)),
      save = (\<lambda>i f w. if map_of (get w) i = None then (Inl (js_error ''DocumentNotFoundError'' ''No document found''), w)
        else (Inr (), upd (mem_update i (\<lambda>_. True) f) w)),
      create = (\<lambda>mk w. let i = fresh_oid (get w) in (Inr (mk i (time w)), upd (\<lambda>l. (i, mk i (time w)) # l) w))\<rparr>"

lemma alist_docs_filter:
  "filter P (alist_docs l) = map (\<lambda>k. the (map_of l k)) (filter (\<lambda>k. P (the (map_of l k))) (alist_keys l))"
  by (simp add: alist_docs_def filter_map comp_def)

lemma set_alist_keys [simp]: "set (alist_keys l) = dom (map_of l)"
  by (simp add: alist_keys_def dom_map_of_conv_image_fst)

lemma distinct_alist_keys [simp]: "distinct (alist_keys l)"
  by (simp add: alist_keys_def)

lemma matching_keys: "matching P (map_of l) = set (filter (\<lambda>k. P (the (map_of l k))) (alist_keys l))"
  by (auto simp: matching_def dom_def)

lemma listing_filter: "listing P (map_of l) (filter P (alist_docs l))"
  unfolding listing_def alist_docs_filter matching_keys
  by (intro exI [of _ "filter (\<lambda>k. P (the (map_of l k))) (alist_keys l)"]) simp

lemma set_alist_docs: "d \<in> set (alist_docs l) \<longleftrightarrow> (\<exists>i. map_of l i = Some d)"
  by (force simp: alist_docs_def dom_def)

lemma length_filter_card: "length (filter P (alist_docs l)) = card (matching P (map_of l))"
  by (rule listing_length) (rule listing_filter)

lemma insort_by_map: "insort_by le (f x) (map f xs) = map f (insort_by (\<lambda>a b. le (f a) (f b)) x xs)"
  by (induction xs) auto

lemma sort_by_map: "sort_by le (map f xs) = map f (sort_by (\<lambda>a b. le (f a) (f b)) xs)"
  by (induction xs) (auto simp: sort_by_def insort_by_map)

lemma listing_sort_by: "listing P m ds \<Longrightarrow> listing P m (sort_by le ds)"
proof -
  assume "listing P m ds"
  then obtain ks where ks: "distinct ks" "set ks = matching P m" "ds = map (\<lambda>k. the (m k)) ks"
    by (auto simp: listing_def)
  let ?ks = "sort_by (\<lambda>a b. le (the (m a)) (the (m b))) ks"
  have "distinct ?ks" by (metis ks(1) mset_sort_by mset_eq_imp_distinct_iff)
  moreover have "set ?ks = matching P m" by (simp add: ks(2))
  ultimately show ?thesis unfolding listing_def ks(3) sort_by_map by blast
qed

lemma mem_coll_collection:
  assumes docs: "\<And>w. docs (view w) = map_of (get w)"
    and upd: "\<And>f g w. map_of (f (get w)) = g (map_of (get w)) \<Longrightarrow> view (upd f w) = put g (view w)"
    and put: "\<And>g v. docs (put g v) = g (docs v)" "\<And>g v. g (docs v) = docs v \<Longrightarrow> put g v = v"
  shows "collection (mem_coll get upd time) view docs put"
proof
  fix w :: 'a
  show "finite (dom (docs (view w)))" by (simp add: docs finite_dom_map_of)
next
  fix P w d w'
  assume "findOne (mem_coll get upd time) P w = (Inr (Some d), w')"
  then have "d \<in> set (alist_docs (get w)) \<and> P d"
    by (auto simp: mem_coll_def find_Some_iff)
  then show "\<exists>i. docs (view w) i = Some d \<and> P d" by (auto simp: docs set_alist_docs)
next
  fix P w w'
  assume "findOne (mem_coll get upd time) P w = (Inr None, w')"
  then have "\<not> (\<exists>d \<in> set (alist_docs (get w)). P d)"
    by (auto simp: mem_coll_def find_None_iff)
  then show "matching P (docs (view w)) = {}"
    by (auto simp: docs set_alist_docs matching_def)
next
  fix le P n lm w ds w'
  assume le: "total_preorder le" and "findMany (mem_coll get upd time) P le n lm w = (Inr ds, w')"
  then have "ds = slice n lm (sort_by le (filter P (alist_docs (get w))))"
    by (auto simp: mem_coll_def)
  with le show "\<exists>xs. listing P (docs (view w)) xs \<and> sorted_wrt le xs \<and> ds = slice n lm xs"
    unfolding docs using listing_sort_by [OF listing_filter] sorted_sort_by by blast
next
  fix P w n w'
  assume "countDocuments (mem_coll get upd time) P w = (Inr n, w')"
  then show "n = card (matching P (docs (view w)))"
    by (auto simp: mem_coll_def docs length_filter_card)
next
  fix P key w gs w'
  assume "groupCount (mem_coll get upd time) P key w = (Inr gs, w')"
  then have gs: "gs = map (\<lambda>k. (k, length (filter (\<lambda>d. P d \<and> key d = k) (alist_docs (get w)))))
           (remdups (map key (filter P (alist_docs (get w)))))"
    by (auto simp: mem_coll_def)
  have "(0 < length (filter (\<lambda>d. P d \<and> key d = k) (alist_docs (get w)))) =
      (k \<in> set (map key (filter P (alist_docs (get w)))))" for k
    by (auto simp: filter_empty_conv)
  then show "distinct (map fst gs) \<and>
         (\<forall>k n. (k, n) \<in> set gs \<longleftrightarrow> 0 < n \<and> n = card (matching (\<lambda>d. P d \<and> key d = k) (docs (view w))))"
    unfolding docs length_filter_card [symmetric] by (auto simp: gs comp_def)
next
  fix P fld w xs w'
  assume "distinctOf (mem_coll get upd time) P fld w = (Inr xs, w')"
  then show "distinct xs \<and> (\<forall>x. x \<in> set xs \<longleftrightarrow> (\<exists>i d. docs (view w) i = Some d \<and> P d \<and> fld d = x))"
    by (force simp: mem_coll_def docs set_alist_docs)
next
  fix i P f w r w'
  assume "findOneAndUpdate (mem_coll get upd time) i P f w = (Inr r, w')"
  then show "r = modified i P f (docs (view w)) \<and> view w' = put (modify i P f) (view w)"
    by (auto simp: mem_coll_def docs intro!: upd map_of_mem_update)
next
  fix i P f w u w'
  assume "updateOne (mem_coll get upd time) i P f w = (Inr u, w')"
  then show "view w' = put (modify i P f) (view w)"
    by (auto simp: mem_coll_def intro!: upd map_of_mem_update)
next
  fix i f w u w'
  assume "save (mem_coll get upd time) i f w = (Inr u, w')"
  then show "docs (view w) i \<noteq> None \<and> view w' = put (modify i (\<lambda>_. True) f) (view w)"
    by (auto simp: mem_coll_def docs split: if_splits intro!: upd map_of_mem_update)
next
  fix mk w d w'
  assume "create (mem_coll get upd time) mk w = (Inr d, w')"
  then have "docs (view w) (fresh_oid (get w)) = None \<and> d = mk (fresh_oid (get w)) (time w) \<and>
      view w' = put (\<lambda>m. m(fresh_oid (get w) \<mapsto> mk (fresh_oid (get w)) (time w))) (view w)"
    by (auto simp: mem_coll_def docs Let_def intro!: upd)
  then show "\<exists>i t. docs (view w) i = None \<and> d = mk i t \<and> view w' = put (\<lambda>m. m(i \<mapsto> mk i t)) (view w)"
    by blast
qed (auto simp: put mem_coll_def keeps_def docs Let_def split: if_splits)

section \<open>The whole backend\<close>

record world =
  w_users :: "(oid \<times> user) list"
  w_problems :: "(oid \<times> problem) list"
  w_testCases :: "(oid \<times> testcase) list"
  w_submissions :: "(oid \<times> submission) list"
  w_auditLogs :: "(oid \<times> audit_log) list"
  w_time :: date
  w_jobs :: "(string \<times> string \<times> string option) list"

definition world_view :: "world \<Rightarrow> db" where
  "world_view w =
     \<lparr>db_users = map_of (w_users w), db_problems = map_of (w_problems w),
      db_testCases = map_of (w_testCases w), db_submissions = map_of (w_submissions w),
      db_auditLogs = map_of (w_auditLogs w)\<rparr>"

text \<open>
  The clock ticks at every reading. \<open>judge\<close> plays the execution engine; with
  \<open>queueUp = False\<close> adding a job fails.
\<close>

definition mem_backend ::
  "(string \<Rightarrow> string \<Rightarrow> string \<Rightarrow> string \<Rightarrow> err + exec_result) \<Rightarrow> bool \<Rightarrow> world backend" where
  "mem_backend run queueUp =
     \<lparr>Users = mem_coll w_users w_users_update w_time,
      Problems = mem_coll w_problems w_problems_update w_time,
      TestCases = mem_coll w_testCases w_testCases_update w_time,
      Submissions = mem_coll w_submissions w_submissions_update w_time,
      AuditLogs = mem_coll w_auditLogs w_auditLogs_update w_time,
      now = (\<lambda>w. (Inr (w_time w), w\<lparr>w_time := w_time w + 1\<rparr>)),
      objectIdValid = (\<lambda>s. s \<noteq> []),
      engine = Some (\<lambda>l c i e w. (run l c i e, w)),
      queueAdd = (\<lambda>j s t w. if queueUp then (Inr (), w\<lparr>w_jobs := (j, s, t) # w_jobs w\<rparr>)
        else (Inl (plain_error ''Connection is closed.''), w))\<rparr>"

definition judging :: "(string \<Rightarrow> string \<Rightarrow> string \<Rightarrow> string \<Rightarrow> err + exec_result) \<Rightarrow> bool" where
  "judging run \<longleftrightarrow> (\<forall>l c i e r. run l c i e = Inr r \<longrightarrow> x_verdict r \<noteq> V_PENDING)"

lemma mem_backend_simps [simp]:
  "Users (mem_backend run q) = mem_coll w_users w_users_update w_time"
  "Problems (mem_backend run q) = mem_coll w_problems w_problems_update w_time"
  "TestCases (mem_backend run q) = mem_coll w_testCases w_testCases_update w_time"
  "Submissions (mem_backend run q) = mem_coll w_submissions w_submissions_update w_time"
  "AuditLogs (mem_backend run q) = mem_coll w_auditLogs w_auditLogs_update w_time"
  "now (mem_backend run q) w = (Inr (w_time w), w\<lparr>w_time := w_time w + 1\<rparr>)"
  "objectIdValid (mem_backend run q) s = (s \<noteq> [])"
  "engine (mem_backend run q) = Some (\<lambda>l c i e w. (run l c i e, w))"
  "queueAdd (mem_backend run q) j s t w = (if q then (Inr (), w\<lparr>w_jobs := (j, s, t) # w_jobs w\<rparr>)
        else (Inl (plain_error ''Connection is closed.''), w))"
  by (simp_all add: mem_backend_def)

lemma mem_backend_database: "judging run \<Longrightarrow> database (mem_backend run q) world_view"
  by (intro database.intro database_axioms.intro)
    (auto intro!: mem_coll_collection simp: world_view_def keeps_def judging_def)

text \<open>The judges of the examples: every test accepted, and an engine that is down.\<close>

definition accept_all :: "string \<Rightarrow> string \<Rightarrow> string \<Rightarrow> string \<Rightarrow> err + exec_result" where
  "accept_all l c i e = Inr \<lparr>x_verdict = ACCEPTED, x_stdout = e, x_stderr = [],
     x_runtimeMs = Some 5, x_compileOutput = []\<rparr>"

definition engine_down :: "string \<Rightarrow> string \<Rightarrow> string \<Rightarrow> string \<Rightarrow> err + exec_result" where
  "engine_down l c i e = Inl (ExecutionEngineError ''EXECUTION_UNAVAILABLE'')"

lemma judging_examples [simp]: "judging accept_all" "judging engine_down"
  by (simp_all add: judging_def accept_all_def engine_down_def)

interpretation mem_accept: database "mem_backend accept_all q" world_view for q
  by (rule mem_backend_database) simp

interpretation mem_down: database "mem_backend engine_down q" world_view for q
  by (rule mem_backend_database) simp

section \<open>Sample documents\<close>

definition sample_test :: testcase where
  "sample_test = \<lparr>t_id = ''t'', t_problemId = ''p'', t_input = ''1'', t_expectedOutput = ''2'',
     t_visibility = HIDDEN, t_order = Finite 0, t_isActive = True, t_createdAt = 0\<rparr>"

definition sample_submission :: submission where
  "sample_submission = \<lparr>s_id = ''s'', s_userId = ''u'', s_problemId = ''p'', s_language = ''CPP'',
     s_sourceCode = ''int main(){}'', s_status = QUEUED, s_verdict = V_PENDING, s_runtimeMs = None,
     s_memoryKb = None, s_testsPassed = None, s_totalTests = None, s_queuedAt = Some 1,
     s_startedAt = None, s_completedAt = None, s_failedAt = None, s_errorMessage = None,
     s_execution = \<lparr>ex_workerId = None, ex_startedAt = None, ex_completedAt = None\<rparr>, s_createdAt = 1\<rparr>"

definition sample_world :: "(oid \<times> testcase) list \<Rightarrow> world" where
  "sample_world tcs = \<lparr>w_users = [], w_problems = [], w_testCases = tcs,
     w_submissions = [(''s'', sample_submission)], w_auditLogs = [], w_time = 5, w_jobs = []\<rparr>"

definition sample_problem :: problem where
  "sample_problem = \<lparr>p_id = ''p'', p_title = ''Sum'', p_description = ''Add.'', p_difficulty = EASY, p_tags = [''math''],
     p_inputFormat = ''n'', p_outputFormat = ''n'', p_constraints = ''n > 0'', p_examples = [(''1'', ''2'')],
     p_authorId = ''a'', p_isActive = True, p_createdAt = 0\<rparr>"

definition sample_user :: user where
  "sample_user = \<lparr>u_id = ''u'', u_name = ''Ann'', u_email = ''ann@x.org'', u_passwordHash = ''h'',
     u_role = USER, u_isActive = True, u_createdAt = 0\<rparr>"

definition sample_admin :: user where
  "sample_admin = sample_user\<lparr>u_id := ''a'', u_name := ''Eve'', u_email := ''eve@x.org'', u_role := ADMIN\<rparr>"

text \<open>One problem with one test, two users, one submission.\<close>

definition full_world :: world where
  "full_world = (sample_world [(''t'', sample_test)])
     \<lparr>w_problems := [(''p'', sample_problem)], w_users := [(''u'', sample_user), (''a'', sample_admin)]\<rparr>"

end
