(* ===== verification/SubmissionExec.thy ===== *)
theory SubmissionExec
  imports Backing
begin

text \<open>
  Executing a submission against the tests of its problem
  (\<open>modules/submissions/execution.adapter.js\<close>, \<open>submission-execution.service.js\<close>).
\<close>

section \<open>execution.adapter.js\<close>

definition executeTestCase :: "'w backend \<Rightarrow> string \<Rightarrow> string \<Rightarrow> string \<Rightarrow> string \<Rightarrow> ('w, exec_result) io" where
  "executeTestCase B language sourceCode input expectedOutput =
     (case engine B of
        None \<Rightarrow> throw (AppError ''Execution Engine is currently unavailable'' 500 None)
      | Some run \<Rightarrow>
          try_catch (run language sourceCode input expectedOutput) (\<lambda>err.
            if ename err = ''ValidationError'' then throw (AppError (emessage err) 400 None)
            else throw (AppError ''Internal execution engine failure'' 500 None)))"

text \<open>\<open>checkExecutionReadiness\<close>: ready, mode and details; \<open>docker\<close> is the engine's probe.\<close>

record readiness =
  rd_ready :: bool
  rd_mode :: string
  rd_details :: "string option"

definition checkExecutionReadiness :: "'w backend \<Rightarrow> string option \<Rightarrow> ('w, bool) io \<Rightarrow> ('w, readiness) io" where
  "checkExecutionReadiness B executionMode docker =
     (if engine B = None then
        ret \<lparr>rd_ready = False, rd_mode = ''unknown'', rd_details = Some ''Execution engine module not loaded''\<rparr>
      else if executionMode = Some ''local'' then
        ret \<lparr>rd_ready = True, rd_mode = ''local'', rd_details = None\<rparr>
      else await docker (\<lambda>dockerReady.
        ret \<lparr>rd_ready = dockerReady, rd_mode = ''docker'',
             rd_details = Some (if dockerReady then ''Docker sandbox daemon available''
                                else ''Docker daemon not accessible'')\<rparr>))"

section \<open>Saving a loaded document\<close>

text \<open>
  \<open>save()\<close> sends the paths whose value differs from the loaded one. \<open>sub_delta old new\<close>
  is that update: \<open>old\<close> is the document as loaded, \<open>new\<close> as the code changed it.
\<close>

definition sub_delta :: "submission \<Rightarrow> submission \<Rightarrow> submission \<Rightarrow> submission" where
  "sub_delta old new d = d\<lparr>
     s_status := (if s_status new = s_status old then s_status d else s_status new),
     s_verdict := (if s_verdict new = s_verdict old then s_verdict d else s_verdict new),
     s_runtimeMs := (if s_runtimeMs new = s_runtimeMs old then s_runtimeMs d else s_runtimeMs new),
     s_memoryKb := (if s_memoryKb new = s_memoryKb old then s_memoryKb d else s_memoryKb new),
     s_testsPassed := (if s_testsPassed new = s_testsPassed old then s_testsPassed d else s_testsPassed new),
     s_totalTests := (if s_totalTests new = s_totalTests old then s_totalTests d else s_totalTests new),
     s_queuedAt := (if s_queuedAt new = s_queuedAt old then s_queuedAt d else s_queuedAt new),
     s_startedAt := (if s_startedAt new = s_startedAt old then s_startedAt d else s_startedAt new),
     s_completedAt := (if s_completedAt new = s_completedAt old then s_completedAt d else s_completedAt new),
     s_failedAt := (if s_failedAt new = s_failedAt old then s_failedAt d else s_failedAt new),
     s_errorMessage := (if s_errorMessage new = s_errorMessage old then s_errorMessage d else s_errorMessage new)\<rparr>"

definition saveSubmission :: "'w backend \<Rightarrow> submission \<Rightarrow> submission \<Rightarrow> ('w, unit) io" where
  "saveSubmission B old new = save (Submissions B) (s_id old) (sub_delta old new)"

section \<open>submission-execution.service.js\<close>

text \<open>How the loop over the test cases ended: at a compilation error, or with the final verdict.\<close>

datatype loop_end = Compile_error nat | Finished nat int verdict

fun runTests :: "'w backend \<Rightarrow> string \<Rightarrow> string \<Rightarrow> testcase list \<Rightarrow> nat \<Rightarrow> int \<Rightarrow> verdict \<Rightarrow> ('w, loop_end) io" where
  "runTests B language sourceCode [] testsPassed totalRuntimeMs finalVerdict =
     ret (Finished testsPassed totalRuntimeMs finalVerdict)"
| "runTests B language sourceCode (tc # tcs) testsPassed totalRuntimeMs finalVerdict =
     await (executeTestCase B language sourceCode (t_input tc) (t_expectedOutput tc)) (\<lambda>execResult.
       let total = totalRuntimeMs + (case x_runtimeMs execResult of Some ms \<Rightarrow> ms | None \<Rightarrow> 0) in
       case x_verdict execResult of
         COMPILATION_ERROR \<Rightarrow> ret (Compile_error testsPassed)
       | ACCEPTED \<Rightarrow> runTests B language sourceCode tcs (Suc testsPassed) total finalVerdict
       | WRONG_ANSWER \<Rightarrow> runTests B language sourceCode tcs testsPassed total
           (if finalVerdict \<in> {TIME_LIMIT_EXCEEDED, MEMORY_LIMIT_EXCEEDED, RUNTIME_ERROR}
            then finalVerdict else WRONG_ANSWER)
       | TIME_LIMIT_EXCEEDED \<Rightarrow> ret (Finished testsPassed total TIME_LIMIT_EXCEEDED)
       | MEMORY_LIMIT_EXCEEDED \<Rightarrow> ret (Finished testsPassed total MEMORY_LIMIT_EXCEEDED)
       | OUTPUT_LIMIT_EXCEEDED \<Rightarrow> ret (Finished testsPassed total RUNTIME_ERROR)
       | RUNTIME_ERROR \<Rightarrow> ret (Finished testsPassed total RUNTIME_ERROR)
       | V_PENDING \<Rightarrow> runTests B language sourceCode tcs testsPassed total finalVerdict)"

text \<open>The part after the transition to RUNNING; \<open>sub\<close> is the document as saved last.\<close>

definition judgeSubmission :: "'w backend \<Rightarrow> submission \<Rightarrow> testcase list \<Rightarrow> ('w, submission option) io" where
  "judgeSubmission B sub testCases =
     await (runTests B (s_language sub) (s_sourceCode sub) testCases 0 0 ACCEPTED) (\<lambda>end.
       case end of
         Compile_error testsPassed \<Rightarrow>
           await (now B) (\<lambda>t.
           await (saveSubmission B sub (sub\<lparr>s_status := COMPLETED, s_verdict := COMPILATION_ERROR,
               s_testsPassed := Some testsPassed, s_totalTests := Some (length testCases),
               s_runtimeMs := None, s_memoryKb := None, s_completedAt := Some t\<rparr>)) (\<lambda>_. ret None))
       | Finished testsPassed totalRuntimeMs finalVerdict \<Rightarrow>
           (let verdict = (if testsPassed = length testCases \<and> finalVerdict = ACCEPTED then ACCEPTED
                           else if testsPassed \<noteq> length testCases \<and> finalVerdict = ACCEPTED then WRONG_ANSWER
                           else finalVerdict) in
            await (now B) (\<lambda>t.
              let done = sub\<lparr>s_status := COMPLETED, s_verdict := verdict,
                   s_testsPassed := Some testsPassed, s_totalTests := Some (length testCases),
                   s_runtimeMs := Some totalRuntimeMs, s_memoryKb := None, s_completedAt := Some t\<rparr> in
              await (saveSubmission B sub done) (\<lambda>_. ret (Some done)))))"

text \<open>\<open>None\<close> is \<open>undefined\<close>: not found, unsupported language, or a compilation error.\<close>

definition executeFound :: "'w backend \<Rightarrow> submission \<Rightarrow> ('w, submission option) io" where
  "executeFound B sub =
     (if s_language sub \<notin> set SUPPORTED_LANGUAGES then
        await (saveSubmission B sub (sub\<lparr>s_status := COMPLETED, s_verdict := RUNTIME_ERROR,
            s_testsPassed := Some 0, s_totalTests := Some 0\<rparr>)) (\<lambda>_. ret None)
      else
        await (findMany (TestCases B) (activeTests (s_problemId sub)) order_le 0 None) (\<lambda>testCases.
          if testCases = [] then
            throw (AppError ''This problem has no active test cases and is not ready for submissions.''
              422 (Some ''PROBLEM_NOT_READY''))
          else if s_status sub \<noteq> RUNNING then
            await (case s_startedAt sub of Some t \<Rightarrow> ret t | None \<Rightarrow> now B) (\<lambda>t.
              let running = sub\<lparr>s_status := RUNNING, s_startedAt := Some t\<rparr> in
              await (saveSubmission B sub running) (\<lambda>_. judgeSubmission B running testCases))
          else judgeSubmission B sub testCases))"

definition executeSubmission :: "'w backend \<Rightarrow> oid \<Rightarrow> ('w, submission option) io" where
  "executeSubmission B submissionId =
     await (findById (Submissions B) submissionId) (\<lambda>found. case found of
       None \<Rightarrow> ret None | Some sub \<Rightarrow> executeFound B sub)"

section \<open>The outcome of the loop as a function of the verdicts\<close>

text \<open>The verdicts that end the loop, and what a list of observed verdicts amounts to.\<close>

definition stops :: "verdict \<Rightarrow> bool" where
  "stops v \<longleftrightarrow> v \<in> {COMPILATION_ERROR, RUNTIME_ERROR, TIME_LIMIT_EXCEEDED,
     MEMORY_LIMIT_EXCEEDED, OUTPUT_LIMIT_EXCEEDED}"

definition overall :: "verdict list \<Rightarrow> verdict" where
  "overall vs =
     (if vs \<noteq> [] \<and> stops (last vs)
      then (if last vs = OUTPUT_LIMIT_EXCEEDED then RUNTIME_ERROR else last vs)
      else if \<forall>v\<in>set vs. v = ACCEPTED then ACCEPTED else WRONG_ANSWER)"

definition passed :: "verdict list \<Rightarrow> nat" where
  "passed vs = length (filter (\<lambda>v. v = ACCEPTED) vs)"

text \<open>The engine has answered \<open>v\<close> to a test case.\<close>

definition answered :: "'w backend \<Rightarrow> string \<Rightarrow> string \<Rightarrow> testcase \<Rightarrow> verdict \<Rightarrow> bool" where
  "answered B l c tc v \<longleftrightarrow> (\<exists>w r w'. executeTestCase B l c (t_input tc) (t_expectedOutput tc) w = (Inr r, w') \<and> x_verdict r = v)"

text \<open>
  \<open>vs\<close> are answers to the first tests, in order; only the last one may stop the loop, and
  tests are left out only after one that does.
\<close>

definition judged :: "'w backend \<Rightarrow> string \<Rightarrow> string \<Rightarrow> testcase list \<Rightarrow> verdict list \<Rightarrow> bool" where
  "judged B l c tcs vs \<longleftrightarrow>
     length vs \<le> length tcs \<and> list_all2 (answered B l c) (take (length vs) tcs) vs \<and>
     (\<forall>v\<in>set (butlast vs). \<not> stops v) \<and>
     (length vs < length tcs \<longrightarrow> vs \<noteq> [] \<and> stops (last vs))"

lemma passed_simps [simp]:
  "passed [] = 0" "passed (v # vs) = (if v = ACCEPTED then Suc (passed vs) else passed vs)"
  by (simp_all add: passed_def)

lemma passed_le: "passed vs \<le> length vs"
  by (simp add: passed_def)

lemma passed_all: "passed vs = length vs \<longleftrightarrow> (\<forall>v\<in>set vs. v = ACCEPTED)"
proof (induction vs)
  case (Cons v vs)
  then show ?case using passed_le [of vs] by auto
qed simp

lemma judged_Nil [simp]: "judged B l c [] vs \<longleftrightarrow> vs = []"
  by (auto simp: judged_def)

lemma judged_stop: "answered B l c tc v \<Longrightarrow> stops v \<Longrightarrow> judged B l c (tc # tcs) [v]"
  by (simp add: judged_def)

lemma judged_Cons: "answered B l c tc v \<Longrightarrow> \<not> stops v \<Longrightarrow> judged B l c tcs vs \<Longrightarrow> judged B l c (tc # tcs) (v # vs)"
  by (auto simp: judged_def)

lemma judged_full: "judged B l c tcs vs \<Longrightarrow> \<not> (vs \<noteq> [] \<and> stops (last vs)) \<Longrightarrow> length vs = length tcs"
  by (auto simp: judged_def)

text \<open>What the loop computes, in terms of the verdicts it has seen.\<close>

definition loop_result :: "nat \<Rightarrow> verdict \<Rightarrow> verdict list \<Rightarrow> loop_end \<Rightarrow> bool" where
  "loop_result p f vs x \<longleftrightarrow>
     (if vs \<noteq> [] \<and> last vs = COMPILATION_ERROR then x = Compile_error (p + passed vs)
      else (\<exists>ms. x = Finished (p + passed vs) ms
        (if vs \<noteq> [] \<and> stops (last vs)
         then (if last vs = OUTPUT_LIMIT_EXCEEDED then RUNTIME_ERROR else last vs)
         else if WRONG_ANSWER \<in> set vs then WRONG_ANSWER else f)))"

lemma runTests_result:
  assumes "runTests B l c tcs p ms f w = (Inr x, w')" and "f \<in> {ACCEPTED, WRONG_ANSWER}"
  shows "\<exists>vs. judged B l c tcs vs \<and> loop_result p f vs x"
  using assms
proof (induction tcs arbitrary: p ms f w)
  case Nil
  then show ?case by (intro exI [of _ "[]"]) (auto simp: loop_result_def)
next
  case (Cons tc tcs)
  from Cons.prems(1) obtain r w1 where
    r: "executeTestCase B l c (t_input tc) (t_expectedOutput tc) w = (Inr r, w1)" and
    k: "(let total = ms + (case x_runtimeMs r of Some m \<Rightarrow> m | None \<Rightarrow> 0) in
       case x_verdict r of
         COMPILATION_ERROR \<Rightarrow> ret (Compile_error p)
       | ACCEPTED \<Rightarrow> runTests B l c tcs (Suc p) total f
       | WRONG_ANSWER \<Rightarrow> runTests B l c tcs p total
           (if f \<in> {TIME_LIMIT_EXCEEDED, MEMORY_LIMIT_EXCEEDED, RUNTIME_ERROR} then f else WRONG_ANSWER)
       | TIME_LIMIT_EXCEEDED \<Rightarrow> ret (Finished p total TIME_LIMIT_EXCEEDED)
       | MEMORY_LIMIT_EXCEEDED \<Rightarrow> ret (Finished p total MEMORY_LIMIT_EXCEEDED)
       | OUTPUT_LIMIT_EXCEEDED \<Rightarrow> ret (Finished p total RUNTIME_ERROR)
       | RUNTIME_ERROR \<Rightarrow> ret (Finished p total RUNTIME_ERROR)
       | V_PENDING \<Rightarrow> runTests B l c tcs p total f) w1 = (Inr x, w')"
    unfolding runTests.simps by (rule await_cases) blast+
  let ?v = "x_verdict r"
  have ans: "answered B l c tc ?v" using r by (auto simp: answered_def)
  have go: ?case if "judged B l c tcs vs" "loop_result q g vs x" "\<not> stops ?v" "q = p + passed [?v]"
    "g = (if ?v = WRONG_ANSWER then WRONG_ANSWER else f)" for vs q g
    using that judged_Cons [OF ans that(3,1)] Cons.prems(2)
    by (intro exI [of _ "?v # vs"]) (auto simp: loop_result_def stops_def split: if_splits)
  show ?case
  proof (cases "stops ?v")
    case True
    with k judged_stop [OF ans True, of tcs] show ?thesis
      by (intro exI [of _ "[?v]"]) (auto simp: loop_result_def stops_def Let_def)
  next
    case False
    then have "?v \<in> {ACCEPTED, WRONG_ANSWER, V_PENDING}" by (cases ?v) (auto simp: stops_def)
    with k Cons.prems(2) obtain q g total where
      "runTests B l c tcs q total g w1 = (Inr x, w')" "q = p + passed [?v]"
      "g = (if ?v = WRONG_ANSWER then WRONG_ANSWER else f)" "g \<in> {ACCEPTED, WRONG_ANSWER}"
      by (fastforce simp: Let_def)
    with Cons.IH [of q total g w1] go False show ?thesis by blast
  qed
qed

section \<open>Effect on the database\<close>

definition ids_ok :: "db \<Rightarrow> bool" where
  "ids_ok v \<longleftrightarrow> (\<forall>i d. db_submissions v i = Some d \<longrightarrow> s_id d = i)"

text \<open>The fields no service changes after the submission was created.\<close>

definition same_request :: "submission \<Rightarrow> submission \<Rightarrow> bool" where
  "same_request a b \<longleftrightarrow> s_id a = s_id b \<and> s_userId a = s_userId b \<and> s_problemId a = s_problemId b \<and>
     s_language a = s_language b \<and> s_sourceCode a = s_sourceCode b \<and> s_createdAt a = s_createdAt b"

text \<open>Only submission \<open>i\<close> changes, not its request part, and it stays valid.\<close>

definition touches :: "oid \<Rightarrow> db \<Rightarrow> db \<Rightarrow> bool" where
  "touches i v v' \<longleftrightarrow>
     v' = v\<lparr>db_submissions := db_submissions v'\<rparr> \<and>
     (\<forall>j. j \<noteq> i \<longrightarrow> db_submissions v' j = db_submissions v j) \<and>
     rel_option (\<lambda>d d'. same_request d d' \<and> (submission_schema d \<longrightarrow> submission_schema d'))
       (db_submissions v i) (db_submissions v' i)"

lemma reflp_touches [simp]: "reflp (touches i)"
  by (rule reflpI) (auto simp: touches_def same_request_def option.rel_refl)

lemma transp_touches [simp]: "transp (touches i)"
proof (rule transpI)
  fix u v w :: db
  assume uv: "touches i u v" and vw: "touches i v w"
  have "w = u\<lparr>db_submissions := db_submissions w\<rparr>"
    using uv vw unfolding touches_def by (cases u; cases v; cases w) simp
  moreover have "\<forall>j. j \<noteq> i \<longrightarrow> db_submissions w j = db_submissions u j"
    using uv vw unfolding touches_def by simp
  moreover have "rel_option (\<lambda>d d'. same_request d d' \<and> (submission_schema d \<longrightarrow> submission_schema d'))
       (db_submissions u i) (db_submissions w i)"
    using uv vw unfolding touches_def same_request_def
    by (cases "db_submissions u i"; cases "db_submissions v i"; cases "db_submissions w i") simp_all
  ultimately show "touches i u w" unfolding touches_def by blast
qed

lemma touches_ids_ok:
  assumes "touches i v v'" and "ids_ok v"
  shows "ids_ok v'"
  unfolding ids_ok_def
proof (intro allI impI)
  fix j d
  assume d: "db_submissions v' j = Some d"
  show "s_id d = j"
  proof (cases "j = i")
    case True
    with assms(1) d obtain d0 where "db_submissions v i = Some d0" "same_request d0 d"
      unfolding touches_def by (cases "db_submissions v i") auto
    with assms(2) True show ?thesis by (auto simp: ids_ok_def same_request_def)
  next
    case False
    with assms d show ?thesis by (auto simp: ids_ok_def touches_def)
  qed
qed

lemma touches_modify:
  "(\<And>d. same_request d (f d) \<and> (submission_schema d \<longrightarrow> submission_schema (f d))) \<Longrightarrow>
   touches i v (db_submissions_update (modify i P f) v)"
  by (auto simp: touches_def modify_apply option.rel_sel same_request_def split: option.splits)

definition storable :: "verdict \<Rightarrow> bool" where
  "storable v \<longleftrightarrow> v \<noteq> OUTPUT_LIMIT_EXCEEDED"

lemma submission_schema_verdict:
  "submission_schema s \<longleftrightarrow> s_language s \<in> {''CPP'', ''PYTHON'', ''JAVASCRIPT''} \<and>
     s_sourceCode s \<noteq> [] \<and> length (s_sourceCode s) \<le> 65536 \<and> storable (s_verdict s)"
  by (cases "s_verdict s") (simp_all add: submission_schema_def storable_def)

lemma sub_delta_touches:
  "s_verdict new = s_verdict old \<or> storable (s_verdict new) \<Longrightarrow>
   same_request d (sub_delta old new d) \<and> (submission_schema d \<longrightarrow> submission_schema (sub_delta old new d))"
  by (auto simp: sub_delta_def same_request_def submission_schema_verdict)

lemma sub_delta_same:
  "same_request old new \<Longrightarrow> s_execution new = s_execution old \<Longrightarrow> sub_delta old new old = new"
  by (cases old; cases new) (simp add: sub_delta_def same_request_def)

lemma storable_overall: "storable (overall vs)"
  by (auto simp: overall_def storable_def)

text \<open>A document with a property is stored, and preservation of a predicate as a relation.\<close>

definition stored :: "oid \<Rightarrow> (submission \<Rightarrow> bool) \<Rightarrow> db \<Rightarrow> bool" where
  "stored i Q v \<longleftrightarrow> (\<exists>d. db_submissions v i = Some d \<and> Q d)"

definition pres :: "('v \<Rightarrow> bool) \<Rightarrow> 'v \<Rightarrow> 'v \<Rightarrow> bool" where
  "pres P v v' \<longleftrightarrow> (P v \<longrightarrow> P v')"

definition active :: "submission \<Rightarrow> bool" where
  "active d \<longleftrightarrow> s_status d \<in> {RUNNING, COMPLETED}"

lemma reflp_pres [simp]: "reflp (pres P)"
  by (rule reflpI) (simp add: pres_def)

lemma transp_pres [simp]: "transp (pres P)"
  by (rule transpI) (auto simp: pres_def)

context database
begin

lemma keeps_executeTestCase: "keeps view (executeTestCase B l c i e)"
proof (cases "engine B")
  case (Some run)
  then show ?thesis
    unfolding executeTestCase_def Some option.case
    by (intro keeps_try_catch engine_keeps [OF Some]) simp
qed (simp add: executeTestCase_def)

lemma keeps_runTests: "keeps view (runTests B l c tcs p ms f)"
proof (induction tcs arbitrary: p ms f)
  case (Cons tc tcs)
  then show ?case
    unfolding runTests.simps Let_def
    by (intro keeps_await keeps_executeTestCase) (auto split: verdict.split)
qed simp

lemma moves_save:
  "s_verdict new = s_verdict old \<or> storable (s_verdict new) \<Longrightarrow>
   moves (touches (s_id old)) view (saveSubmission B old new)"
proof (rule movesI)
  fix w r w'
  assume ok: "s_verdict new = s_verdict old \<or> storable (s_verdict new)"
    and run: "saveSubmission B old new w = (r, w')"
  from submissions.save_view_cases [OF run [unfolded saveSubmission_def]]
  show "touches (s_id old) (view w) (view w')"
    using touches_modify sub_delta_touches [OF ok] reflpD [OF reflp_touches] by metis
qed

lemma saveSubmission_ok:
  "saveSubmission B old new w = (Inr u, w') \<Longrightarrow>
   view w' = db_submissions_update (modify (s_id old) (\<lambda>_. True) (sub_delta old new)) (view w)"
  unfolding saveSubmission_def by (blast dest: submissions.save_ok)

lemma runTests_storable:
  assumes "runTests B l c tcs 0 0 ACCEPTED w = (Inr (Finished p ms v), w')"
  shows "storable v"
  using runTests_result [OF assms] by (auto simp: loop_result_def storable_def split: if_splits)

lemma moves_judge: "moves (touches (s_id sub)) view (judgeSubmission B sub tcs)"
  unfolding judgeSubmission_def
proof (rule moves_await [OF transp_touches])
  show "moves (touches (s_id sub)) view (runTests B (s_language sub) (s_sourceCode sub) tcs 0 0 ACCEPTED)"
    by (intro moves_keeps keeps_runTests) simp
next
  fix x w w'
  assume run: "runTests B (s_language sub) (s_sourceCode sub) tcs 0 0 ACCEPTED w = (Inr x, w')"
  have n: "moves (touches (s_id sub)) view (now B)" "moves (touches (s_id sub)) view (ret a)" for a
    by (intro moves_keeps now_keeps; simp)+
  have s: "moves (touches (s_id sub)) view (saveSubmission B sub new)" if "storable (s_verdict new)" for new
    using that by (intro moves_save) simp
  show "moves (touches (s_id sub)) view (case x of
         Compile_error testsPassed \<Rightarrow>
           await (now B) (\<lambda>t.
           await (saveSubmission B sub (sub\<lparr>s_status := COMPLETED, s_verdict := COMPILATION_ERROR,
               s_testsPassed := Some testsPassed, s_totalTests := Some (length tcs),
               s_runtimeMs := None, s_memoryKb := None, s_completedAt := Some t\<rparr>)) (\<lambda>_. ret None))
       | Finished testsPassed totalRuntimeMs finalVerdict \<Rightarrow>
           (let verdict = (if testsPassed = length tcs \<and> finalVerdict = ACCEPTED then ACCEPTED
                           else if testsPassed \<noteq> length tcs \<and> finalVerdict = ACCEPTED then WRONG_ANSWER
                           else finalVerdict) in
            await (now B) (\<lambda>t.
              let done = sub\<lparr>s_status := COMPLETED, s_verdict := verdict,
                   s_testsPassed := Some testsPassed, s_totalTests := Some (length tcs),
                   s_runtimeMs := Some totalRuntimeMs, s_memoryKb := None, s_completedAt := Some t\<rparr> in
              await (saveSubmission B sub done) (\<lambda>_. ret (Some done)))))"
  proof (cases x)
    case (Compile_error p)
    then show ?thesis by (auto intro!: moves_await n s simp: storable_def)
  next
    case (Finished p ms v)
    with run runTests_storable have "storable v" by blast
    with Finished show ?thesis
      by (auto intro!: moves_await n s simp: Let_def storable_def)
  qed
qed

lemma moves_executeFound: "moves (touches (s_id sub)) view (executeFound B sub)"
proof -
  let ?R = "touches (s_id sub)"
  have k: "moves ?R view (now B)" "moves ?R view (ret a)" "moves ?R view (throw e)" for a e
    by (intro moves_keeps now_keeps keeps_ret keeps_throw; simp)+
  have f: "moves ?R view (findMany (TestCases B) P le n lm)" for P le n lm
    by (intro moves_keeps testCases.findMany_keeps) simp
  have run: "moves ?R view (judgeSubmission B (sub\<lparr>s_status := RUNNING, s_startedAt := t\<rparr>) tcs)" for t tcs
    using moves_judge [of "sub\<lparr>s_status := RUNNING, s_startedAt := t\<rparr>" tcs] by simp
  have "moves ?R view (await (case s_startedAt sub of Some t \<Rightarrow> ret t | None \<Rightarrow> now B) (\<lambda>t.
          let running = sub\<lparr>s_status := RUNNING, s_startedAt := Some t\<rparr> in
          await (saveSubmission B sub running) (\<lambda>_. judgeSubmission B running tcs)))" for tcs
    unfolding Let_def
    by (intro moves_await transp_touches moves_save run) (auto simp: k split: option.split)
  then show ?thesis
    unfolding executeFound_def
    by (auto intro!: moves_await moves_save moves_judge f k simp: storable_def)
qed

lemma executeSubmission_touches:
  assumes "ids_ok (view w)" and "executeSubmission B i w = (r, w')"
  shows "touches i (view w) (view w')"
  using assms(2) unfolding executeSubmission_def
proof (cases rule: await_cases)
  case (err e)
  then show ?thesis using keepsD [OF submissions.findById_keeps] reflpD [OF reflp_touches] by metis
next
  case (ok found w1)
  have v1: "view w1 = view w" using ok(1) by (rule keepsD [OF submissions.findById_keeps])
  show ?thesis
  proof (cases found)
    case None
    with ok v1 show ?thesis by (simp add: reflpD [OF reflp_touches])
  next
    case (Some sub)
    with ok(1) assms(1) have "s_id sub = i"
      using submissions.findById_result by (fastforce simp: ids_ok_def)
    with Some ok(2) v1 movesD [OF moves_executeFound, of sub w1 r w'] show ?thesis by simp
  qed
qed

lemma judgeSubmission_result:
  assumes "judgeSubmission B sub tcs w = (Inr (Some d), w')"
    and doc: "db_submissions (view w) (s_id sub) = Some sub"
  shows "same_request sub d \<and> (\<exists>vs. judged B (s_language sub) (s_sourceCode sub) tcs vs \<and>
      s_status d = COMPLETED \<and> s_verdict d = overall vs \<and> s_testsPassed d = Some (passed vs) \<and>
      s_totalTests d = Some (length tcs)) \<and>
    view w' = db_submissions_update (\<lambda>m. m(s_id sub \<mapsto> d)) (view w)"
  using assms(1) unfolding judgeSubmission_def
proof (cases rule: await_cases)
  case (ok x w1)
  have v1: "view w1 = view w" using ok(1) by (rule keepsD [OF keeps_runTests])
  obtain vs where vs: "judged B (s_language sub) (s_sourceCode sub) tcs vs" "loop_result 0 ACCEPTED vs x"
    using runTests_result [OF ok(1)] by auto
  show ?thesis
  proof (cases x)
    case (Compile_error q)
    with ok(2) show ?thesis by (auto simp: await_def split: prod.splits sum.splits)
  next
    case (Finished q ms v)
    let ?v = "if q = length tcs \<and> v = ACCEPTED then ACCEPTED
              else if q \<noteq> length tcs \<and> v = ACCEPTED then WRONG_ANSWER else v"
    from Finished ok(2) obtain t w2 u where t: "now B w1 = (Inr t, w2)"
      and d: "d = sub\<lparr>s_status := COMPLETED, s_verdict := ?v, s_testsPassed := Some q,
               s_totalTests := Some (length tcs), s_runtimeMs := Some ms, s_memoryKb := None, s_completedAt := Some t\<rparr>"
      and sv: "saveSubmission B sub d w2 = (Inr u, w')"
      by (auto simp: Let_def elim!: await_cases)
    have v2: "view w2 = view w" using keepsD [OF now_keeps t] v1 by simp
    have req: "same_request sub d" "s_execution d = s_execution sub" by (simp_all add: d same_request_def)
    have "modify (s_id sub) (\<lambda>_. True) (sub_delta sub d) (db_submissions (view w)) =
        (db_submissions (view w))(s_id sub \<mapsto> d)"
      using doc sub_delta_same [OF req] by (simp add: modify_def)
    then have view: "view w' = db_submissions_update (\<lambda>m. m(s_id sub \<mapsto> d)) (view w)"
      using saveSubmission_ok [OF sv] v2 by (cases "view w") simp
    have q: "q = passed vs" using vs(2) Finished by (auto simp: loop_result_def split: if_splits)
    have "?v = overall vs"
    proof (cases "vs \<noteq> [] \<and> stops (last vs)")
      case True
      with vs(2) Finished show ?thesis
        by (auto simp: loop_result_def overall_def stops_def split: if_splits)
    next
      case False
      with vs(1) have len: "length vs = length tcs" by (blast dest: judged_full)
      from False vs(2) Finished have v: "v = (if WRONG_ANSWER \<in> set vs then WRONG_ANSWER else ACCEPTED)"
        by (auto simp: loop_result_def stops_def split: if_splits)
      show ?thesis
        using False len v passed_all [of vs] by (auto simp: overall_def q)
    qed
    with vs(1) view req(1) q show ?thesis by (auto simp: d)
  qed
qed simp

lemma executeSubmission_completed:
  assumes ids: "ids_ok (view w)" and run: "executeSubmission B i w = (Inr (Some d), w')"
  shows "\<exists>sub tcs vs. db_submissions (view w) i = Some sub \<and> same_request sub d \<and>
    listing (activeTests (s_problemId d)) (db_testCases (view w)) tcs \<and> sorted_wrt order_le tcs \<and> tcs \<noteq> [] \<and>
    judged B (s_language d) (s_sourceCode d) tcs vs \<and>
    s_status d = COMPLETED \<and> s_verdict d = overall vs \<and> s_testsPassed d = Some (passed vs) \<and>
    s_totalTests d = Some (length tcs) \<and>
    view w' = db_submissions_update (\<lambda>m. m(i \<mapsto> d)) (view w)"
proof -
  from run obtain sub w1 where f: "findById (Submissions B) i w = (Inr (Some sub), w1)"
    and k: "executeFound B sub w1 = (Inr (Some d), w')"
    unfolding executeSubmission_def by (rule await_cases) (auto split: option.splits)
  have sub: "db_submissions (view w) i = Some sub" using submissions.findById_result [OF f] by simp
  with ids have id: "s_id sub = i" by (simp add: ids_ok_def)
  have v1: "view w1 = view w" using f by (rule keepsD [OF submissions.findById_keeps])
  have "s_language sub \<in> set SUPPORTED_LANGUAGES"
  proof (rule ccontr)
    assume "s_language sub \<notin> set SUPPORTED_LANGUAGES"
    with k show False by (auto simp: executeFound_def elim!: await_cases)
  qed
  with k obtain tcs w2 where tcs: "findMany (TestCases B) (activeTests (s_problemId sub)) order_le 0 None w1 = (Inr tcs, w2)"
    and ne: "tcs \<noteq> []" and go: "(if s_status sub \<noteq> RUNNING then
            await (case s_startedAt sub of Some t \<Rightarrow> ret t | None \<Rightarrow> now B) (\<lambda>t.
              let running = sub\<lparr>s_status := RUNNING, s_startedAt := Some t\<rparr> in
              await (saveSubmission B sub running) (\<lambda>_. judgeSubmission B running tcs))
          else judgeSubmission B sub tcs) w2 = (Inr (Some d), w')"
    unfolding executeFound_def by (auto elim!: await_cases split: if_splits)
  have v2: "view w2 = view w" using keepsD [OF testCases.findMany_keeps tcs] v1 by simp
  have list: "listing (activeTests (s_problemId sub)) (db_testCases (view w)) tcs" "sorted_wrt order_le tcs"
    using testCases.findMany_result [OF total_preorder_order_le tcs] v1 by auto
  have "\<exists>run w3. judgeSubmission B run tcs w3 = (Inr (Some d), w') \<and> same_request sub run \<and>
      view w3 = db_submissions_update (\<lambda>m. m(i \<mapsto> run)) (view w)"
  proof (cases "s_status sub = RUNNING")
    case True
    have "(db_submissions (view w))(i \<mapsto> sub) = db_submissions (view w)" using sub by (simp add: fun_upd_idem)
    with True go v2 show ?thesis
      by (intro exI [of _ sub] exI [of _ w2]) (simp add: same_request_def)
  next
    case False
    then obtain t wt run u w3 where t: "(case s_startedAt sub of Some t \<Rightarrow> ret t | None \<Rightarrow> now B) w2 = (Inr t, wt)"
      and run: "run = sub\<lparr>s_status := RUNNING, s_startedAt := Some t\<rparr>"
      and sv: "saveSubmission B sub run wt = (Inr u, w3)" and j: "judgeSubmission B run tcs w3 = (Inr (Some d), w')"
      using go by (auto simp: Let_def elim!: await_cases)
    have "view wt = view w2"
      using t keepsD [OF now_keeps] by (cases "s_startedAt sub") auto
    moreover have "sub_delta sub run sub = run" by (rule sub_delta_same) (simp_all add: run same_request_def)
    ultimately have "view w3 = db_submissions_update (\<lambda>m. m(i \<mapsto> run)) (view w)"
      using saveSubmission_ok [OF sv] sub id v2 by (cases "view w") (simp add: modify_def)
    moreover have "same_request sub run" by (simp add: run same_request_def)
    ultimately show ?thesis using j by blast
  qed
  then obtain run w3 where j: "judgeSubmission B run tcs w3 = (Inr (Some d), w')" and same: "same_request sub run"
    and v3: "view w3 = db_submissions_update (\<lambda>m. m(i \<mapsto> run)) (view w)" by blast
  from same id have run_id: "s_id run = i" by (simp add: same_request_def)
  from judgeSubmission_result [OF j] run_id v3 obtain vs where
    res: "same_request run d" "judged B (s_language run) (s_sourceCode run) tcs vs"
      "s_status d = COMPLETED" "s_verdict d = overall vs" "s_testsPassed d = Some (passed vs)"
      "s_totalTests d = Some (length tcs)"
      "view w' = db_submissions_update (\<lambda>m. m(i \<mapsto> d)) (view w3)" by auto
  have "view w' = db_submissions_update (\<lambda>m. m(i \<mapsto> d)) (view w)"
    using res(7) v3 by (cases "view w") simp
  with res same sub list ne show ?thesis by (auto simp: same_request_def)
qed

lemma save_completes:
  assumes "saveSubmission B old new w = (Inr u, w')" and "s_status new = COMPLETED" and "s_status old \<noteq> COMPLETED"
  shows "stored (s_id old) (\<lambda>d. s_status d = COMPLETED) (view w')"
proof -
  from assms(1) have "db_submissions (view w) (s_id old) \<noteq> None"
    unfolding saveSubmission_def by (blast dest: submissions.save_ok)
  with saveSubmission_ok [OF assms(1)] assms(2,3) show ?thesis
    by (auto simp: stored_def modify_def sub_delta_def)
qed

text \<open>A claimed submission whose execution returns is COMPLETED.\<close>

lemma executeFound_completes:
  assumes "executeFound B sub w = (Inr x, w')" and "s_status sub = RUNNING"
  shows "stored (s_id sub) (\<lambda>d. s_status d = COMPLETED) (view w')"
proof (cases "s_language sub \<in> set SUPPORTED_LANGUAGES")
  case False
  with assms obtain new u where "saveSubmission B sub new w = (Inr u, w')" "s_status new = COMPLETED"
    by (auto simp: executeFound_def elim!: await_cases)
  from save_completes [OF this] assms(2) show ?thesis by simp
next
  case True
  with assms obtain tcs w1 where j: "judgeSubmission B sub tcs w1 = (Inr x, w')"
    by (auto simp: executeFound_def elim!: await_cases split: if_splits)
  then obtain new w2 u where "saveSubmission B sub new w2 = (Inr u, w')" "s_status new = COMPLETED"
    unfolding judgeSubmission_def
    by (auto simp: Let_def elim!: await_cases split: loop_end.splits)
  from save_completes [OF this] assms(2) show ?thesis by simp
qed

text \<open>However it ends, it is RUNNING or COMPLETED in between and after.\<close>

lemma moves_save_inv:
  assumes "\<And>d. Q d \<Longrightarrow> Q (sub_delta old new d)"
  shows "moves (pres (stored (s_id old) Q)) view (saveSubmission B old new)"
proof (rule movesI)
  fix w r w'
  assume "saveSubmission B old new w = (r, w')"
  from submissions.save_view_cases [OF this [unfolded saveSubmission_def]] assms
  show "pres (stored (s_id old) Q) (view w) (view w')"
    by (auto simp: pres_def stored_def modify_def)
qed

lemma moves_executeFound_active:
  assumes "s_status sub = RUNNING"
  shows "moves (pres (stored (s_id sub) active)) view (executeFound B sub)"
proof -
  let ?R = "pres (stored (s_id sub) active)"
  have k: "moves ?R view (now B)" "moves ?R view (ret a)" "moves ?R view (throw e)" for a e
    by (intro moves_keeps now_keeps keeps_ret keeps_throw; simp)+
  have f: "moves ?R view (findMany (TestCases B) P le n lm)" for P le n lm
    by (intro moves_keeps testCases.findMany_keeps) simp
  have s: "moves ?R view (saveSubmission B sub new)" if "s_status new = COMPLETED" for new
    using that assms by (intro moves_save_inv) (auto simp: sub_delta_def active_def)
  have rt: "moves ?R view (runTests B l c tcs 0 0 ACCEPTED)" for l c tcs
    by (intro moves_keeps keeps_runTests) simp
  have j: "moves ?R view (judgeSubmission B sub tcs)" for tcs
    unfolding judgeSubmission_def Let_def
    by (auto intro!: moves_await rt k s split: loop_end.split)
  show ?thesis
    unfolding executeFound_def using assms
    by (auto intro!: moves_await f s j k)
qed

lemma executeSubmission_active:
  assumes ids: "ids_ok (view w)" and st: "stored i (\<lambda>d. s_status d = RUNNING) (view w)"
    and run: "executeSubmission B i w = (r, w')"
  shows "stored i active (view w')"
    and "r = Inr x \<Longrightarrow> stored i (\<lambda>d. s_status d = COMPLETED) (view w')"
proof -
  from st obtain sub where sub: "db_submissions (view w) i = Some sub" "s_status sub = RUNNING"
    by (auto simp: stored_def)
  with ids have id: "s_id sub = i" by (simp add: ids_ok_def)
  have act: "stored i active (view w)"
    using st by (auto simp: stored_def active_def)
  have "stored i active (view w') \<and>
      (\<forall>x. r = Inr x \<longrightarrow> stored i (\<lambda>d. s_status d = COMPLETED) (view w'))"
    using run unfolding executeSubmission_def
  proof (cases rule: await_cases)
    case (err e)
    have "view w' = view w" using err(1) by (rule keepsD [OF submissions.findById_keeps])
    with act err(2) show ?thesis by simp
  next
    case (ok found w1)
    have v1: "view w1 = view w" using ok(1) by (rule keepsD [OF submissions.findById_keeps])
    have "found = Some sub" using submissions.findById_result [OF ok(1)] sub(1) by simp
    with ok(2) have go: "executeFound B sub w1 = (r, w')" by simp
    from movesD [OF moves_executeFound_active [OF sub(2)] go] act v1 id
    have "stored i active (view w')" by (simp add: pres_def)
    moreover have "stored i (\<lambda>d. s_status d = COMPLETED) (view w')" if "r = Inr x" for x
      using executeFound_completes [of sub w1 x w'] go that sub(2) id by simp
    ultimately show ?thesis by blast
  qed
  then show "stored i active (view w')"
    and "r = Inr x \<Longrightarrow> stored i (\<lambda>d. s_status d = COMPLETED) (view w')" by blast+
qed

lemma executeSubmission_no_tests:
  assumes "db_submissions (view w) i = Some sub" and "s_language sub \<in> set SUPPORTED_LANGUAGES"
    and "matching (activeTests (s_problemId sub)) (db_testCases (view w)) = {}"
    and "executeSubmission B i w = (r, w')"
  shows "(\<exists>e. r = Inl e) \<and> view w' = view w"
  using assms(4) unfolding executeSubmission_def
proof (cases rule: await_cases)
  case (err e)
  then show ?thesis using keepsD [OF submissions.findById_keeps] by blast
next
  case (ok found w1)
  have v1: "view w1 = view w" using ok(1) by (rule keepsD [OF submissions.findById_keeps])
  have "found = Some sub" using submissions.findById_result [OF ok(1)] assms(1) by simp
  with ok(2) assms(2) have k: "await (findMany (TestCases B) (activeTests (s_problemId sub)) order_le 0 None) (\<lambda>testCases.
          if testCases = [] then
            throw (AppError ''This problem has no active test cases and is not ready for submissions.''
              422 (Some ''PROBLEM_NOT_READY''))
          else if s_status sub \<noteq> RUNNING then
            await (case s_startedAt sub of Some t \<Rightarrow> ret t | None \<Rightarrow> now B) (\<lambda>t.
              let running = sub\<lparr>s_status := RUNNING, s_startedAt := Some t\<rparr> in
              await (saveSubmission B sub running) (\<lambda>_. judgeSubmission B running testCases))
          else judgeSubmission B sub testCases) w1 = (r, w')"
    by (simp add: executeFound_def)
  from k show ?thesis
  proof (cases rule: await_cases)
    case (err e)
    then show ?thesis using keepsD [OF testCases.findMany_keeps] v1 by metis
  next
    case (ok tcs w2)
    have "listing (activeTests (s_problemId sub)) (db_testCases (view w)) tcs"
      using testCases.findMany_result [OF total_preorder_order_le ok(1)] v1 by auto
    from listing_length [OF this] assms(3) have "tcs = []" by simp
    with ok v1 keepsD [OF testCases.findMany_keeps ok(1)] show ?thesis by auto
  qed
qed

end

section \<open>Properties\<close>

text \<open>C1: a submission that is executed to a result is stored as COMPLETED with the verdict of the
  answers the engine gave to the active tests of its problem, in their order: the first failure
  that stops the loop (an output limit counting as a runtime error), otherwise ACCEPTED when every
  test was accepted and WRONG_ANSWER when not. The counters are the number of accepted and of all
  active tests, and nothing else in the database changes.\<close>

theorem executeSubmission_verdict:
  assumes "database B view" and "ids_ok (view w)" and "executeSubmission B i w = (Inr (Some d), w')"
  shows "\<exists>tcs vs. listing (activeTests (s_problemId d)) (db_testCases (view w)) tcs \<and> sorted_wrt order_le tcs \<and>
    tcs \<noteq> [] \<and> judged B (s_language d) (s_sourceCode d) tcs vs \<and>
    s_status d = COMPLETED \<and> s_verdict d = overall vs \<and> s_testsPassed d = Some (passed vs) \<and>
    s_totalTests d = Some (length tcs) \<and>
    view w' = db_submissions_update (\<lambda>m. m(i \<mapsto> d)) (view w)"
  using database.executeSubmission_completed [OF assms] by blast


text \<open>executing a submission touches no other document, whatever happens: no user, problem,
  test case, audit entry or other submission changes; the request part (owner, problem, language,
  source code) is kept; and a stored document that satisfies the schema still does, so the engine's
  OUTPUT_LIMIT_EXCEEDED, which the schema does not know, is never stored.\<close>

theorem executeSubmission_frame:
  assumes "database B view" and "ids_ok (view w)" and "executeSubmission B i w = (r, w')"
  shows "touches i (view w) (view w')"
  using database.executeSubmission_touches [OF assms] .

text \<open>A submission to a problem without active tests is never judged: the execution fails and
  leaves the database as it was.\<close>

theorem executeSubmission_not_ready:
  assumes "database B view" and "db_submissions (view w) i = Some sub"
    and "s_language sub \<in> {''CPP'', ''PYTHON'', ''JAVASCRIPT''}"
    and "matching (activeTests (s_problemId sub)) (db_testCases (view w)) = {}"
    and "executeSubmission B i w = (r, w')"
  shows "(\<exists>e. r = Inl e) \<and> view w' = view w"
  using database.executeSubmission_no_tests [OF assms(1,2) _ assms(4,5)] assms(3)
  by (simp add: SUPPORTED_LANGUAGES_def)

section \<open>Examples\<close>

lemma ids_ok_sample: "ids_ok (world_view (sample_world tcs))"
  by (simp add: ids_ok_def world_view_def sample_world_def sample_submission_def)

lemma sample_run:
  "(case executeSubmission (mem_backend accept_all True) ''s'' (sample_world [(''t'', sample_test)]) of
     (Inr (Some d), w) \<Rightarrow> s_verdict d = ACCEPTED | _ \<Rightarrow> False)"
  by code_simp


theorem executeSubmission_verdict_witness:
  "\<exists>d w'. executeSubmission (mem_backend accept_all True) ''s'' (sample_world [(''t'', sample_test)]) = (Inr (Some d), w') \<and>
     s_status d = COMPLETED"
proof -
  let ?w = "sample_world [(''t'', sample_test)]"
  obtain d w' where run: "executeSubmission (mem_backend accept_all True) ''s'' ?w = (Inr (Some d), w')"
    using sample_run by (auto split: prod.splits sum.splits option.splits)
  from executeSubmission_verdict [OF mem_accept.database_axioms ids_ok_sample run] run show ?thesis
    by blast
qed

theorem executeSubmission_frame_witness:
  "\<exists>r w'. executeSubmission (mem_backend engine_down True) ''s'' (sample_world [(''t'', sample_test)]) = (r, w') \<and>
     touches ''s'' (world_view (sample_world [(''t'', sample_test)])) (world_view w')"
proof -
  obtain r w' where run: "executeSubmission (mem_backend engine_down True) ''s'' (sample_world [(''t'', sample_test)]) = (r, w')"
    by fastforce
  from executeSubmission_frame [OF mem_down.database_axioms ids_ok_sample run] run show ?thesis by blast
qed

theorem executeSubmission_not_ready_witness:
  "\<exists>e w'. executeSubmission (mem_backend accept_all True) ''s'' (sample_world []) = (Inl e, w')"
proof -
  obtain r w' where run: "executeSubmission (mem_backend accept_all True) ''s'' (sample_world []) = (r, w')"
    by fastforce
  have s: "db_submissions (world_view (sample_world [])) ''s'' = Some sample_submission"
    by (simp add: world_view_def sample_world_def)
  have l: "s_language sample_submission \<in> {''CPP'', ''PYTHON'', ''JAVASCRIPT''}"
    by (simp add: sample_submission_def)
  have "matching (activeTests (s_problemId sample_submission)) (db_testCases (world_view (sample_world []))) = {}"
    by (simp add: matching_def world_view_def sample_world_def)
  from executeSubmission_not_ready [OF mem_accept.database_axioms s l this run] run show ?thesis by blast
qed

end
