(* ===== verification/Metrics.thy ===== *)
theory Metrics
  imports Effects
begin

text \<open>
  The in-memory Prometheus metrics (\<open>modules/observability/metrics.service.js\<close>): counters,
  latency histograms, the normalisation of route labels and the exposition text.
\<close>

section \<open>State\<close>

text \<open>
  A \<open>Map\<close> is an association list in insertion order. A bucket is its label and its bound in
  seconds; the numbers are rationals.
\<close>

type_synonym buckets = "(string \<times> rat) list"

definition HTTP_DURATION_BUCKETS :: buckets where
  "HTTP_DURATION_BUCKETS =
     [(''0.005'', 5/1000), (''0.01'', 1/100), (''0.025'', 25/1000), (''0.05'', 5/100), (''0.1'', 1/10),
      (''0.25'', 25/100), (''0.5'', 1/2), (''1'', 1), (''2.5'', 5/2), (''5'', 5), (''10'', 10)]"

definition EXEC_DURATION_BUCKETS :: buckets where
  "EXEC_DURATION_BUCKETS =
     [(''0.05'', 5/100), (''0.1'', 1/10), (''0.25'', 25/100), (''0.5'', 1/2), (''1'', 1), (''2'', 2),
      (''5'', 5), (''10'', 10)]"

record histogram =
  h_sum :: rat
  h_count :: nat
  h_buckets :: "((string \<times> rat) \<times> nat) list"

record metrics =
  httpRequestsTotal :: "(string \<times> nat) list"
  httpRequestDurationHistograms :: "(string \<times> histogram) list"
  submissionsTotal :: "(string \<times> nat) list"
  workerJobsTotal :: "(string \<times> nat) list"
  workerFailuresTotal :: "(string \<times> nat) list"
  executionDurationHistograms :: "(string \<times> histogram) list"

definition resetMetrics :: metrics where
  "resetMetrics = \<lparr>httpRequestsTotal = [], httpRequestDurationHistograms = [], submissionsTotal = [],
     workerJobsTotal = [], workerFailuresTotal = [], executionDurationHistograms = []\<rparr>"

section \<open>Route labels\<close>

text \<open>
  The three replacements of \<open>normalizeRoute\<close>. A match of fixed length is found by scanning from
  the left; \<open>n\<close> hex digits are replaced by \<open>:id\<close>.
\<close>

definition hex_run :: "nat \<Rightarrow> string \<Rightarrow> bool" where
  "hex_run n s \<longleftrightarrow> n \<le> length s \<and> (\<forall>c\<in>set (take n s). is_hex c)"

fun replace_object_ids :: "string \<Rightarrow> string" where
  "replace_object_ids [] = []"
| "replace_object_ids (c # s) =
     (if hex_run 24 (c # s) then '':id'' @ replace_object_ids (drop 23 s) else c # replace_object_ids s)"

definition uuid_at :: "string \<Rightarrow> bool" where
  "uuid_at s \<longleftrightarrow> 36 \<le> length s \<and>
     hex_run 8 s \<and> s ! 8 = CHR ''-'' \<and> hex_run 4 (drop 9 s) \<and> s ! 13 = CHR ''-'' \<and>
     hex_run 4 (drop 14 s) \<and> s ! 18 = CHR ''-'' \<and> hex_run 4 (drop 19 s) \<and> s ! 23 = CHR ''-'' \<and>
     hex_run 12 (drop 24 s)"

fun replace_uuids :: "string \<Rightarrow> string" where
  "replace_uuids [] = []"
| "replace_uuids (c # s) =
     (if uuid_at (c # s) then '':id'' @ replace_uuids (drop 35 s) else c # replace_uuids s)"

text \<open>\<open>/\\/\\d+(?=\\/|$)/g\<close>: a slash and a maximal run of digits that ends a segment.\<close>

function replace_numbers :: "string \<Rightarrow> string" where
  "replace_numbers [] = []"
| "replace_numbers (c # s) =
     (let ds = takeWhile is_digit s; r = dropWhile is_digit s in
      if c = CHR ''/'' \<and> ds \<noteq> [] \<and> (r = [] \<or> hd r = CHR ''/'')
      then ''/:id'' @ replace_numbers r else c # replace_numbers s)"
  by pat_completeness auto
termination
  by (relation "measure length") (auto simp: length_dropWhile_le le_imp_less_Suc)

definition normalizeRoute :: "string \<Rightarrow> string \<Rightarrow> string \<Rightarrow> string" where
  "normalizeRoute rawPath routePath baseUrl =
     (if routePath \<noteq> [] then baseUrl @ routePath
      else if rawPath = [] \<or> rawPath = ''/'' then ''/''
      else replace_numbers (replace_uuids (replace_object_ids rawPath)))"

section \<open>Recording\<close>

definition bump :: "string \<Rightarrow> (string \<times> nat) list \<Rightarrow> (string \<times> nat) list" where
  "bump k m = assoc_put k ((case map_of m k of Some n \<Rightarrow> n | None \<Rightarrow> 0) + 1) m"

definition new_histogram :: "buckets \<Rightarrow> histogram" where
  "new_histogram bs = \<lparr>h_sum = 0, h_count = 0, h_buckets = map (\<lambda>b. (b, 0)) bs\<rparr>"

definition add_sample :: "rat \<Rightarrow> histogram \<Rightarrow> histogram" where
  "add_sample v h =
     \<lparr>h_sum = h_sum h + v, h_count = h_count h + 1,
      h_buckets = map (\<lambda>(b, n). (b, if v \<le> snd b then n + 1 else n)) (h_buckets h)\<rparr>"

definition recordHistogramSample ::
  "(string \<times> histogram) list \<Rightarrow> string \<Rightarrow> rat \<Rightarrow> buckets \<Rightarrow> (string \<times> histogram) list" where
  "recordHistogramSample m k valueSec bs =
     assoc_put k (add_sample valueSec (case map_of m k of Some h \<Rightarrow> h | None \<Rightarrow> new_histogram bs)) m"

definition recordHttpRequest :: "string \<Rightarrow> string \<Rightarrow> int \<Rightarrow> rat \<Rightarrow> metrics \<Rightarrow> metrics" where
  "recordHttpRequest method route status durationMs m =
     (let normRoute = normalizeRoute route [] [] in
      m\<lparr>httpRequestsTotal :=
          bump (js_upper method @ ''|'' @ normRoute @ ''|'' @ show_int status) (httpRequestsTotal m),
        httpRequestDurationHistograms :=
          recordHistogramSample (httpRequestDurationHistograms m) (js_upper method @ ''|'' @ normRoute)
            (durationMs / 1000) HTTP_DURATION_BUCKETS\<rparr>)"

definition label_or :: "string \<Rightarrow> string \<Rightarrow> string" where
  "label_or s d = (if s = [] then d else s)"

definition recordSubmissionVerdict :: "string \<Rightarrow> string \<Rightarrow> metrics \<Rightarrow> metrics" where
  "recordSubmissionVerdict language verdict m =
     m\<lparr>submissionsTotal :=
         bump (js_lower (label_or language ''unknown'') @ ''|'' @ label_or verdict ''UNKNOWN'') (submissionsTotal m)\<rparr>"

definition recordWorkerJob :: "string \<Rightarrow> metrics \<Rightarrow> metrics" where
  "recordWorkerJob status m = m\<lparr>workerJobsTotal := bump status (workerJobsTotal m)\<rparr>"

definition recordWorkerFailure :: "string \<Rightarrow> metrics \<Rightarrow> metrics" where
  "recordWorkerFailure failureType m = m\<lparr>workerFailuresTotal := bump failureType (workerFailuresTotal m)\<rparr>"

definition recordExecutionDuration :: "string \<Rightarrow> rat \<Rightarrow> metrics \<Rightarrow> metrics" where
  "recordExecutionDuration language durationMs m =
     m\<lparr>executionDurationHistograms :=
         recordHistogramSample (executionDurationHistograms m) (js_lower (label_or language ''unknown''))
           (durationMs / 1000) EXEC_DURATION_BUCKETS\<rparr>"

section \<open>Exposition\<close>

text \<open>
  \<open>getMetrics\<close>. The process readings, the rendering \<open>toFixed(4)\<close> of a sum and the
  answers of Redis within their time limit (\<open>None\<close> when it failed or was late) are arguments.
\<close>

record queue_counts =
  q_waiting :: nat
  q_active :: nat
  q_completed :: nat
  q_failed :: nat
  q_delayed :: nat

text \<open>\<open>const [a, b, c] = key.split('|')\<close>; a missing part is \<open>undefined\<close>.\<close>

definition key_part :: "nat \<Rightarrow> string \<Rightarrow> string" where
  "key_part i key = (let parts = js_split (CHR ''|'') key in if i < length parts then parts ! i else ''undefined'')"

definition quote :: "string \<Rightarrow> string" where
  "quote s = CHR 0x22 # s @ [CHR 0x22]"

definition show_nat :: "nat \<Rightarrow> string" where
  "show_nat n = show_int (int n)"

definition histogram_lines :: "(rat \<Rightarrow> string) \<Rightarrow> string \<Rightarrow> string \<Rightarrow> histogram \<Rightarrow> string list" where
  "histogram_lines toFixed4 name labels h =
     map (\<lambda>(b, n). name @ ''_bucket{'' @ labels @ '',le='' @ quote (fst b) @ ''} '' @ show_nat n) (h_buckets h) @
     [name @ ''_bucket{'' @ labels @ '',le='' @ quote ''+Inf'' @ ''} '' @ show_nat (h_count h),
      name @ ''_sum{'' @ labels @ ''} '' @ toFixed4 (h_sum h),
      name @ ''_count{'' @ labels @ ''} '' @ show_nat (h_count h)]"

definition http_labels :: "string \<Rightarrow> string" where
  "http_labels key = ''method='' @ quote (key_part 0 key) @ '',route='' @ quote (key_part 1 key)"

definition metric_lines ::
  "string \<Rightarrow> string \<Rightarrow> (rat \<Rightarrow> string) \<Rightarrow> queue_counts option \<Rightarrow> nat option \<Rightarrow> metrics \<Rightarrow> string list" where
  "metric_lines uptime rss toFixed4 qMetrics workers m =
     [''# HELP codearena_process_uptime_seconds Process uptime in seconds.'',
      ''# TYPE codearena_process_uptime_seconds gauge'',
      ''codearena_process_uptime_seconds '' @ uptime,
      ''# HELP codearena_process_resident_memory_bytes Process resident memory size in bytes.'',
      ''# TYPE codearena_process_resident_memory_bytes gauge'',
      ''codearena_process_resident_memory_bytes '' @ rss,
      ''# HELP codearena_http_requests_total Total number of HTTP requests processed.'',
      ''# TYPE codearena_http_requests_total counter''] @
     map (\<lambda>(key, n). ''codearena_http_requests_total{'' @ http_labels key @ '',status='' @
       quote (key_part 2 key) @ ''} '' @ show_nat n) (httpRequestsTotal m) @
     [''# HELP codearena_http_request_duration_seconds HTTP request duration in seconds histogram.'',
      ''# TYPE codearena_http_request_duration_seconds histogram''] @
     concat (map (\<lambda>(key, h). histogram_lines toFixed4 ''codearena_http_request_duration_seconds'' (http_labels key) h)
       (httpRequestDurationHistograms m)) @
     [''# HELP codearena_submissions_total Total submissions evaluated by verdict and language.'',
      ''# TYPE codearena_submissions_total counter''] @
     map (\<lambda>(key, n). ''codearena_submissions_total{language='' @ quote (key_part 0 key) @ '',verdict='' @
       quote (key_part 1 key) @ ''} '' @ show_nat n) (submissionsTotal m) @
     [''# HELP codearena_worker_jobs_total Total BullMQ jobs processed by worker status.'',
      ''# TYPE codearena_worker_jobs_total counter''] @
     map (\<lambda>(status, n). ''codearena_worker_jobs_total{status='' @ quote status @ ''} '' @ show_nat n) (workerJobsTotal m) @
     [''# HELP codearena_worker_failures_total Total worker execution failures by failure type.'',
      ''# TYPE codearena_worker_failures_total counter''] @
     map (\<lambda>(f, n). ''codearena_worker_failures_total{failure_type='' @ quote f @ ''} '' @ show_nat n) (workerFailuresTotal m) @
     [''# HELP codearena_execution_duration_seconds Code execution duration in seconds histogram by language.'',
      ''# TYPE codearena_execution_duration_seconds histogram''] @
     concat (map (\<lambda>(language, h). histogram_lines toFixed4 ''codearena_execution_duration_seconds''
       (''language='' @ quote language) h) (executionDurationHistograms m)) @
     [''# HELP codearena_queue_metrics_available Status of Redis queue metrics availability (1=available, 0=unavailable).'',
      ''# TYPE codearena_queue_metrics_available gauge''] @
     (case qMetrics of
        None \<Rightarrow> [''codearena_queue_metrics_available 0'']
      | Some q \<Rightarrow>
          [''codearena_queue_metrics_available 1'',
           ''# HELP codearena_queue_jobs_count Current count of jobs in the BullMQ execution queue by state.'',
           ''# TYPE codearena_queue_jobs_count gauge''] @
          map (\<lambda>(st, n). ''codearena_queue_jobs_count{queue_state='' @ quote st @ ''} '' @ show_nat n)
            [(''waiting'', q_waiting q), (''active'', q_active q), (''completed'', q_completed q),
             (''failed'', q_failed q), (''delayed'', q_delayed q)]) @
     (case workers of
        None \<Rightarrow> []
      | Some n \<Rightarrow>
          [''# HELP codearena_active_workers_count Number of active distributed worker daemons in Redis registry.'',
           ''# TYPE codearena_active_workers_count gauge'',
           ''codearena_active_workers_count '' @ show_nat n])"

definition getMetrics ::
  "string \<Rightarrow> string \<Rightarrow> (rat \<Rightarrow> string) \<Rightarrow> queue_counts option \<Rightarrow> nat option \<Rightarrow> metrics \<Rightarrow> string" where
  "getMetrics uptime rss toFixed4 qMetrics workers m =
     js_join [CHR 0x0A] (metric_lines uptime rss toFixed4 qMetrics workers m) @ [CHR 0x0A]"

section \<open>Facts\<close>

lemma fold_add_sample:
  "h_sum (fold add_sample vs h) = h_sum h + sum_list vs"
  "h_count (fold add_sample vs h) = h_count h + length vs"
  "h_buckets (fold add_sample vs h) =
     map (\<lambda>(b, n). (b, n + length (filter (\<lambda>v. v \<le> snd b) vs))) (h_buckets h)"
  by (induction vs arbitrary: h) (auto simp: add_sample_def)

lemma map_of_fold_record:
  "map_of (fold (\<lambda>v m. recordHistogramSample m k v bs) vs m) k =
     (if vs = [] then map_of m k
      else Some (fold add_sample vs (case map_of m k of Some h \<Rightarrow> h | None \<Rightarrow> new_histogram bs)))"
  by (induction vs arbitrary: m) (auto simp: recordHistogramSample_def)

lemma hex_run_append: "\<not> is_hex c \<Longrightarrow> hex_run n (s @ c # r) = hex_run n s"
proof -
  assume c: "\<not> is_hex c"
  show ?thesis
  proof (cases "n \<le> length s")
    case False
    then have "c \<in> set (take n (s @ c # r))" by (cases "n - length s") auto
    with c False show ?thesis by (auto simp: hex_run_def)
  qed (simp add: hex_run_def)
qed

lemma replace_object_ids_append:
  "\<not> is_hex c \<Longrightarrow> replace_object_ids (a @ c # b) = replace_object_ids a @ replace_object_ids (c # b)"
proof (induction a rule: replace_object_ids.induct)
  case (2 x s)
  have run: "hex_run 24 (x # s @ c # b) = hex_run 24 (x # s)"
    using hex_run_append [of c 24 "x # s" b] 2 by simp
  show ?case
  proof (cases "hex_run 24 (x # s)")
    case True
    then have "drop 23 (s @ c # b) = drop 23 s @ c # b" by (simp add: hex_run_def)
    with 2 True run show ?thesis by simp
  next
    case False
    with 2 run show ?thesis by simp
  qed
qed simp

lemma replace_object_ids_id:
  assumes "length d = 24" "\<forall>c\<in>set d. is_hex c"
  shows "replace_object_ids (pre @ ''/'' @ d @ post) = replace_object_ids pre @ ''/:id'' @ replace_object_ids post"
proof -
  have slash: "\<not> is_hex (CHR ''/'')" by (simp add: is_hex_def is_digit_def code_unit_def)
  obtain x d' where d: "d = x # d'" "length d' = 23" using assms(1) by (cases d) auto
  have no: "\<not> hex_run 24 (CHR ''/'' # d @ post)" using slash by (simp add: hex_run_def)
  have yes: "hex_run 24 (x # d' @ post)" using assms d by (simp add: hex_run_def)
  have "replace_object_ids (CHR ''/'' # d @ post) = ''/:id'' @ replace_object_ids post"
    using no yes d by simp
  with replace_object_ids_append [OF slash, of pre "d @ post"] show ?thesis by simp
qed

section \<open>Properties\<close>



text \<open>document ids do not reach the metric labels: two paths that differ only in a 24-digit
  object id after a slash are counted under the same route, whatever comes before or after.\<close>

theorem normalizeRoute_object_ids:
  assumes "length d1 = 24" and "\<forall>c\<in>set d1. is_hex c" and "length d2 = 24" and "\<forall>c\<in>set d2. is_hex c"
  shows "normalizeRoute (pre @ ''/'' @ d1 @ post) [] [] = normalizeRoute (pre @ ''/'' @ d2 @ post) [] []"
proof -
  have long: "pre @ ''/'' @ d @ post \<noteq> [] \<and> pre @ ''/'' @ d @ post \<noteq> ''/''" if "length d = 24" for d
    using that by (cases pre) auto
  show ?thesis
    using long [OF assms(1)] long [OF assms(3)]
      replace_object_ids_id [OF assms(1,2), of pre post] replace_object_ids_id [OF assms(3,4), of pre post]
    by (simp add: normalizeRoute_def)
qed

theorem normalizeRoute_object_ids_witness:
  "normalizeRoute (''/api/v1/problems'' @ ''/'' @ replicate 24 (CHR ''a'') @ []) [] [] =
   normalizeRoute (''/api/v1/problems'' @ ''/'' @ replicate 24 (CHR ''7'') @ []) [] []"
  by (rule normalizeRoute_object_ids) (auto simp: is_hex_def is_digit_def code_unit_def)

end
