(* ===== verification/Worker.thy ===== *)
theory Worker
  imports SubmissionExec Metrics
begin

text \<open>
  The submission worker (\<open>workers/submission.worker.js\<close>): which errors are retried, the claim
  of a submission, and \<open>processSubmission\<close>. Its state is the metrics of the process and the
  world outside.
\<close>

section \<open>Configuration and errors\<close>

text \<open>
  \<open>Number(val)\<close> of the configured concurrency is an argument (\<open>None\<close> for a value that is
  unset, \<open>null\<close> or blank); NaN and fractions give the default.
\<close>

definition parseWorkerConcurrency :: "jsnum option \<Rightarrow> int \<Rightarrow> int" where
  "parseWorkerConcurrency val defaultVal =
     (case val of
        Some (Finite r) \<Rightarrow> if \<lfloor>r\<rfloor> = \<lceil>r\<rceil> \<and> 0 < r then \<lfloor>r\<rfloor> else defaultVal
      | _ \<Rightarrow> defaultVal)"

definition isNonRetryableError :: "err \<Rightarrow> bool" where
  "isNonRetryableError e \<longleftrightarrow>
     isNonRetryable e \<or>
     errorCode e = Some ''PROBLEM_NOT_READY'' \<or> errorCode e = Some ''VALIDATION_ERROR'' \<or>
     ename e = ''ValidationError'' \<or>
     (case statusCode e of Some st \<Rightarrow> 400 \<le> st \<and> st < 500 | None \<Rightarrow> False)"

section \<open>State and input\<close>

record 'w worker_state =
  wk_world :: 'w
  wk_metrics :: metrics

definition in_world :: "('w, 'a) io \<Rightarrow> ('w worker_state, 'a) io" where
  "in_world m = on_part wk_world (\<lambda>w s. s\<lparr>wk_world := w\<rparr>) m"

definition record_metric :: "(metrics \<Rightarrow> metrics) \<Rightarrow> ('w worker_state, unit) io" where
  "record_metric f = modify_state (\<lambda>s. s\<lparr>wk_metrics := f (wk_metrics s)\<rparr>)"

text \<open>
  The argument: a submission id, or a job with its \<open>data.submissionId || submissionId\<close>, the
  attempts made when they are a number, and \<open>opts.attempts\<close>.
\<close>

record job =
  job_submissionId :: jsval
  job_attemptsMade :: "int option"
  job_attempts :: "int option"

datatype job_input = RawId string | Job job

definition raw_submission_id :: "job_input \<Rightarrow> jsval" where
  "raw_submission_id inp = (case inp of RawId s \<Rightarrow> JStr s | Job j \<Rightarrow> job_submissionId j)"

definition attemptsMade :: "job_input \<Rightarrow> int" where
  "attemptsMade inp = (case inp of Job j \<Rightarrow> (case job_attemptsMade j of Some n \<Rightarrow> n | None \<Rightarrow> 0) | RawId s \<Rightarrow> 0)"

definition maxAttempts :: "job_input \<Rightarrow> int" where
  "maxAttempts inp = (case inp of
     Job j \<Rightarrow> (case job_attempts j of Some n \<Rightarrow> if n = 0 then 1 else n | None \<Rightarrow> 1) | RawId s \<Rightarrow> 1)"

text \<open>The id after the check of the payload; \<open>None\<close> for a malformed job.\<close>

definition job_submission :: "'w backend \<Rightarrow> job_input \<Rightarrow> oid option" where
  "job_submission B inp = (case as_string (raw_submission_id inp) of
     Some s \<Rightarrow> if s \<noteq> [] \<and> objectIdValid B (js_trim s) then Some (js_trim s) else None
   | None \<Rightarrow> None)"

section \<open>The claim\<close>

text \<open>\<open>$lt\<close> against a date matches no null or missing date.\<close>

definition before :: "date \<Rightarrow> date option \<Rightarrow> bool" where
  "before cutoff t = (case t of Some x \<Rightarrow> x < cutoff | None \<Rightarrow> False)"

definition claimable :: "date \<Rightarrow> submission \<Rightarrow> bool" where
  "claimable staleCutoff s \<longleftrightarrow>
     s_status s = QUEUED \<or>
     (s_status s = RUNNING \<and>
        (before staleCutoff (ex_startedAt (s_execution s)) \<or>
         (ex_startedAt (s_execution s) = None \<and> before staleCutoff (s_startedAt s))))"

definition claim :: "string \<Rightarrow> date \<Rightarrow> date \<Rightarrow> submission \<Rightarrow> submission" where
  "claim workerId t1 t2 s =
     s\<lparr>s_status := RUNNING, s_startedAt := Some t1,
       s_execution := (s_execution s)\<lparr>ex_workerId := Some workerId, ex_startedAt := Some t2\<rparr>\<rparr>"

section \<open>processSubmission\<close>

definition stamp_completed :: "date \<Rightarrow> submission \<Rightarrow> submission" where
  "stamp_completed t s = s\<lparr>s_execution := (s_execution s)\<lparr>ex_completedAt := Some t\<rparr>\<rparr>"

definition mark_failed :: "date \<Rightarrow> date \<Rightarrow> string \<Rightarrow> submission \<Rightarrow> submission" where
  "mark_failed t1 t2 msg s = s\<lparr>s_status := FAILED, s_failedAt := Some t1,
     s_execution := (s_execution s)\<lparr>ex_completedAt := Some t2\<rparr>, s_errorMessage := Some msg\<rparr>"

definition message_or :: "err \<Rightarrow> string \<Rightarrow> string" where
  "message_or e d = (if emessage e = [] then d else emessage e)"

text \<open>The unconditional update to FAILED.\<close>

definition failSubmission :: "'w backend \<Rightarrow> oid \<Rightarrow> string \<Rightarrow> ('w worker_state, unit) io" where
  "failSubmission B submissionId msg =
     await (in_world (now B)) (\<lambda>t1. await (in_world (now B)) (\<lambda>t2.
       in_world (updateOne (Submissions B) submissionId (\<lambda>_. True) (mark_failed t1 t2 msg))))"

text \<open>The body of the \<open>try\<close> of step 2.\<close>

definition runClaimed :: "'w backend \<Rightarrow> oid \<Rightarrow> submission \<Rightarrow> date \<Rightarrow> ('w worker_state, unit) io" where
  "runClaimed B submissionId claimed startTime =
     await (in_world (executeSubmission B submissionId)) (\<lambda>evaluated.
     await (in_world (now B)) (\<lambda>t.
     await (in_world (now B)) (\<lambda>t2.
     await (in_world (updateOne (Submissions B) submissionId (\<lambda>_. True) (stamp_completed t2))) (\<lambda>_.
     await (record_metric (recordWorkerJob ''completed'')) (\<lambda>_.
       case evaluated of
         None \<Rightarrow> ret ()
       | Some d \<Rightarrow>
           await (record_metric (recordSubmissionVerdict (s_language claimed) (verdict_name (s_verdict d)))) (\<lambda>_.
             record_metric (recordExecutionDuration (s_language claimed) (of_int (t - startTime)))))))))"

text \<open>The \<open>catch\<close>.\<close>

definition handleFailure :: "'w backend \<Rightarrow> job_input \<Rightarrow> oid \<Rightarrow> err \<Rightarrow> ('w worker_state, unit) io" where
  "handleFailure B inp submissionId e =
     await (record_metric (recordWorkerJob ''failed'')) (\<lambda>_.
     await (record_metric (recordWorkerFailure
       (if isNonRetryableError e then ''domain_failure'' else ''infrastructure_failure''))) (\<lambda>_.
       if isNonRetryableError e then
         failSubmission B submissionId (message_or e ''Non-retryable execution error'')
       else if attemptsMade inp + 1 < maxAttempts inp then
         await (in_world (updateOne (Submissions B) submissionId (\<lambda>s. s_status s = RUNNING)
                 (\<lambda>s. s\<lparr>s_status := QUEUED\<rparr>))) (\<lambda>_. throw e)
       else
         await (failSubmission B submissionId (message_or e ''Execution infrastructure failure''))
           (\<lambda>_. throw e)))"

definition processSubmission ::
  "'w backend \<Rightarrow> string \<Rightarrow> int \<Rightarrow> job_input \<Rightarrow> ('w worker_state, unit) io" where
  "processSubmission B workerId staleTimeoutMs inp =
     (case job_submission B inp of
        None \<Rightarrow> ret ()
      | Some submissionId \<Rightarrow>
          await (in_world (now B)) (\<lambda>startTime.
          await (in_world (now B)) (\<lambda>t.
          await (in_world (now B)) (\<lambda>t1.
          await (in_world (now B)) (\<lambda>t2.
          await (in_world (findOneAndUpdate (Submissions B) submissionId
                   (claimable (t - staleTimeoutMs)) (claim workerId t1 t2))) (\<lambda>claimed.
            case claimed of
              None \<Rightarrow> await (in_world (findById (Submissions B) submissionId)) (\<lambda>_. ret ())
            | Some c \<Rightarrow>
                try_catch (runClaimed B submissionId c startTime)
                  (\<lambda>e. handleFailure B inp submissionId e)))))))"

section \<open>Lifting\<close>

lemma in_world_run: "in_world m s = (fst (m (wk_world s)), s\<lparr>wk_world := snd (m (wk_world s))\<rparr>)"
  by (simp add: in_world_def on_part_def split: prod.splits)

lemma in_worldD: "in_world m s = (r, s') \<Longrightarrow> m (wk_world s) = (r, wk_world s')"
  by (auto simp: in_world_run prod_eq_iff)

lemma in_world_view: "moves R view m \<Longrightarrow> moves R (\<lambda>s. view (wk_world s)) (in_world m)"
  by (simp add: moves_def in_world_run)

lemma record_metric_keeps: "keeps (\<lambda>s. view (wk_world s)) (record_metric f)"
  by (simp add: keeps_def record_metric_def)

lemma claimable_status: "claimable c s \<Longrightarrow> s_status s \<in> {QUEUED, RUNNING}"
  by (auto simp: claimable_def)

text \<open>A backend whose calls on submissions and clock do not fail.\<close>

definition reliable :: "'w backend \<Rightarrow> bool" where
  "reliable B \<longleftrightarrow> (\<forall>i P f w. \<exists>w'. updateOne (Submissions B) i P f w = (Inr (), w')) \<and>
     (\<forall>i P f w. \<exists>d w'. findOneAndUpdate (Submissions B) i P f w = (Inr d, w')) \<and>
     (\<forall>w. \<exists>t w'. now B w = (Inr t, w'))"

context database
begin

abbreviation wview :: "'w worker_state \<Rightarrow> db" where
  "wview s \<equiv> view (wk_world s)"

lemma now_wkeeps: "keeps wview (in_world (now B))"
  using now_keeps by (simp add: keeps_def in_world_run)

lemma touches_refl [simp]: "touches i v v"
  by (rule reflpD [OF reflp_touches])

lemma moves_wnow: "moves (touches i) wview (in_world (now B))"
  by (rule moves_keeps [OF reflp_touches now_wkeeps])

lemma moves_wret: "moves (touches i) wview (ret a)" "moves (touches i) wview (throw e)"
  "moves (touches i) wview (record_metric f)"
  by (auto intro!: moves_keeps record_metric_keeps)

lemma moves_wupdate:
  "(\<And>d. same_request d (f d) \<and> (submission_schema d \<longrightarrow> submission_schema (f d))) \<Longrightarrow>
   moves (touches i) wview (in_world (updateOne (Submissions B) i P f))"
proof (rule in_world_view, rule movesI)
  fix w r w'
  assume f: "\<And>d. same_request d (f d) \<and> (submission_schema d \<longrightarrow> submission_schema (f d))"
    and run: "updateOne (Submissions B) i P f w = (r, w')"
  from submissions.update_view_cases [OF run] touches_modify [OF f] show "touches i (view w) (view w')"
    by (metis touches_refl)
qed

lemma moves_failSubmission: "moves (touches i) wview (failSubmission B i msg)"
  unfolding failSubmission_def
  by (intro moves_await transp_touches moves_wnow moves_wupdate)
    (simp add: mark_failed_def same_request_def submission_schema_def)

lemma moves_handleFailure: "moves (touches i) wview (handleFailure B inp i e)"
  unfolding handleFailure_def
  by (auto intro!: moves_await transp_touches moves_wret moves_failSubmission moves_wupdate
      simp: same_request_def submission_schema_def)


lemma moves_runClaimed_tail:
  "moves (touches i) wview (await (in_world (now B)) (\<lambda>t.
     await (in_world (now B)) (\<lambda>t2.
     await (in_world (updateOne (Submissions B) i (\<lambda>_. True) (stamp_completed t2))) (\<lambda>_.
     await (record_metric (recordWorkerJob ''completed'')) (\<lambda>_. case ev of
         None \<Rightarrow> ret ()
       | Some d \<Rightarrow>
           await (record_metric (recordSubmissionVerdict (s_language c) (verdict_name (s_verdict d)))) (\<lambda>_.
             record_metric (recordExecutionDuration (s_language c) (of_int (t - t0)))))))))"
  by (auto intro!: moves_await transp_touches moves_wret moves_wnow moves_wupdate
      simp: stamp_completed_def same_request_def submission_schema_def split: option.split)

lemma runClaimed_touches:
  assumes "ids_ok (wview s)" and "runClaimed B i c t0 s = (r, s')"
  shows "touches i (wview s) (wview s')"
  using assms(2) unfolding runClaimed_def
proof (cases rule: await_cases)
  case (err e)
  from executeSubmission_touches [OF assms(1) in_worldD [OF err(1)]] show ?thesis .
next
  case (ok ev s1)
  from executeSubmission_touches [OF assms(1) in_worldD [OF ok(1)]] movesD [OF moves_runClaimed_tail ok(2)]
  show ?thesis by (rule transpD [OF transp_touches])
qed

lemma claim_touches: "touches i v (db_submissions_update (modify i P (claim wid t1 t2)) v)"
  by (rule touches_modify) (simp add: claim_def same_request_def submission_schema_def)

text \<open>The step before the claim, and the outcome of the claim.\<close>

lemma processSubmission_cases:
  assumes "processSubmission B wid stale inp s = (r, s')" and "job_submission B inp = Some i"
  obtains (clock) e where "r = Inl e" "wview s' = wview s" "\<exists>u u'. now B u = (Inl e, u')"
    | (claim_failed) e t t1 t2 w where "r = Inl e"
        "\<exists>u u'. now B u = (Inr t, u')"
        "wview s' = wview s \<or> wview s' = db_submissions_update (modify i (claimable (t - stale)) (claim wid t1 t2)) (wview s)"
        "modified i (claimable (t - stale)) (claim wid t1 t2) (db_submissions (wview s)) = None \<Longrightarrow> wview s' = wview s"
        "findOneAndUpdate (Submissions B) i (claimable (t - stale)) (claim wid t1 t2) w = (Inl e, wk_world s')"
    | (skipped) t where "\<exists>u u'. now B u = (Inr t, u')" "wview s' = wview s"
        "\<And>d. db_submissions (wview s) i = Some d \<Longrightarrow> \<not> claimable (t - stale) d"
    | (claimed) t0 t t1 t2 d s1 where "\<exists>u u'. now B u = (Inr t, u')"
        "db_submissions (wview s) i = Some d" "claimable (t - stale) d"
        "wview s1 = db_submissions_update (modify i (claimable (t - stale)) (claim wid t1 t2)) (wview s)"
        "try_catch (runClaimed B i (claim wid t1 t2 d) t0) (\<lambda>e. handleFailure B inp i e) s1 = (r, s')"
proof -
  from assms have "await (in_world (now B)) (\<lambda>startTime.
          await (in_world (now B)) (\<lambda>t.
          await (in_world (now B)) (\<lambda>t1.
          await (in_world (now B)) (\<lambda>t2.
          await (in_world (findOneAndUpdate (Submissions B) i
                   (claimable (t - stale)) (claim wid t1 t2))) (\<lambda>claimed.
            case claimed of
              None \<Rightarrow> await (in_world (findById (Submissions B) i)) (\<lambda>_. ret ())
            | Some c \<Rightarrow>
                try_catch (runClaimed B i c startTime)
                  (\<lambda>e. handleFailure B inp i e)))))) s = (r, s')"
    by (simp add: processSubmission_def)
  then show thesis
  proof (elim await_cases, goal_cases)
    case (1 e)
    then show ?case using clock [of e] keepsD [OF now_wkeeps] in_worldD [OF 1(1)] by metis
  next
    case (2 t0 s1 e)
    then show ?case using clock [of e] keepsD [OF now_wkeeps] in_worldD [OF 2(2)] by metis
  next
    case (3 t0 s1 t s2 e)
    then show ?case using clock [of e] keepsD [OF now_wkeeps] in_worldD [OF 3(3)] by metis
  next
    case (4 t0 s1 t s2 t1 s3 e)
    then show ?case using clock [of e] keepsD [OF now_wkeeps] in_worldD [OF 4(4)] by metis
  next
    case (5 t0 s1 t s2 t1 s3 t2 s4 e)
    then have v: "wview s4 = wview s" using keepsD [OF now_wkeeps] by metis
    note c = in_worldD [OF 5(5)]
    from 5(2) have "now B (wk_world s1) = (Inr t, wk_world s2)" by (rule in_worldD)
    with claim_failed [of e t t1 t2 "wk_world s4"] 5(6) c v submissions.claim_view_cases [OF c]
      submissions.claim_no_match(1) [OF c] show ?case by metis
  next
    case (6 t0 s1 t s2 t1 s3 t2 s4 claimed s5)
    then have v: "wview s4 = wview s" using keepsD [OF now_wkeeps] by metis
    from 6(2) have n: "\<exists>u u'. now B u = (Inr t, u')" by (blast dest: in_worldD)
    from submissions.findOneAndUpdate_ok [OF in_worldD [OF 6(5)]] v have
      c: "claimed = modified i (claimable (t - stale)) (claim wid t1 t2) (db_submissions (wview s))"
      "wview s5 = db_submissions_update (modify i (claimable (t - stale)) (claim wid t1 t2)) (wview s)"
      by auto
    show ?case
    proof (cases claimed)
      case None
      with c have "wview s5 = wview s"
        using submissions.put_same modified_None_modify by metis
      moreover from None 6(6) obtain r1 where "in_world (findById (Submissions B) i) s5 = (r1, s')"
        by (auto elim!: await_cases)
      then have "wview s' = wview s5"
        using submissions.findById_keeps by (auto dest!: in_worldD dest: keepsD)
      ultimately show ?thesis
        using skipped [OF n] None c(1) by (auto simp: modified_def split: option.splits if_splits)
    next
      case (Some x)
      with c(1) have "modified i (claimable (t - stale)) (claim wid t1 t2) (db_submissions (wview s)) = Some x"
        by simp
      then obtain d where "db_submissions (wview s) i = Some d" "claimable (t - stale) d" "x = claim wid t1 t2 d"
        by (auto simp: modified_Some)
      with claimed [OF n _ _ c(2)] Some 6(6) show ?thesis by simp
    qed
  qed
qed

lemma processSubmission_touches:
  assumes ids: "ids_ok (wview s)" and job: "job_submission B inp = Some i"
    and run: "processSubmission B wid stale inp s = (r, s')"
  shows "touches i (wview s) (wview s')"
  using run job
proof (cases rule: processSubmission_cases)
  case (claim_failed e t t1 t2 w)
  with claim_touches show ?thesis by (metis touches_refl)
next
  case (claimed t0 t t1 t2 d s1)
  have t1: "touches i (wview s) (wview s1)" using claimed(4) claim_touches by metis
  then have ids1: "ids_ok (wview s1)" using ids by (rule touches_ids_ok)
  from claimed(5) have "touches i (wview s1) (wview s')"
  proof (cases rule: try_catch_cases)
    case (caught e s2)
    from runClaimed_touches [OF ids1 caught(1)] movesD [OF moves_handleFailure caught(2)]
    show ?thesis by (rule transpD [OF transp_touches])
  next
    case (ok a)
    from runClaimed_touches [OF ids1 ok(1)] show ?thesis .
  qed
  with t1 show ?thesis by (rule transpD [OF transp_touches])
qed simp_all

lemma processSubmission_skips:
  assumes job: "job_submission B inp = Some i"
    and no: "\<And>d t u u'. db_submissions (wview s) i = Some d \<Longrightarrow> now B u = (Inr t, u') \<Longrightarrow> \<not> claimable (t - stale) d"
    and run: "processSubmission B wid stale inp s = (r, s')"
  shows "wview s' = wview s"
  using run job
proof (cases rule: processSubmission_cases)
  case (claim_failed e t t1 t2 w)
  with no have "modified i (claimable (t - stale)) (claim wid t1 t2) (db_submissions (wview s)) = None"
    by (auto simp: modified_def split: option.splits)
  with claim_failed show ?thesis by blast
next
  case (claimed t0 t t1 t2 d s1)
  with no show ?thesis by blast
qed simp_all

text \<open>A claimed submission after the body of the \<open>try\<close>.\<close>

lemma runClaimed_status:
  assumes ids: "ids_ok (wview s)" and st: "stored i (\<lambda>d. s_status d = RUNNING) (wview s)"
    and run: "runClaimed B i c t0 s = (r, s')"
  shows "stored i active (wview s')" and "r = Inr () \<Longrightarrow> stored i (\<lambda>d. s_status d = COMPLETED) (wview s')"
proof -
  have keep: "moves (pres (stored i Q)) wview (await (in_world (now B)) (\<lambda>t.
     await (in_world (now B)) (\<lambda>t2.
     await (in_world (updateOne (Submissions B) i (\<lambda>_. True) (stamp_completed t2))) (\<lambda>_.
     await (record_metric (recordWorkerJob ''completed'')) (\<lambda>_. case ev of
         None \<Rightarrow> ret ()
       | Some d \<Rightarrow>
           await (record_metric (recordSubmissionVerdict (s_language c) (verdict_name (s_verdict d)))) (\<lambda>_.
             record_metric (recordExecutionDuration (s_language c) (of_int (t - t0)))))))))"
    if Q: "\<And>d t. Q d \<Longrightarrow> Q (stamp_completed t d)" for Q ev
  proof -
    have u: "moves (pres (stored i Q)) wview (in_world (updateOne (Submissions B) i (\<lambda>_. True) (stamp_completed t2)))" for t2
    proof (rule in_world_view, rule movesI)
      fix w r w'
      assume "updateOne (Submissions B) i (\<lambda>_. True) (stamp_completed t2) w = (r, w')"
      from submissions.update_view_cases [OF this] Q
      show "pres (stored i Q) (view w) (view w')" by (auto simp: pres_def stored_def modify_def)
    qed
    have n: "moves (pres (stored i Q)) wview (in_world (now B))" "moves (pres (stored i Q)) wview (ret a)"
      "moves (pres (stored i Q)) wview (record_metric f)" for a f
      by (intro moves_keeps now_wkeeps record_metric_keeps keeps_ret; simp)+
    show ?thesis by (auto intro!: moves_await u n split: option.split)
  qed
  have "stored i active (wview s') \<and> (r = Inr () \<longrightarrow> stored i (\<lambda>d. s_status d = COMPLETED) (wview s'))"
    using run unfolding runClaimed_def
  proof (cases rule: await_cases)
    case (err e)
    from executeSubmission_active(1) [OF ids st in_worldD [OF err(1)]] err(2) show ?thesis by simp
  next
    case (ok ev s1)
    from executeSubmission_active(1) [OF ids st in_worldD [OF ok(1)]]
      executeSubmission_active(2) [OF ids st in_worldD [OF ok(1)] refl]
    have "stored i active (wview s1)" "stored i (\<lambda>d. s_status d = COMPLETED) (wview s1)" by simp_all
    moreover have "pres (stored i active) (wview s1) (wview s')"
      by (rule movesD [OF keep ok(2)]) (simp add: active_def stamp_completed_def)
    moreover have "pres (stored i (\<lambda>d. s_status d = COMPLETED)) (wview s1) (wview s')"
      by (rule movesD [OF keep ok(2)]) (simp add: stamp_completed_def)
    ultimately show ?thesis by (simp add: pres_def)
  qed
  then show "stored i active (wview s')" and "r = Inr () \<Longrightarrow> stored i (\<lambda>d. s_status d = COMPLETED) (wview s')"
    by blast+
qed

text \<open>The \<open>catch\<close>, when no call to the database fails.\<close>

lemma reliable_update:
  assumes "reliable B"
  obtains s' where "in_world (updateOne (Submissions B) i P f) s = (Inr (), s')"
    "wview s' = db_submissions_update (modify i P f) (wview s)"
proof -
  obtain w' where "updateOne (Submissions B) i P f (wk_world s) = (Inr (), w')"
    using assms unfolding reliable_def by blast
  from that [of "s\<lparr>wk_world := w'\<rparr>"] this submissions.updateOne_ok [OF this] show thesis
    by (simp add: in_world_run)
qed

lemma reliable_now:
  assumes "reliable B"
  obtains t s' where "in_world (now B) s = (Inr t, s')" "wview s' = wview s"
proof -
  obtain t w' where "now B (wk_world s) = (Inr t, w')" using assms unfolding reliable_def by blast
  from that [of t "s\<lparr>wk_world := w'\<rparr>"] this keepsD [OF now_keeps this] show thesis
    by (simp add: in_world_run)
qed

lemma failSubmission_reliable:
  assumes "reliable B"
  obtains s' t1 t2 where "failSubmission B i msg s = (Inr (), s')"
    "wview s' = db_submissions_update (modify i (\<lambda>_. True) (mark_failed t1 t2 msg)) (wview s)"
proof -
  obtain t1 s1 where 1: "in_world (now B) s = (Inr t1, s1)" "wview s1 = wview s"
    using reliable_now [OF assms] by metis
  obtain t2 s2 where 2: "in_world (now B) s1 = (Inr t2, s2)" "wview s2 = wview s1"
    using reliable_now [OF assms] by metis
  obtain s3 where "in_world (updateOne (Submissions B) i (\<lambda>_. True) (mark_failed t1 t2 msg)) s2 = (Inr (), s3)"
    "wview s3 = db_submissions_update (modify i (\<lambda>_. True) (mark_failed t1 t2 msg)) (wview s2)"
    using reliable_update [OF assms] by metis
  with that [of s3 t1 t2] 1 2 show thesis by (simp add: failSubmission_def await_ok)
qed

lemma handleFailure_reliable:
  assumes rel: "reliable B" and st: "stored i active (wview s)"
    and run: "handleFailure B inp i e s = (r, s')"
  shows "if isNonRetryableError e then r = Inr () \<and> stored i (\<lambda>d. s_status d = FAILED) (wview s')
    else r = Inl e \<and>
      (if attemptsMade inp + 1 < maxAttempts inp then stored i (\<lambda>d. s_status d \<in> {QUEUED, COMPLETED}) (wview s')
       else stored i (\<lambda>d. s_status d = FAILED) (wview s'))"
proof -
  define s1 where "s1 = s\<lparr>wk_metrics := recordWorkerFailure
       (if isNonRetryableError e then ''domain_failure'' else ''infrastructure_failure'')
       (recordWorkerJob ''failed'' (wk_metrics s))\<rparr>"
  have s1: "wview s1 = wview s" by (simp add: s1_def)
  from run have go: "(if isNonRetryableError e then
         failSubmission B i (message_or e ''Non-retryable execution error'')
       else if attemptsMade inp + 1 < maxAttempts inp then
         await (in_world (updateOne (Submissions B) i (\<lambda>s. s_status s = RUNNING)
                 (\<lambda>s. s\<lparr>s_status := QUEUED\<rparr>))) (\<lambda>_. throw e)
       else
         await (failSubmission B i (message_or e ''Execution infrastructure failure''))
           (\<lambda>_. throw e)) s1 = (r, s')"
    by (simp add: handleFailure_def record_metric_def await_def s1_def)
  have failed: "stored i (\<lambda>d. s_status d = FAILED) (wview s2)"
    if "wview s2 = db_submissions_update (modify i (\<lambda>_. True) (mark_failed t1 t2 msg)) (wview s1)" for s2 :: "'w worker_state" and t1 t2 msg
    using st that s1 by (auto simp: stored_def modify_def mark_failed_def)
  consider (fatal) "isNonRetryableError e"
    | (retry) "\<not> isNonRetryableError e" "attemptsMade inp + 1 < maxAttempts inp"
    | (last) "\<not> isNonRetryableError e" "\<not> attemptsMade inp + 1 < maxAttempts inp" by blast
  then show ?thesis
  proof cases
    case fatal
    obtain s2 t1 t2 where "failSubmission B i (message_or e ''Non-retryable execution error'') s1 = (Inr (), s2)"
      "wview s2 = db_submissions_update (modify i (\<lambda>_. True) (mark_failed t1 t2 (message_or e ''Non-retryable execution error''))) (wview s1)"
      by (rule failSubmission_reliable [OF rel])
    with go fatal failed show ?thesis by auto
  next
    case retry
    obtain s2 where u: "in_world (updateOne (Submissions B) i (\<lambda>s. s_status s = RUNNING)
                 (\<lambda>s. s\<lparr>s_status := QUEUED\<rparr>)) s1 = (Inr (), s2)"
      "wview s2 = db_submissions_update (modify i (\<lambda>s. s_status s = RUNNING) (\<lambda>s. s\<lparr>s_status := QUEUED\<rparr>)) (wview s1)"
      by (rule reliable_update [OF rel])
    have "stored i (\<lambda>d. s_status d \<in> {QUEUED, COMPLETED}) (wview s2)"
      using st s1 u(2) by (auto simp: stored_def modify_def active_def)
    with go retry u(1) show ?thesis by (simp add: await_ok)
  next
    case last
    obtain s2 t1 t2 where "failSubmission B i (message_or e ''Execution infrastructure failure'') s1 = (Inr (), s2)"
      "wview s2 = db_submissions_update (modify i (\<lambda>_. True) (mark_failed t1 t2 (message_or e ''Execution infrastructure failure''))) (wview s1)"
      by (rule failSubmission_reliable [OF rel])
    with go last failed show ?thesis by (auto simp: await_ok)
  qed
qed

lemma processSubmission_outcome:
  assumes rel: "reliable B" and ids: "ids_ok (wview s)" and job: "job_submission B inp = Some i"
    and doc: "db_submissions (wview s) i = Some d" "s_status d = QUEUED"
    and run: "processSubmission B wid stale inp s = (r, s')"
  shows "(r = Inr () \<longrightarrow> stored i (\<lambda>d. s_status d \<in> {COMPLETED, FAILED}) (wview s')) \<and>
    (\<forall>e. r = Inl e \<longrightarrow> \<not> isNonRetryableError e \<and>
      (if attemptsMade inp + 1 < maxAttempts inp then stored i (\<lambda>d. s_status d \<in> {QUEUED, COMPLETED}) (wview s')
       else stored i (\<lambda>d. s_status d = FAILED) (wview s')))"
  using run job
proof (cases rule: processSubmission_cases)
  case (clock e)
  with rel show ?thesis unfolding reliable_def by (metis Inl_Inr_False prod.inject)
next
  case (claim_failed e t t1 t2 w)
  with rel show ?thesis unfolding reliable_def by (metis Inl_Inr_False prod.inject)
next
  case (skipped t)
  with doc show ?thesis by (auto simp: claimable_def)
next
  case (claimed t0 t t1 t2 d' s1)
  have "touches i (wview s) (wview s1)" using claimed(4) claim_touches by metis
  then have ids1: "ids_ok (wview s1)" using ids by (rule touches_ids_ok)
  have st1: "stored i (\<lambda>d. s_status d = RUNNING) (wview s1)"
    using claimed(2,3,4) by (auto simp: stored_def modify_def claim_def)
  from claimed(5) show ?thesis
  proof (cases rule: try_catch_cases)
    case (caught e s2)
    from handleFailure_reliable [OF rel runClaimed_status(1) [OF ids1 st1 caught(1)] caught(2)]
    show ?thesis by (auto simp: stored_def split: if_splits)
  next
    case (ok a)
    from runClaimed_status(2) [OF ids1 st1 ok(1)] ok(2) show ?thesis by (auto simp: stored_def)
  qed
qed

end

section \<open>Properties\<close>

text \<open>Duplicate delivery is harmless: when the submission of a job is not claimable at any time
  the clock shows (it is pending, completed, failed, or RUNNING and claimed less than the stale
  time-out ago), processing the job leaves the whole database as it is.\<close>

theorem processSubmission_idle:
  assumes "database B view" and "job_submission B inp = Some i"
    and "\<forall>d t u u'. db_submissions (view (wk_world s)) i = Some d \<longrightarrow> now B u = (Inr t, u') \<longrightarrow> \<not> claimable (t - stale) d"
    and "processSubmission B wid stale inp s = (r, s')"
  shows "view (wk_world s') = view (wk_world s)"
  using database.processSubmission_skips [OF assms(1,2) _ assms(4)] assms(3) by blast

text \<open>C2: when the database answers, no queued submission is left RUNNING: if the job is
  acknowledged the submission is COMPLETED or FAILED; if it is thrown back, the error is retryable
  and the submission is QUEUED again (or COMPLETED) while attempts remain, and FAILED after the
  last one.\<close>

theorem processSubmission_settles:
  assumes "database B view" and "reliable B" and "ids_ok (view (wk_world s))"
    and "job_submission B inp = Some i"
    and "db_submissions (view (wk_world s)) i = Some d" and "s_status d = QUEUED"
    and "processSubmission B wid stale inp s = (r, s')"
  shows "(r = Inr () \<longrightarrow> stored i (\<lambda>d. s_status d \<in> {COMPLETED, FAILED}) (view (wk_world s'))) \<and>
    (\<forall>e. r = Inl e \<longrightarrow> \<not> isNonRetryableError e \<and>
      (if attemptsMade inp + 1 < maxAttempts inp
       then stored i (\<lambda>d. s_status d \<in> {QUEUED, COMPLETED}) (view (wk_world s'))
       else stored i (\<lambda>d. s_status d = FAILED) (view (wk_world s'))))"
  using database.processSubmission_outcome [OF assms] .

text \<open>A job touches only its own submission, and of that neither owner, problem, language nor
  source code; documents that satisfy the schema keep satisfying it.\<close>

theorem processSubmission_frame:
  assumes "database B view" and "ids_ok (view (wk_world s))" and "job_submission B inp = Some i"
    and "processSubmission B wid stale inp s = (r, s')"
  shows "touches i (view (wk_world s)) (view (wk_world s'))"
  using database.processSubmission_touches [OF assms] .

section \<open>Examples\<close>

definition last_job :: job_input where
  "last_job = Job \<lparr>job_submissionId = JStr ''s'', job_attemptsMade = Some 2, job_attempts = Some 3\<rparr>"

definition sample_state :: "(oid \<times> testcase) list \<Rightarrow> world worker_state" where
  "sample_state tcs = \<lparr>wk_world = sample_world tcs, wk_metrics = resetMetrics\<rparr>"

lemma reliable_mem: "reliable (mem_backend run q)"
  by (simp add: reliable_def mem_coll_def)

lemma last_job_submission: "job_submission (mem_backend run q) last_job = Some ''s''"
  by (simp add: job_submission_def last_job_def raw_submission_id_def js_trim_def js_trim_start_def
      js_trim_end_def is_ws_def code_unit_def drop_tail_while_def)

lemma sample_doc: "db_submissions (world_view (wk_world (sample_state tcs))) ''s'' = Some sample_submission"
  by (simp add: sample_state_def world_view_def sample_world_def)

lemma sample_ids: "ids_ok (world_view (wk_world (sample_state tcs)))"
  by (simp add: sample_state_def ids_ok_sample)

theorem processSubmission_settles_witness:
  "\<exists>r s'. processSubmission (mem_backend engine_down True) ''w1'' 30000 last_job (sample_state [(''t'', sample_test)]) = (r, s') \<and>
    stored ''s'' (\<lambda>d. s_status d \<in> {COMPLETED, FAILED}) (world_view (wk_world s'))"
proof -
  let ?s = "sample_state [(''t'', sample_test)]"
  obtain r s' where run: "processSubmission (mem_backend engine_down True) ''w1'' 30000 last_job ?s = (r, s')"
    by fastforce
  have st: "s_status sample_submission = QUEUED" by (simp add: sample_submission_def)
  have last: "\<not> attemptsMade last_job + 1 < maxAttempts last_job"
    by (simp add: last_job_def attemptsMade_def maxAttempts_def)
  from processSubmission_settles [OF mem_down.database_axioms reliable_mem sample_ids last_job_submission
      sample_doc st run] last
  have "stored ''s'' (\<lambda>d. s_status d \<in> {COMPLETED, FAILED}) (world_view (wk_world s'))"
    by (cases r) (auto simp: stored_def)
  with run show ?thesis by blast
qed

theorem processSubmission_frame_witness:
  "\<exists>r s'. processSubmission (mem_backend accept_all True) ''w1'' 30000 last_job (sample_state []) = (r, s') \<and>
    touches ''s'' (world_view (wk_world (sample_state []))) (world_view (wk_world s'))"
proof -
  obtain r s' where run: "processSubmission (mem_backend accept_all True) ''w1'' 30000 last_job (sample_state []) = (r, s')"
    by fastforce
  from processSubmission_frame [OF mem_accept.database_axioms sample_ids last_job_submission run] run
  show ?thesis by blast
qed

definition done_state :: "world worker_state" where
  "done_state = (sample_state [])\<lparr>wk_world := (sample_world [])\<lparr>w_submissions :=
     [(''s'', sample_submission\<lparr>s_status := COMPLETED, s_verdict := ACCEPTED\<rparr>)]\<rparr>\<rparr>"

theorem processSubmission_idle_witness:
  "\<exists>r s'. processSubmission (mem_backend accept_all True) ''w1'' 30000 last_job done_state = (r, s') \<and>
    world_view (wk_world s') = world_view (wk_world done_state)"
proof -
  obtain r s' where run: "processSubmission (mem_backend accept_all True) ''w1'' 30000 last_job done_state = (r, s')"
    by fastforce
  have "\<forall>d t u u'. db_submissions (world_view (wk_world done_state)) ''s'' = Some d \<longrightarrow>
      now (mem_backend accept_all True) u = (Inr t, u') \<longrightarrow> \<not> claimable (t - 30000) d"
    by (auto simp: done_state_def world_view_def claimable_def)
  from processSubmission_idle [OF mem_accept.database_axioms last_job_submission this run] run
  show ?thesis by blast
qed

section \<open>An acknowledgement that is lost\<close>

text \<open>
  A database whose next \<open>updateOne\<close> fails without writing while a job is pending, and works
  from then on. It still meets the contract.
\<close>

definition flaky_backend :: "(string \<Rightarrow> string \<Rightarrow> string \<Rightarrow> string \<Rightarrow> err + exec_result) \<Rightarrow> world backend" where
  "flaky_backend run = (mem_backend run True)\<lparr>Submissions :=
     (mem_coll w_submissions w_submissions_update w_time)\<lparr>updateOne := (\<lambda>i P f w.
        if w_jobs w \<noteq> [] then (Inl (plain_error ''connection closed''), w\<lparr>w_jobs := []\<rparr>)
        else updateOne (mem_coll w_submissions w_submissions_update w_time) i P f w)\<rparr>\<rparr>"

lemma flaky_database:
  assumes run: "judging run"
  shows "database (flaky_backend run) world_view"
proof -
  let ?C = "mem_coll w_submissions w_submissions_update w_time"
  have C: "collection ?C world_view db_submissions db_submissions_update"
    using mem_accept.submissions.collection_axioms by simp
  have "collection (Submissions (flaky_backend run)) world_view db_submissions db_submissions_update"
    unfolding flaky_backend_def backend.simps
  proof (simp, rule collection_updateOne [OF C]; intro allI impI)
    fix i P f u and w w' :: world
    assume "(if w_jobs w \<noteq> [] then (Inl (plain_error ''connection closed''), w\<lparr>w_jobs := []\<rparr>)
        else updateOne ?C i P f w) = (Inr u, w')"
    then show "world_view w' = db_submissions_update (modify i P f) (world_view w)"
      by (auto split: if_splits dest: collection.updateOne_ok [OF C])
  next
    fix i P f e and w w' :: world
    assume "(if w_jobs w \<noteq> [] then (Inl (plain_error ''connection closed''), w\<lparr>w_jobs := []\<rparr>)
        else updateOne ?C i P f w) = (Inl e, w')"
    then show "world_view w' = world_view w \<or> world_view w' = db_submissions_update (modify i P f) (world_view w)"
      by (auto simp: world_view_def mem_coll_def split: if_splits)
  qed
  then show ?thesis
    using mem_backend_database [OF run, of True] unfolding database_def database_axioms_def flaky_backend_def by simp
qed

definition flaky_state :: "world worker_state" where
  "flaky_state = \<lparr>wk_world = (sample_world [(''t'', sample_test)])\<lparr>w_jobs := [(''s'', ''s'', None)]\<rparr>,
     wk_metrics = resetMetrics\<rparr>"

lemma flaky_run:
  "(case processSubmission (flaky_backend accept_all) ''w1'' 30000 last_job flaky_state of
     (Inl e, s) \<Rightarrow> (case map_of (w_submissions (wk_world s)) ''s'' of
        Some d \<Rightarrow> s_status d = FAILED \<and> s_verdict d = ACCEPTED \<and> s_testsPassed d = Some 1 \<and> s_totalTests d = Some 1
      | None \<Rightarrow> False)
   | _ \<Rightarrow> False)"
  by code_simp

text \<open>The marking as FAILED is unconditional, so it can overwrite a result: with a database that
  keeps its contract but fails one acknowledgement after the result was stored, the last attempt
  of a job leaves a submission FAILED whose verdict is ACCEPTED with all tests passed.\<close>

theorem completed_overwritten:
  "database (flaky_backend accept_all) world_view \<and>
   (\<exists>e s'. processSubmission (flaky_backend accept_all) ''w1'' 30000 last_job flaky_state = (Inl e, s') \<and>
     stored ''s'' (\<lambda>d. s_status d = FAILED \<and> s_verdict d = ACCEPTED \<and> s_testsPassed d = s_totalTests d)
       (world_view (wk_world s')))"
proof -
  obtain e s' where "processSubmission (flaky_backend accept_all) ''w1'' 30000 last_job flaky_state = (Inl e, s')"
    and "case map_of (w_submissions (wk_world s')) ''s'' of
        Some d \<Rightarrow> s_status d = FAILED \<and> s_verdict d = ACCEPTED \<and> s_testsPassed d = Some 1 \<and> s_totalTests d = Some 1
      | None \<Rightarrow> False"
    using flaky_run by (auto split: prod.splits sum.splits)
  then show ?thesis
    using flaky_database [of accept_all] by (auto simp: stored_def world_view_def split: option.splits)
qed

definition attempt :: "int \<Rightarrow> job_input" where
  "attempt n = Job \<lparr>job_submissionId = JStr ''s'', job_attemptsMade = Some n, job_attempts = Some 3\<rparr>"

lemma stuck_run:
  "(case processSubmission (flaky_backend engine_down) ''w1'' 30000 (attempt 0) flaky_state of
     (Inl e, s) \<Rightarrow> \<not> isNonRetryableError e \<and>
       (case processSubmission (flaky_backend engine_down) ''w1'' 30000 (attempt 1) s of
          (Inr u, s') \<Rightarrow> (case map_of (w_submissions (wk_world s')) ''s'' of
             Some d \<Rightarrow> s_status d = RUNNING | None \<Rightarrow> False)
        | _ \<Rightarrow> False)
   | _ \<Rightarrow> False)"
  by code_simp

text \<open>A retry can be acknowledged without the submission being judged: when the first attempt fails
  and the database does not carry out the update that puts the submission back to QUEUED, the
  second attempt, coming before the claim is stale, skips the submission and returns normally. The
  queue then considers the job done, with the submission still RUNNING and attempts left.\<close>

theorem retry_acknowledged_unjudged:
  "database (flaky_backend engine_down) world_view \<and>
   (\<exists>e s' s''. processSubmission (flaky_backend engine_down) ''w1'' 30000 (attempt 0) flaky_state = (Inl e, s') \<and>
     \<not> isNonRetryableError e \<and>
     processSubmission (flaky_backend engine_down) ''w1'' 30000 (attempt 1) s' = (Inr (), s'') \<and>
     stored ''s'' (\<lambda>d. s_status d = RUNNING) (world_view (wk_world s'')))"
proof -
  obtain e s' s'' where "processSubmission (flaky_backend engine_down) ''w1'' 30000 (attempt 0) flaky_state = (Inl e, s')"
    "\<not> isNonRetryableError e"
    "processSubmission (flaky_backend engine_down) ''w1'' 30000 (attempt 1) s' = (Inr (), s'')"
    "case map_of (w_submissions (wk_world s'')) ''s'' of Some d \<Rightarrow> s_status d = RUNNING | None \<Rightarrow> False"
    using stuck_run by (auto split: prod.splits sum.splits)
  then show ?thesis
    using flaky_database [of engine_down] by (auto simp: stored_def world_view_def split: option.splits)
qed

end
