(* ===== verification/Contention.thy ===== *)
theory Contention
  imports Worker
begin

text \<open>
  Several workers and one submission. A job may be delivered more than once and to more than one
  worker, so runs of \<open>processSubmission\<close> (\<open>workers/submission.worker.js\<close>) interleave between
  their database calls. A cluster is the stored document, the clock and the runs in flight; one
  action is one call of a run, with the document changes of \<open>Worker\<close> and \<open>SubmissionExec\<close>.
  The engine's verdicts are arbitrary here. The producer is not part of the cluster: it starts
  with a document that was queued.
\<close>

section \<open>Runs in flight\<close>

text \<open>
  A run has read the clock for its cutoff; it has claimed the document, writing the given
  \<open>execution.startedAt\<close>; \<open>executeSubmission\<close> has loaded the document; it has returned, and
  \<open>execution.completedAt\<close> is still to be written; or the \<open>catch\<close> block has been entered, with
  attempts left or not.
\<close>

datatype run = Delivered date | Claimed date | Judging date submission | Saved date | Failing date bool

record cluster =
  cl_now :: date
  cl_doc :: submission
  cl_runs :: "nat \<rightharpoonup> run"

definition goes :: "nat \<Rightarrow> run \<Rightarrow> cluster \<Rightarrow> cluster" where
  "goes r p c = c\<lparr>cl_runs := (cl_runs c)(r \<mapsto> p)\<rparr>"

definition ends :: "nat \<Rightarrow> cluster \<Rightarrow> cluster" where
  "ends r c = c\<lparr>cl_runs := (cl_runs c)(r := None)\<rparr>"

definition writes :: "(submission \<Rightarrow> submission) \<Rightarrow> cluster \<Rightarrow> cluster" where
  "writes f c = c\<lparr>cl_doc := f (cl_doc c)\<rparr>"

text \<open>
  What \<open>executeSubmission\<close> saves at its end, with whatever verdict, counts and times.
\<close>

definition completes :: "submission \<Rightarrow> submission \<Rightarrow> bool" where
  "completes sub done \<longleftrightarrow> s_status done = COMPLETED \<and> same_request sub done \<and>
     s_execution done = s_execution sub \<and> storable (s_verdict done)"

text \<open>Putting a failed attempt back.\<close>

definition requeue :: "submission \<Rightarrow> submission" where
  "requeue d = (if s_status d = RUNNING then d\<lparr>s_status := QUEUED\<rparr> else d)"

section \<open>Actions\<close>

text \<open>
  \<open>Error\<close> is any exception inside the \<open>try\<close> block; a call that fails after it was carried out is
  that call's action and then \<open>Error\<close>. \<open>Crash\<close> is the end of the process, or an exception that
  leaves \<open>processSubmission\<close> without a further write.
\<close>

datatype action =
    Tick int | Deliver nat | Claim nat string date date | Refuse nat | Read nat
  | Restart nat date | Judge nat submission | Stamp nat date | Return nat
  | Error nat bool | Requeue nat | Fail nat date date string | Crash nat

fun act :: "int \<Rightarrow> action \<Rightarrow> cluster \<Rightarrow> cluster option" where
  "act stale (Tick n) c = (if 0 \<le> n then Some (c\<lparr>cl_now := cl_now c + n\<rparr>) else None)"
| "act stale (Deliver r) c =
     (if cl_runs c r = None then Some (goes r (Delivered (cl_now c)) c) else None)"
| "act stale (Claim r wid t1 t2) c = (case cl_runs c r of
     Some (Delivered t) \<Rightarrow>
       if claimable (t - stale) (cl_doc c) then Some (goes r (Claimed t2) (writes (claim wid t1 t2) c)) else None
   | _ \<Rightarrow> None)"
| "act stale (Refuse r) c = (case cl_runs c r of
     Some (Delivered t) \<Rightarrow> if claimable (t - stale) (cl_doc c) then None else Some (ends r c)
   | _ \<Rightarrow> None)"
| "act stale (Read r) c = (case cl_runs c r of
     Some (Claimed t) \<Rightarrow> Some (goes r (Judging t (cl_doc c)) c) | _ \<Rightarrow> None)"
| "act stale (Restart r t1) c = (case cl_runs c r of
     Some (Judging t sub) \<Rightarrow>
       if s_status sub = RUNNING then None
       else (let running = sub\<lparr>s_status := RUNNING, s_startedAt := Some (default_to t1 (s_startedAt sub))\<rparr> in
             Some (goes r (Judging t running) (writes (sub_delta sub running) c)))
   | _ \<Rightarrow> None)"
| "act stale (Judge r done) c = (case cl_runs c r of
     Some (Judging t sub) \<Rightarrow>
       if completes sub done \<and> (s_status sub = RUNNING \<or> s_language sub \<notin> set SUPPORTED_LANGUAGES)
       then Some (goes r (Saved t) (writes (sub_delta sub done) c)) else None
   | _ \<Rightarrow> None)"
| "act stale (Stamp r t2) c = (case cl_runs c r of
     Some (Saved t) \<Rightarrow> Some (goes r (Saved t) (writes (stamp_completed t2) c)) | _ \<Rightarrow> None)"
| "act stale (Return r) c = (case cl_runs c r of
     Some (Saved t) \<Rightarrow> Some (ends r c) | _ \<Rightarrow> None)"
| "act stale (Error r again) c = (case cl_runs c r of
     Some (Claimed t) \<Rightarrow> Some (goes r (Failing t again) c)
   | Some (Judging t sub) \<Rightarrow> Some (goes r (Failing t again) c)
   | Some (Saved t) \<Rightarrow> Some (goes r (Failing t again) c)
   | _ \<Rightarrow> None)"
| "act stale (Requeue r) c = (case cl_runs c r of
     Some (Failing t True) \<Rightarrow> Some (ends r (writes requeue c)) | _ \<Rightarrow> None)"
| "act stale (Fail r t1 t2 msg) c = (case cl_runs c r of
     Some (Failing t False) \<Rightarrow> Some (ends r (writes (mark_failed t1 t2 msg) c)) | _ \<Rightarrow> None)"
| "act stale (Crash r) c = (if cl_runs c r = None then None else Some (ends r c))"

fun acts :: "int \<Rightarrow> action list \<Rightarrow> cluster \<Rightarrow> cluster option" where
  "acts stale [] c = Some c"
| "acts stale (a # as) c = (case act stale a c of None \<Rightarrow> None | Some c' \<Rightarrow> acts stale as c')"

text \<open>A queued document and no run.\<close>

definition queued :: "cluster \<Rightarrow> bool" where
  "queued c \<longleftrightarrow> s_status (cl_doc c) = QUEUED \<and> cl_runs c = Map.empty"

text \<open>The states that can be reached through states with a property.\<close>

inductive reaches :: "int \<Rightarrow> (cluster \<Rightarrow> bool) \<Rightarrow> cluster \<Rightarrow> cluster \<Rightarrow> bool" for stale P c where
  start: "P c \<Longrightarrow> reaches stale P c c"
| step: "reaches stale P c d \<Longrightarrow> act stale a d = Some e \<Longrightarrow> P e \<Longrightarrow> reaches stale P c e"

text \<open>
  A run owns the submission from its claim to its end. A cluster is timely when no run owns it
  for longer than the stale timeout.
\<close>

fun owned_since :: "run \<Rightarrow> date option" where
  "owned_since (Delivered t) = None"
| "owned_since (Claimed t) = Some t"
| "owned_since (Judging t sub) = Some t"
| "owned_since (Saved t) = Some t"
| "owned_since (Failing t again) = Some t"

definition owns :: "cluster \<Rightarrow> nat \<Rightarrow> date \<Rightarrow> bool" where
  "owns c r t \<longleftrightarrow> (\<exists>p. cl_runs c r = Some p \<and> owned_since p = Some t)"

definition timely :: "int \<Rightarrow> cluster \<Rightarrow> bool" where
  "timely stale c \<longleftrightarrow> (\<forall>r t. owns c r t \<longrightarrow> cl_now c \<le> t + stale)"

section \<open>One owner at a time\<close>

lemmas cluster_defs = goes_def ends_def writes_def

text \<open>The document as a run at each point sees it.\<close>

fun agrees :: "submission \<Rightarrow> run \<Rightarrow> bool" where
  "agrees d (Delivered t) = True"
| "agrees d (Claimed t) = (s_status d = RUNNING \<and> ex_startedAt (s_execution d) = Some t)"
| "agrees d (Judging t sub) = (s_status d = RUNNING \<and> ex_startedAt (s_execution d) = Some t \<and> sub = d)"
| "agrees d (Saved t) = (s_status d = COMPLETED)"
| "agrees d (Failing t again) =
     (s_status d = COMPLETED \<or> s_status d = RUNNING \<and> ex_startedAt (s_execution d) = Some t)"

definition exclusive :: "cluster \<Rightarrow> bool" where
  "exclusive c \<longleftrightarrow>
     (\<forall>r t. cl_runs c r = Some (Delivered t) \<longrightarrow> t \<le> cl_now c) \<and>
     (\<forall>r t r' t'. owns c r t \<longrightarrow> owns c r' t' \<longrightarrow> r = r') \<and>
     (\<forall>r p. cl_runs c r = Some p \<longrightarrow> agrees (cl_doc c) p)"

lemma agrees_Delivered: "owned_since p = None \<Longrightarrow> agrees d p"
  by (cases p) simp_all

lemma owned_since_None: "owned_since p = None \<longleftrightarrow> (\<exists>t. p = Delivered t)"
  by (cases p) simp_all

lemma exclusiveI:
  assumes "\<And>r t. cl_runs c r = Some (Delivered t) \<Longrightarrow> t \<le> cl_now c"
    and "\<And>r t r' t'. owns c r t \<Longrightarrow> owns c r' t' \<Longrightarrow> r = r'"
    and "\<And>r p. cl_runs c r = Some p \<Longrightarrow> agrees (cl_doc c) p"
  shows "exclusive c"
  using assms unfolding exclusive_def by blast

lemma exclusive_agrees: "exclusive c \<Longrightarrow> cl_runs c r = Some p \<Longrightarrow> agrees (cl_doc c) p"
  unfolding exclusive_def by blast

lemma exclusive_delivered: "exclusive c \<Longrightarrow> cl_runs c r = Some (Delivered t) \<Longrightarrow> t \<le> cl_now c"
  unfolding exclusive_def by blast

lemma exclusive_owner: "exclusive c \<Longrightarrow> owns c r t \<Longrightarrow> owns c r' t' \<Longrightarrow> r = r'"
  unfolding exclusive_def by blast

text \<open>A run that owns the submission may write it and go on or end: no other run owns it.\<close>

lemma exclusive_owner_moves:
  assumes c: "exclusive c" and own: "cl_runs c r = Some p" "owned_since p = Some t"
    and c': "cl_now c' = cl_now c" "cl_runs c' = (cl_runs c)(r := q)"
    and q: "\<And>p'. q = Some p' \<Longrightarrow> owned_since p' \<noteq> None \<and> agrees (cl_doc c') p'"
  shows "exclusive c'"
proof (rule exclusiveI)
  have other: "owned_since p' = None" if "cl_runs c r' = Some p'" "r' \<noteq> r" for r' p'
    using exclusive_owner [OF c, of r t r'] own that unfolding owns_def by (cases "owned_since p'") auto
  show "t' \<le> cl_now c'" if "cl_runs c' r' = Some (Delivered t')" for r' t'
    using that c' q exclusive_delivered [OF c] by (auto split: if_splits)
  show "r1 = r2" if "owns c' r1 t1" "owns c' r2 t2" for r1 t1 r2 t2
    using that c' other unfolding owns_def by (fastforce split: if_splits)
  show "agrees (cl_doc c') p'" if "cl_runs c' r' = Some p'" for r' p'
    using that c' q agrees_Delivered other by (auto split: if_splits)
qed

text \<open>A run that owns nothing yet may come and go.\<close>

lemma exclusive_unowned_moves:
  assumes c: "exclusive c" and r: "\<And>p. cl_runs c r = Some p \<Longrightarrow> owned_since p = None"
    and c': "cl_now c \<le> cl_now c'" "cl_runs c' = (cl_runs c)(r := q)" "cl_doc c' = cl_doc c"
    and q: "\<And>p. q = Some p \<Longrightarrow> \<exists>t \<le> cl_now c'. p = Delivered t"
  shows "exclusive c'"
proof (rule exclusiveI)
  show "t' \<le> cl_now c'" if "cl_runs c' r' = Some (Delivered t')" for r' t'
    using that c' q exclusive_delivered [OF c, of r' t'] by (auto split: if_splits)
  show "r1 = r2" if "owns c' r1 t1" "owns c' r2 t2" for r1 t1 r2 t2
    using that c' q exclusive_owner [OF c, of r1 t1 r2 t2] unfolding owns_def by (auto split: if_splits)
  show "agrees (cl_doc c') p'" if "cl_runs c' r' = Some p'" for r' p'
    using that c' q exclusive_agrees [OF c] by (auto split: if_splits)
qed

text \<open>A claim finds no owner when the cluster is timely.\<close>

lemma claim_unowned:
  assumes c: "exclusive c" "timely stale c" and t: "cl_runs c r = Some (Delivered t)"
    and claimable: "claimable (t - stale) (cl_doc c)" and p: "cl_runs c r' = Some p"
  shows "owned_since p = None"
proof (rule ccontr)
  assume "owned_since p \<noteq> None"
  then obtain u where u: "owned_since p = Some u" by blast
  with p c(2) have "cl_now c \<le> u + stale" unfolding timely_def owns_def by blast
  with exclusive_delivered [OF c(1) t] have "t - stale \<le> u" by simp
  with exclusive_agrees [OF c(1) p] u claimable show False
    by (cases p) (auto simp: claimable_def before_def)
qed

lemma exclusive_claim:
  assumes c: "exclusive c" "timely stale c" and t: "cl_runs c r = Some (Delivered t)"
    and claimable: "claimable (t - stale) (cl_doc c)"
  shows "exclusive (goes r (Claimed t2) (writes (claim wid t1 t2) c))"
proof (rule exclusiveI)
  note free = claim_unowned [OF c t claimable]
  let ?c = "goes r (Claimed t2) (writes (claim wid t1 t2) c)"
  show "t' \<le> cl_now ?c" if "cl_runs ?c r' = Some (Delivered t')" for r' t'
    using that exclusive_delivered [OF c(1)] by (auto simp: cluster_defs split: if_splits)
  show "r1 = r2" if "owns ?c r1 u1" "owns ?c r2 u2" for r1 u1 r2 u2
    using that free unfolding owns_def by (fastforce simp: cluster_defs split: if_splits)
  show "agrees (cl_doc ?c) p" if "cl_runs ?c r' = Some p" for r' p
    using that free agrees_Delivered by (auto simp: cluster_defs claim_def split: if_splits)
qed

lemma completes_status:
  "completes sub done \<Longrightarrow> s_status sub = RUNNING \<Longrightarrow> s_status (sub_delta sub done d) = COMPLETED"
  by (simp add: completes_def sub_delta_def)

lemma exclusive_tick: "exclusive c \<Longrightarrow> 0 \<le> n \<Longrightarrow> exclusive (c\<lparr>cl_now := cl_now c + n\<rparr>)"
  unfolding exclusive_def owns_def by (simp, blast intro: add_increasing2)

lemma exclusive_act:
  assumes c: "exclusive c" "timely stale c" and act: "act stale a c = Some c'"
  shows "exclusive c'"
proof (cases a)
  case (Tick n)
  with act c(1) show ?thesis by (auto split: if_splits intro: exclusive_tick)
next
  case (Deliver r)
  with act show ?thesis
    by (auto split: if_splits simp: cluster_defs intro!: exclusive_unowned_moves [OF c(1), of r])
next
  case (Claim r wid t1 t2)
  with act show ?thesis
    by (auto split: option.splits run.splits if_splits intro!: exclusive_claim [OF c])
next
  case (Refuse r)
  with act show ?thesis
    by (auto split: option.splits run.splits if_splits simp: cluster_defs
      intro!: exclusive_unowned_moves [OF c(1), of r])
next
  case (Read r)
  with act show ?thesis
    by (auto split: option.splits run.splits simp: cluster_defs
      dest: exclusive_agrees [OF c(1)] intro!: exclusive_owner_moves [OF c(1), of r])
next
  case (Restart r t1)
  with act show ?thesis
    by (auto split: option.splits run.splits if_splits dest: exclusive_agrees [OF c(1)])
next
  case (Judge r res)
  with act show ?thesis
    by (auto split: option.splits run.splits if_splits simp: cluster_defs completes_status
      dest: exclusive_agrees [OF c(1)] intro!: exclusive_owner_moves [OF c(1), of r])
next
  case (Stamp r t2)
  with act show ?thesis
    by (auto split: option.splits run.splits simp: cluster_defs stamp_completed_def
      dest: exclusive_agrees [OF c(1)] intro!: exclusive_owner_moves [OF c(1), of r])
next
  case (Return r)
  with act show ?thesis
    by (auto split: option.splits run.splits simp: cluster_defs intro!: exclusive_owner_moves [OF c(1), of r])
next
  case (Error r again)
  with act show ?thesis
    by (auto split: option.splits run.splits simp: cluster_defs
      dest: exclusive_agrees [OF c(1)] intro!: exclusive_owner_moves [OF c(1), of r])
next
  case (Requeue r)
  with act show ?thesis
    by (auto split: option.splits run.splits bool.splits simp: cluster_defs
      intro!: exclusive_owner_moves [OF c(1), of r])
next
  case (Fail r t1 t2 msg)
  with act show ?thesis
    by (auto split: option.splits run.splits bool.splits simp: cluster_defs
      intro!: exclusive_owner_moves [OF c(1), of r])
next
  case (Crash r)
  then obtain p where p: "cl_runs c r = Some p" and c': "c' = ends r c"
    using act by (auto split: if_splits)
  show ?thesis
  proof (cases "owned_since p")
    case None
    then show ?thesis using p c' by (auto simp: cluster_defs intro!: exclusive_unowned_moves [OF c(1), of r])
  next
    case (Some t)
    then show ?thesis using p c' by (auto simp: cluster_defs intro!: exclusive_owner_moves [OF c(1), of r])
  qed
qed

lemma exclusive_queued: "queued c \<Longrightarrow> exclusive c"
  by (auto simp: queued_def exclusive_def owns_def)

lemma reaches_holds: "reaches stale P c d \<Longrightarrow> P d"
  by (induction rule: reaches.induct)

lemma reaches_exclusive: "reaches stale (timely stale) c d \<Longrightarrow> queued c \<Longrightarrow> exclusive d"
proof (induction rule: reaches.induct)
  case start
  then show ?case by (simp add: exclusive_queued)
next
  case (step d a e)
  then show ?case by (blast intro: exclusive_act dest: reaches_holds)
qed

text \<open>C3: two workers never work on a submission at once. If every run that claimed it ends
  before the stale timeout has passed since its claim, at most one run owns the submission in
  every state, whatever jobs are delivered, how often, and however the runs interleave, fail or
  crash; and while it judges, the copy it judges is the stored document, marked RUNNING with its
  own claim time.\<close>

theorem one_owner:
  assumes "reaches stale (timely stale) c d" and "queued c"
  shows "(\<forall>r t r' t'. owns d r t \<longrightarrow> owns d r' t' \<longrightarrow> r = r') \<and>
    (\<forall>r t sub. cl_runs d r = Some (Judging t sub) \<longrightarrow>
       sub = cl_doc d \<and> s_status sub = RUNNING \<and> ex_startedAt (s_execution sub) = Some t)"
  using reaches_exclusive [OF assms] by (auto dest: exclusive_owner exclusive_agrees)

section \<open>Final states\<close>

text \<open>
  A decided submission: its judgement is saved, and the only run that may still own it is the one
  that saved it, which has that step behind it; or it has failed, and no run owns it.
\<close>

definition unowned :: "cluster \<Rightarrow> bool" where
  "unowned c \<longleftrightarrow> (\<forall>r p. cl_runs c r = Some p \<longrightarrow> owned_since p = None)"

lemma unownedD: "unowned c \<Longrightarrow> cl_runs c r = Some p \<Longrightarrow> \<exists>t. p = Delivered t"
  by (simp add: unowned_def owned_since_None)

lemma unowned_moves:
  "unowned c \<Longrightarrow> unowned (goes r (Delivered t) c)" "unowned c \<Longrightarrow> unowned (ends r c)"
  "unowned c \<Longrightarrow> unowned (c\<lparr>cl_now := n\<rparr>)"
  by (auto simp: unowned_def cluster_defs)

definition judged_by :: "nat \<Rightarrow> cluster \<Rightarrow> bool" where
  "judged_by r c \<longleftrightarrow> s_status (cl_doc c) = COMPLETED \<and>
     (\<forall>r' p. cl_runs c r' = Some p \<longrightarrow> owned_since p = None \<or> r' = r \<and> (\<exists>u again. p = Saved u \<or> p = Failing u again))"

definition given_up :: "cluster \<Rightarrow> bool" where
  "given_up c \<longleftrightarrow> s_status (cl_doc c) = FAILED \<and> unowned c"

lemma judged_by_run:
  assumes "judged_by r c" and "cl_runs c r' = Some p"
  obtains t where "p = Delivered t" | u where "r' = r" "p = Saved u" | u again where "r' = r" "p = Failing u again"
proof -
  have "owned_since p = None \<or> r' = r \<and> (\<exists>u again. p = Saved u \<or> p = Failing u again)"
    using assms unfolding judged_by_def by blast
  then show thesis unfolding owned_since_None using that by blast
qed

text \<open>What the run that saved the judgement may still write: the time, or its failure.\<close>

definition late_write :: "nat \<Rightarrow> action \<Rightarrow> cluster \<Rightarrow> cluster \<Rightarrow> bool" where
  "late_write r a c c' \<longleftrightarrow> s_status (cl_doc c) = COMPLETED \<and>
     ((\<exists>t u. a = Stamp r t \<and> cl_runs c r = Some (Saved u) \<and> cl_doc c' = stamp_completed t (cl_doc c)) \<or>
      (\<exists>t1 t2 msg u. a = Fail r t1 t2 msg \<and> cl_runs c r = Some (Failing u False) \<and>
         cl_doc c' = mark_failed t1 t2 msg (cl_doc c)))"

lemma given_up_act:
  assumes "given_up c" and "act stale a c = Some c'"
  shows "given_up c' \<and> cl_doc c' = cl_doc c"
  using assms
  by (cases a) (auto simp: given_up_def cluster_defs claimable_def dest: unownedD intro!: unowned_moves [unfolded cluster_defs]
      split: option.splits run.splits if_splits bool.splits)

lemma judged_by_act:
  assumes c: "judged_by r c" and act: "act stale a c = Some c'"
  shows "(judged_by r c' \<or> given_up c') \<and> (cl_doc c' = cl_doc c \<or> late_write r a c c')"
proof -
  note run = judged_by_run [OF c]
  have st: "s_status (cl_doc c) = COMPLETED" using c by (simp add: judged_by_def)
  have keeps: "judged_by r c''"
    if "s_status (cl_doc c'') = COMPLETED" "cl_runs c'' = (cl_runs c)(r' := q)"
      "\<And>p. q = Some p \<Longrightarrow> owned_since p = None \<or> r' = r \<and> (\<exists>u again. p = Saved u \<or> p = Failing u again)" for c'' r' q
    using that c by (auto simp: judged_by_def)
  show ?thesis
  proof (cases a)
    case (Tick n)
    then have "c' = c\<lparr>cl_now := cl_now c + n\<rparr>" using act by (simp split: if_splits)
    then show ?thesis using c by (simp add: judged_by_def)
  next
    case (Deliver i)
    then show ?thesis using act st by (auto simp: cluster_defs split: if_splits intro!: keeps)
  next
    case (Claim i w t1 t2)
    then show ?thesis using act st by (auto simp: claimable_def split: option.splits run.splits if_splits)
  next
    case (Refuse i)
    then show ?thesis using act st by (auto simp: cluster_defs split: option.splits run.splits if_splits intro!: keeps)
  next
    case (Read i)
    then show ?thesis using act run [of i] by (auto split: option.splits run.splits)
  next
    case (Restart i t)
    then show ?thesis using act run [of i] by (auto split: option.splits run.splits)
  next
    case (Judge i new)
    then show ?thesis using act run [of i] by (auto split: option.splits run.splits)
  next
    case (Stamp i t)
    then obtain u where u: "cl_runs c i = Some (Saved u)" "c' = goes i (Saved u) (writes (stamp_completed t) c)"
      using act by (auto split: option.splits run.splits)
    then have "i = r" using run [of i "Saved u"] by blast
    then have "late_write r a c c'" using Stamp u st by (simp add: late_write_def cluster_defs)
    moreover have "judged_by r c'"
      by (rule keeps [of c' r "Some (Saved u)"]) (use u st \<open>i = r\<close> in \<open>simp_all add: cluster_defs stamp_completed_def\<close>)
    ultimately show ?thesis by blast
  next
    case (Return i)
    then show ?thesis using act st by (auto simp: cluster_defs split: option.splits run.splits intro!: keeps)
  next
    case (Error i again)
    then obtain p u where u: "cl_runs c i = Some p" "owned_since p = Some u" "c' = goes i (Failing u again) c"
      using act by (auto split: option.splits run.splits)
    from run [OF u(1)] have "i = r" by cases (use u(2) in simp_all)
    then have "judged_by r c'" by (intro keeps [of c' r "Some (Failing u again)"]) (use u st in \<open>auto simp: cluster_defs\<close>)
    then show ?thesis using u(3) by (simp add: cluster_defs)
  next
    case (Requeue i)
    then show ?thesis using act st
      by (auto simp: cluster_defs requeue_def split: option.splits run.splits bool.splits intro!: keeps)
  next
    case (Fail i t1 t2 msg)
    then obtain u where u: "cl_runs c i = Some (Failing u False)" "c' = ends i (writes (mark_failed t1 t2 msg) c)"
      using act by (auto split: option.splits run.splits bool.splits)
    then have i: "i = r" using run [of i "Failing u False"] by blast
    have "unowned c'" using c u i by (auto simp: unowned_def judged_by_def cluster_defs)
    then show ?thesis using Fail u st i
      by (auto simp: late_write_def given_up_def cluster_defs mark_failed_def)
  next
    case (Crash i)
    then show ?thesis using act st by (auto simp: cluster_defs split: if_splits intro!: keeps)
  qed
qed

lemma given_up_reaches: "reaches stale P d e \<Longrightarrow> given_up d \<Longrightarrow> given_up e \<and> cl_doc e = cl_doc d"
  by (induction rule: reaches.induct) (use given_up_act in \<open>fastforce+\<close>)

lemma judged_by_reaches: "reaches stale P d e \<Longrightarrow> judged_by r d \<Longrightarrow> judged_by r e \<or> given_up e"
  by (induction rule: reaches.induct) (use given_up_act judged_by_act in \<open>blast+\<close>)

lemma failed_given_up:
  assumes "exclusive c" and "s_status (cl_doc c) = FAILED"
  shows "given_up c"
  unfolding given_up_def unowned_def
proof (intro conjI allI impI)
  fix r p
  assume "cl_runs c r = Some p"
  from exclusive_agrees [OF assms(1) this] assms(2) show "owned_since p = None" by (cases p) auto
qed (rule assms(2))

lemma judge_judged_by:
  assumes c: "exclusive c" and act: "act stale (Judge r new) c = Some c'"
  shows "judged_by r c'"
proof -
  from act obtain t sub where p: "cl_runs c r = Some (Judging t sub)" and new: "completes sub new"
    and c': "c' = goes r (Saved t) (writes (sub_delta sub new) c)"
    by (auto split: option.splits run.splits if_splits)
  have "s_status sub = RUNNING" using exclusive_agrees [OF c p] by simp
  then have "s_status (cl_doc c') = COMPLETED" using new by (simp add: c' cluster_defs completes_status)
  moreover have "owned_since q = None" if "cl_runs c r' = Some q" "r' \<noteq> r" for r' q
    using exclusive_owner [OF c, of r t r'] p that unfolding owns_def by (cases "owned_since q") auto
  ultimately show ?thesis by (auto simp: judged_by_def c' cluster_defs)
qed

text \<open>C4: a result is final. Take any state that is reached with no run outliving the stale timeout. If
  the submission has failed there, it is never written again. If a run saves its judgement there,
  then whatever happens afterwards, in time or not, with further deliveries, crashes and errors,
  every later change of the document is made by that same run while the submission is completed:
  it records the time of completion, or it marks the submission as failed, from its catch block
  without attempts left, after an exception that followed the save.\<close>

theorem result_is_final:
  assumes "reaches stale (timely stale) c d" and "queued c"
  shows "(s_status (cl_doc d) = FAILED \<longrightarrow> (\<forall>e. reaches stale (\<lambda>_. True) d e \<longrightarrow> cl_doc e = cl_doc d)) \<and>
    (\<forall>r new d' e a f. act stale (Judge r new) d = Some d' \<and> reaches stale (\<lambda>_. True) d' e \<and>
        act stale a e = Some f \<and> cl_doc f \<noteq> cl_doc e \<longrightarrow>
      s_status (cl_doc e) = COMPLETED \<and>
      ((\<exists>t u. a = Stamp r t \<and> cl_runs e r = Some (Saved u) \<and> cl_doc f = stamp_completed t (cl_doc e)) \<or>
       (\<exists>t1 t2 msg u. a = Fail r t1 t2 msg \<and> cl_runs e r = Some (Failing u False) \<and>
          cl_doc f = mark_failed t1 t2 msg (cl_doc e))))"
proof (rule conjI)
  note excl = reaches_exclusive [OF assms]
  show "s_status (cl_doc d) = FAILED \<longrightarrow> (\<forall>e. reaches stale (\<lambda>_. True) d e \<longrightarrow> cl_doc e = cl_doc d)"
    using given_up_reaches failed_given_up [OF excl] by blast
  have "late_write r a e f"
    if "act stale (Judge r new) d = Some d'" "reaches stale (\<lambda>_. True) d' e" "act stale a e = Some f" "cl_doc f \<noteq> cl_doc e"
    for r new d' e a f
    using judged_by_reaches [OF that(2) judge_judged_by [OF excl that(1)]] given_up_act [OF _ that(3)]
      judged_by_act [OF _ that(3)] that(4) by blast
  then show "\<forall>r new d' e a f. act stale (Judge r new) d = Some d' \<and> reaches stale (\<lambda>_. True) d' e \<and>
        act stale a e = Some f \<and> cl_doc f \<noteq> cl_doc e \<longrightarrow>
      s_status (cl_doc e) = COMPLETED \<and>
      ((\<exists>t u. a = Stamp r t \<and> cl_runs e r = Some (Saved u) \<and> cl_doc f = stamp_completed t (cl_doc e)) \<or>
       (\<exists>t1 t2 msg u. a = Fail r t1 t2 msg \<and> cl_runs e r = Some (Failing u False) \<and>
          cl_doc f = mark_failed t1 t2 msg (cl_doc e)))"
    unfolding late_write_def by blast
qed

section \<open>Recovery\<close>

text \<open>Once claimed, a submission carries a claim time, so that a stale claim can be seen.\<close>

definition recorded :: "cluster \<Rightarrow> bool" where
  "recorded c \<longleftrightarrow> s_status (cl_doc c) \<noteq> S_PENDING \<and>
     (ex_startedAt (s_execution (cl_doc c)) \<noteq> None \<or> s_status (cl_doc c) = QUEUED \<and> unowned c)"

lemma sub_delta_execution [simp]: "s_execution (sub_delta old new d) = s_execution d"
  by (simp add: sub_delta_def)

lemma sub_delta_status:
  "s_status (sub_delta old new d) = (if s_status new = s_status old then s_status d else s_status new)"
  by (simp add: sub_delta_def)

lemma act_status:
  "act stale a c = Some c' \<Longrightarrow> s_status (cl_doc c) \<noteq> S_PENDING \<Longrightarrow> s_status (cl_doc c') \<noteq> S_PENDING"
  by (cases a)
    (auto simp: cluster_defs claim_def sub_delta_status completes_def stamp_completed_def requeue_def
        mark_failed_def Let_def split: option.splits run.splits if_splits bool.splits)

lemma act_startedAt:
  "act stale a c = Some c' \<Longrightarrow> ex_startedAt (s_execution (cl_doc c)) \<noteq> None \<Longrightarrow>
   ex_startedAt (s_execution (cl_doc c')) \<noteq> None"
  by (cases a)
    (auto simp: cluster_defs claim_def stamp_completed_def requeue_def mark_failed_def Let_def
      split: option.splits run.splits if_splits bool.splits)

lemma cl_doc_simps:
  "cl_doc (goes r p c) = cl_doc c" "cl_doc (ends r c) = cl_doc c" "cl_doc (writes f c) = f (cl_doc c)"
  by (simp_all add: cluster_defs)

lemma act_unowned:
  "act stale a c = Some c' \<Longrightarrow> unowned c \<Longrightarrow>
   ex_startedAt (s_execution (cl_doc c')) \<noteq> None \<or> cl_doc c' = cl_doc c \<and> unowned c'"
  by (cases a) (auto simp: cl_doc_simps claim_def dest: unownedD intro!: unowned_moves
      split: option.splits run.splits if_splits bool.splits)

lemma recorded_act: "recorded c \<Longrightarrow> act stale a c = Some c' \<Longrightarrow> recorded c'"
  unfolding recorded_def using act_status act_startedAt act_unowned by metis

lemma reaches_recorded: "reaches stale P c d \<Longrightarrow> queued c \<Longrightarrow> recorded d"
proof (induction rule: reaches.induct)
  case start
  then show ?case by (simp add: recorded_def queued_def unowned_def)
next
  case (step d a e)
  then show ?case by (blast intro: recorded_act)
qed

lemma acts_append: "acts stale (as @ bs) c = (case acts stale as c of None \<Rightarrow> None | Some d \<Rightarrow> acts stale bs d)"
  by (induction as arbitrary: c) (auto split: option.split)

text \<open>The deliveries of a reached state are finitely many, so that there is always a fresh one.\<close>

lemma finite_act: "act stale a c = Some c' \<Longrightarrow> finite (dom (cl_runs c)) \<Longrightarrow> finite (dom (cl_runs c'))"
  by (cases a) (auto simp: cluster_defs Let_def split: option.splits run.splits if_splits bool.splits)

lemma reaches_fresh: "reaches stale P c d \<Longrightarrow> queued c \<Longrightarrow> \<exists>r. cl_runs d r = None"
proof -
  assume "reaches stale P c d" and "queued c"
  then have "finite (dom (cl_runs d))"
    by (induction rule: reaches.induct) (use finite_act in \<open>auto simp: queued_def\<close>)
  then show ?thesis using ex_new_if_finite [OF infinite_UNIV_nat, of "dom (cl_runs d)"] by (auto simp: dom_def)
qed

text \<open>What a new delivery after \<open>wait\<close> meets, and the work of the run when it may claim.\<close>

definition open_now :: "int \<Rightarrow> date \<Rightarrow> submission \<Rightarrow> bool" where
  "open_now stale t d \<longleftrightarrow> s_status d = QUEUED \<or>
     s_status d = RUNNING \<and> (\<exists>u. ex_startedAt (s_execution d) = Some u \<and> u + stale < t)"

lemma recorded_claimable:
  assumes "recorded c"
  shows "claimable (t - stale) (cl_doc c) \<longleftrightarrow> open_now stale t (cl_doc c)"
  using assms by (auto simp: recorded_def claimable_def open_now_def before_def split: option.splits)

lemma claimed_completes:
  assumes "completes (claim w t1 t2 d) new"
  shows "s_status (sub_delta (claim w t1 t2 d) new (claim w t1 t2 d)) = COMPLETED \<and>
    s_verdict (sub_delta (claim w t1 t2 d) new (claim w t1 t2 d)) = s_verdict new"
  using assms by (simp add: completes_def sub_delta_def claim_def)


text \<open>Without the timing assumption results are not final. A worker that is late by more than
  the stale timeout still writes: here the second worker has completed the submission with
  ACCEPTED, and the first one, failing late, turns it into a failed one.\<close>

theorem late_worker_overwrites:
  "\<exists>as e bs f. acts 30000 as \<lparr>cl_now = 0, cl_doc = sample_submission, cl_runs = Map.empty\<rparr> = Some e \<and>
     s_status (cl_doc e) = COMPLETED \<and> s_verdict (cl_doc e) = ACCEPTED \<and>
     acts 30000 bs e = Some f \<and> s_status (cl_doc f) = FAILED"
proof -
  let ?c = "\<lparr>cl_now = 0, cl_doc = sample_submission, cl_runs = Map.empty\<rparr>"
  let ?d = "claim ''b'' 40000 40000 (claim ''a'' 0 0 sample_submission)"
  let ?e = "?d\<lparr>s_status := COMPLETED, s_verdict := ACCEPTED\<rparr>"
  let ?as = "[Deliver 1, Claim 1 ''a'' 0 0, Read 1, Tick 40000, Deliver 2, Claim 2 ''b'' 40000 40000,
    Read 2, Judge 2 ?e, Stamp 2 40001, Return 2]"
  have fin: "completes ?d ?e" by (simp add: completes_def same_request_def storable_def)
  obtain e where e: "acts 30000 ?as ?c = Some e" "s_status (cl_doc e) = COMPLETED"
      "s_verdict (cl_doc e) = ACCEPTED" "cl_runs e 1 = Some (Judging 0 (claim ''a'' 0 0 sample_submission))"
    using fin by (auto simp: cluster_defs claimable_def before_def claim_def sample_submission_def
        sub_delta_def stamp_completed_def)
  moreover have "\<exists>f. acts 30000 [Error 1 False, Fail 1 50000 50000 ''lost''] e = Some f \<and> s_status (cl_doc f) = FAILED"
    using e(4) by (simp add: cluster_defs mark_failed_def)
  ultimately show ?thesis by blast
qed

section \<open>The worker's code takes these actions\<close>

definition single :: "date \<Rightarrow> submission \<Rightarrow> run option \<Rightarrow> cluster" where
  "single t d q = \<lparr>cl_now = t, cl_doc = d, cl_runs = (\<lambda>_. None)(0 := q)\<rparr>"

definition leads :: "int \<Rightarrow> date \<Rightarrow> submission \<Rightarrow> run option \<Rightarrow> submission \<Rightarrow> run option \<Rightarrow> bool" where
  "leads stale t d q d' q' \<longleftrightarrow> (\<exists>as. acts stale as (single t d q) = Some (single t d' q'))"

lemma leads_refl: "leads stale t d q d q"
  unfolding leads_def by (rule exI [of _ "[]"]) simp

lemma leads_trans: "leads stale t d q d1 q1 \<Longrightarrow> leads stale t d1 q1 d2 q2 \<Longrightarrow> leads stale t d q d2 q2"
  unfolding leads_def by (metis acts_append option.case(2))

lemma leads_act: "act stale a (single t d q) = Some (single t d' q') \<Longrightarrow> leads stale t d q d' q'"
  unfolding leads_def by (rule exI [of _ "[a]"]) simp

lemma leads_crash: "leads stale t d q d None"
  using leads_act [of stale "Crash 0" t d q d None] leads_refl [of stale t d None]
  by (cases q) (auto simp: single_def ends_def)

lemma leads_deliver: "leads stale t d None d (Some (Delivered t))"
  by (rule leads_act [of _ "Deliver 0"]) (simp add: single_def goes_def)

lemma leads_claim:
  "claimable (t - stale) d \<Longrightarrow> leads stale t d (Some (Delivered t)) (claim wid t1 t2 d) (Some (Claimed t2))"
  by (rule leads_act [of _ "Claim 0 wid t1 t2"]) (simp add: single_def cluster_defs)

lemma leads_read: "leads stale t d (Some (Claimed u)) d (Some (Judging u d))"
  by (rule leads_act [of _ "Read 0"]) (simp add: single_def cluster_defs)

lemma leads_judge:
  "completes d done \<Longrightarrow> s_status d = RUNNING \<Longrightarrow>
   leads stale t d (Some (Claimed u)) (sub_delta d done d) (Some (Saved u))"
  by (rule leads_trans [OF leads_read leads_act [of _ "Judge 0 done"]]) (simp add: single_def cluster_defs)

lemma leads_stamp: "leads stale t d (Some (Saved u)) (stamp_completed t2 d) (Some (Saved u))"
  by (rule leads_act [of _ "Stamp 0 t2"]) (simp add: single_def cluster_defs)

lemma leads_return: "leads stale t d (Some (Saved u)) d None"
  by (rule leads_act [of _ "Return 0"]) (simp add: single_def cluster_defs fun_eq_iff)

lemma leads_error: "q = Claimed u \<or> q = Saved u \<Longrightarrow> leads stale t d (Some q) d (Some (Failing u again))"
  by (rule leads_act [of _ "Error 0 again"]) (auto simp: single_def cluster_defs)

lemma leads_requeue: "leads stale t d (Some (Failing u True)) (requeue d) None"
  by (rule leads_act [of _ "Requeue 0"]) (simp add: single_def cluster_defs fun_eq_iff)

lemma leads_fail: "leads stale t d (Some (Failing u False)) (mark_failed t1 t2 msg d) None"
  by (rule leads_act [of _ "Fail 0 t1 t2 msg"]) (simp add: single_def cluster_defs fun_eq_iff)

text \<open>What \<open>executeSubmission\<close> does to a submission that is RUNNING.\<close>

definition judged_or_not :: "submission \<Rightarrow> submission \<Rightarrow> 'r + 'a \<Rightarrow> bool" where
  "judged_or_not d d' r \<longleftrightarrow> (\<exists>done. completes d done \<and> d' = sub_delta d done d) \<or> d' = d \<and> (\<exists>e. r = Inl e)"

definition doc_at :: "('w \<Rightarrow> db) \<Rightarrow> oid \<Rightarrow> 'w \<Rightarrow> submission option" where
  "doc_at view i w = db_submissions (view w) i"

lemma doc_at_update:
  "view w' = db_submissions_update (modify i P f) (view w) \<Longrightarrow>
   doc_at view i w' = map_option (\<lambda>d. if P d then f d else d) (doc_at view i w)"
  unfolding doc_at_def by (erule ssubst) (simp add: modify_apply)

lemma doc_at_keeps: "keeps view m \<Longrightarrow> m w = (r, w') \<Longrightarrow> doc_at view i w' = doc_at view i w"
  unfolding doc_at_def by (metis keepsD)

context database
begin

lemma save_judged:
  assumes run: "saveSubmission B sub done w = (r, w')" and fin: "completes sub done"
    and doc: "doc_at view (s_id sub) w = Some sub"
  shows "\<exists>d'. doc_at view (s_id sub) w' = Some d' \<and> judged_or_not sub d' r"
proof -
  have applied: "doc_at view (s_id sub) w' = Some (sub_delta sub done sub)"
    if "view w' = db_submissions_update (modify (s_id sub) (\<lambda>_. True) (sub_delta sub done)) (view w)"
    using doc_at_update [where view = view, OF that] doc by simp
  from submissions.save_view_cases [OF run [unfolded saveSubmission_def]] show ?thesis
  proof
    assume same: "view w' = view w"
    show ?thesis
    proof (cases r)
      case (Inr u)
      from applied [OF saveSubmission_ok [OF run [unfolded Inr]]] fin show ?thesis
        unfolding judged_or_not_def by blast
    next
      case (Inl e)
      with same doc show ?thesis unfolding judged_or_not_def doc_at_def by auto
    qed
  next
    assume "view w' = db_submissions_update (modify (s_id sub) (\<lambda>_. True) (sub_delta sub done)) (view w)"
    with applied fin show ?thesis unfolding judged_or_not_def by blast
  qed
qed

lemma save_then_judged:
  assumes run: "await (saveSubmission B sub done) (\<lambda>_. ret x) w = (r, w')" and fin: "completes sub done"
    and doc: "doc_at view (s_id sub) w = Some sub"
  shows "\<exists>d'. doc_at view (s_id sub) w' = Some d' \<and> judged_or_not sub d' r"
  using run
proof (cases rule: await_cases)
  case (err e)
  from save_judged [OF err(1) fin doc] err(2) show ?thesis by (simp add: judged_or_not_def)
next
  case (ok u w1)
  from save_judged [OF ok(1) fin doc] ok(2) show ?thesis by (auto simp: judged_or_not_def)
qed

lemma judge_judged:
  assumes run: "judgeSubmission B sub tcs w = (r, w')" and doc: "doc_at view (s_id sub) w = Some sub"
  shows "\<exists>d'. doc_at view (s_id sub) w' = Some d' \<and> judged_or_not sub d' r"
  using run unfolding judgeSubmission_def
proof (cases rule: await_cases)
  case (err e)
  with doc_at_keeps [OF keeps_runTests err(1)] doc show ?thesis by (simp add: judged_or_not_def)
next
  case (ok res w1)
  have d1: "doc_at view (s_id sub) w1 = Some sub" using doc_at_keeps [OF keeps_runTests ok(1)] doc by simp
  have clock: "\<exists>d'. doc_at view (s_id sub) w' = Some d' \<and> judged_or_not sub d' r"
    if "await (now B) k w1 = (r, w')"
      and "\<And>t w2. k t w2 = (r, w') \<Longrightarrow> doc_at view (s_id sub) w2 = Some sub \<Longrightarrow>
        \<exists>d'. doc_at view (s_id sub) w' = Some d' \<and> judged_or_not sub d' r" for k
    using that(1)
  proof (cases rule: await_cases)
    case (err e)
    with doc_at_keeps [OF now_keeps err(1)] d1 show ?thesis by (simp add: judged_or_not_def)
  next
    case (ok t w2)
    with doc_at_keeps [OF now_keeps ok(1)] d1 that(2) show ?thesis by simp
  qed
  show ?thesis
  proof (cases res)
    case (Compile_error p)
    with ok(2) show ?thesis
      by simp (erule clock, erule save_then_judged, simp_all add: completes_def same_request_def storable_def)
  next
    case (Finished p ms v)
    with ok(1) runTests_storable have "storable v" by blast
    with Finished ok(2) show ?thesis
      by (simp only: loop_end.case Let_def)
        (erule clock, erule save_then_judged, simp_all add: completes_def same_request_def storable_def)
  qed
qed

lemma executeSubmission_judged:
  assumes ids: "ids_ok (view w)" and doc: "doc_at view i w = Some d" and st: "s_status d = RUNNING"
    and run: "executeSubmission B i w = (r, w')"
  shows "\<exists>d'. doc_at view i w' = Some d' \<and> judged_or_not d d' r"
  using run unfolding executeSubmission_def
proof (cases rule: await_cases)
  case (err e)
  with doc_at_keeps [OF submissions.findById_keeps err(1)] doc show ?thesis by (simp add: judged_or_not_def)
next
  case (ok found w1)
  have id: "s_id d = i" using ids doc by (auto simp: ids_ok_def doc_at_def)
  have found: "found = Some d" using submissions.findById_result [OF ok(1)] doc by (simp add: doc_at_def)
  have d1: "doc_at view (s_id d) w1 = Some d" using doc_at_keeps [OF submissions.findById_keeps ok(1)] doc id by simp
  from ok(2) found have ex: "executeFound B d w1 = (r, w')" by simp
  have "\<exists>d'. doc_at view (s_id d) w' = Some d' \<and> judged_or_not d d' r"
  proof (cases "s_language d \<in> set SUPPORTED_LANGUAGES")
    case False
    with ex show ?thesis unfolding executeFound_def
      by simp (erule save_then_judged, simp_all add: completes_def same_request_def storable_def d1)
  next
    case True
    with ex st have "await (findMany (TestCases B) (activeTests (s_problemId d)) order_le 0 None) (\<lambda>testCases.
          if testCases = [] then
            throw (AppError ''This problem has no active test cases and is not ready for submissions.''
              422 (Some ''PROBLEM_NOT_READY''))
          else judgeSubmission B d testCases) w1 = (r, w')"
      by (simp add: executeFound_def cong: if_cong)
    then show ?thesis
    proof (cases rule: await_cases)
      case (err e)
      with doc_at_keeps [OF testCases.findMany_keeps err(1)] d1 show ?thesis by (simp add: judged_or_not_def)
    next
      case (ok tcs w2)
      from doc_at_keeps [OF testCases.findMany_keeps ok(1)] d1 have "doc_at view (s_id d) w2 = Some d" by simp
      with ok(2) judge_judged show ?thesis by (auto simp: judged_or_not_def split: if_splits)
    qed
  qed
  with id show ?thesis by simp
qed

lemma update_doc:
  assumes "in_world (updateOne (Submissions B) i P f) s = (r, s')" and "doc_at view i (wk_world s) = Some d"
  shows "r = Inr () \<and> doc_at view i (wk_world s') = Some (if P d then f d else d) \<or>
    (\<exists>e. r = Inl e) \<and> doc_at view i (wk_world s') \<in> {Some d, Some (if P d then f d else d)}"
proof -
  note run = in_worldD [OF assms(1)]
  have applied: "doc_at view i (wk_world s') = Some (if P d then f d else d)"
    if "view (wk_world s') = db_submissions_update (modify i P f) (view (wk_world s))"
    using doc_at_update [where view = view, OF that] assms(2) by simp
  show ?thesis
  proof (cases r)
    case (Inr u)
    from applied [OF submissions.updateOne_ok [OF run [unfolded Inr]]] Inr show ?thesis by simp
  next
    case (Inl e)
    from submissions.update_view_cases [OF run] applied assms(2) Inl show ?thesis
      by (auto simp: doc_at_def)
  qed
qed

lemma wnow_doc: "in_world (now B) s = (r, s') \<Longrightarrow> doc_at view i (wk_world s') = doc_at view i (wk_world s)"
  using doc_at_keeps [OF now_keeps] in_worldD by blast

lemma failSubmission_doc:
  assumes run: "failSubmission B i msg s = (r, s')" and doc: "doc_at view i (wk_world s) = Some d"
  shows "\<exists>d'. doc_at view i (wk_world s') = Some d' \<and> leads stale t d (Some (Failing u False)) d' None"
  using run unfolding failSubmission_def
proof (elim await_cases, goal_cases)
  case (3 t1 s1 t2 s2)
  from wnow_doc [OF 3(1)] wnow_doc [OF 3(2)] doc have "doc_at view i (wk_world s2) = Some d" by simp
  from update_doc [OF 3(3) this] show ?case using leads_fail leads_crash by auto
qed (use wnow_doc doc leads_crash in \<open>metis+\<close>)

lemma handleFailure_doc:
  assumes run: "handleFailure B inp i e s = (r, s')" and doc: "doc_at view i (wk_world s) = Some d"
  shows "\<exists>again d'. doc_at view i (wk_world s') = Some d' \<and> leads stale t d (Some (Failing u again)) d' None"
proof -
  define s1 where "s1 = s\<lparr>wk_metrics := recordWorkerFailure
       (if isNonRetryableError e then ''domain_failure'' else ''infrastructure_failure'')
       (recordWorkerJob ''failed'' (wk_metrics s))\<rparr>"
  have d1: "doc_at view i (wk_world s1) = Some d" using doc by (simp add: s1_def)
  from run have "(if isNonRetryableError e then
         failSubmission B i (message_or e ''Non-retryable execution error'')
       else if attemptsMade inp + 1 < maxAttempts inp then
         await (in_world (updateOne (Submissions B) i (\<lambda>s. s_status s = RUNNING)
                 (\<lambda>s. s\<lparr>s_status := QUEUED\<rparr>))) (\<lambda>_. throw e)
       else
         await (failSubmission B i (message_or e ''Execution infrastructure failure''))
           (\<lambda>_. throw e)) s1 = (r, s')"
    by (simp add: handleFailure_def record_metric_def await_def s1_def)
  then consider (fails) msg r1 where "failSubmission B i msg s1 = (r1, s')"
    | (requeues) r1 where "in_world (updateOne (Submissions B) i (\<lambda>s. s_status s = RUNNING)
                 (\<lambda>s. s\<lparr>s_status := QUEUED\<rparr>)) s1 = (r1, s')"
    by (auto elim!: await_cases split: if_splits)
  then show ?thesis
  proof cases
    case fails
    from failSubmission_doc [OF fails d1] show ?thesis by blast
  next
    case requeues
    from update_doc [OF requeues d1] have "\<exists>d' \<in> {d, requeue d}. doc_at view i (wk_world s') = Some d'"
      by (auto simp: requeue_def)
    then show ?thesis using leads_requeue leads_crash by blast
  qed
qed

lemma metrics_doc: "record_metric f s = (r, s') \<Longrightarrow> r = Inr () \<and> wk_world s' = wk_world s"
  by (auto simp: record_metric_def)

lemma runClaimed_doc:
  assumes ids: "ids_ok (view (wk_world s))" and doc: "doc_at view i (wk_world s) = Some d"
    and st: "s_status d = RUNNING" and run: "runClaimed B i c t0 s = (r, s')"
  shows "\<exists>d' q. doc_at view i (wk_world s') = Some d' \<and> leads stale t d (Some (Claimed u)) d' (Some q) \<and>
    (q = Claimed u \<or> q = Saved u)"
  using run unfolding runClaimed_def
proof (cases rule: await_cases)
  case (err e)
  from executeSubmission_judged [OF ids doc st in_worldD [OF err(1)]] show ?thesis
    using leads_judge [OF _ st] leads_refl unfolding judged_or_not_def by blast
next
  case (ok ev s1)
  from executeSubmission_judged [OF ids doc st in_worldD [OF ok(1)]] obtain d1 where
    d1: "doc_at view i (wk_world s1) = Some d1" "leads stale t d (Some (Claimed u)) d1 (Some (Saved u))"
    unfolding judged_or_not_def using leads_judge [OF _ st] by blast
  have "\<exists>d' \<in> {d1} \<union> range (\<lambda>t2. stamp_completed t2 d1). doc_at view i (wk_world s') = Some d'"
    using ok(2)
  proof (elim await_cases, goal_cases)
    case (3 t1 s2 t2 s3 e)
    from wnow_doc [OF 3(1)] wnow_doc [OF 3(2)] d1(1) have "doc_at view i (wk_world s3) = Some d1" by simp
    from update_doc [OF 3(3) this] show ?case by auto
  next
    case (4 t1 s2 t2 s3 u4 s4 e)
    then show ?case using metrics_doc by blast
  next
    case (5 t1 s2 t2 s3 u4 s4 u5 s5)
    from wnow_doc [OF 5(1)] wnow_doc [OF 5(2)] d1(1) have "doc_at view i (wk_world s3) = Some d1" by simp
    from update_doc [OF 5(3) this] have "\<exists>d' \<in> {d1} \<union> range (\<lambda>t2. stamp_completed t2 d1). doc_at view i (wk_world s4) = Some d'"
      by auto
    moreover have "wk_world s' = wk_world s4"
      using 5(5) metrics_doc [OF 5(4)]
      by (auto split: option.splits simp: record_metric_def await_def)
    ultimately show ?case by simp
  qed (use wnow_doc d1(1) in auto)
  then show ?thesis using d1(2) leads_trans [OF d1(2) leads_stamp] by blast
qed

lemma processSubmission_leads:
  assumes ids0: "ids_ok (view (wk_world s))" and job: "job_submission B inp = Some i"
    and stored: "db_submissions (view (wk_world s)) i = Some d" and run: "processSubmission B wid stale inp s = (r, s')"
  shows "\<exists>t d'. doc_at view i (wk_world s') = Some d' \<and> leads stale t d None d' None"
  using run job
proof (cases rule: processSubmission_cases)
  case (clock e)
  then show ?thesis using stored leads_refl unfolding doc_at_def by auto
next
  case (claim_failed e t t1 t2 w)
  then have "doc_at view i (wk_world s') = Some d \<or>
    claimable (t - stale) d \<and> doc_at view i (wk_world s') = Some (claim wid t1 t2 d)"
    using stored doc_at_update [where view = view and w' = "wk_world s'" and w = "wk_world s"]
    by (cases "claimable (t - stale) d") (auto simp: doc_at_def modify_apply)
  then show ?thesis
    using leads_refl leads_trans [OF leads_deliver leads_trans [OF leads_claim leads_crash]] by blast
next
  case (skipped t)
  then show ?thesis using stored leads_refl unfolding doc_at_def by auto
next
  case (claimed t0 t t1 t2 d0 s1)
  then have d0: "d0 = d" using stored by simp
  let ?d = "claim wid t1 t2 d"
  have doc: "doc_at view i (wk_world s1) = Some ?d"
    using claimed(3,4) stored by (simp add: d0 doc_at_def modify_apply)
  have ids: "ids_ok (view (wk_world s1))"
    using touches_ids_ok [OF claim_touches ids0] claimed(4) by simp
  have st: "s_status ?d = RUNNING" by (simp add: claim_def)
  have got: "leads stale t d None ?d (Some (Claimed t2))"
    using leads_trans [OF leads_deliver leads_claim] claimed(3) d0 by simp
  from claimed(5) show ?thesis
  proof (cases rule: try_catch_cases)
    case (caught e s2)
    from runClaimed_doc [OF ids doc st] caught(1) d0 obtain d2 q where
      d2: "doc_at view i (wk_world s2) = Some d2" "leads stale t ?d (Some (Claimed t2)) d2 (Some q)"
      "q = Claimed t2 \<or> q = Saved t2" by blast
    from handleFailure_doc [OF caught(2) d2(1)] obtain again d' where
      "doc_at view i (wk_world s') = Some d'" "leads stale t d2 (Some (Failing t2 again)) d' None" by blast
    with leads_trans [OF got leads_trans [OF d2(2) leads_trans [OF leads_error [OF d2(3)]]]] show ?thesis by blast
  next
    case (ok a)
    from runClaimed_doc [OF ids doc st] ok(1) d0 obtain d2 q where
      "doc_at view i (wk_world s') = Some d2" "leads stale t ?d (Some (Claimed t2)) d2 (Some q)" by blast
    with leads_trans [OF got leads_trans [OF _ leads_crash]] show ?thesis by blast
  qed
qed

end

text \<open>C5: the cluster covers the worker's code. Whatever one call of \<open>processSubmission\<close> does on a
  queued or running submission of a database, with all its own calls failing or not, some sequence
  of actions of the cluster does to the document, starting and ending with no run in flight.\<close>

theorem processSubmission_acts:
  assumes "database B view" and "ids_ok (view (wk_world s))" and "job_submission B inp = Some i"
    and "db_submissions (view (wk_world s)) i = Some d" and "processSubmission B wid stale inp s = (r, s')"
  shows "\<exists>t as c. acts stale as \<lparr>cl_now = t, cl_doc = d, cl_runs = Map.empty\<rparr> = Some c \<and>
    cl_runs c = Map.empty \<and> db_submissions (view (wk_world s')) i = Some (cl_doc c)"
proof -
  have empty: "(\<lambda>_ :: nat. None)(0 := None) = Map.empty" by (simp add: fun_upd_idem)
  from database.processSubmission_leads [OF assms] obtain t d' as where
    "db_submissions (view (wk_world s')) i = Some d'" "acts stale as (single t d None) = Some (single t d' None)"
    unfolding leads_def doc_at_def by blast
  then show ?thesis unfolding single_def empty
    by (intro exI [of _ t] exI [of _ as] exI [of _ "\<lparr>cl_now = t, cl_doc = d', cl_runs = Map.empty\<rparr>"]) simp
qed

section \<open>Witnesses\<close>

definition queued_cluster :: cluster where
  "queued_cluster = \<lparr>cl_now = 0, cl_doc = sample_submission, cl_runs = Map.empty\<rparr>"

lemma queued_cluster: "queued queued_cluster"
  by (simp add: queued_def queued_cluster_def sample_submission_def)

text \<open>One worker has claimed the submission and loaded it.\<close>

definition busy_cluster :: cluster where
  "busy_cluster = \<lparr>cl_now = 0, cl_doc = claim ''a'' 0 0 sample_submission,
     cl_runs = [1 \<mapsto> Judging 0 (claim ''a'' 0 0 sample_submission)]\<rparr>"

lemma busy_reached:
  assumes "\<And>c. cl_now c = 0 \<Longrightarrow> (\<And>r t. owns c r t \<Longrightarrow> t = 0) \<Longrightarrow> P c"
  shows "reaches 30000 P queued_cluster busy_cluster"
proof -
  let ?d = "claim ''a'' 0 0 sample_submission"
  have 0: "reaches 30000 P queued_cluster queued_cluster"
    by (rule reaches.start, rule assms) (auto simp: queued_cluster_def owns_def)
  have 1: "reaches 30000 P queued_cluster (queued_cluster\<lparr>cl_runs := [1 \<mapsto> Delivered 0]\<rparr>)"
    by (rule reaches.step [OF 0, of "Deliver 1"], simp add: queued_cluster_def cluster_defs, rule assms)
      (auto simp: queued_cluster_def owns_def split: if_splits)
  have 2: "reaches 30000 P queued_cluster (queued_cluster\<lparr>cl_doc := ?d, cl_runs := [1 \<mapsto> Claimed 0]\<rparr>)"
    by (rule reaches.step [OF 1, of "Claim 1 ''a'' 0 0"],
        simp add: queued_cluster_def cluster_defs claimable_def sample_submission_def, rule assms)
      (auto simp: queued_cluster_def owns_def split: if_splits)
  show ?thesis
    by (rule reaches.step [OF 2, of "Read 1"], simp add: queued_cluster_def busy_cluster_def cluster_defs, rule assms)
      (auto simp: busy_cluster_def owns_def split: if_splits)
qed

lemma busy_reached_timely: "reaches 30000 (timely 30000) queued_cluster busy_cluster"
  by (rule busy_reached) (fastforce simp: timely_def)

theorem one_owner_witness:
  "\<exists>r t sub. cl_runs busy_cluster r = Some (Judging t sub) \<and> sub = cl_doc busy_cluster \<and>
     {r'. \<exists>t'. owns busy_cluster r' t'} = {r}"
proof -
  have "owns busy_cluster 1 0" by (simp add: owns_def busy_cluster_def)
  moreover have "cl_runs busy_cluster 1 = Some (Judging 0 (claim ''a'' 0 0 sample_submission))"
    by (simp add: busy_cluster_def)
  ultimately show ?thesis using one_owner [OF busy_reached_timely queued_cluster] by blast
qed

text \<open>The same run after its verdict has been saved.\<close>

definition judged_cluster :: cluster where
  "judged_cluster = goes 1 (Saved 0)
     (writes (\<lambda>d. d\<lparr>s_status := COMPLETED, s_verdict := ACCEPTED\<rparr>) busy_cluster)"

lemma judged_act: "\<exists>new. act 30000 (Judge 1 new) busy_cluster = Some judged_cluster"
proof
  let ?d = "claim ''a'' 0 0 sample_submission"
  let ?e = "?d\<lparr>s_status := COMPLETED, s_verdict := ACCEPTED\<rparr>"
  have "completes ?d ?e" by (simp add: completes_def same_request_def storable_def)
  moreover have "sub_delta ?d ?e ?d = ?e" by (rule sub_delta_same) (simp_all add: same_request_def)
  ultimately show "act 30000 (Judge 1 ?e) busy_cluster = Some judged_cluster"
    by (simp add: busy_cluster_def judged_cluster_def cluster_defs claim_def)
qed

theorem result_is_final_witness:
  "\<exists>e. act 30000 (Stamp 1 7) judged_cluster = Some e \<and> cl_doc e \<noteq> cl_doc judged_cluster \<and>
     cl_doc e = stamp_completed 7 (cl_doc judged_cluster)"
proof -
  obtain e where e: "act 30000 (Stamp 1 7) judged_cluster = Some e" "cl_doc e \<noteq> cl_doc judged_cluster"
    by (simp add: judged_cluster_def busy_cluster_def cluster_defs stamp_completed_def claim_def sample_submission_def)
  have "reaches 30000 (\<lambda>_. True) judged_cluster judged_cluster" by (rule reaches.start) simp
  then show ?thesis using result_is_final [OF busy_reached_timely queued_cluster] judged_act e by blast
qed


theorem processSubmission_acts_witness:
  "\<exists>s' t as c. snd (processSubmission (mem_backend engine_down True) ''w1'' 30000 last_job
       (sample_state [(''t'', sample_test)])) = s' \<and>
     acts 30000 as \<lparr>cl_now = t, cl_doc = sample_submission, cl_runs = Map.empty\<rparr> = Some c \<and>
     db_submissions (world_view (wk_world s')) ''s'' = Some (cl_doc c)"
proof -
  let ?s = "sample_state [(''t'', sample_test)]"
  obtain r s' where run: "processSubmission (mem_backend engine_down True) ''w1'' 30000 last_job ?s = (r, s')"
    by fastforce
  from processSubmission_acts [OF mem_down.database_axioms sample_ids last_job_submission sample_doc run] run
  show ?thesis by auto
qed

end
