(* ===== verification/Client.thy ===== *)
theory Client
  imports Effects
begin

text \<open>
  The browser's access to the API: the HTTP client and the services of
  \<open>frontend/src/services/api\<close>, and the session kept by \<open>frontend/src/context/AuthContext.jsx\<close> with
  the two route guards. The network is a parameter: a request gives a status and, when the body was
  JSON, its value.
\<close>

section \<open>The browser\<close>

text \<open>\<open>og_token\<close> is the token of the \<open>Authorization\<close> header; an undefined body is none.\<close>

record outgoing =
  og_method :: string
  og_url :: string
  og_token :: "string option"
  og_body :: jsval

record fetched =
  ft_status :: int
  ft_json :: "jsval option"

text \<open>The network, the build's base URL, and the number conversions of the language.\<close>

record 'w net =
  n_fetch :: "outgoing \<Rightarrow> ('w, fetched) io"
  n_baseUrl :: string
  n_toNumber :: "jsval \<Rightarrow> jsnum"
  n_numText :: "jsnum \<Rightarrow> string"

text \<open>\<open>localStorage\<close>'s token, the state of the session, and the world behind the network.\<close>

record 'w browser =
  br_storage :: "string option"
  br_user :: jsval
  br_token :: jsval
  br_isLoading :: bool
  br_world :: 'w

definition over_net :: "('w, 'a) io \<Rightarrow> ('w browser, 'a) io" where
  "over_net m = on_part br_world (\<lambda>w b. b\<lparr>br_world := w\<rparr>) m"

text \<open>\<open>String(v)\<close>, as in \<open>new Error(v)\<close>, \<open>setItem\<close> and \<open>URLSearchParams\<close>.\<close>

fun js_text :: "(jsnum \<Rightarrow> string) \<Rightarrow> jsval \<Rightarrow> string" where
  "js_text num JUndefined = ''undefined''"
| "js_text num JNull = ''null''"
| "js_text num (JBool b) = (if b then ''true'' else ''false'')"
| "js_text num (JNum n) = num n"
| "js_text num (JStr s) = s"
| "js_text num (JArr vs) = js_join '','' (map (\<lambda>v. if v = JUndefined \<or> v = JNull then [] else js_text num v) vs)"
| "js_text num (JObj fs) = ''[object Object]''"

text \<open>\<open>v.k\<close>: a \<open>TypeError\<close> on \<open>null\<close> and \<open>undefined\<close>.\<close>

definition prop_of :: "jsval \<Rightarrow> string \<Rightarrow> ('s, jsval) io" where
  "prop_of v k =
     (if v = JUndefined then throw (js_error ''TypeError'' (''Cannot read properties of undefined (reading '' @ k @ '')''))
      else if v = JNull then throw (js_error ''TypeError'' (''Cannot read properties of null (reading '' @ k @ '')''))
      else ret (field v k))"

definition js_or :: "jsval \<Rightarrow> jsval \<Rightarrow> jsval" where
  "js_or a b = (if truthy a then a else b)"

definition nullish :: "jsval \<Rightarrow> jsval \<Rightarrow> jsval" where
  "nullish a b = (if a = JUndefined \<or> a = JNull then b else a)"

section \<open>client.js\<close>

definition strip_slash :: "string \<Rightarrow> string" where
  "strip_slash s = (if s \<noteq> [] \<and> last s = CHR ''/'' then butlast s else s)"

definition join_url :: "string \<Rightarrow> string \<Rightarrow> string" where
  "join_url baseUrl endpoint =
     strip_slash baseUrl @ (if js_starts_with endpoint ''/'' then endpoint else ''/'' @ endpoint)"

definition stored_token :: "'w browser \<Rightarrow> string option" where
  "stored_token b = (if br_storage b = Some [] then None else br_storage b)"

definition removeItem :: "('w browser, unit) io" where
  "removeItem = modify_state (\<lambda>b. b\<lparr>br_storage := None\<rparr>)"

definition response_error :: "'w net \<Rightarrow> int \<Rightarrow> jsval \<Rightarrow> err" where
  "response_error N status data = plain_error (js_text (n_numText N)
     (js_or (field data ''message'') (js_or (field data ''error'')
       (JStr (''HTTP '' @ show_int status @ '': Request failed'')))))"

definition network_error :: err where
  "network_error = plain_error
     ''Cannot connect to CodeArena backend server. Please verify the server is running.''"

text \<open>What of a value \<open>JSON.stringify\<close> sends.\<close>

fun json_sent :: "jsval \<Rightarrow> jsval" where
  "json_sent (JNum n) = (case n of Finite q \<Rightarrow> JNum n | _ \<Rightarrow> JNull)"
| "json_sent (JArr vs) = JArr (map (\<lambda>v. if v = JUndefined then JNull else json_sent v) vs)"
| "json_sent (JObj fs) = JObj (map (map_prod id json_sent) (filter (\<lambda>m. snd m \<noteq> JUndefined) fs))"
| "json_sent v = v"

definition send :: "'w net \<Rightarrow> string \<Rightarrow> string \<Rightarrow> jsval \<Rightarrow> ('w browser, jsval) io" where
  "send N meth endpoint body =
     await (gets stored_token) (\<lambda>token.
     try_catch
       (await (over_net (n_fetch N \<lparr>og_method = meth, og_url = join_url (n_baseUrl N) endpoint, og_token = token,
            og_body = json_sent body\<rparr>)) (\<lambda>r.
        let data = default_to JNull (ft_json r) in
        if 200 \<le> ft_status r \<and> ft_status r \<le> 299 then ret data
        else await (if ft_status r = 401 \<and> \<not> js_includes endpoint ''/auth/login'' then removeItem else ret ()) (\<lambda>_.
             throw (response_error N (ft_status r) data))))
       (\<lambda>err. if ename err = ''TypeError'' \<and> js_includes (emessage err) ''fetch'' then throw network_error
         else throw err))"

definition api_get :: "'w net \<Rightarrow> string \<Rightarrow> ('w browser, jsval) io" where
  "api_get N endpoint = send N ''GET'' endpoint JUndefined"

definition api_post :: "'w net \<Rightarrow> string \<Rightarrow> jsval \<Rightarrow> ('w browser, jsval) io" where
  "api_post N endpoint body = send N ''POST'' endpoint body"

definition api_patch :: "'w net \<Rightarrow> string \<Rightarrow> jsval \<Rightarrow> ('w browser, jsval) io" where
  "api_patch N endpoint body = send N ''PATCH'' endpoint body"

definition api_delete :: "'w net \<Rightarrow> string \<Rightarrow> ('w browser, jsval) io" where
  "api_delete N endpoint = send N ''DELETE'' endpoint JUndefined"

section \<open>URLSearchParams\<close>

definition hex_upper :: "nat \<Rightarrow> char" where
  "hex_upper n = char_of (if n < 10 then 48 + n else 55 + n)"

definition percent :: "nat \<Rightarrow> string" where
  "percent n = [CHR ''%'', hex_upper (n div 16), hex_upper (n mod 16)]"

definition url_char :: "char \<Rightarrow> string" where
  "url_char c = (let n = code_unit c in
     if is_digit c \<or> (65 \<le> n \<and> n \<le> 90) \<or> (97 \<le> n \<and> n \<le> 122) \<or> c \<in> set ''*-._'' then [c]
     else if n = 32 then ''+''
     else if n < 128 then percent n
     else percent (192 + n div 64) @ percent (128 + n mod 64))"

definition url_encode :: "string \<Rightarrow> string" where
  "url_encode s = concat (map url_char s)"

definition query_text :: "(string \<times> string) list \<Rightarrow> string" where
  "query_text ps = js_join ''&'' (map (\<lambda>(k, v). url_encode k @ ''='' @ url_encode v) ps)"

definition with_query :: "string \<Rightarrow> (string \<times> string) list \<Rightarrow> string" where
  "with_query path ps = (if ps = [] then path else path @ ''?'' @ query_text ps)"

section \<open>The services\<close>

definition authService_login :: "'w net \<Rightarrow> string \<Rightarrow> string \<Rightarrow> ('w browser, jsval) io" where
  "authService_login N email password =
     await (api_post N ''/auth/login'' (JObj [(''email'', JStr email), (''password'', JStr password)])) (\<lambda>res.
       prop_of res ''data'')"

definition authService_register :: "'w net \<Rightarrow> string \<Rightarrow> string \<Rightarrow> string \<Rightarrow> ('w browser, jsval) io" where
  "authService_register N name email password =
     await (api_post N ''/auth/register''
         (JObj [(''name'', JStr name), (''email'', JStr email), (''password'', JStr password)])) (\<lambda>res.
       prop_of res ''data'')"

definition authService_getMe :: "'w net \<Rightarrow> ('w browser, jsval) io" where
  "authService_getMe N = await (api_get N ''/users/me'') (\<lambda>res.
     await (prop_of res ''data'') (\<lambda>data.
     await (prop_of data ''user'') (\<lambda>user. ret (js_or user data))))"

definition data_field :: "jsval \<Rightarrow> string \<Rightarrow> ('s, jsval) io" where
  "data_field res k = await (prop_of res ''data'') (\<lambda>data. prop_of data k)"

text \<open>\<open>res.data?.k\<close>.\<close>

definition data_optional :: "jsval \<Rightarrow> string \<Rightarrow> ('s, jsval) io" where
  "data_optional res k = await (prop_of res ''data'') (\<lambda>data. ret (field data k))"

definition problemService_getProblems :: "'w net \<Rightarrow> jsval \<Rightarrow> ('w browser, jsval) io" where
  "problemService_getProblems N params =
     (let difficulty = field params ''difficulty'';
          query = (if truthy difficulty \<and> difficulty \<noteq> JStr ''ALL''
            then [(''difficulty'', js_text (n_numText N) difficulty)] else []) in
      await (api_get N (with_query ''/problems'' query)) (\<lambda>res.
      await (data_field res ''problems'') (\<lambda>ps. ret (js_or ps (JArr [])))))"

definition problemService_getProblemById :: "'w net \<Rightarrow> string \<Rightarrow> ('w browser, jsval) io" where
  "problemService_getProblemById N problemId =
     await (api_get N (''/problems/'' @ problemId)) (\<lambda>res. data_field res ''problem'')"

definition problemService_getPublicTestCases :: "'w net \<Rightarrow> string \<Rightarrow> ('w browser, jsval) io" where
  "problemService_getPublicTestCases N problemId = try_catch
     (await (api_get N (''/problems/'' @ problemId @ ''/test-cases'')) (\<lambda>res.
      await (data_field res ''testCases'') (\<lambda>ts. ret (js_or ts (JArr [])))))
     (\<lambda>err. ret (JArr []))"

definition array_or_empty :: "jsval \<Rightarrow> jsval" where
  "array_or_empty v = (case v of JArr vs \<Rightarrow> JArr vs | _ \<Rightarrow> JArr [])"

definition problem_payload :: "jsval \<Rightarrow> jsval" where
  "problem_payload data = JObj
     [(''title'', field data ''title''), (''description'', field data ''description''),
      (''difficulty'', field data ''difficulty''), (''tags'', array_or_empty (field data ''tags'')),
      (''inputFormat'', field data ''inputFormat''), (''outputFormat'', field data ''outputFormat''),
      (''constraints'', field data ''constraints''), (''examples'', array_or_empty (field data ''examples''))]"

definition problemService_createProblem :: "'w net \<Rightarrow> jsval \<Rightarrow> ('w browser, jsval) io" where
  "problemService_createProblem N data =
     await (api_post N ''/problems'' (problem_payload data)) (\<lambda>res. data_field res ''problem'')"

definition update_fields :: "string list" where
  "update_fields = [''title'', ''description'', ''difficulty'', ''tags'', ''inputFormat'', ''outputFormat'',
     ''constraints'', ''examples'']"

definition update_payload :: "jsval \<Rightarrow> jsval" where
  "update_payload data = JObj (map (\<lambda>k. (k, field data k)) (filter (\<lambda>k. field data k \<noteq> JUndefined) update_fields))"

definition problemService_updateProblem :: "'w net \<Rightarrow> string \<Rightarrow> jsval \<Rightarrow> ('w browser, jsval) io" where
  "problemService_updateProblem N problemId data =
     await (api_patch N (''/problems/'' @ problemId) (update_payload data)) (\<lambda>res. data_field res ''problem'')"

definition problemService_deactivateProblem :: "'w net \<Rightarrow> string \<Rightarrow> ('w browser, jsval) io" where
  "problemService_deactivateProblem N problemId = api_delete N (''/problems/'' @ problemId)"

definition submission_payload :: "jsval \<Rightarrow> jsval" where
  "submission_payload args = JObj
     [(''problemId'', field args ''problemId''),
      (''language'', if field args ''language'' = JUndefined then JStr ''CPP'' else field args ''language''),
      (''sourceCode'', field args ''sourceCode'')]"

definition submissionService_createSubmission :: "'w net \<Rightarrow> jsval \<Rightarrow> ('w browser, jsval) io" where
  "submissionService_createSubmission N args =
     await (api_post N ''/submissions'' (submission_payload args)) (\<lambda>res. data_field res ''submission'')"

definition submissionService_getSubmissionById :: "'w net \<Rightarrow> string \<Rightarrow> ('w browser, jsval) io" where
  "submissionService_getSubmissionById N submissionId =
     await (api_get N (''/submissions/'' @ submissionId)) (\<lambda>res. data_field res ''submission'')"

definition given_params :: "'w net \<Rightarrow> jsval \<Rightarrow> (string \<times> string) list" where
  "given_params N params =
     map (\<lambda>k. (k, js_text (n_numText N) (field params k)))
       (filter (\<lambda>k. truthy (field params k)) [''page'', ''limit'', ''problemId'', ''language'', ''verdict'']) @
     (if field params ''includeCode'' \<noteq> JUndefined
      then [(''includeCode'', js_text (n_numText N) (field params ''includeCode''))] else [])"

definition submissionService_getMySubmissions :: "'w net \<Rightarrow> jsval \<Rightarrow> ('w browser, jsval) io" where
  "submissionService_getMySubmissions N params =
     await (api_get N (with_query ''/submissions/me'' (given_params N params))) (\<lambda>res. prop_of res ''data'')"

definition testCaseService_getTestCasesForProblem :: "'w net \<Rightarrow> string \<Rightarrow> ('w browser, jsval) io" where
  "testCaseService_getTestCasesForProblem N problemId =
     await (api_get N (''/problems/'' @ problemId @ ''/test-cases'')) (\<lambda>res.
     await (data_optional res ''testCases'') (\<lambda>ts. ret (js_or ts (JArr []))))"

definition test_payload :: "'w net \<Rightarrow> jsval \<Rightarrow> jsval" where
  "test_payload N data = JObj
     [(''input'', nullish (field data ''input'') (JStr [])),
      (''expectedOutput'', nullish (field data ''expectedOutput'') (JStr [])),
      (''visibility'', js_or (field data ''visibility'') (JStr ''PUBLIC'')),
      (''order'', JNum (n_toNumber N (nullish (field data ''order'') (JNum (Finite 0)))))]"

definition testCaseService_createTestCase :: "'w net \<Rightarrow> string \<Rightarrow> jsval \<Rightarrow> ('w browser, jsval) io" where
  "testCaseService_createTestCase N problemId data =
     await (api_post N (''/problems/'' @ problemId @ ''/test-cases'') (test_payload N data)) (\<lambda>res.
       data_optional res ''testCase'')"

definition test_update_payload :: "'w net \<Rightarrow> jsval \<Rightarrow> jsval" where
  "test_update_payload N data = JObj
     (map (\<lambda>k. (k, field data k)) (filter (\<lambda>k. field data k \<noteq> JUndefined) [''input'', ''expectedOutput'', ''visibility'']) @
      (if field data ''order'' \<noteq> JUndefined then [(''order'', JNum (n_toNumber N (field data ''order'')))] else []))"

definition testCaseService_updateTestCase :: "'w net \<Rightarrow> string \<Rightarrow> jsval \<Rightarrow> ('w browser, jsval) io" where
  "testCaseService_updateTestCase N testCaseId data =
     await (api_patch N (''/test-cases/'' @ testCaseId) (test_update_payload N data)) (\<lambda>res.
       data_optional res ''testCase'')"

definition testCaseService_deactivateTestCase :: "'w net \<Rightarrow> string \<Rightarrow> ('w browser, jsval) io" where
  "testCaseService_deactivateTestCase N testCaseId = api_delete N (''/test-cases/'' @ testCaseId)"

section \<open>AuthContext.jsx\<close>

definition set_session :: "jsval \<Rightarrow> jsval \<Rightarrow> ('w browser, unit) io" where
  "set_session user token = modify_state (\<lambda>b. b\<lparr>br_user := user, br_token := token\<rparr>)"

text \<open>The state of the provider when it is mounted.\<close>

definition initial_session :: "string option \<Rightarrow> 'w \<Rightarrow> 'w browser" where
  "initial_session stored w = \<lparr>br_storage = stored, br_user = JNull,
     br_token = (case stored of Some t \<Rightarrow> JStr t | None \<Rightarrow> JNull), br_isLoading = True, br_world = w\<rparr>"

text \<open>What happens when the restoring request is answered; then the page is no longer loading.\<close>

definition restored :: "err + jsval \<Rightarrow> ('w browser, unit) io" where
  "restored r = await (case r of
       Inr userData \<Rightarrow> modify_state (\<lambda>b. b\<lparr>br_user := userData\<rparr>)
     | Inl err \<Rightarrow> await removeItem (\<lambda>_. set_session JNull JNull)) (\<lambda>_.
     modify_state (\<lambda>b. b\<lparr>br_isLoading := False\<rparr>))"

definition restoreSession :: "'w net \<Rightarrow> ('w browser, unit) io" where
  "restoreSession N = await (gets stored_token) (\<lambda>storedToken. case storedToken of
       None \<Rightarrow> modify_state (\<lambda>b. b\<lparr>br_isLoading := False\<rparr>)
     | Some t \<Rightarrow> try_catch
         (await (authService_getMe N) (\<lambda>userData. restored (Inr userData)))
         (\<lambda>err. restored (Inl err)))"

definition session_login :: "'w net \<Rightarrow> string \<Rightarrow> string \<Rightarrow> ('w browser, jsval) io" where
  "session_login N email password = await (authService_login N email password) (\<lambda>data.
     await (prop_of data ''token'') (\<lambda>token.
     await (modify_state (\<lambda>b. b\<lparr>br_storage := Some (js_text (n_numText N) token)\<rparr>)) (\<lambda>_.
     await (set_session (field data ''user'') token) (\<lambda>_.
     ret (field data ''user'')))))"

definition session_register :: "'w net \<Rightarrow> string \<Rightarrow> string \<Rightarrow> string \<Rightarrow> ('w browser, jsval) io" where
  "session_register N name email password =
     await (authService_register N name email password) (\<lambda>_. session_login N email password)"

definition session_logout :: "('w browser, unit) io" where
  "session_logout = await removeItem (\<lambda>_. set_session JNull JNull)"

definition isAuthenticated :: "'w browser \<Rightarrow> bool" where
  "isAuthenticated b \<longleftrightarrow> truthy (br_user b) \<and> truthy (br_token b)"

section \<open>Route guards\<close>

datatype shown = Spinner | Redirect string | Children

definition ProtectedRoute :: "'w browser \<Rightarrow> shown" where
  "ProtectedRoute b = (if br_isLoading b then Spinner
     else if \<not> isAuthenticated b then Redirect ''/login'' else Children)"

definition AdminRoute :: "'w browser \<Rightarrow> shown" where
  "AdminRoute b = (if br_isLoading b then Spinner
     else if \<not> isAuthenticated b then Children
     else if field (br_user b) ''role'' \<noteq> JStr ''ADMIN'' then Redirect ''/problems'' else Children)"

section \<open>Reading a query\<close>

text \<open>The reference: the parser of \<open>application/x-www-form-urlencoded\<close> text.\<close>

definition hex_value :: "char \<Rightarrow> nat" where
  "hex_value c = (let n = code_unit c in if n < 58 then n - 48 else n - 55)"

fun url_bytes :: "string \<Rightarrow> nat list" where
  "url_bytes [] = []"
| "url_bytes (c # s) =
     (if c = CHR ''+'' then 32 # url_bytes s
      else if c = CHR ''%'' then
        (case s of a # b # r \<Rightarrow> (16 * hex_value a + hex_value b) # url_bytes r | _ \<Rightarrow> [])
      else code_unit c # url_bytes s)"

fun utf8_text :: "nat list \<Rightarrow> string" where
  "utf8_text (n # m # r) =
     (if n < 128 then char_of n # utf8_text (m # r) else char_of ((n - 192) * 64 + (m - 128)) # utf8_text r)"
| "utf8_text [n] = [char_of n]"
| "utf8_text [] = []"

definition url_decode :: "string \<Rightarrow> string" where
  "url_decode s = utf8_text (url_bytes s)"

definition parse_pair :: "string \<Rightarrow> string \<times> string" where
  "parse_pair s = (case js_split (CHR ''='') s of
     [k, v] \<Rightarrow> (url_decode k, url_decode v) | _ \<Rightarrow> ([], []))"

definition parse_query :: "string \<Rightarrow> (string \<times> string) list" where
  "parse_query s = (if s = [] then [] else map parse_pair (js_split (CHR ''&'') s))"

lemma code_unit_less: "code_unit c < 256"
  by (simp add: code_unit_def)

lemma char_of_code_unit [simp]: "char_of (code_unit c) = c"
  by (simp add: code_unit_def)

lemma code_unit_char_of: "n < 256 \<Longrightarrow> code_unit (char_of n) = n"
  by (simp add: code_unit_def)

lemma hex_value_upper: "n < 16 \<Longrightarrow> hex_value (hex_upper n) = n"
  by (simp add: hex_value_def hex_upper_def code_unit_char_of)

lemma url_bytes_percent: "n < 256 \<Longrightarrow> url_bytes (percent n @ s) = n # url_bytes s"
  by (simp add: percent_def hex_value_upper less_mult_imp_div_less)

lemma code_unit_eq: "c = d \<longleftrightarrow> code_unit c = code_unit d"
  by (metis char_of_code_unit)

lemma plus_percent: "code_unit (CHR ''+'') = 43" "code_unit (CHR ''%'') = 37"
  by (simp_all add: code_unit_def)

definition utf8_bytes :: "char \<Rightarrow> nat list" where
  "utf8_bytes c = (let n = code_unit c in if n < 128 then [n] else [192 + n div 64, 128 + n mod 64])"

lemma url_bytes_char: "url_bytes (url_char c @ s) = utf8_bytes c @ url_bytes s"
proof (cases "is_digit c \<or> (65 \<le> code_unit c \<and> code_unit c \<le> 90) \<or> (97 \<le> code_unit c \<and> code_unit c \<le> 122) \<or> c \<in> set ''*-._''")
  case True
  then have "code_unit c < 128 \<and> c \<noteq> CHR ''+'' \<and> c \<noteq> CHR ''%''"
    by (auto simp: is_digit_def code_unit_def)
  with True show ?thesis by (simp add: url_char_def Let_def utf8_bytes_def)
next
  case False
  then show ?thesis
    using code_unit_less [of c]
    by (auto simp: url_char_def Let_def utf8_bytes_def url_bytes_percent)
qed

lemma utf8_text_bytes: "utf8_text (utf8_bytes c @ r) = c # utf8_text r"
proof (cases "code_unit c < 128")
  case True
  then show ?thesis by (cases r) (simp_all add: utf8_bytes_def)
next
  case False
  then show ?thesis by (simp add: utf8_bytes_def Let_def)
qed

lemma url_bytes_encode: "url_bytes (url_encode s) = concat (map utf8_bytes s)"
  by (induction s) (simp_all add: url_encode_def url_bytes_char)

lemma utf8_text_concat: "utf8_text (concat (map utf8_bytes s)) = s"
  by (induction s) (simp_all add: utf8_text_bytes)

lemma url_decode_encode: "url_decode (url_encode s) = s"
  by (simp add: url_decode_def url_bytes_encode utf8_text_concat)

lemma hex_upper_safe: "n < 16 \<Longrightarrow> hex_upper n \<notin> set ''&=''"
  by (auto simp: hex_upper_def code_unit_eq code_unit_char_of) (simp_all add: code_unit_def)

lemma percent_safe: "n < 256 \<Longrightarrow> x \<in> set ''&='' \<Longrightarrow> x \<notin> set (percent n)"
  using hex_upper_safe [of "n div 16"] hex_upper_safe [of "n mod 16"]
  by (auto simp: percent_def less_mult_imp_div_less)

lemma url_char_safe: "x \<in> set ''&='' \<Longrightarrow> x \<notin> set (url_char c)"
proof -
  assume x: "x \<in> set ''&=''"
  have "192 + code_unit c div 64 < 256" "128 + code_unit c mod 64 < 256" using code_unit_less [of c] by simp_all
  note safe = percent_safe [OF this(1) x] percent_safe [OF this(2) x] percent_safe [OF code_unit_less [of c] x]
  have "x \<noteq> c" if "is_digit c \<or> (65 \<le> code_unit c \<and> code_unit c \<le> 90) \<or> (97 \<le> code_unit c \<and> code_unit c \<le> 122) \<or> c \<in> set ''*-._''"
    using that x by (auto simp: is_digit_def code_unit_def)
  with safe x show ?thesis by (auto simp: url_char_def Let_def)
qed

lemma url_encode_safe: "x \<in> set ''&='' \<Longrightarrow> x \<notin> set (url_encode s)"
  using url_char_safe by (auto simp: url_encode_def)

lemma js_split_glue: "c \<notin> set w \<Longrightarrow> js_split c (w @ c # r) = w # js_split c r"
  by (induction w) auto

lemma js_join_ne: "ws \<noteq> [] \<Longrightarrow> [] \<notin> set ws \<Longrightarrow> js_join sep ws \<noteq> []"
  by (cases ws) (auto simp: js_join_Cons)

lemma parse_pair_text: "parse_pair (url_encode k @ ''='' @ url_encode v) = (k, v)"
proof -
  have "js_split (CHR ''='') (url_encode k @ CHR ''='' # url_encode v) = [url_encode k, url_encode v]"
    using js_split_glue [of "CHR ''=''" "url_encode k" "url_encode v"] url_encode_safe [of "CHR ''=''"] js_split_no_sep
    by simp
  then show ?thesis by (simp add: parse_pair_def url_decode_encode)
qed

section \<open>The state of the session\<close>

text \<open>
  What the API has granted to a browser: pairs of a user and the token it belongs to, the latest
  first. A login that is answered grants the user and the token of the answer; the answer to a
  restoring request grants its user to the token the request carried.
\<close>

type_synonym grant = "jsval \<times> string"

definition login_grant :: "'w net \<Rightarrow> string \<Rightarrow> string \<Rightarrow> 'w browser \<Rightarrow> grant list" where
  "login_grant N email password b = (case fst (authService_login N email password b) of
     Inr data \<Rightarrow> if data = JUndefined \<or> data = JNull then []
       else [(field data ''user'', js_text (n_numText N) (field data ''token''))]
   | Inl e \<Rightarrow> [])"

definition register_grant :: "'w net \<Rightarrow> string \<Rightarrow> string \<Rightarrow> string \<Rightarrow> 'w browser \<Rightarrow> grant list" where
  "register_grant N name email password b = (case authService_register N name email password b of
     (Inr data, b1) \<Rightarrow> login_grant N email password b1
   | (Inl e, b1) \<Rightarrow> [])"

definition restore_grant :: "'w net \<Rightarrow> 'w browser \<Rightarrow> grant list" where
  "restore_grant N b = (case (stored_token b, fst (authService_getMe N b)) of
     (Some t, Inr user) \<Rightarrow> [(user, t)] | _ \<Rightarrow> [])"

text \<open>One operation after another; requests of the pages are any requests.\<close>

inductive session_trace :: "'w net \<Rightarrow> grant list \<Rightarrow> 'w browser \<Rightarrow> bool" for N where
  mounted: "session_trace N [] (initial_session stored w)"
| request: "session_trace N gs b \<Longrightarrow> session_trace N gs (snd (send N meth endpoint body b))"
| restore: "session_trace N gs b \<Longrightarrow> session_trace N (restore_grant N b @ gs) (snd (restoreSession N b))"
| login: "session_trace N gs b \<Longrightarrow>
    session_trace N (login_grant N email password b @ gs) (snd (session_login N email password b))"
| register: "session_trace N gs b \<Longrightarrow>
    session_trace N (register_grant N name email password b @ gs) (snd (session_register N name email password b))"
| logout: "session_trace N gs b \<Longrightarrow> session_trace N gs (snd (session_logout b))"

text \<open>The stored token is the one of the context, and the user on the screen is the one of the last grant.\<close>

definition in_step :: "'w net \<Rightarrow> grant list \<Rightarrow> 'w browser \<Rightarrow> bool" where
  "in_step N gs b \<longleftrightarrow>
     (br_storage b = None \<or> br_storage b = Some (js_text (n_numText N) (br_token b))) \<and>
     (truthy (br_user b) \<longrightarrow> (\<exists>rest. gs = (br_user b, js_text (n_numText N) (br_token b)) # rest))"

text \<open>A request leaves the session alone, but may drop the stored token.\<close>

definition session_kept :: "'w browser \<Rightarrow> 'w browser \<Rightarrow> bool" where
  "session_kept b c \<longleftrightarrow> br_user c = br_user b \<and> br_token c = br_token b \<and> (br_storage c = br_storage b \<or> br_storage c = None)"

lemma in_step_kept: "in_step N gs b \<Longrightarrow> session_kept b c \<Longrightarrow> in_step N gs c"
  by (auto simp: in_step_def session_kept_def)

lemma session_kept_order: "session_kept b b" "session_kept b c \<Longrightarrow> session_kept c d \<Longrightarrow> session_kept b d"
  by (auto simp: session_kept_def)

lemma over_net_kept: "over_net m b = (r, c) \<Longrightarrow> session_kept b c \<and> br_storage c = br_storage b"
  by (auto simp: over_net_def on_part_def session_kept_def split: prod.splits)

lemma send_kept:
  assumes "send N meth endpoint body b = (r, c)"
  shows "session_kept b c" and "r = Inr x \<Longrightarrow> br_storage c = br_storage b"
  using assms
  by (auto simp: send_def Let_def removeItem_def session_kept_def dest!: over_net_kept
      elim!: await_cases try_catch_cases split: if_splits)

lemma login_kept:
  assumes "authService_login N email password b = (r, c)"
  shows "session_kept b c"
  using assms by (auto simp: authService_login_def api_post_def prop_of_def dest: send_kept(1) elim!: await_cases split: if_splits)

lemma getMe_kept:
  assumes "authService_getMe N b = (r, c)"
  shows "session_kept b c" and "r = Inr x \<Longrightarrow> br_storage c = br_storage b"
  using assms
  by (auto simp: authService_getMe_def api_get_def prop_of_def dest: send_kept elim!: await_cases split: if_splits)

lemma register_kept: "authService_register N name email password b = (r, c) \<Longrightarrow> session_kept b c"
  by (auto simp: authService_register_def api_post_def prop_of_def dest: send_kept(1) elim!: await_cases split: if_splits)

lemma in_step_login:
  assumes "in_step N gs b" and "session_login N email password b = (r, c)"
  shows "in_step N (login_grant N email password b @ gs) c"
proof -
  obtain d b0 where d: "authService_login N email password b = (d, b0)" by force
  show ?thesis
  proof (cases d)
    case (Inl e)
    then have "c = b0" using assms(2) d by (auto simp: session_login_def await_def)
    with in_step_kept [OF assms(1) login_kept [OF d]] Inl d show ?thesis by (simp add: login_grant_def)
  next
    case (Inr data)
    then show ?thesis
      using assms(2) d in_step_kept [OF assms(1) login_kept [OF d]]
      by (auto simp: session_login_def await_def prop_of_def set_session_def login_grant_def in_step_def split: if_splits)
  qed
qed

lemma in_step_register:
  assumes "in_step N gs b" and "session_register N name email password b = (r, c)"
  shows "in_step N (register_grant N name email password b @ gs) c"
proof -
  obtain d b0 where d: "authService_register N name email password b = (d, b0)" by force
  from in_step_kept [OF assms(1) register_kept [OF d]] have "in_step N gs b0" .
  with assms(2) d in_step_login [of N gs b0] show ?thesis
    by (cases d) (auto simp: session_register_def await_def register_grant_def)
qed

lemma in_step_restore:
  assumes "in_step N gs b" and "restoreSession N b = (r, c)"
  shows "in_step N (restore_grant N b @ gs) c"
proof (cases "stored_token b")
  case None
  then show ?thesis using assms by (auto simp: restoreSession_def await_def restore_grant_def in_step_def)
next
  case (Some t)
  obtain d b0 where d: "authService_getMe N b = (d, b0)" by force
  show ?thesis
  proof (cases d)
    case (Inl e)
    then show ?thesis using assms Some d
      by (auto simp: restoreSession_def restored_def await_def try_catch_def restore_grant_def removeItem_def set_session_def in_step_def)
  next
    case (Inr user)
    have "br_storage b = Some t" using Some by (auto simp: stored_token_def split: if_splits)
    then show ?thesis using assms Some d Inr getMe_kept [OF d]
      by (auto simp: restoreSession_def restored_def await_def try_catch_def restore_grant_def in_step_def session_kept_def)
  qed
qed

lemma in_step_logout: "in_step N gs (snd (session_logout b))"
  by (simp add: session_logout_def removeItem_def set_session_def await_def in_step_def)

lemma session_trace_in_step: "session_trace N gs b \<Longrightarrow> in_step N gs b"
proof (induction rule: session_trace.induct)
  case (mounted stored w)
  show ?case by (simp add: initial_session_def in_step_def split: option.split)
next
  case (request gs b meth endpoint body)
  then show ?case by (metis in_step_kept send_kept(1) prod.collapse)
qed (metis in_step_login in_step_register in_step_restore prod.collapse | rule in_step_logout)+

section \<open>Properties\<close>

text \<open>the query strings the client builds are read back by the parser of form-encoded text,
  whatever characters the parameters hold.\<close>

theorem query_roundtrip: "parse_query (query_text ps) = ps"
proof (cases "ps = []")
  case False
  let ?ws = "map (\<lambda>(k, v). url_encode k @ ''='' @ url_encode v) ps"
  have "\<forall>w\<in>set ?ws. CHR ''&'' \<notin> set w"
    using url_encode_safe [of "CHR ''&''"] by auto
  then have "js_split (CHR ''&'') (js_join ''&'' ?ws) = ?ws"
    using js_split_join [of ?ws "CHR ''&''"] False by simp
  moreover have "query_text ps \<noteq> []"
    unfolding query_text_def by (rule js_join_ne) (use False in auto)
  moreover have "map parse_pair ?ws = ps"
    by (rule map_idI [THEN trans [OF map_map]]) (use parse_pair_text in \<open>auto simp: comp_def\<close>)
  ultimately show ?thesis by (simp add: parse_query_def query_text_def)
qed (simp add: query_text_def parse_query_def)

text \<open>C18: after any sequence of requests, logins, registrations, restorations and logouts, one after
  the other, the token that the next request carries is the token of the session the pages show,
  and the user they show is the one whom the API named for that very token, in its last answer to
  a login or to a restoring request: the browser never acts with the token of one user while it
  shows another. After a logout neither a token nor a user is left.\<close>

theorem session_token_in_step:
  assumes "session_trace N gs b"
  shows "(stored_token b = None \<or> stored_token b = Some (js_text (n_numText N) (br_token b))) \<and>
    (\<forall>t. stored_token b = Some t \<and> truthy (br_user b) \<longrightarrow> (\<exists>rest. gs = (br_user b, t) # rest)) \<and>
    stored_token (snd (session_logout b)) = None \<and> br_user (snd (session_logout b)) = JNull \<and>
    br_token (snd (session_logout b)) = JNull \<and> \<not> isAuthenticated (snd (session_logout b))"
  using session_trace_in_step [OF assms]
  by (auto simp: in_step_def session_logout_def removeItem_def set_session_def await_def stored_token_def isAuthenticated_def
      split: if_splits)

text \<open>a login during the restoration can be shown as somebody else. When the answer to the restoring
  request arrives after a login, the pages show the user of the old token, while the requests
  carry the token of the login.\<close>

theorem late_restoration_shows_other:
  "br_user (snd (restored (Inr other) b)) = other \<and> stored_token (snd (restored (Inr other) b)) = stored_token b"
  by (simp add: restored_def await_def stored_token_def)

text \<open>an expired session is not noticed by the pages: when a request other than a login is
  answered with 401, the token is gone from the storage, so later requests are anonymous, but the
  context still shows the user as authenticated.\<close>

theorem expired_session_stays_shown:
  assumes "n_fetch N \<lparr>og_method = meth, og_url = join_url (n_baseUrl N) endpoint, og_token = stored_token b,
      og_body = json_sent body\<rparr> (br_world b) = (Inr \<lparr>ft_status = 401, ft_json = j\<rparr>, w)"
    and "\<not> js_includes endpoint ''/auth/login''"
  shows "(\<exists>e. send N meth endpoint body b = (Inl e, b\<lparr>br_world := w, br_storage := None\<rparr>)) \<and>
    isAuthenticated (b\<lparr>br_world := w, br_storage := None\<rparr>) = isAuthenticated b"
  using assms
  by (simp_all add: send_def await_def try_catch_def over_net_def on_part_def removeItem_def
      response_error_def plain_error_def js_error_def isAuthenticated_def Let_def)

text \<open>what the route guards let through, once the session is restored: a protected page is shown
  exactly to authenticated users, and an administrators' page to administrators and to visitors
  who are not authenticated at all.\<close>

theorem route_guards:
  assumes "\<not> br_isLoading b"
  shows "ProtectedRoute b = (if isAuthenticated b then Children else Redirect ''/login'') \<and>
    (AdminRoute b = Children \<longleftrightarrow> \<not> isAuthenticated b \<or> field (br_user b) ''role'' = JStr ''ADMIN'')"
  using assms by (simp add: ProtectedRoute_def AdminRoute_def)

section \<open>A network of one answer\<close>

definition answering :: "int \<Rightarrow> jsval \<Rightarrow> unit net" where
  "answering status v = \<lparr>n_fetch = (\<lambda>og w. (Inr \<lparr>ft_status = status, ft_json = Some v\<rparr>, w)), n_baseUrl = ''/api/v1'',
     n_toNumber = (\<lambda>v. NaN), n_numText = (\<lambda>n. ''1'')\<rparr>"

definition login_answer :: jsval where
  "login_answer = JObj [(''data'', JObj [(''token'', JStr ''t1''), (''user'', JObj [(''role'', JStr ''USER'')])])]"

definition signed_in :: "unit browser" where
  "signed_in = snd (session_login (answering 200 login_answer) ''a@x.org'' ''secret-1''
     (snd (restoreSession (answering 200 login_answer) (initial_session None ()))))"

lemma signed_in_simps: "stored_token signed_in = Some ''t1''" "isAuthenticated signed_in" "\<not> br_isLoading signed_in"
  by code_simp+

theorem session_token_in_step_witness:
  "\<exists>u. session_trace (answering 200 login_answer) [(u, ''t1'')] signed_in \<and> br_user signed_in = u \<and> truthy u \<and>
     stored_token (snd (session_logout signed_in)) = None"
proof -
  have t: "session_trace (answering 200 login_answer) [(br_user signed_in, ''t1'')] signed_in"
  proof -
    have "session_trace (answering 200 login_answer) (login_grant (answering 200 login_answer) ''a@x.org'' ''secret-1''
        (snd (restoreSession (answering 200 login_answer) (initial_session None ()))) @
        restore_grant (answering 200 login_answer) (initial_session None ()) @ []) signed_in"
      unfolding signed_in_def by (intro session_trace.intros)
    moreover have "login_grant (answering 200 login_answer) ''a@x.org'' ''secret-1''
        (snd (restoreSession (answering 200 login_answer) (initial_session None ()))) = [(br_user signed_in, ''t1'')]"
      "restore_grant (answering 200 login_answer) (initial_session None ()) = []"
      by code_simp+
    ultimately show ?thesis by simp
  qed
  have "truthy (br_user signed_in)" by code_simp
  with t session_token_in_step [OF t] show ?thesis by blast
qed

theorem expired_session_stays_shown_witness:
  "\<exists>e b. send (answering 401 JNull) ''GET'' ''/users/me'' JUndefined signed_in = (Inl e, b) \<and> stored_token b = None \<and>
     isAuthenticated b"
proof -
  have "\<not> js_includes ''/users/me'' ''/auth/login''" by (simp add: js_starts_with_def)
  moreover have "n_fetch (answering 401 JNull) og w = (Inr \<lparr>ft_status = 401, ft_json = Some JNull\<rparr>, w)" for og w
    by (simp add: answering_def)
  ultimately obtain e where e: "send (answering 401 JNull) ''GET'' ''/users/me'' JUndefined signed_in =
      (Inl e, signed_in\<lparr>br_world := br_world signed_in, br_storage := None\<rparr>)"
    and "isAuthenticated (signed_in\<lparr>br_world := br_world signed_in, br_storage := None\<rparr>)"
    using expired_session_stays_shown [where N = "answering 401 JNull" and b = signed_in and meth = "''GET''" and body = JUndefined]
      signed_in_simps(2) by blast
  moreover have "stored_token (signed_in\<lparr>br_world := br_world signed_in, br_storage := None\<rparr>) = None"
    by (simp add: stored_token_def)
  ultimately show ?thesis by blast
qed

theorem route_guards_witness: "ProtectedRoute signed_in = Children \<and> AdminRoute signed_in \<noteq> Children"
proof -
  have "field (br_user signed_in) ''role'' \<noteq> JStr ''ADMIN''" by code_simp
  with route_guards [OF signed_in_simps(3)] show ?thesis by (simp add: signed_in_simps)
qed

end
