(* ===== verification/Accounts.thy ===== *)
theory Accounts
  imports Backing
begin

text \<open>
  Accounts: request validation (\<open>modules/auth/auth.validation.js\<close>), registration and login
  (\<open>modules/auth/auth.service.js\<close>), tokens (\<open>utils/jwt.js\<close>, \<open>utils/password.js\<close>),
  and the middlewares that authenticate and authorise a request
  (\<open>middleware/authenticate.js\<close>, \<open>middleware/authorize.js\<close>).

  The JWT and Argon2 libraries are parameters. What is relied on is the locale
  \<open>credentials\<close>: their calls leave the database alone, Argon2 accepts the password a hash
  was made of, and a token passes the verification only if it was signed with the secret.
\<close>

section \<open>auth.validation.js\<close>

text \<open>
  \<open>/^[^\s@]+@[^\s@]+\.[^\s@]+$/\<close>: one \<open>@\<close>, no white space, and a dot in the part behind
  the \<open>@\<close> that is neither its first nor its last character.
\<close>

definition email_ok :: "string \<Rightarrow> bool" where
  "email_ok s = (\<not> list_ex is_ws s \<and>
     (case js_split (CHR ''@'') s of
        [a, d] \<Rightarrow> a \<noteq> [] \<and> CHR ''.'' \<in> set (butlast (tl d))
      | _ \<Rightarrow> False))"

definition account_server_fields :: "string list" where
  "account_server_fields = [''role'', ''isActive'', ''userId'', ''id'', ''_id'', ''passwordHash'']"

definition validateRegister :: "jsval \<Rightarrow> err + jsval" where
  "validateRegister body =
     (case as_string (field body ''name'') of
        None \<Rightarrow> Inl (AppError ''Name is required and must be between 2 and 100 characters'' 400 None)
      | Some name \<Rightarrow>
          if length (js_trim name) < 2 \<or> 100 < length (js_trim name) then
            Inl (AppError ''Name is required and must be between 2 and 100 characters'' 400 None)
          else case as_string (field body ''email'') of
            None \<Rightarrow> Inl (AppError ''A valid email address is required'' 400 None)
          | Some email \<Rightarrow>
              if \<not> email_ok (js_trim email) then Inl (AppError ''A valid email address is required'' 400 None)
              else case as_string (field body ''password'') of
                None \<Rightarrow> Inl (AppError ''Password is required and must be at least 8 characters long'' 400 None)
              | Some password \<Rightarrow>
                  if length password < 8 then
                    Inl (AppError ''Password is required and must be at least 8 characters long'' 400 None)
                  else if 128 < length password then
                    Inl (AppError ''Password cannot exceed 128 characters'' 400 None)
                  else Inr (del_fields account_server_fields
                    (set_field ''password'' (JStr password) (set_field ''email'' (JStr (js_lower (js_trim email)))
                      (set_field ''name'' (JStr (js_trim name)) body)))))"

definition validateLogin :: "jsval \<Rightarrow> err + jsval" where
  "validateLogin body =
     (case as_string (field body ''email'') of
        None \<Rightarrow> Inl (AppError ''A valid email address is required'' 400 None)
      | Some email \<Rightarrow>
          if \<not> email_ok (js_trim email) then Inl (AppError ''A valid email address is required'' 400 None)
          else case as_string (field body ''password'') of
            None \<Rightarrow> Inl (AppError ''Password is required'' 400 None)
          | Some password \<Rightarrow>
              if password = [] then Inl (AppError ''Password is required'' 400 None)
              else Inr (set_field ''password'' (JStr password)
                (set_field ''email'' (JStr (js_lower (js_trim email))) body)))"

section \<open>jwt.js and password.js\<close>

text \<open>
  The libraries: \<open>jwtSign payload secret\<close>, \<open>jwtVerify token secret\<close>, \<open>argonHash\<close> and
  \<open>argonVerify hash password\<close>. \<open>secret\<close> is \<open>config.jwt.secret\<close>; an empty one is a
  missing one. \<open>castId\<close> is the object mapper's reading of an id.
\<close>

record 'w auth_env =
  secret :: string
  jwtSign :: "jsval \<Rightarrow> string \<Rightarrow> ('w, string) io"
  jwtVerify :: "string \<Rightarrow> string \<Rightarrow> ('w, jsval) io"
  argonHash :: "string \<Rightarrow> ('w, string) io"
  argonVerify :: "string \<Rightarrow> string \<Rightarrow> ('w, bool) io"
  castId :: "jsval \<Rightarrow> oid option"

definition no_secret :: err where
  "no_secret = plain_error ''JWT_SECRET is not configured in the environment''"

definition generateToken :: "'w auth_env \<Rightarrow> jsval \<Rightarrow> ('w, string) io" where
  "generateToken E payload = (if secret E = [] then throw no_secret else jwtSign E payload (secret E))"

definition verifyToken :: "'w auth_env \<Rightarrow> string \<Rightarrow> ('w, jsval) io" where
  "verifyToken E token =
     (if secret E = [] then throw no_secret
      else try_catch (jwtVerify E token (secret E)) (\<lambda>error.
        if ename error = ''TokenExpiredError'' then throw (AppError ''Token has expired'' 401 None)
        else throw (AppError ''Invalid token'' 401 None)))"

section \<open>auth.service.js\<close>

text \<open>The validators of the user schema, the regular expression included.\<close>

definition user_schema :: "user \<Rightarrow> bool" where
  "user_schema u \<longleftrightarrow> u_name u \<noteq> [] \<and> length (u_name u) \<le> 100 \<and> email_ok (u_email u) \<and> u_passwordHash u \<noteq> []"

definition new_user :: "string \<Rightarrow> string \<Rightarrow> string \<Rightarrow> oid \<Rightarrow> date \<Rightarrow> user" where
  "new_user name email hash i t =
     \<lparr>u_id = i, u_name = js_trim name, u_email = email, u_passwordHash = hash, u_role = USER,
      u_isActive = True, u_createdAt = t\<rparr>"

definition user_summary :: "user \<Rightarrow> jsval" where
  "user_summary u = JObj [(''id'', JStr (u_id u)), (''name'', JStr (u_name u)), (''email'', JStr (u_email u)),
     (''role'', JStr (role_name (u_role u)))]"

definition register :: "'w backend \<Rightarrow> 'w auth_env \<Rightarrow> string \<Rightarrow> string \<Rightarrow> string \<Rightarrow> ('w, jsval) io" where
  "register B E name email password =
     (let normalizedEmail = js_lower (js_trim email) in
      await (findOne (Users B) (\<lambda>u. u_email u = normalizedEmail)) (\<lambda>existingUser.
        if existingUser \<noteq> None then throw (AppError ''User already exists'' 409 None)
        else await (argonHash E password) (\<lambda>passwordHash.
          try_catch
            (await (create_valid (Users B) user_schema (new_user name normalizedEmail passwordHash))
              (\<lambda>user. ret (user_summary user)))
            (\<lambda>error. if dbCode error = Some 11000 then throw (AppError ''User already exists'' 409 None)
              else throw error))))"

definition token_payload :: "user \<Rightarrow> jsval" where
  "token_payload u = JObj [(''sub'', JStr (u_id u)), (''role'', JStr (role_name (u_role u)))]"

definition login :: "'w backend \<Rightarrow> 'w auth_env \<Rightarrow> string \<Rightarrow> string \<Rightarrow> ('w, jsval \<times> string) io" where
  "login B E email password =
     await (findOne (Users B) (\<lambda>u. u_email u = js_lower (js_trim email))) (\<lambda>found. case found of
       None \<Rightarrow> throw (AppError ''Invalid email or password'' 401 None)
     | Some user \<Rightarrow>
         if \<not> u_isActive user then throw (AppError ''User account is inactive'' 401 None)
         else await (argonVerify E (u_passwordHash user) password) (\<lambda>isMatch.
           if \<not> isMatch then throw (AppError ''Invalid email or password'' 401 None)
           else await (generateToken E (token_payload user)) (\<lambda>token. ret (user_summary user, token))))"

section \<open>authenticate.js, authorize.js\<close>

text \<open>
  The header is \<open>None\<close> (or empty) when it is missing. An error is what is passed to
  \<open>next\<close>; the value is \<open>req.user\<close>.
\<close>

definition bearer_token :: "string \<Rightarrow> string option" where
  "bearer_token authHeader = (case js_split (CHR '' '') authHeader of
     [scheme, token] \<Rightarrow> if scheme = ''Bearer'' \<and> token \<noteq> [] then Some token else None
   | _ \<Rightarrow> None)"

text \<open>\<open>User.findById(decoded.sub)\<close>, with the cast of the id.\<close>

definition find_subject :: "'w backend \<Rightarrow> 'w auth_env \<Rightarrow> jsval \<Rightarrow> ('w, user option) io" where
  "find_subject B E sub = (case castId E sub of
     None \<Rightarrow> throw (js_error ''CastError'' ''Cast to ObjectId failed'')
   | Some i \<Rightarrow> findById (Users B) i)"

definition authenticate :: "'w backend \<Rightarrow> 'w auth_env \<Rightarrow> string option \<Rightarrow> ('w, user) io" where
  "authenticate B E authorization =
     (case authorization of
        None \<Rightarrow> throw (AppError ''Authentication required: missing authorization header'' 401 None)
      | Some authHeader \<Rightarrow>
          if authHeader = [] then throw (AppError ''Authentication required: missing authorization header'' 401 None)
          else case bearer_token authHeader of
            None \<Rightarrow> throw (AppError ''Invalid authorization header format. Expected Bearer <token>'' 401 None)
          | Some token \<Rightarrow>
              await (verifyToken E token) (\<lambda>decoded.
                if \<not> truthy decoded \<or> \<not> truthy (field decoded ''sub'') then
                  throw (AppError ''Invalid token payload'' 401 None)
                else await (find_subject B E (field decoded ''sub'')) (\<lambda>found. case found of
                  None \<Rightarrow> throw (AppError ''User belonging to this token no longer exists'' 401 None)
                | Some user \<Rightarrow>
                    if \<not> u_isActive user then throw (AppError ''User account is inactive'' 401 None)
                    else ret user)))"

definition optionalAuthenticate :: "'w backend \<Rightarrow> 'w auth_env \<Rightarrow> string option \<Rightarrow> ('w, user option) io" where
  "optionalAuthenticate B E authorization =
     (case authorization of
        None \<Rightarrow> ret None
      | Some authHeader \<Rightarrow>
          if authHeader = [] then ret None
          else case bearer_token authHeader of
            None \<Rightarrow> ret None
          | Some token \<Rightarrow>
              try_catch
                (await (verifyToken E token) (\<lambda>decoded.
                  if \<not> truthy decoded \<or> \<not> truthy (field decoded ''sub'') then ret None
                  else await (find_subject B E (field decoded ''sub'')) (\<lambda>found. case found of
                    None \<Rightarrow> ret None
                  | Some user \<Rightarrow> ret (if u_isActive user then Some user else None))))
                (\<lambda>error. ret None))"

definition authorize :: "role list \<Rightarrow> user option \<Rightarrow> err + unit" where
  "authorize allowedRoles reqUser = (case reqUser of
     None \<Rightarrow> Inl (AppError ''Authentication required before authorization'' 401 None)
   | Some user \<Rightarrow>
       if u_role user \<notin> set allowedRoles then Inl (AppError ''Access denied: insufficient permissions'' 403 None)
       else Inr ())"

section \<open>What is relied on\<close>

definition signed :: "'w auth_env \<Rightarrow> string \<Rightarrow> jsval \<Rightarrow> bool" where
  "signed E token payload \<longleftrightarrow> (\<exists>w w'. jwtSign E payload (secret E) w = (Inr token, w'))"

text \<open>
  The verification returns the signed claims, to which the library has added the times of issue
  and of expiry; a token was made of one payload only.
\<close>

definition carries :: "'w auth_env \<Rightarrow> string \<Rightarrow> jsval \<Rightarrow> bool" where
  "carries E token decoded \<longleftrightarrow> (\<exists>payload. signed E token payload \<and>
     (\<forall>k. k \<noteq> ''iat'' \<and> k \<noteq> ''exp'' \<longrightarrow> field decoded k = field payload k))"

locale credentials = database B view
  for B :: "'w backend" and view :: "'w \<Rightarrow> db" +
  fixes E :: "'w auth_env"
  assumes sign_keeps: "keeps view (jwtSign E p k)"
    and verify_keeps: "keeps view (jwtVerify E t k)"
    and hash_keeps: "keeps view (argonHash E pw)"
    and check_keeps: "keeps view (argonVerify E h pw)"
    and verify_signed: "jwtVerify E t (secret E) w = (Inr p, w') \<Longrightarrow> carries E t p"
    and signed_once: "signed E t p \<Longrightarrow> signed E t q \<Longrightarrow> p = q"
    and check_hash: "argonHash E pw w = (Inr h, w1) \<Longrightarrow> argonVerify E h pw' w2 = (Inr b, w3) \<Longrightarrow> b = (pw' = pw)"

section \<open>The email expression\<close>

lemma js_split_one: "c \<notin> set a \<Longrightarrow> c \<notin> set d \<Longrightarrow> js_split c (a @ c # d) = [a, d]"
proof (induction a)
  case Nil
  then show ?case by (simp add: js_split_no_sep)
next
  case (Cons x a)
  then show ?case by auto
qed

text \<open>The words of the regular expression, written out.\<close>

definition email_word :: "string \<Rightarrow> bool" where
  "email_word s \<longleftrightarrow> (\<exists>a b c. s = a @ ''@'' @ b @ ''.'' @ c \<and> a \<noteq> [] \<and> b \<noteq> [] \<and> c \<noteq> [] \<and>
     (\<forall>x\<in>set a \<union> set b \<union> set c. \<not> is_ws x \<and> x \<noteq> CHR ''@''))"

text \<open>The test of an email address accepts exactly the words of the regular expression.\<close>

theorem email_ok_regex: "email_ok s \<longleftrightarrow> email_word s"
proof
  assume "email_word s"
  then obtain a b c where s: "s = a @ ''@'' @ b @ ''.'' @ c" and ne: "a \<noteq> []" "b \<noteq> []" "c \<noteq> []"
    and ok: "\<forall>x\<in>set a \<union> set b \<union> set c. \<not> is_ws x \<and> x \<noteq> CHR ''@''"
    by (auto simp: email_word_def)
  let ?d = "b @ ''.'' @ c"
  have split: "js_split (CHR ''@'') s = [a, ?d]"
    unfolding s using ok js_split_one [of "CHR ''@''" a ?d] by fastforce
  obtain x b' where b: "b = x # b'" using ne(2) by (cases b) auto
  have "butlast (tl ?d) = b' @ ''.'' @ butlast c" using ne(3) by (simp add: b butlast_append)
  then have "CHR ''.'' \<in> set (butlast (tl ?d))" by simp
  moreover have "\<not> list_ex is_ws s"
    using ok by (auto simp: s list_ex_iff is_ws_def code_unit_def)
  ultimately show "email_ok s" using ne(1) by (simp add: email_ok_def split)
next
  assume ok: "email_ok s"
  then obtain a d where split: "js_split (CHR ''@'') s = [a, d]" and a: "a \<noteq> []" and dot: "CHR ''.'' \<in> set (butlast (tl d))"
    by (auto simp: email_ok_def split: list.splits)
  from ok have ws: "\<forall>x\<in>set s. \<not> is_ws x" by (simp add: email_ok_def list_ex_iff)
  have s: "s = a @ ''@'' @ d" using js_join_split [of "CHR ''@''" s] by (simp add: split)
  have at: "CHR ''@'' \<notin> set a" "CHR ''@'' \<notin> set d"
    using js_split_parts [of a "CHR ''@''" s] js_split_parts [of d "CHR ''@''" s] by (simp_all add: split)
  obtain x d' where d: "d = x # d'" using dot by (cases d) auto
  with dot obtain b' c' where bc: "butlast d' = b' @ CHR ''.'' # c'" by (auto simp: in_set_conv_decomp)
  then have ne: "d' \<noteq> []" by auto
  then have "d' = butlast d' @ [last d']" by simp
  then have d': "d = (x # b') @ ''.'' @ (c' @ [last d'])" unfolding d bc by simp
  have sets: "set a \<union> set (x # b') \<union> set (c' @ [last d']) \<subseteq> set a \<union> set d" by (subst d') auto
  then have ok': "\<forall>y\<in>set a \<union> set (x # b') \<union> set (c' @ [last d']). \<not> is_ws y \<and> y \<noteq> CHR ''@''"
    using s at ws by auto
  have "s = a @ ''@'' @ (x # b') @ ''.'' @ (c' @ [last d'])" using s d' by simp
  with a ok' show "email_word s"
    unfolding email_word_def
    by - (rule exI [of _ a], rule exI [of _ "x # b'"], rule exI [of _ "c' @ [last d']"], simp)
qed


section \<open>Outcomes\<close>

definition put_user :: "user \<Rightarrow> db \<Rightarrow> db" where
  "put_user u v = db_users_update (\<lambda>m. m(u_id u \<mapsto> u)) v"

definition email_free :: "string \<Rightarrow> db \<Rightarrow> bool" where
  "email_free email v \<longleftrightarrow> (\<forall>i u. db_users v i = Some u \<longrightarrow> u_email u \<noteq> email)"

definition emails_unique :: "db \<Rightarrow> bool" where
  "emails_unique v \<longleftrightarrow> (\<forall>i j a b. db_users v i = Some a \<longrightarrow> db_users v j = Some b \<longrightarrow> u_email a = u_email b \<longrightarrow> i = j)"

lemma emails_unique_put_user:
  "emails_unique v \<Longrightarrow> email_free (u_email u) v \<Longrightarrow> emails_unique (put_user u v)"
  unfolding emails_unique_def put_user_def email_free_def by (simp split: if_splits) metis

lemma bearer_token_header: "CHR '' '' \<notin> set token \<Longrightarrow> token \<noteq> [] \<Longrightarrow> bearer_token (''Bearer '' @ token) = Some token"
  using js_split_one [of "CHR '' ''" "''Bearer''" token] by (simp add: bearer_token_def)

context credentials
begin

lemma keeps_verifyToken: "keeps view (verifyToken E token)"
  by (auto simp: verifyToken_def intro!: keeps_try_catch verify_keeps)

lemma verifyToken_ok: "verifyToken E token w = (Inr p, w') \<Longrightarrow> carries E token p"
  by (auto simp: verifyToken_def split: if_splits elim!: try_catch_cases intro: verify_signed)

lemma keeps_find_subject: "keeps view (find_subject B E sub)"
  by (auto simp: find_subject_def users.findById_keeps split: option.split)

lemma keeps_authenticate: "keeps view (authenticate B E h)"
  by (auto simp: authenticate_def intro!: keeps_await keeps_verifyToken keeps_find_subject split: option.split)

lemma authenticate_ok:
  assumes "authenticate B E h w = (Inr u, w')"
  shows "\<exists>a token p i. h = Some a \<and> bearer_token a = Some token \<and> carries E token p \<and>
    castId E (field p ''sub'') = Some i \<and> db_users (view w) i = Some u \<and> u_isActive u"
proof -
  from assms obtain a token where h: "h = Some a" "bearer_token a = Some token"
    and k: "await (verifyToken E token) (\<lambda>decoded.
                if \<not> truthy decoded \<or> \<not> truthy (field decoded ''sub'') then
                  throw (AppError ''Invalid token payload'' 401 None)
                else await (find_subject B E (field decoded ''sub'')) (\<lambda>found. case found of
                  None \<Rightarrow> throw (AppError ''User belonging to this token no longer exists'' 401 None)
                | Some user \<Rightarrow>
                    if \<not> u_isActive user then throw (AppError ''User account is inactive'' 401 None)
                    else ret user)) w = (Inr u, w')"
    unfolding authenticate_def by (auto split: option.splits if_splits)
  from k obtain p w1 where p: "verifyToken E token w = (Inr p, w1)"
    and f: "find_subject B E (field p ''sub'') w1 = (Inr (Some u), w')" and act: "u_isActive u"
    by (auto elim!: await_cases split: if_splits option.splits)
  from f obtain i where i: "castId E (field p ''sub'') = Some i" "findById (Users B) i w1 = (Inr (Some u), w')"
    by (auto simp: find_subject_def split: option.splits)
  have "view w1 = view w" using p by (rule keepsD [OF keeps_verifyToken])
  with users.findById_result [OF i(2)] have "db_users (view w) i = Some u" by simp
  with h i(1) act verifyToken_ok [OF p] show ?thesis by blast
qed

lemma login_ok:
  assumes "login B E email password w = (Inr (x, token), w')"
  shows "\<exists>i u. db_users (view w) i = Some u \<and> u_email u = js_lower (js_trim email) \<and> u_isActive u \<and>
    x = user_summary u \<and> signed E token (token_payload u) \<and>
    (\<exists>w1 w2. argonVerify E (u_passwordHash u) password w1 = (Inr True, w2)) \<and> view w' = view w"
proof -
  let ?P = "\<lambda>u. u_email u = js_lower (js_trim email)"
  from assms obtain u w1 w2 where f: "findOne (Users B) ?P w = (Inr (Some u), w1)"
    and act: "u_isActive u" and c: "argonVerify E (u_passwordHash u) password w1 = (Inr True, w2)"
    and g: "generateToken E (token_payload u) w2 = (Inr token, w')" and x: "x = user_summary u"
    unfolding login_def by (auto elim!: await_cases split: option.splits if_splits)
  obtain i where i: "db_users (view w) i = Some u" "?P u" using users.findOne_Some [OF f] by blast
  from g have s: "jwtSign E (token_payload u) (secret E) w2 = (Inr token, w')"
    by (auto simp: generateToken_def split: if_splits)
  have "view w' = view w"
    using keepsD [OF users.findOne_keeps f] keepsD [OF check_keeps c] keepsD [OF sign_keeps s] by simp
  with i act c x s show ?thesis unfolding signed_def by blast
qed

lemma register_ok:
  assumes "register B E name email password w = (Inr x, w')"
  shows "\<exists>u. email_free (js_lower (js_trim email)) (view w) \<and> db_users (view w) (u_id u) = None \<and>
    view w' = put_user u (view w) \<and> u_email u = js_lower (js_trim email) \<and> u_role u = USER \<and> u_isActive u \<and>
    user_schema u \<and> x = user_summary u \<and> (\<exists>w1 w2. argonHash E password w1 = (Inr (u_passwordHash u), w2))"
proof -
  let ?e = "js_lower (js_trim email)"
  from assms obtain h w1 w2 where f: "findOne (Users B) (\<lambda>u. u_email u = ?e) w = (Inr None, w1)"
    and h: "argonHash E password w1 = (Inr h, w2)"
    and k: "try_catch
            (await (create_valid (Users B) user_schema (new_user name ?e h)) (\<lambda>user. ret (user_summary user)))
            (\<lambda>error. if dbCode error = Some 11000 then throw (AppError ''User already exists'' 409 None)
              else throw error) w2 = (Inr x, w')"
    unfolding register_def Let_def by (auto elim!: await_cases split: if_splits)
  from k obtain u where c: "create_valid (Users B) user_schema (new_user name ?e h) w2 = (Inr u, w')" and x: "x = user_summary u"
    by (auto elim!: try_catch_cases await_cases split: if_splits)
  from c have ok: "user_schema (new_user name ?e h [] 0)" and c': "create (Users B) (new_user name ?e h) w2 = (Inr u, w')"
    by (auto simp: create_valid_def split: if_splits)
  have v2: "view w2 = view w" using keepsD [OF users.findOne_keeps f] keepsD [OF hash_keeps h] by simp
  from users.create_ok [OF c'] obtain i t where u: "db_users (view w) i = None" "u = new_user name ?e h i t"
    "view w' = put_user u (view w)"
    unfolding v2 by (auto simp: put_user_def new_user_def)
  have free: "email_free ?e (view w)"
    using users.findOne_None [OF f] by (auto simp: email_free_def matching_def)
  have "user_schema u" using ok by (simp add: u(2) user_schema_def new_user_def)
  moreover have "u_id u = i" "u_email u = ?e" "u_role u = USER" "u_isActive u" "u_passwordHash u = h"
    by (simp_all add: u(2) new_user_def)
  ultimately show ?thesis using u(1,3) free x h by (intro exI [of _ u]) auto
qed

end

lemma token_names_user:
  assumes "credentials B view E" and "login B E email password w = (Inr (x, token), w1)"
    and "\<forall>i u. db_users (view w) i = Some u \<longrightarrow> u_id u = i \<and> castId E (JStr i) = Some i"
    and "CHR '' '' \<notin> set token" and "token \<noteq> []"
    and "authenticate B E (Some (''Bearer '' @ token)) w2 = (Inr v, w3)"
  shows "\<exists>i u. db_users (view w) i = Some u \<and> u_email u = js_lower (js_trim email) \<and> x = user_summary u \<and>
    signed E token (token_payload u) \<and> db_users (view w2) i = Some v \<and> u_isActive v"
proof -
  obtain i u where u: "db_users (view w) i = Some u" "u_email u = js_lower (js_trim email)" "x = user_summary u" "signed E token (token_payload u)"
    using credentials.login_ok [OF assms(1,2)] by blast
  obtain p j where p: "carries E token p" "castId E (field p ''sub'') = Some j" "db_users (view w2) j = Some v" "u_isActive v"
    using credentials.authenticate_ok [OF assms(1,6)] bearer_token_header [OF assms(4,5)] by auto
  from p(1) obtain q where q: "signed E token q" "field p ''sub'' = field q ''sub''" unfolding carries_def by force
  have "q = token_payload u" by (rule credentials.signed_once [OF assms(1) q(1) u(4)])
  then have "field p ''sub'' = JStr (u_id u)" by (simp add: q(2) token_payload_def)
  with assms(3) u(1) p(2) have "j = i" by auto
  with u p show ?thesis by blast
qed

section \<open>Properties\<close>

text \<open>C38: A login succeeds only for a stored, active user with this email, whose password hash
  accepts the password: if the hash was made of a password, it was this one. The token handed
  out is signed for this user's id and role, the answer shows no hash, and nothing changes.\<close>

theorem login_sound:
  assumes "credentials B view E" and "login B E email password w = (Inr (x, token), w')"
  shows "\<exists>i u. db_users (view w) i = Some u \<and> u_email u = js_lower (js_trim email) \<and> u_isActive u \<and>
    (\<forall>pw w1 w2. argonHash E pw w1 = (Inr (u_passwordHash u), w2) \<longrightarrow> pw = password) \<and>
    signed E token (token_payload u) \<and> x = user_summary u \<and> field x ''passwordHash'' = JUndefined \<and> view w' = view w"
proof -
  obtain i u w1 w2 where u: "db_users (view w) i = Some u" "u_email u = js_lower (js_trim email)" "u_isActive u"
    "x = user_summary u" "signed E token (token_payload u)" "view w' = view w"
    and c: "argonVerify E (u_passwordHash u) password w1 = (Inr True, w2)"
    using credentials.login_ok [OF assms] by blast
  have "pw = password" if "argonHash E pw w3 = (Inr (u_passwordHash u), w4)" for pw w3 w4
    using credentials.check_hash [OF assms(1) that c] by simp
  moreover have "field x ''passwordHash'' = JUndefined" by (simp add: u(4) user_summary_def)
  ultimately show ?thesis using u by blast
qed

text \<open>A registration that succeeds adds one user and changes nothing else: an active account with
  the role USER, whatever the request says, with the normalised email, which no account had
  before, and a hash of the given password; so emails stay unique among the accounts.\<close>

theorem register_sound:
  assumes "credentials B view E" and "register B E name email password w = (Inr x, w')"
  shows "\<exists>u. db_users (view w) (u_id u) = None \<and> view w' = put_user u (view w) \<and> u_role u = USER \<and> u_isActive u \<and>
    u_email u = js_lower (js_trim email) \<and> email_free (u_email u) (view w) \<and> user_schema u \<and>
    (\<exists>w1 w2. argonHash E password w1 = (Inr (u_passwordHash u), w2)) \<and> x = user_summary u \<and>
    (emails_unique (view w) \<longrightarrow> emails_unique (view w'))"
  using credentials.register_ok [OF assms] emails_unique_put_user by metis

text \<open>C39: A request that passes the authentication carries a token signed by this service, and runs
  as the user stored now under the token's subject, who is active: the role it runs with is the
  stored one, never the token's. The guard \<open>authorize(ADMIN)\<close> behind it lets through exactly
  the stored administrators. Nothing is changed.\<close>

theorem authenticate_sound:
  assumes "credentials B view E" and "authenticate B E h w = (Inr u, w')"
  shows "\<exists>a token payload i. h = Some a \<and> bearer_token a = Some token \<and> signed E token payload \<and>
    castId E (field payload ''sub'') = Some i \<and> db_users (view w) i = Some u \<and> u_isActive u \<and>
    (authorize [ADMIN] (Some u) = Inr () \<longleftrightarrow> u_role u = ADMIN) \<and> view w' = view w"
proof -
  obtain a token p i where a: "h = Some a" "bearer_token a = Some token" "carries E token p"
    "castId E (field p ''sub'') = Some i" "db_users (view w) i = Some u" "u_isActive u"
    using credentials.authenticate_ok [OF assms] by blast
  from a(3) obtain q where q: "signed E token q" "field p ''sub'' = field q ''sub''" unfolding carries_def by force
  have "view w' = view w" by (rule keepsD [OF credentials.keeps_authenticate [OF assms(1)] assms(2)])
  with a q show ?thesis by (auto simp: authorize_def)
qed

text \<open>C40: The token of a login authenticates the user who logged in, and no other, as long as the
  user is stored and active: any later request with it either fails or runs as that user.\<close>

theorem login_roundtrip:
  assumes "credentials B view E" and "login B E email password w = (Inr (x, token), w1)"
    and "\<forall>i u. db_users (view w) i = Some u \<longrightarrow> u_id u = i \<and> castId E (JStr i) = Some i"
    and "CHR '' '' \<notin> set token" and "token \<noteq> []"
    and "authenticate B E (Some (''Bearer '' @ token)) w2 = (Inr v, w3)"
  shows "\<exists>i u. db_users (view w) i = Some u \<and> x = user_summary u \<and> db_users (view w2) i = Some v \<and> u_isActive v"
  using token_names_user [OF assms] by blast

text \<open>The optional authentication finds exactly the user the strict one finds, in the same
  state, and where that one refuses the request it goes on without a user instead of failing.\<close>

theorem optionalAuthenticate_agrees:
  "optionalAuthenticate B E h w =
     (case authenticate B E h w of (Inr u, w') \<Rightarrow> (Inr (Some u), w') | (Inl e, w') \<Rightarrow> (Inr None, w'))"
  by (auto simp: optionalAuthenticate_def authenticate_def await_def try_catch_def ret_def throw_def
      split: option.splits prod.splits sum.splits if_splits)


section \<open>Concrete instances\<close>

text \<open>
  Libraries for the examples: a token spells out role and id, the role first, and a hash is the
  marked password. Only payloads of the service's shape are signed.
\<close>

definition plain_sign :: "jsval \<Rightarrow> err + string" where
  "plain_sign p = (case p of
     JObj [(a, JStr s), (b, JStr r)] \<Rightarrow>
       if a = ''sub'' \<and> b = ''role'' \<and> r \<in> {''USER'', ''ADMIN''} \<and> CHR '' '' \<notin> set s then Inr (r @ ''.'' @ s)
       else Inl (plain_error ''payload'')
   | _ \<Rightarrow> Inl (plain_error ''payload''))"

definition plain_verify :: "string \<Rightarrow> err + jsval" where
  "plain_verify t =
     (let r = takeWhile (\<lambda>c. c \<noteq> CHR ''.'') t; s = tl (dropWhile (\<lambda>c. c \<noteq> CHR ''.'') t) in
      if r \<in> {''USER'', ''ADMIN''} \<and> CHR '' '' \<notin> set s \<and> t = r @ ''.'' @ s then Inr (JObj [(''sub'', JStr s), (''role'', JStr r)])
      else Inl (js_error ''JsonWebTokenError'' ''invalid token''))"

definition plain_auth :: "world auth_env" where
  "plain_auth = \<lparr>secret = ''k'', jwtSign = (\<lambda>p k w. (plain_sign p, w)), jwtVerify = (\<lambda>t k w. (plain_verify t, w)),
     argonHash = (\<lambda>pw w. (Inr (CHR ''#'' # pw), w)), argonVerify = (\<lambda>h pw w. (Inr (h = CHR ''#'' # pw), w)),
     castId = (\<lambda>v. case v of JStr s \<Rightarrow> Some s | _ \<Rightarrow> None)\<rparr>"

lemma plain_auth_simps [simp]:
  "secret plain_auth = ''k''" "jwtSign plain_auth p k w = (plain_sign p, w)" "jwtVerify plain_auth t k w = (plain_verify t, w)"
  "argonHash plain_auth pw w = (Inr (CHR ''#'' # pw), w)" "argonVerify plain_auth h pw w = (Inr (h = CHR ''#'' # pw), w)"
  "castId plain_auth (JStr s) = Some s"
  by (simp_all add: plain_auth_def)

lemma plain_sign_ok:
  "plain_sign p = Inr t \<longleftrightarrow> (\<exists>r s. r \<in> {''USER'', ''ADMIN''} \<and> CHR '' '' \<notin> set s \<and> p = JObj [(''sub'', JStr s), (''role'', JStr r)] \<and> t = r @ ''.'' @ s)"
  by (auto simp: plain_sign_def split: jsval.splits list.splits if_splits)

lemma plain_verify_ok: "plain_verify t = Inr p \<Longrightarrow> plain_sign p = Inr t"
  unfolding plain_sign_ok plain_verify_def Let_def by (auto split: if_splits)

interpretation plain: credentials "mem_backend accept_all q" world_view plain_auth for q
proof (intro credentials.intro credentials_axioms.intro)
  show "database (mem_backend accept_all q) world_view" by (rule mem_accept.database_axioms)
next
  fix t p w w'
  assume "jwtVerify plain_auth t (secret plain_auth) w = (Inr p, w')"
  then have "plain_sign p = Inr t" using plain_verify_ok by simp
  then show "carries plain_auth t p" by (auto simp: carries_def signed_def)
next
  fix t p q'
  assume "signed plain_auth t p" "signed plain_auth t q'"
  then show "p = q'" by (auto simp: signed_def plain_sign_ok)
qed (auto simp: keeps_def plain_auth_def)

definition login_world :: world where
  "login_world = full_world\<lparr>w_users := [(''u'', sample_user\<lparr>u_passwordHash := ''#secret-1''\<rparr>), (''a'', sample_admin)]\<rparr>"

lemma sample_email: "js_lower (js_trim '' ANN@x.org'') = ''ann@x.org''"
  by code_simp

lemma sample_login:
  "login (mem_backend accept_all True) plain_auth '' ANN@x.org'' ''secret-1'' login_world =
     (Inr (user_summary (sample_user\<lparr>u_passwordHash := ''#secret-1''\<rparr>), ''USER.u''), login_world)"
proof -
  have "find (\<lambda>u. u_email u = ''ann@x.org'') (alist_docs (w_users login_world)) = Some (sample_user\<lparr>u_passwordHash := ''#secret-1''\<rparr>)"
    by code_simp
  then show ?thesis
    by (simp add: login_def sample_email mem_coll_def await_def generateToken_def token_payload_def plain_sign_def sample_user_def)
qed

theorem login_sound_witness:
  "\<exists>x t w'. login (mem_backend accept_all True) plain_auth '' ANN@x.org'' ''secret-1'' login_world = (Inr (x, t), w') \<and>
     field x ''passwordHash'' = JUndefined"
  using login_sound [OF plain.credentials_axioms sample_login] sample_login by blast

theorem login_roundtrip_witness:
  "\<exists>v w'. authenticate (mem_backend accept_all True) plain_auth (Some (''Bearer '' @ ''USER.u'')) login_world = (Inr v, w') \<and>
     u_isActive v"
proof -
  have "(case authenticate (mem_backend accept_all True) plain_auth (Some (''Bearer '' @ ''USER.u'')) login_world of
      (Inr x, w) \<Rightarrow> True | _ \<Rightarrow> False)" by code_simp
  then obtain v w' where run:
    "authenticate (mem_backend accept_all True) plain_auth (Some (''Bearer '' @ ''USER.u'')) login_world = (Inr v, w')"
    by (auto split: prod.splits sum.splits)
  have ids: "\<forall>i u. db_users (world_view login_world) i = Some u \<longrightarrow> u_id u = i \<and> castId plain_auth (JStr i) = Some i"
    by (auto simp: world_view_def login_world_def sample_user_def sample_admin_def split: if_splits)
  have "CHR '' '' \<notin> set ''USER.u''" "''USER.u'' \<noteq> []" by simp_all
  from login_roundtrip [OF plain.credentials_axioms sample_login ids this run] run show ?thesis by blast
qed

theorem authenticate_sound_witness:
  "\<exists>v w'. authenticate (mem_backend accept_all True) plain_auth (Some ''Bearer ADMIN.a'') login_world = (Inr v, w') \<and>
     world_view w' = world_view login_world"
proof -
  have "(case authenticate (mem_backend accept_all True) plain_auth (Some ''Bearer ADMIN.a'') login_world of
      (Inr x, w) \<Rightarrow> True | _ \<Rightarrow> False)" by code_simp
  then obtain v w' where run:
    "authenticate (mem_backend accept_all True) plain_auth (Some ''Bearer ADMIN.a'') login_world = (Inr v, w')"
    by (auto split: prod.splits sum.splits)
  from authenticate_sound [OF plain.credentials_axioms run] run show ?thesis by blast
qed

theorem register_sound_witness:
  "\<exists>x w' u. register (mem_backend accept_all True) plain_auth ''Bob'' ''Bob@x.org'' ''password'' login_world = (Inr x, w') \<and>
     db_users (world_view w') (u_id u) = Some u \<and> u_role u = USER"
proof -
  have "(case register (mem_backend accept_all True) plain_auth ''Bob'' ''Bob@x.org'' ''password'' login_world of
      (Inr x, w) \<Rightarrow> True | _ \<Rightarrow> False)" by code_simp
  then obtain x w' where run:
    "register (mem_backend accept_all True) plain_auth ''Bob'' ''Bob@x.org'' ''password'' login_world = (Inr x, w')"
    by (auto split: prod.splits sum.splits)
  from register_sound [OF plain.credentials_axioms run] run show ?thesis by (auto simp: put_user_def)
qed

end
