(* ===== verification/Pagination.thy ===== *)
theory Pagination
  imports Models
begin

text \<open>
  The query parameters \<open>page\<close> and \<open>limit\<close> of the list endpoints, and the pagination
  block of their answers. The same four lines stand in the submission, problem, user and audit
  services. Express parses a query string into strings, arrays and objects.
\<close>

section \<open>Query parameters\<close>

text \<open>
  \<open>parseInt(v, 10)\<close> reads \<open>String(v)\<close>. An array is joined by commas, which end the
  number, so its first element decides; an object reads \<open>[object Object]\<close>. A number is
  truncated (exact from 1e-6 up to 1e21 in magnitude, where its text has no exponent).
\<close>

fun parse_int_value :: "jsval \<Rightarrow> int option" where
  "parse_int_value (JStr s) = js_parse_int s"
| "parse_int_value (JArr (v # vs)) = parse_int_value v"
| "parse_int_value (JNum (Finite r)) = Some (if r < 0 then - \<lfloor>- r\<rfloor> else \<lfloor>r\<rfloor>)"
| "parse_int_value v = None"

text \<open>\<open>parseInt(v, 10) || d\<close>: neither NaN nor zero is kept.\<close>

definition int_or :: "jsval \<Rightarrow> int \<Rightarrow> int" where
  "int_or v d = (case parse_int_value v of None \<Rightarrow> d | Some n \<Rightarrow> if n = 0 then d else n)"

definition page_of :: "jsval \<Rightarrow> nat" where
  "page_of q = nat (max (int_or (field q ''page'') 1) 1)"

definition limit_of :: "jsval \<Rightarrow> nat" where
  "limit_of q = nat (min (max (int_or (field q ''limit'') 20) 1) 100)"

definition skip_of :: "jsval \<Rightarrow> nat" where
  "skip_of q = (page_of q - 1) * limit_of q"

record pagination =
  pg_page :: nat
  pg_limit :: nat
  pg_total :: nat
  pg_totalPages :: nat

text \<open>\<open>Math.ceil(total / limit) || 1\<close>; the limit is at least one.\<close>

definition total_pages :: "nat \<Rightarrow> nat \<Rightarrow> nat" where
  "total_pages n l = (let k = (n + l - 1) div l in if k = 0 then 1 else k)"

definition paginate :: "jsval \<Rightarrow> nat \<Rightarrow> pagination" where
  "paginate q n = \<lparr>pg_page = page_of q, pg_limit = limit_of q, pg_total = n,
     pg_totalPages = total_pages n (limit_of q)\<rparr>"

lemma paginate_simps [simp]:
  "pg_page (paginate q n) = page_of q" "pg_limit (paginate q n) = limit_of q"
  "pg_total (paginate q n) = n" "pg_totalPages (paginate q n) = total_pages n (limit_of q)"
  by (simp_all add: paginate_def)

lemma page_of_pos: "1 \<le> page_of q"
  by (simp add: page_of_def)

lemma limit_of_bounds: "1 \<le> limit_of q \<and> limit_of q \<le> 100"
  by (auto simp: limit_of_def max_def min_def)

lemma total_pages_cover:
  assumes "0 < l"
  shows "n \<le> total_pages n l * l"
proof (cases "n = 0")
  case False
  have "n + l - 1 = (n + l - 1) div l * l + (n + l - 1) mod l" by simp
  moreover have "(n + l - 1) mod l \<le> l - 1" using mod_less_divisor [OF assms, of "n + l - 1"] by linarith
  ultimately have "n \<le> (n + l - 1) div l * l" using assms by linarith
  moreover have "(n + l - 1) div l \<noteq> 0" using assms False by (simp add: div_eq_0_iff)
  ultimately show ?thesis by (simp add: total_pages_def)
qed simp

lemma total_pages_tight:
  assumes "0 < l"
  shows "(total_pages n l - 1) * l \<le> n - 1"
proof -
  have "((n + l - 1) div l) * l \<le> n + l - 1" by simp
  then have "((n + l - 1) div l) * l - l \<le> n + l - 1 - l" by (rule diff_le_mono)
  then have "((n + l - 1) div l - 1) * l \<le> n + l - 1 - l" by (simp add: diff_mult_distrib)
  also have "\<dots> = n - 1" using assms by simp
  finally show ?thesis by (simp add: total_pages_def Let_def)
qed

section \<open>Decimal numerals\<close>

lemma digits_value_snoc: "digits_value (ds @ [c]) = 10 * digits_value ds + (code_unit c - 48)"
  by (simp add: digits_value_def)

lemma code_unit_digit: "d < 10 \<Longrightarrow> code_unit (char_of (48 + d)) = 48 + d"
  by (simp add: code_unit_def)

lemma digits_of_props:
  "digits_of n \<noteq> [] \<and> (\<forall>c\<in>set (digits_of n). is_digit c) \<and> digits_value (digits_of n) = n"
proof (induction n rule: digits_of.induct)
  case (1 n)
  have digit: "is_digit (char_of (48 + d))" if "d < 10" for d :: nat
    using that by (simp add: is_digit_def code_unit_digit)
  show ?case
  proof (cases "n < 10")
    case True
    then show ?thesis
      by (simp add: digits_of.simps [of n] digit digits_value_def code_unit_digit)
  next
    case False
    with 1 show ?thesis
      by (simp add: digits_of.simps [of n] digits_value_snoc code_unit_digit digit)
  qed
qed

lemma digit_chars: "is_digit c \<Longrightarrow> \<not> is_ws c \<and> c \<noteq> CHR ''-'' \<and> c \<noteq> CHR ''+''"
  by (auto simp: is_digit_def is_ws_def code_unit_def)

lemma js_parse_int_digits: "js_parse_int (digits_of n) = Some (int n)"
proof -
  obtain c r where cr: "digits_of n = c # r" using digits_of_props [of n] by (cases "digits_of n") auto
  then have c: "is_digit c" using digits_of_props [of n] by auto
  have "takeWhile is_digit (digits_of n) = digits_of n"
    using digits_of_props [of n] by (simp add: takeWhile_eq_all_conv)
  with c cr have r: "takeWhile is_digit r = r" by simp
  have "digits_value (c # r) = n" using digits_of_props [of n] cr by simp
  with c cr r digit_chars [OF c] show ?thesis
    by (simp add: js_parse_int_def js_trim_start_def Let_def takeWhile_eq_all_conv [THEN iffD2])
qed

section \<open>The pages of a result\<close>

text \<open>The query \<open>?page=p&limit=l\<close>.\<close>

definition page_query :: "nat \<Rightarrow> jsval \<Rightarrow> jsval" where
  "page_query p l = JObj [(''page'', JStr (digits_of p)), (''limit'', l)]"

lemma page_query_window:
  assumes "0 < p"
  shows "page_of (page_query p l) = p" and "limit_of (page_query p l) = limit_of (page_query 1 l)"
    and "skip_of (page_query p l) = (p - 1) * limit_of (page_query 1 l)"
proof -
  show p: "page_of (page_query p l) = p"
    using assms by (simp add: page_of_def page_query_def int_or_def js_parse_int_digits)
  show l: "limit_of (page_query p l) = limit_of (page_query 1 l)"
    by (simp add: limit_of_def page_query_def)
  show "skip_of (page_query p l) = (p - 1) * limit_of (page_query 1 l)"
    unfolding skip_of_def p l ..
qed

text \<open>C34: Asked for page 1, 2, ... up to the \<open>totalPages\<close> of the answer, with any value
  of \<open>limit\<close> in the query, the windows \<open>skip\<close> and \<open>limit\<close> put together give every
  result exactly once and in order; each window has between one and a hundred places.\<close>

theorem pages_tile:
  "concat (map (\<lambda>p. slice (skip_of (page_query p l)) (Some (limit_of (page_query p l))) xs)
     [1..<Suc (pg_totalPages (paginate (page_query k l) (length xs)))]) = xs \<and>
   1 \<le> limit_of q \<and> limit_of q \<le> 100"
proof -
  let ?l = "limit_of (page_query 1 l)"
  let ?n = "total_pages (length xs) ?l"
  let ?win = "\<lambda>p. slice (skip_of (page_query p l)) (Some (limit_of (page_query p l))) xs"
  have pos: "0 < ?l" using limit_of_bounds [of "page_query 1 l"] by linarith
  have win: "?win (Suc p) = slice (p * ?l) (Some ?l) xs" for p
    using page_query_window [of "Suc p" l] by simp
  have "map ?win [1..<Suc ?n] = map (\<lambda>p. ?win (Suc p)) [0..<?n]"
    unfolding map_Suc_upt [symmetric] map_map comp_def One_nat_def ..
  then have "concat (map ?win [1..<Suc ?n]) = take (?n * ?l) xs"
    unfolding win by (simp only: concat_slices [OF pos])
  also have "\<dots> = xs" by (rule take_all) (rule total_pages_cover [OF pos])
  finally have "concat (map ?win [1..<Suc ?n]) = xs" .
  moreover have "limit_of (page_query k l) = ?l" by (simp add: limit_of_def page_query_def)
  ultimately show ?thesis using limit_of_bounds [of q] by (simp only: paginate_simps)
qed

end
