(* ===== verification/AuditLog.thy ===== *)
theory AuditLog
  imports Backing Pagination
begin

text \<open>
  The audit log (\<open>modules/audit/audit-log.service.js\<close>): writing an entry, which never fails
  the action it records, and the filtered pages shown to administrators.
\<close>

section \<open>Texts of the model's enumerations\<close>

fun action_name :: "audit_action \<Rightarrow> string" where
  "action_name PROBLEM_CREATED = ''PROBLEM_CREATED''"
| "action_name PROBLEM_UPDATED = ''PROBLEM_UPDATED''"
| "action_name PROBLEM_DELETED = ''PROBLEM_DELETED''"
| "action_name TEST_CASE_CREATED = ''TEST_CASE_CREATED''"
| "action_name TEST_CASE_UPDATED = ''TEST_CASE_UPDATED''"
| "action_name TEST_CASE_DELETED = ''TEST_CASE_DELETED''"

fun target_name :: "audit_target \<Rightarrow> string" where
  "target_name Problem_target = ''Problem''"
| "target_name TestCase_target = ''TestCase''"

section \<open>logAuditAction\<close>

definition logAuditAction ::
  "'w backend \<Rightarrow> oid \<Rightarrow> audit_action \<Rightarrow> audit_target \<Rightarrow> oid \<Rightarrow> jsval \<Rightarrow> string option \<Rightarrow> ('w, audit_log option) io" where
  "logAuditAction B userId action targetType targetId details ip =
     try_catch
       (await (create (AuditLogs B) (\<lambda>i t. \<lparr>a_id = i, a_userId = userId, a_action = action,
            a_targetType = targetType, a_targetId = targetId, a_details = details, a_ip = ip, a_createdAt = t\<rparr>))
          (\<lambda>log. ret (Some log)))
       (\<lambda>err. ret None)"

text \<open>An audit write moves nothing but the log.\<close>

definition audit_grows :: "db \<Rightarrow> db \<Rightarrow> bool" where
  "audit_grows v v' \<longleftrightarrow> v' = v\<lparr>db_auditLogs := db_auditLogs v'\<rparr> \<and> db_auditLogs v \<subseteq>\<^sub>m db_auditLogs v'"

lemma reflp_audit_grows [simp]: "reflp audit_grows"
  by (rule reflpI) (simp add: audit_grows_def)

lemma transp_audit_grows [simp]: "transp audit_grows"
proof (rule transpI)
  fix u v w
  assume "audit_grows u v" "audit_grows v w"
  then show "audit_grows u w"
    unfolding audit_grows_def by (cases u; cases v; cases w) (auto intro: map_le_trans)
qed

lemma audit_growsD:
  assumes "audit_grows v v'"
  shows "db_users v' = db_users v" "db_problems v' = db_problems v" "db_testCases v' = db_testCases v"
    "db_submissions v' = db_submissions v"
  using assms unfolding audit_grows_def by (cases v; cases v'; simp)+

context database
begin

lemma logAuditAction_effect:
  assumes "logAuditAction B u a k i d ip w = (r, w')"
  shows "(\<exists>x. r = Inr x) \<and> audit_grows (view w) (view w')"
proof -
  have "audit_grows v (db_auditLogs_update (\<lambda>m. m(j \<mapsto> l)) v)" if "db_auditLogs v j = None" for v j l
    using that by (auto simp: audit_grows_def map_le_def dom_def)
  then have "audit_grows (view w) (view s)" if "create (AuditLogs B) mk w = (x, s)" for mk x s
    using auditLogs.create_view_cases [OF that] reflpD [OF reflp_audit_grows] by metis
  with assms show ?thesis
    unfolding logAuditAction_def by (auto elim!: await_cases try_catch_cases)
qed


end

section \<open>getAuditLogs\<close>

text \<open>
  A query parameter that is given becomes a condition on one path; \<open>queryValue path v\<close> is the
  object mapper's and database's reading of it: a CastError or the values it matches (a string
  matches itself; an object may hold query operators).
\<close>

definition path_filter :: "(string \<Rightarrow> jsval \<Rightarrow> err + (string \<Rightarrow> bool)) \<Rightarrow> jsval \<Rightarrow> string \<Rightarrow> err + (string \<Rightarrow> bool)" where
  "path_filter queryValue q path =
     (if truthy (field q path) then queryValue path (field q path) else Inr (\<lambda>_. True))"

definition audit_filter ::
  "(string \<Rightarrow> jsval \<Rightarrow> err + (string \<Rightarrow> bool)) \<Rightarrow> jsval \<Rightarrow> err + (audit_log \<Rightarrow> bool)" where
  "audit_filter queryValue q =
     (case (path_filter queryValue q ''action'', path_filter queryValue q ''targetType'',
            path_filter queryValue q ''targetId'', path_filter queryValue q ''userId'') of
        (Inr a, Inr k, Inr i, Inr u) \<Rightarrow> Inr (\<lambda>l. a (action_name (a_action l)) \<and>
          k (target_name (a_targetType l)) \<and> i (a_targetId l) \<and> u (a_userId l))
      | (Inl e, _) \<Rightarrow> Inl e
      | (_, Inl e, _) \<Rightarrow> Inl e
      | (_, _, Inl e, _) \<Rightarrow> Inl e
      | (_, _, _, Inl e) \<Rightarrow> Inl e)"

definition newest_log_first :: "audit_log \<Rightarrow> audit_log \<Rightarrow> bool" where
  "newest_log_first a b \<longleftrightarrow> a_createdAt b \<le> a_createdAt a"

text \<open>\<open>populate('userId', 'name email')\<close> replaces the id by the user found in one query, or null.\<close>

definition audit_entry :: "user list \<Rightarrow> audit_log \<Rightarrow> jsval" where
  "audit_entry us l =
     (let populated = find (\<lambda>u. u_id u = a_userId l) us in JObj
       [(''id'', JStr (a_id l)),
        (''userId'', (case populated of Some u \<Rightarrow> JStr (u_id u) | None \<Rightarrow> JNull)),
        (''user'', (case populated of
           Some u \<Rightarrow> JObj [(''id'', JStr (u_id u)), (''name'', JStr (u_name u)), (''email'', JStr (u_email u))]
         | None \<Rightarrow> JNull)),
        (''action'', JStr (action_name (a_action l))), (''targetType'', JStr (target_name (a_targetType l))),
        (''targetId'', JStr (a_targetId l)), (''details'', a_details l), (''ip'', js_opt JStr (a_ip l)),
        (''createdAt'', js_int (a_createdAt l))])"

definition getAuditLogs ::
  "'w backend \<Rightarrow> (string \<Rightarrow> jsval \<Rightarrow> err + (string \<Rightarrow> bool)) \<Rightarrow> jsval \<Rightarrow> ('w, jsval list \<times> pagination) io" where
  "getAuditLogs B queryValue q =
     (case audit_filter queryValue q of
        Inl e \<Rightarrow> throw e
      | Inr P \<Rightarrow>
          await (findMany (AuditLogs B) P newest_log_first (skip_of q) (Some (limit_of q))) (\<lambda>logs.
          await (findMany (Users B) (\<lambda>u. u_id u \<in> set (map a_userId logs)) (\<lambda>_ _. True) 0 None) (\<lambda>us.
          await (countDocuments (AuditLogs B) P) (\<lambda>n.
          ret (map (audit_entry us) logs, paginate q n)))))"

lemma total_preorder_newest_log_first [simp]: "total_preorder newest_log_first"
  by (auto simp: total_preorder_def newest_log_first_def)

lemma audit_entry_id [simp]: "field (audit_entry us l) ''id'' = JStr (a_id l)"
  by (simp add: audit_entry_def Let_def)

section \<open>Properties\<close>

text \<open>Recording an administrative action never throws, so it cannot fail the action it
  records; all it may do to the database is to add entries to the audit log, where nothing is
  changed or lost.\<close>

theorem logAuditAction_silent:
  assumes "database B view" and "logAuditAction B u a k i d ip w = (r, w')"
  shows "(\<exists>x. r = Inr x) \<and> view w' = (view w)\<lparr>db_auditLogs := db_auditLogs (view w')\<rparr> \<and>
    db_auditLogs (view w) \<subseteq>\<^sub>m db_auditLogs (view w')"
  using database.logAuditAction_effect [OF assms] by (simp add: audit_grows_def)

text \<open>A page of the audit log holds the entries of the requested window of all matching
  entries, newest first, and the pagination block counts all of them; reading changes nothing.\<close>

theorem getAuditLogs_page:
  assumes "database B view" and "getAuditLogs B qv q w = (Inr (xs, pg), w')"
  shows "\<exists>P ls. audit_filter qv q = Inr P \<and> listing P (db_auditLogs (view w)) ls \<and> sorted_wrt newest_log_first ls \<and>
    map (\<lambda>x. field x ''id'') xs = map (JStr \<circ> a_id) (slice (skip_of q) (Some (limit_of q)) ls) \<and>
    pg = paginate q (length ls) \<and> view w' = view w"
proof -
  have logs: "collection (AuditLogs B) view db_auditLogs db_auditLogs_update"
    and users: "collection (Users B) view db_users db_users_update"
    using assms(1) by (simp_all add: database_def)
  from assms(2) obtain P ls us n w1 w2 where P: "audit_filter qv q = Inr P" and
    f: "findMany (AuditLogs B) P newest_log_first (skip_of q) (Some (limit_of q)) w = (Inr ls, w1)" and
    u: "findMany (Users B) (\<lambda>u. u_id u \<in> set (map a_userId ls)) (\<lambda>_ _. True) 0 None w1 = (Inr us, w2)" and
    c: "countDocuments (AuditLogs B) P w2 = (Inr n, w')" and
    x: "xs = map (audit_entry us) ls" "pg = paginate q n"
    by (auto simp: getAuditLogs_def elim!: await_cases split: sum.splits)
  obtain all where all: "listing P (db_auditLogs (view w)) all" "sorted_wrt newest_log_first all"
      "ls = slice (skip_of q) (Some (limit_of q)) all"
    using collection.findMany_result [OF logs total_preorder_newest_log_first f] by blast
  have "view w2 = view w"
    using keepsD [OF collection.findMany_keeps [OF logs] f] keepsD [OF collection.findMany_keeps [OF users] u] by simp
  then have "n = length all" "view w' = view w"
    using collection.countDocuments_result [OF logs c] listing_length [OF all(1)]
      keepsD [OF collection.countDocuments_keeps [OF logs] c] by simp_all
  with P all x show ?thesis by (auto simp: comp_def)
qed

section \<open>Concrete instances\<close>

definition text_query :: "string \<Rightarrow> jsval \<Rightarrow> err + (string \<Rightarrow> bool)" where
  "text_query path v = (case v of JStr s \<Rightarrow> Inr (\<lambda>t. t = s) | _ \<Rightarrow> Inl (js_error ''CastError'' ''Cast failed''))"

theorem logAuditAction_silent_witness:
  "\<exists>r w'. logAuditAction (mem_backend accept_all True) ''a'' PROBLEM_DELETED Problem_target ''p'' (JObj []) None full_world = (r, w') \<and>
     (\<exists>x. r = Inr x) \<and> db_problems (world_view w') = db_problems (world_view full_world)"
proof -
  obtain r w' where run: "logAuditAction (mem_backend accept_all True) ''a'' PROBLEM_DELETED Problem_target ''p''
      (JObj []) None full_world = (r, w')" by fastforce
  have ex: "\<exists>x. r = Inr x" and v: "world_view w' = (world_view full_world)\<lparr>db_auditLogs := db_auditLogs (world_view w')\<rparr>"
    using logAuditAction_silent [OF mem_accept.database_axioms run] by blast+
  have "db_problems (world_view w') = db_problems (world_view full_world)" by (subst v) simp
  with run ex show ?thesis by blast
qed

theorem getAuditLogs_page_witness:
  "\<exists>xs pg w'. getAuditLogs (mem_backend accept_all True) text_query (JObj [(''action'', JStr ''PROBLEM_CREATED'')]) full_world
     = (Inr (xs, pg), w') \<and> pg_totalPages pg = total_pages (pg_total pg) 20"
proof -
  have "(case getAuditLogs (mem_backend accept_all True) text_query (JObj [(''action'', JStr ''PROBLEM_CREATED'')]) full_world of
      (Inr x, w) \<Rightarrow> True | _ \<Rightarrow> False)" by code_simp
  then obtain xs pg w' where run: "getAuditLogs (mem_backend accept_all True) text_query
      (JObj [(''action'', JStr ''PROBLEM_CREATED'')]) full_world = (Inr (xs, pg), w')"
    by (auto split: prod.splits sum.splits)
  have "limit_of (JObj [(''action'', JStr ''PROBLEM_CREATED'')]) = 20"
    by (simp add: limit_of_def int_or_def)
  with getAuditLogs_page [OF mem_accept.database_axioms run] run show ?thesis by auto
qed

end
