(* ===== verification/Problems.thy ===== *)
theory Problems
  imports AuditLog
begin

text \<open>
  Problems (\<open>modules/problems/problem.validation.js\<close>, \<open>problem.service.js\<close>): the
  validation of request bodies, readiness, creation, update, soft deletion and listing.
  \<open>user = None\<close> is a call without an authenticated user.
\<close>

section \<open>problem.validation.js\<close>

definition VALID_DIFFICULTIES :: "string list" where
  "VALID_DIFFICULTIES = [''EASY'', ''MEDIUM'', ''HARD'']"

definition validateProblemId :: "(jsval \<Rightarrow> oid option) \<Rightarrow> jsval \<Rightarrow> err + unit" where
  "validateProblemId castId problemId =
     (if \<not> truthy problemId \<or> castId problemId = None
      then Inl (AppError ''Invalid problem ID format'' 400 None) else Inr ())"

text \<open>\<open>typeof v !== 'string' || v.trim().length === 0\<close>; a missing value is no string.\<close>

definition blank :: "jsval \<Rightarrow> bool" where
  "blank v = (case as_string v of None \<Rightarrow> True | Some s \<Rightarrow> js_trim s = [])"

definition text_of :: "jsval \<Rightarrow> string" where
  "text_of v = (case v of JStr s \<Rightarrow> s | _ \<Rightarrow> [])"

definition items_of :: "jsval \<Rightarrow> jsval list" where
  "items_of v = (case v of JArr vs \<Rightarrow> vs | _ \<Rightarrow> [])"

definition valid_difficulty :: "jsval \<Rightarrow> bool" where
  "valid_difficulty v = (case as_string v of None \<Rightarrow> False | Some s \<Rightarrow> s \<in> set VALID_DIFFICULTIES)"

definition bad_example :: "jsval \<Rightarrow> bool" where
  "bad_example ex \<longleftrightarrow> \<not> truthy ex \<or> \<not> is_object ex \<or>
     as_string (field ex ''input'') = None \<or> as_string (field ex ''output'') = None"

text \<open>The loop over the examples: the index of the first one that is refused.\<close>

fun first_bad :: "nat \<Rightarrow> jsval list \<Rightarrow> nat option" where
  "first_bad i [] = None"
| "first_bad i (ex # exs) = (if bad_example ex then Some i else first_bad (Suc i) exs)"

definition check_examples :: "jsval \<Rightarrow> err + unit" where
  "check_examples examples =
     (if items_of examples = [] then Inl (AppError ''Examples must be a non-empty array'' 400 None)
      else case first_bad 0 (items_of examples) of
        Some i \<Rightarrow> Inl (AppError (''Example at index '' @ show_int (int i) @ '' must contain string input and output'') 400 None)
      | None \<Rightarrow> Inr ())"

definition clean_tags :: "jsval \<Rightarrow> jsval" where
  "clean_tags tags = JArr (map JStr (filter (\<lambda>t. t \<noteq> []) (map (\<lambda>t. js_trim (text_of t)) (items_of tags))))"

definition clean_example :: "jsval \<Rightarrow> jsval" where
  "clean_example ex = JObj [(''input'', field ex ''input''), (''output'', field ex ''output'')]"

definition trimmed :: "jsval \<Rightarrow> jsval" where
  "trimmed v = JStr (js_trim (text_of v))"

definition problem_server_fields :: "string list" where
  "problem_server_fields = [''authorId'', ''isActive'', ''createdAt'', ''updatedAt'', ''id'', ''_id'']"

definition validateCreateProblem :: "jsval \<Rightarrow> err + jsval" where
  "validateCreateProblem body =
     (let title = field body ''title''; description = field body ''description'';
          difficulty = field body ''difficulty''; tags = field body ''tags'';
          inputFormat = field body ''inputFormat''; outputFormat = field body ''outputFormat'';
          constraints = field body ''constraints''; examples = field body ''examples'' in
      if blank title then Inl (AppError ''Title is required and must not be empty'' 400 None)
      else if 200 < length (js_trim (text_of title)) then Inl (AppError ''Title cannot exceed 200 characters'' 400 None)
      else if blank description then Inl (AppError ''Description is required and must not be empty'' 400 None)
      else if \<not> valid_difficulty difficulty then Inl (AppError ''Difficulty must be one of: EASY, MEDIUM, HARD'' 400 None)
      else if tags \<noteq> JUndefined \<and> as_array tags = None then Inl (AppError ''Tags must be an array of strings'' 400 None)
      else if blank inputFormat then Inl (AppError ''Input format is required'' 400 None)
      else if blank outputFormat then Inl (AppError ''Output format is required'' 400 None)
      else if blank constraints then Inl (AppError ''Constraints are required'' 400 None)
      else case check_examples examples of
        Inl e \<Rightarrow> Inl e
      | Inr _ \<Rightarrow> Inr (del_fields problem_server_fields
          (set_field ''examples'' (JArr (map clean_example (items_of examples)))
          (set_field ''constraints'' (trimmed constraints)
          (set_field ''outputFormat'' (trimmed outputFormat)
          (set_field ''inputFormat'' (trimmed inputFormat)
          (set_field ''tags'' (clean_tags tags)
          (set_field ''difficulty'' difficulty
          (set_field ''description'' (trimmed description)
          (set_field ''title'' (trimmed title) body)))))))))) "

text \<open>
  The update: each given field is checked and rewritten in turn. \<open>rewrite k f\<close> is the step
  of one field, skipped when it is undefined.
\<close>

definition allowed_fields :: "string list" where
  "allowed_fields = [''title'', ''description'', ''difficulty'', ''tags'', ''inputFormat'', ''outputFormat'',
     ''constraints'', ''examples'']"

definition rewrite :: "string \<Rightarrow> (jsval \<Rightarrow> err + jsval) \<Rightarrow> err + jsval \<Rightarrow> err + jsval" where
  "rewrite k f r = (case r of
     Inl e \<Rightarrow> Inl e
   | Inr body \<Rightarrow>
       if field body k = JUndefined then Inr body
       else case f (field body k) of Inl e \<Rightarrow> Inl e | Inr v \<Rightarrow> Inr (set_field k v body))"

definition nonempty_text :: "string \<Rightarrow> jsval \<Rightarrow> err + jsval" where
  "nonempty_text what v =
     (if blank v then Inl (AppError (what @ '' must be a non-empty string'') 400 None) else Inr (trimmed v))"

definition update_title :: "jsval \<Rightarrow> err + jsval" where
  "update_title v =
     (if blank v then Inl (AppError ''Title must be a non-empty string'' 400 None)
      else if 200 < length (js_trim (text_of v)) then Inl (AppError ''Title cannot exceed 200 characters'' 400 None)
      else Inr (trimmed v))"

definition update_difficulty :: "jsval \<Rightarrow> err + jsval" where
  "update_difficulty v =
     (if valid_difficulty v then Inr v else Inl (AppError ''Difficulty must be one of: EASY, MEDIUM, HARD'' 400 None))"

definition update_tags :: "jsval \<Rightarrow> err + jsval" where
  "update_tags v =
     (if as_array v = None then Inl (AppError ''Tags must be an array of strings'' 400 None) else Inr (clean_tags v))"

definition update_examples :: "jsval \<Rightarrow> err + jsval" where
  "update_examples v = (case check_examples v of Inl e \<Rightarrow> Inl e | Inr _ \<Rightarrow> Inr v)"

text \<open>The body of a PATCH request is an object, as the body parser leaves it.\<close>

definition validateUpdateProblem :: "jsval \<Rightarrow> err + jsval" where
  "validateUpdateProblem body0 =
     (let body = del_fields problem_server_fields body0 in
      if filter (\<lambda>k. k \<in> set allowed_fields) (keys_of body) = [] then
        Inl (AppError ''At least one valid field must be provided for update'' 400 None)
      else
        rewrite ''examples'' update_examples
        (rewrite ''constraints'' (nonempty_text ''Constraints'')
        (rewrite ''outputFormat'' (nonempty_text ''Output format'')
        (rewrite ''inputFormat'' (nonempty_text ''Input format'')
        (rewrite ''tags'' update_tags
        (rewrite ''difficulty'' update_difficulty
        (rewrite ''description'' (nonempty_text ''Description'')
        (rewrite ''title'' update_title (Inr body)))))))))"

section \<open>Readiness\<close>

record problem_readiness =
  pr_isReady :: bool
  pr_publicCount :: nat
  pr_hiddenCount :: nat
  pr_totalCount :: nat
  pr_missing :: "string list"

definition readiness_of :: "nat \<Rightarrow> nat \<Rightarrow> problem_readiness" where
  "readiness_of publicCount hiddenCount =
     (let totalCount = publicCount + hiddenCount in
      \<lparr>pr_isReady = (0 < totalCount \<and> 0 < publicCount), pr_publicCount = publicCount,
       pr_hiddenCount = hiddenCount, pr_totalCount = totalCount,
       pr_missing = (if publicCount = 0 then [''Missing active public test cases''] else []) @
         (if hiddenCount = 0 then [''Missing active hidden test cases''] else []) @
         (if totalCount = 0 then [''No active test cases configured''] else [])\<rparr>)"

text \<open>The loop over the groups, by visibility.\<close>

definition add_count :: "nat \<times> nat \<Rightarrow> string list \<times> nat \<Rightarrow> nat \<times> nat" where
  "add_count c e = (case (c, e) of ((p, h), (k, n)) \<Rightarrow>
     (if k = [''PUBLIC''] then n else p, if k = [''HIDDEN''] then n else h))"

definition getProblemReadiness :: "'w backend \<Rightarrow> oid \<Rightarrow> ('w, problem_readiness) io" where
  "getProblemReadiness B problemId =
     await (groupCount (TestCases B) (activeTests problemId) (\<lambda>t. [visibility_name (t_visibility t)])) (\<lambda>counts.
       case foldl add_count (0, 0) counts of (publicCount, hiddenCount) \<Rightarrow> ret (readiness_of publicCount hiddenCount))"

definition readiness_json :: "problem_readiness \<Rightarrow> jsval" where
  "readiness_json r = JObj
     [(''isReady'', JBool (pr_isReady r)), (''publicCount'', js_int (int (pr_publicCount r))),
      (''hiddenCount'', js_int (int (pr_hiddenCount r))), (''totalCount'', js_int (int (pr_totalCount r))),
      (''missingRequirements'', JArr (map JStr (pr_missing r)))]"

section \<open>Creating and changing a problem\<close>

fun difficulty_of :: "string \<Rightarrow> difficulty" where
  "difficulty_of s = (if s = ''MEDIUM'' then MEDIUM else if s = ''HARD'' then HARD else EASY)"

definition example_of :: "jsval \<Rightarrow> string \<times> string" where
  "example_of ex = (text_of (field ex ''input''), text_of (field ex ''output''))"

text \<open>
  Setting one field of a document, with the casts and \<open>trim: true\<close> of the schema. The data
  have passed the validation; a difficulty outside the enumeration is refused by
  \<open>problem_data_schema\<close>.
\<close>

definition apply_field :: "string \<Rightarrow> jsval \<Rightarrow> problem \<Rightarrow> problem" where
  "apply_field k v p =
     (if k = ''title'' then p\<lparr>p_title := js_trim (text_of v)\<rparr>
      else if k = ''description'' then p\<lparr>p_description := js_trim (text_of v)\<rparr>
      else if k = ''difficulty'' then p\<lparr>p_difficulty := difficulty_of (text_of v)\<rparr>
      else if k = ''tags'' then p\<lparr>p_tags := map text_of (items_of v)\<rparr>
      else if k = ''inputFormat'' then p\<lparr>p_inputFormat := js_trim (text_of v)\<rparr>
      else if k = ''outputFormat'' then p\<lparr>p_outputFormat := js_trim (text_of v)\<rparr>
      else if k = ''constraints'' then p\<lparr>p_constraints := js_trim (text_of v)\<rparr>
      else if k = ''examples'' then p\<lparr>p_examples := map example_of (items_of v)\<rparr>
      else p)"

definition assign_fields :: "jsval \<Rightarrow> problem \<Rightarrow> problem" where
  "assign_fields data p = foldl (\<lambda>p k. if field data k = JUndefined then p else apply_field k (field data k) p) p allowed_fields"

definition changed_fields :: "string list \<Rightarrow> jsval \<Rightarrow> jsval" where
  "changed_fields allowed data =
     JObj (map (\<lambda>k. (k, field data k)) (filter (\<lambda>k. field data k \<noteq> JUndefined) allowed))"

definition new_problem :: "jsval \<Rightarrow> oid \<Rightarrow> oid \<Rightarrow> date \<Rightarrow> problem" where
  "new_problem data authorId i t = assign_fields data
     \<lparr>p_id = i, p_title = [], p_description = [], p_difficulty = EASY, p_tags = [], p_inputFormat = [],
      p_outputFormat = [], p_constraints = [], p_examples = [], p_authorId = authorId, p_isActive = True,
      p_createdAt = t\<rparr>"

definition problem_data_schema :: "jsval \<Rightarrow> problem \<Rightarrow> bool" where
  "problem_data_schema data p \<longleftrightarrow> problem_schema p \<and>
     (field data ''difficulty'' \<noteq> JUndefined \<longrightarrow> valid_difficulty (field data ''difficulty''))"

definition createProblem :: "'w backend \<Rightarrow> jsval \<Rightarrow> oid \<Rightarrow> ('w, jsval) io" where
  "createProblem B data authorId =
     await (create_valid (Problems B)
       (\<lambda>p. problem_data_schema data p \<and> valid_difficulty (field data ''difficulty'')) (new_problem data authorId)) (\<lambda>problem.
     await (logAuditAction B authorId PROBLEM_CREATED Problem_target (p_id problem)
       (JObj [(''title'', JStr (p_title problem)), (''difficulty'', JStr (difficulty_name (p_difficulty problem))),
              (''tags'', JArr (map JStr (p_tags problem)))]) None) (\<lambda>_.
     ret (set_field ''readiness'' (JObj
        [(''isReady'', JBool False), (''publicCount'', js_int 0), (''hiddenCount'', js_int 0),
         (''totalCount'', js_int 0), (''missingRequirements'', JArr [JStr ''No active test cases configured''])])
       (toSafeProblem problem))))"

text \<open>\<open>save()\<close> sends the paths whose value differs from the loaded one.\<close>

definition problem_delta :: "problem \<Rightarrow> problem \<Rightarrow> problem \<Rightarrow> problem" where
  "problem_delta old new d = d\<lparr>
     p_title := (if p_title new = p_title old then p_title d else p_title new),
     p_description := (if p_description new = p_description old then p_description d else p_description new),
     p_difficulty := (if p_difficulty new = p_difficulty old then p_difficulty d else p_difficulty new),
     p_tags := (if p_tags new = p_tags old then p_tags d else p_tags new),
     p_inputFormat := (if p_inputFormat new = p_inputFormat old then p_inputFormat d else p_inputFormat new),
     p_outputFormat := (if p_outputFormat new = p_outputFormat old then p_outputFormat d else p_outputFormat new),
     p_constraints := (if p_constraints new = p_constraints old then p_constraints d else p_constraints new),
     p_examples := (if p_examples new = p_examples old then p_examples d else p_examples new),
     p_isActive := (if p_isActive new = p_isActive old then p_isActive d else p_isActive new)\<rparr>"

text \<open>An audit entry is written when the caller is known.\<close>

definition audit_by ::
  "'w backend \<Rightarrow> oid option \<Rightarrow> audit_action \<Rightarrow> audit_target \<Rightarrow> oid \<Rightarrow> jsval \<Rightarrow> ('w, unit) io" where
  "audit_by B user action k i details = (case user of
     None \<Rightarrow> ret ()
   | Some u \<Rightarrow> await (logAuditAction B u action k i details None) (\<lambda>_. ret ()))"

definition with_readiness :: "problem \<Rightarrow> problem_readiness \<Rightarrow> jsval" where
  "with_readiness p r = set_field ''testCasesCount'' (js_int (int (pr_totalCount r)))
     (set_field ''readiness'' (readiness_json r) (toSafeProblem p))"

definition updateProblem :: "'w backend \<Rightarrow> oid \<Rightarrow> jsval \<Rightarrow> oid option \<Rightarrow> ('w, jsval) io" where
  "updateProblem B problemId updateData user =
     await (findById (Problems B) problemId) (\<lambda>found. case found of
       None \<Rightarrow> throw (AppError ''Problem not found'' 404 None)
     | Some old \<Rightarrow>
         let problem = assign_fields updateData old in
         await (save_valid (Problems B) (problem_data_schema updateData) (p_id old) problem (problem_delta old problem)) (\<lambda>_.
         await (audit_by B user PROBLEM_UPDATED Problem_target (p_id old) (changed_fields allowed_fields updateData)) (\<lambda>_.
         await (getProblemReadiness B (p_id old)) (\<lambda>readiness.
         ret (with_readiness problem readiness)))))"

definition deactivateProblem :: "'w backend \<Rightarrow> oid \<Rightarrow> oid option \<Rightarrow> ('w, string) io" where
  "deactivateProblem B problemId user =
     await (findById (Problems B) problemId) (\<lambda>found. case found of
       None \<Rightarrow> throw (AppError ''Problem not found'' 404 None)
     | Some old \<Rightarrow>
         if p_isActive old then
           let problem = old\<lparr>p_isActive := False\<rparr> in
           await (save_valid (Problems B) problem_schema (p_id old) problem (problem_delta old problem)) (\<lambda>_.
           await (audit_by B user PROBLEM_DELETED Problem_target (p_id old)
             (JObj [(''title'', JStr (p_title old))])) (\<lambda>_.
           ret ''Problem deactivated successfully''))
         else ret ''Problem deactivated successfully'')"

definition getProblemById :: "'w backend \<Rightarrow> oid \<Rightarrow> ('w, jsval) io" where
  "getProblemById B problemId =
     await (findById (Problems B) problemId) (\<lambda>found. case found of
       None \<Rightarrow> throw (AppError ''Problem not found'' 404 None)
     | Some problem \<Rightarrow>
         if \<not> p_isActive problem then throw (AppError ''Problem not found'' 404 None)
         else await (getProblemReadiness B (p_id problem)) (\<lambda>readiness. ret (with_readiness problem readiness)))"

section \<open>listProblems\<close>

definition difficulty_filter :: "jsval \<Rightarrow> problem \<Rightarrow> bool" where
  "difficulty_filter v p = (case v of
     JArr ds \<Rightarrow> difficulty_name (p_difficulty p) \<in> set (filter (\<lambda>d. d \<in> set VALID_DIFFICULTIES) (map (\<lambda>d. js_upper (text_of d)) ds))
   | JStr s \<Rightarrow> js_upper s \<in> set VALID_DIFFICULTIES \<longrightarrow> difficulty_name (p_difficulty p) = js_upper s
   | _ \<Rightarrow> True)"

text \<open>
  The tags asked for: \<open>None\<close> is no condition. A value that is neither an array nor a string
  has no \<open>split\<close>; an element of the array that is no string is refused by the object mapper.
\<close>

definition tag_condition :: "jsval \<Rightarrow> err + string list option" where
  "tag_condition q =
     (let tagInput = (if truthy (field q ''tag'') then field q ''tag'' else field q ''tags'') in
      if \<not> truthy tagInput then Inr None
      else case tagInput of
        JArr ts \<Rightarrow>
          if \<exists>t\<in>set ts. as_string t = None then Inl (js_error ''CastError'' ''Cast to string failed'')
          else Inr (if ts = [] then None else Some (map text_of ts))
      | JStr s \<Rightarrow>
          (let ts = filter (\<lambda>t. t \<noteq> []) (map (\<lambda>t. js_lower (js_trim t)) (js_split (CHR '','') s)) in
           Inr (if ts = [] then None else Some ts))
      | _ \<Rightarrow> Inl (js_error ''TypeError'' ''tagInput.split is not a function''))"

text \<open>\<open>regexMatch term title\<close> is the database's case-insensitive \<open>$regex\<close>.\<close>

definition problem_filter :: "(string \<Rightarrow> string \<Rightarrow> bool) \<Rightarrow> jsval \<Rightarrow> string list option \<Rightarrow> problem \<Rightarrow> bool" where
  "problem_filter regexMatch q tags p \<longleftrightarrow> p_isActive p \<and> difficulty_filter (field q ''difficulty'') p \<and>
     (case tags of None \<Rightarrow> True | Some ts \<Rightarrow> \<exists>t\<in>set (p_tags p). t \<in> set ts) \<and>
     (case field q ''search'' of
        JStr s \<Rightarrow> js_trim s \<noteq> [] \<longrightarrow> regexMatch (js_trim s) (p_title p)
      | _ \<Rightarrow> True)"

text \<open>The database compares strings by their bytes.\<close>

fun text_le :: "string \<Rightarrow> string \<Rightarrow> bool" where
  "text_le [] ys = True"
| "text_le (x # xs) [] = False"
| "text_le (x # xs) (y # ys) =
     (code_unit x < code_unit y \<or> (code_unit x = code_unit y \<and> text_le xs ys))"

definition problem_order :: "jsval \<Rightarrow> problem \<Rightarrow> problem \<Rightarrow> bool" where
  "problem_order q a b =
     (let sort = field q ''sort'' in
      if sort = JStr ''title_asc'' then text_le (p_title a) (p_title b)
      else if sort = JStr ''title_desc'' then text_le (p_title b) (p_title a)
      else if sort = JStr ''oldest'' then p_createdAt a \<le> p_createdAt b
      else p_createdAt b \<le> p_createdAt a)"

text \<open>The map from problem ids to the two counts, built from the groups.\<close>

definition add_entry :: "(oid \<rightharpoonup> nat \<times> nat) \<Rightarrow> string list \<times> nat \<Rightarrow> (oid \<rightharpoonup> nat \<times> nat)" where
  "add_entry m e = (case e of
     ([pid, vis], n) \<Rightarrow>
       (let c = (case m pid of None \<Rightarrow> (0, 0) | Some c \<Rightarrow> c) in
        m(pid \<mapsto> (if vis = ''PUBLIC'' then n else fst c, if vis = ''HIDDEN'' then n else snd c)))
   | _ \<Rightarrow> m)"

text \<open>One entry of the list: the selected fields, the solved flag and the readiness.\<close>

record problem_item =
  pi_id :: oid
  pi_title :: string
  pi_difficulty :: difficulty
  pi_tags :: "string list"
  pi_authorId :: oid
  pi_createdAt :: date
  pi_solved :: bool
  pi_testCasesCount :: nat
  pi_readiness :: problem_readiness

definition problem_summary :: "(oid \<rightharpoonup> nat \<times> nat) \<Rightarrow> oid list \<Rightarrow> problem \<Rightarrow> problem_item" where
  "problem_summary countsMap solved p =
     (let stats = (case countsMap (p_id p) of None \<Rightarrow> (0, 0) | Some c \<Rightarrow> c) in
      \<lparr>pi_id = p_id p, pi_title = p_title p, pi_difficulty = p_difficulty p, pi_tags = p_tags p,
       pi_authorId = p_authorId p, pi_createdAt = p_createdAt p, pi_solved = (p_id p \<in> set solved), pi_testCasesCount = fst stats + snd stats,
       pi_readiness = readiness_of (fst stats) (snd stats)\<rparr>)"

definition listProblems ::
  "'w backend \<Rightarrow> (string \<Rightarrow> string \<Rightarrow> bool) \<Rightarrow> jsval \<Rightarrow> oid option \<Rightarrow> ('w, problem_item list \<times> pagination) io" where
  "listProblems B regexMatch q user =
     (case tag_condition q of
        Inl e \<Rightarrow> throw e
      | Inr tags \<Rightarrow>
          await (findMany (Problems B) (problem_filter regexMatch q tags) (problem_order q) (skip_of q) (Some (limit_of q))) (\<lambda>problems.
          await (countDocuments (Problems B) (problem_filter regexMatch q tags)) (\<lambda>n.
          await (groupCount (TestCases B) (\<lambda>t. t_problemId t \<in> set (map p_id problems) \<and> t_isActive t)
             (\<lambda>t. [t_problemId t, visibility_name (t_visibility t)])) (\<lambda>activeTestCounts.
          await (case user of
              None \<Rightarrow> ret []
            | Some userId \<Rightarrow> distinctOf (Submissions B) (\<lambda>s. s_userId s = userId \<and>
                s_problemId s \<in> set (map p_id problems) \<and> s_verdict s = ACCEPTED) s_problemId) (\<lambda>solved.
          ret (map (problem_summary (foldl add_entry Map.empty activeTestCounts) solved) problems, paginate q n))))))"

section \<open>The abstract catalogue\<close>

text \<open>
  What the list should show, read off the database at once: a problem's number of active tests of
  a visibility, its readiness, and whether a user has an accepted submission to it.
\<close>

definition active_tests_of :: "db \<Rightarrow> oid \<Rightarrow> visibility \<Rightarrow> nat" where
  "active_tests_of v pid vis = card (matching (\<lambda>t. activeTests pid t \<and> t_visibility t = vis) (db_testCases v))"

definition readiness_in :: "db \<Rightarrow> oid \<Rightarrow> problem_readiness" where
  "readiness_in v pid = readiness_of (active_tests_of v pid PUBLIC) (active_tests_of v pid HIDDEN)"

definition solved_by :: "db \<Rightarrow> oid option \<Rightarrow> oid \<Rightarrow> bool" where
  "solved_by v user pid \<longleftrightarrow> (\<exists>u i s. user = Some u \<and> db_submissions v i = Some s \<and> s_userId s = u \<and>
     s_problemId s = pid \<and> s_verdict s = ACCEPTED)"

definition catalogue_item :: "db \<Rightarrow> oid option \<Rightarrow> problem \<Rightarrow> problem_item" where
  "catalogue_item v user p =
     \<lparr>pi_id = p_id p, pi_title = p_title p, pi_difficulty = p_difficulty p, pi_tags = p_tags p,
      pi_authorId = p_authorId p, pi_createdAt = p_createdAt p, pi_solved = solved_by v user (p_id p),
      pi_testCasesCount = active_tests_of v (p_id p) PUBLIC + active_tests_of v (p_id p) HIDDEN,
      pi_readiness = readiness_in v (p_id p)\<rparr>"

definition stats_of :: "(oid \<rightharpoonup> nat \<times> nat) \<Rightarrow> oid \<Rightarrow> nat \<times> nat" where
  "stats_of m pid = (case m pid of None \<Rightarrow> (0, 0) | Some c \<Rightarrow> c)"

lemma foldl_add_count:
  "distinct (map fst gs) \<Longrightarrow> foldl add_count c gs =
     (default_to (fst c) (map_of gs [''PUBLIC'']), default_to (snd c) (map_of gs [''HIDDEN'']))"
proof (induction gs arbitrary: c)
  case (Cons e gs)
  obtain k n where e: "e = (k, n)" by (cases e)
  have "map_of gs k = None" using Cons.prems by (force simp: e map_of_eq_None_iff)
  with Cons show ?case by (cases c) (auto simp: e add_count_def)
qed simp

lemma stats_of_add_entry:
  "stats_of (add_entry m ([pid, vis], n)) q =
     (if q = pid then (if vis = ''PUBLIC'' then n else fst (stats_of m q), if vis = ''HIDDEN'' then n else snd (stats_of m q))
      else stats_of m q)"
  by (simp add: add_entry_def stats_of_def Let_def)

lemma stats_of_foldl_add_entry:
  "distinct (map fst gs) \<Longrightarrow> \<forall>(k, n)\<in>set gs. length k = 2 \<Longrightarrow>
   stats_of (foldl add_entry m gs) pid =
     (default_to (fst (stats_of m pid)) (map_of gs [pid, ''PUBLIC'']),
      default_to (snd (stats_of m pid)) (map_of gs [pid, ''HIDDEN'']))"
proof (induction gs arbitrary: m)
  case (Cons e gs)
  from Cons.prems(2) obtain p vis n where e: "e = ([p, vis], n)"
    by (cases e) (auto simp: length_Suc_conv numeral_2_eq_2)
  have new: "map_of gs [p, vis] = None" using Cons.prems(1) by (force simp: e map_of_eq_None_iff)
  have "stats_of (foldl add_entry m (e # gs)) pid =
     (default_to (fst (stats_of (add_entry m e) pid)) (map_of gs [pid, ''PUBLIC'']),
      default_to (snd (stats_of (add_entry m e) pid)) (map_of gs [pid, ''HIDDEN'']))"
    using Cons.prems by (simp add: Cons.IH)
  then show ?case using new by (auto simp: e stats_of_add_entry)
qed simp

lemma problem_summary_stats:
  "problem_summary m solved p =
     \<lparr>pi_id = p_id p, pi_title = p_title p, pi_difficulty = p_difficulty p, pi_tags = p_tags p,
      pi_authorId = p_authorId p, pi_createdAt = p_createdAt p, pi_solved = (p_id p \<in> set solved),
      pi_testCasesCount = fst (stats_of m (p_id p)) + snd (stats_of m (p_id p)),
      pi_readiness = readiness_of (fst (stats_of m (p_id p))) (snd (stats_of m (p_id p)))\<rparr>"
  by (simp add: problem_summary_def stats_of_def Let_def)

lemma visibility_name_inject [simp]: "visibility_name a = visibility_name b \<longleftrightarrow> a = b"
  by (cases a; cases b) simp_all

lemma visibility_texts: "visibility_name v = ''PUBLIC'' \<longleftrightarrow> v = PUBLIC" "visibility_name v = ''HIDDEN'' \<longleftrightarrow> v = HIDDEN"
  by (cases v; simp)+

lemma total_preorder_text [simp]: "total_preorder (\<lambda>a b. text_le (f a) (f b))"
proof -
  have total: "text_le xs ys \<or> text_le ys xs" for xs ys
    by (induction xs ys rule: text_le.induct) auto
  have trans: "text_le xs ys \<Longrightarrow> text_le ys zs \<Longrightarrow> text_le xs zs" for xs ys zs
  proof (induction xs ys arbitrary: zs rule: text_le.induct)
    case (3 x xs y ys)
    then show ?case by (cases zs) auto
  qed auto
  show ?thesis unfolding total_preorder_def using total trans by blast
qed

lemma total_preorder_text_desc [simp]: "total_preorder (\<lambda>a b. text_le (f b) (f a))"
  using total_preorder_text [of f] unfolding total_preorder_def by blast

lemma total_preorder_problem_order [simp]: "total_preorder (problem_order q)"
proof -
  have ifs: "total_preorder (\<lambda>a b. if c then f a b else g a b)" if "total_preorder f" "total_preorder g" for c f g
    using that by (cases c) simp_all
  show ?thesis unfolding problem_order_def Let_def by (intro ifs) simp_all
qed

context database
begin

lemma getProblemReadiness_counts:
  assumes "getProblemReadiness B pid w = (Inr r, w')"
  shows "r = readiness_in (view w) pid" and "view w' = view w"
proof -
  let ?key = "\<lambda>t :: testcase. [visibility_name (t_visibility t)]"
  from assms obtain gs where g: "groupCount (TestCases B) (activeTests pid) ?key w = (Inr gs, w')"
    and r: "r = readiness_of (fst (foldl add_count (0, 0) gs)) (snd (foldl add_count (0, 0) gs))"
    unfolding getProblemReadiness_def by (auto elim!: await_cases split: prod.splits)
  have dist: "distinct (map fst gs)" by (rule testCases.group_distinct [OF g])
  have n: "default_to 0 (map_of gs [visibility_name vis]) = active_tests_of (view w) pid vis" for vis
    using testCases.group_lookup [OF g, of "[visibility_name vis]"] by (simp add: active_tests_of_def)
  have "foldl add_count (0, 0) gs = (active_tests_of (view w) pid PUBLIC, active_tests_of (view w) pid HIDDEN)"
    using n [of PUBLIC] n [of HIDDEN] by (simp add: foldl_add_count [OF dist])
  then show "r = readiness_in (view w) pid" by (simp add: r readiness_in_def)
  show "view w' = view w" using g by (rule keepsD [OF testCases.groupCount_keeps])
qed

lemma listing_counts:
  assumes g: "groupCount (TestCases B) (\<lambda>t. t_problemId t \<in> S \<and> t_isActive t)
      (\<lambda>t. [t_problemId t, visibility_name (t_visibility t)]) w = (Inr gs, w')" and pid: "pid \<in> S"
  shows "stats_of (foldl add_entry Map.empty gs) pid =
    (active_tests_of (view w) pid PUBLIC, active_tests_of (view w) pid HIDDEN)"
proof -
  let ?P = "\<lambda>t :: testcase. t_problemId t \<in> S \<and> t_isActive t"
  let ?key = "\<lambda>t :: testcase. [t_problemId t, visibility_name (t_visibility t)]"
  have dist: "distinct (map fst gs)" by (rule testCases.group_distinct [OF g])
  have len: "\<forall>(k, n)\<in>set gs. length k = 2"
  proof clarify
    fix k n
    assume "(k, n) \<in> set gs"
    then obtain d where "?key d = k" using testCases.group_key [OF g] by blast
    then show "length k = 2" by (rule subst) simp
  qed
  have n: "default_to 0 (map_of gs [pid, visibility_name vis]) = active_tests_of (view w) pid vis" for vis
  proof -
    have "(\<lambda>d. ?P d \<and> ?key d = [pid, visibility_name vis]) = (\<lambda>t. activeTests pid t \<and> t_visibility t = vis)"
      using pid by (auto simp: activeTests_def fun_eq_iff)
    then show ?thesis
      using testCases.group_lookup [OF g, of "[pid, visibility_name vis]"] by (simp add: active_tests_of_def)
  qed
  have "stats_of Map.empty pid = (0, 0)" by (simp add: stats_of_def)
  then show ?thesis
    using n [of PUBLIC] n [of HIDDEN] by (simp add: stats_of_foldl_add_entry [OF dist len])
qed

lemma listProblems_catalogue:
  assumes "listProblems B rx q user w = (Inr (items, pg), w')"
  shows "\<exists>tags ps. tag_condition q = Inr tags \<and> listing (problem_filter rx q tags) (db_problems (view w)) ps \<and>
    sorted_wrt (problem_order q) ps \<and> pg = paginate q (length ps) \<and>
    items = map (catalogue_item (view w) user) (slice (skip_of q) (Some (limit_of q)) ps) \<and> view w' = view w"
proof -
  from assms obtain tags page n gs solved w1 w2 w3 where tags: "tag_condition q = Inr tags" and
    f: "findMany (Problems B) (problem_filter rx q tags) (problem_order q) (skip_of q) (Some (limit_of q)) w = (Inr page, w1)" and
    c: "countDocuments (Problems B) (problem_filter rx q tags) w1 = (Inr n, w2)" and
    g: "groupCount (TestCases B) (\<lambda>t. t_problemId t \<in> set (map p_id page) \<and> t_isActive t)
             (\<lambda>t. [t_problemId t, visibility_name (t_visibility t)]) w2 = (Inr gs, w3)" and
    s: "(case user of
              None \<Rightarrow> ret []
            | Some userId \<Rightarrow> distinctOf (Submissions B) (\<lambda>s. s_userId s = userId \<and>
                s_problemId s \<in> set (map p_id page) \<and> s_verdict s = ACCEPTED) s_problemId) w3 = (Inr solved, w')" and
    items: "items = map (problem_summary (foldl add_entry Map.empty gs) solved) page" "pg = paginate q n"
    unfolding listProblems_def by (auto elim!: await_cases split: sum.splits)
  obtain ps where ps: "listing (problem_filter rx q tags) (db_problems (view w)) ps" "sorted_wrt (problem_order q) ps"
    "page = slice (skip_of q) (Some (limit_of q)) ps" "n = length ps" "view w2 = view w"
    using problems.window_and_count [OF total_preorder_problem_order f c] by blast
  have v3: "view w3 = view w" using keepsD [OF testCases.groupCount_keeps g] ps(5) by simp
  have v': "view w' = view w"
    using s keepsD [OF submissions.distinctOf_keeps] v3 by (cases user) auto
  have solved: "p_id p \<in> set solved \<longleftrightarrow> solved_by (view w) user (p_id p)" if "p \<in> set page" for p
  proof (cases user)
    case None
    with s show ?thesis by (simp add: solved_by_def)
  next
    case (Some u)
    with s have "distinctOf (Submissions B) (\<lambda>s. s_userId s = u \<and>
                s_problemId s \<in> set (map p_id page) \<and> s_verdict s = ACCEPTED) s_problemId w3 = (Inr solved, w')" by simp
    from submissions.distinctOf_result [OF this] that Some v3 show ?thesis
      by (auto simp: solved_by_def)
  qed
  have "problem_summary (foldl add_entry Map.empty gs) solved p = catalogue_item (view w) user p" if "p \<in> set page" for p
    using listing_counts [OF g, of "p_id p"] solved [OF that] that ps(5)
    by (simp add: problem_summary_stats catalogue_item_def readiness_in_def)
  then have "items = map (catalogue_item (view w) user) page" by (simp add: items(1))
  with tags ps v' items(2) show ?thesis by auto
qed

end

section \<open>Writing a problem\<close>

definition problem_ids_ok :: "db \<Rightarrow> bool" where
  "problem_ids_ok v \<longleftrightarrow> (\<forall>i p. db_problems v i = Some p \<longrightarrow> p_id p = i)"

definition put_problem :: "problem \<Rightarrow> db \<Rightarrow> db" where
  "put_problem p v = db_problems_update (\<lambda>m. m(p_id p \<mapsto> p)) v"

text \<open>What no update changes: the id, the author, the activity and the creation time.\<close>

definition same_origin :: "problem \<Rightarrow> problem \<Rightarrow> bool" where
  "same_origin a b \<longleftrightarrow> p_id a = p_id b \<and> p_authorId a = p_authorId b \<and> p_createdAt a = p_createdAt b"

lemma apply_field_origin: "same_origin p (apply_field k v p) \<and> p_isActive (apply_field k v p) = p_isActive p"
  by (simp add: same_origin_def apply_field_def)

lemma assign_fields_origin:
  "same_origin p (assign_fields data p) \<and> p_isActive (assign_fields data p) = p_isActive p"
proof -
  have "same_origin p (foldl (\<lambda>p k. if field data k = JUndefined then p else apply_field k (field data k) p) p ks) \<and>
      p_isActive (foldl (\<lambda>p k. if field data k = JUndefined then p else apply_field k (field data k) p) p ks) = p_isActive p" for ks
  proof (induction ks arbitrary: p)
    case (Cons k ks)
    show ?case
      using Cons [of "if field data k = JUndefined then p else apply_field k (field data k) p"] apply_field_origin [of p k]
      by (auto simp: same_origin_def)
  qed (simp add: same_origin_def)
  then show ?thesis by (simp add: assign_fields_def)
qed

lemma problem_delta_same: "same_origin old new \<Longrightarrow> problem_delta old new old = new"
  by (cases old; cases new) (simp add: problem_delta_def same_origin_def)

context database
begin

lemma save_problem:
  assumes "save_valid (Problems B) ok (p_id old) new (problem_delta old new) w = (r, w')"
    and doc: "db_problems (view w) (p_id old) = Some old" and same: "same_origin old new"
  shows "(\<exists>e. r = Inl e) \<and> view w' = view w \<or> ok new \<and> view w' = put_problem new (view w)"
proof (cases "ok new")
  case True
  with assms(1) have s: "save (Problems B) (p_id old) (problem_delta old new) w = (r, w')"
    by (simp add: save_valid_def)
  have "db_problems_update (modify (p_id old) (\<lambda>_. True) (problem_delta old new)) (view w) = put_problem new (view w)"
    using doc problem_delta_same [OF same] same
    by (cases "view w") (simp add: put_problem_def modify_def same_origin_def)
  with problems.save_view_cases [OF s] problems.save_ok s True show ?thesis by (cases r) auto
next
  case False
  with assms(1) show ?thesis by (auto simp: save_valid_def)
qed

lemma audit_by_effect:
  assumes "audit_by B user a k i d w = (r, w')"
  shows "r = Inr () \<and> audit_grows (view w) (view w')"
  using assms reflpD [OF reflp_audit_grows] logAuditAction_effect
  unfolding audit_by_def by (cases user) (fastforce elim!: await_cases)+

lemma updateProblem_cases:
  assumes ids: "problem_ids_ok (view w)" and run: "updateProblem B pid data user w = (r, w')"
  shows "(\<exists>e. r = Inl e) \<and> view w' = view w \<or>
    (\<exists>old new. db_problems (view w) pid = Some old \<and> new = assign_fields data old \<and> problem_data_schema data new \<and>
      audit_grows (put_problem new (view w)) (view w') \<and>
      (\<forall>x. r = Inr x \<longrightarrow> x = with_readiness new (readiness_in (view w) pid)))"
  using run unfolding updateProblem_def
proof (cases rule: await_cases)
  case (err e)
  with keepsD [OF problems.findById_keeps err(1)] show ?thesis by simp
next
  case (ok found w1)
  have v1: "view w1 = view w" using ok(1) by (rule keepsD [OF problems.findById_keeps])
  show ?thesis
  proof (cases found)
    case None
    with ok(2) v1 show ?thesis by auto
  next
    case (Some old)
    define new where "new = assign_fields data old"
    from Some ok(1) have old: "db_problems (view w) pid = Some old" using problems.findById_result by metis
    with ids have id: "p_id old = pid" by (simp add: problem_ids_ok_def)
    have same: "same_origin old new" using assign_fields_origin by (simp add: new_def)
    from Some ok(2) have "await (save_valid (Problems B) (problem_data_schema data) (p_id old) new (problem_delta old new)) (\<lambda>_.
         await (audit_by B user PROBLEM_UPDATED Problem_target (p_id old) (changed_fields allowed_fields data)) (\<lambda>_.
         await (getProblemReadiness B (p_id old)) (\<lambda>readiness.
         ret (with_readiness new readiness)))) w1 = (r, w')"
      by (simp add: new_def Let_def)
    then show ?thesis
    proof (cases rule: await_cases)
      case (err e)
      with save_problem [OF err(1) _ same] old id v1 reflpD [OF reflp_audit_grows] show ?thesis
        by (auto simp: new_def)
    next
      case (ok u w2)
      with save_problem [OF ok(1) _ same] old id v1 have v2: "problem_data_schema data new" "view w2 = put_problem new (view w)"
        by auto
      from ok(2) obtain w3 where a: "audit_grows (view w2) (view w3)"
        and k: "await (getProblemReadiness B (p_id old)) (\<lambda>readiness. ret (with_readiness new readiness)) w3 = (r, w')"
        by (cases rule: await_cases) (use audit_by_effect in blast)+
      have "db_testCases (view w3) = db_testCases (view w)"
        using audit_growsD(3) [OF a] v2(2) by (simp add: put_problem_def)
      then have rd: "readiness_in (view w3) pid = readiness_in (view w) pid"
        by (simp add: readiness_in_def active_tests_of_def)
      have kk: "keeps view (getProblemReadiness B (p_id old))"
        unfolding getProblemReadiness_def
        by (intro keeps_await testCases.groupCount_keeps) (simp split: prod.split)
      have "view w' = view w3" using k keepsD [OF keeps_await [OF kk keeps_ret] k] by simp
      moreover have "\<forall>x. r = Inr x \<longrightarrow> x = with_readiness new (readiness_in (view w) pid)"
        using k getProblemReadiness_counts(1) id rd by (auto elim!: await_cases)
      ultimately show ?thesis using old v2 a new_def by auto
    qed
  qed
qed

lemma deactivateProblem_cases:
  assumes ids: "problem_ids_ok (view w)" and run: "deactivateProblem B pid user w = (r, w')"
  shows "(\<exists>e. r = Inl e) \<and> view w' = view w \<or>
    (\<exists>old. db_problems (view w) pid = Some old \<and>
      audit_grows (put_problem (old\<lparr>p_isActive := False\<rparr>) (view w)) (view w'))"
  using run unfolding deactivateProblem_def
proof (cases rule: await_cases)
  case (err e)
  with keepsD [OF problems.findById_keeps err(1)] show ?thesis by simp
next
  case (ok found w1)
  have v1: "view w1 = view w" using ok(1) by (rule keepsD [OF problems.findById_keeps])
  show ?thesis
  proof (cases found)
    case None
    with ok(2) v1 show ?thesis by auto
  next
    case (Some old)
    define new where "new = old\<lparr>p_isActive := False\<rparr>"
    from Some ok(1) have old: "db_problems (view w) pid = Some old" using problems.findById_result by metis
    with ids have id: "p_id old = pid" by (simp add: problem_ids_ok_def)
    have same: "same_origin old new" by (simp add: new_def same_origin_def)
    show ?thesis
    proof (cases "p_isActive old")
      case False
      then have "put_problem new (view w) = view w"
        using old id by (cases "view w") (simp add: put_problem_def new_def fun_upd_idem)
      with False Some ok(2) v1 old reflpD [OF reflp_audit_grows] show ?thesis
        by (auto simp: new_def)
    next
      case True
      with Some ok(2) have "await (save_valid (Problems B) problem_schema (p_id old) new (problem_delta old new)) (\<lambda>_.
           await (audit_by B user PROBLEM_DELETED Problem_target (p_id old)
             (JObj [(''title'', JStr (p_title old))])) (\<lambda>_.
           ret ''Problem deactivated successfully'')) w1 = (r, w')"
        by (simp add: new_def Let_def)
      then show ?thesis
      proof (cases rule: await_cases)
        case (err e)
        with save_problem [OF err(1) _ same] old id v1 reflpD [OF reflp_audit_grows] show ?thesis
          by (auto simp: new_def)
      next
        case (ok u w2)
        with save_problem [OF ok(1) _ same] old id v1 have v2: "view w2 = put_problem new (view w)" by auto
        from ok(2) have "audit_grows (view w2) (view w')"
          by (cases rule: await_cases) (use audit_by_effect in fastforce)+
        with old v2 show ?thesis by (auto simp: new_def)
      qed
    qed
  qed
qed

end

section \<open>Properties\<close>

text \<open>C35: The list of problems, computed with three queries and two maps, is the catalogue read off
  the database at once: of all active problems that pass the filters, in the requested order,
  the requested window, each with the number of its active public and hidden tests, the
  readiness they give, and whether the caller has an accepted submission to it; the pagination
  counts all of them, and nothing is changed.\<close>

theorem listProblems_refines:
  assumes "database B view" and "listProblems B rx q user w = (Inr (items, pg), w')"
  shows "\<exists>tags ps. tag_condition q = Inr tags \<and> listing (problem_filter rx q tags) (db_problems (view w)) ps \<and>
    sorted_wrt (problem_order q) ps \<and> pg = paginate q (length ps) \<and>
    items = map (catalogue_item (view w) user) (slice (skip_of q) (Some (limit_of q)) ps) \<and> view w' = view w"
  using database.listProblems_catalogue [OF assms] .


text \<open>C36: An update writes one problem, namely the stored one with the given fields set, whose id,
  author, activity and creation time are the old ones and which satisfies the schema; beyond
  that only audit entries are added. A call that fails before writing changes nothing, and the
  answer of a call that succeeds shows the new problem with its readiness.\<close>

theorem updateProblem_effect:
  assumes "database B view" and "problem_ids_ok (view w)" and "updateProblem B pid data user w = (r, w')"
  shows "(\<exists>e. r = Inl e) \<and> view w' = view w \<or>
    (\<exists>old new. db_problems (view w) pid = Some old \<and> new = assign_fields data old \<and> same_origin old new \<and>
      p_isActive new = p_isActive old \<and> problem_schema new \<and> audit_grows (put_problem new (view w)) (view w') \<and>
      (\<forall>x. r = Inr x \<longrightarrow> x = with_readiness new (readiness_in (view w) pid)))"
  using database.updateProblem_cases [OF assms] assign_fields_origin
  unfolding problem_data_schema_def by metis

text \<open>After a successful deactivation the problem is stored with all its other fields as they
  were, and it is inactive, so its page is answered with 404; nothing else changes but the
  audit log. This holds for a problem that was inactive already, too.\<close>

theorem deactivateProblem_effect:
  assumes "database B view" and "problem_ids_ok (view w)" and "deactivateProblem B pid user w = (Inr m, w')"
  shows "\<exists>old. db_problems (view w) pid = Some old \<and>
    db_problems (view w') = (db_problems (view w))(pid \<mapsto> old\<lparr>p_isActive := False\<rparr>) \<and>
    audit_grows (put_problem (old\<lparr>p_isActive := False\<rparr>) (view w)) (view w') \<and>
    (\<forall>x w''. getProblemById B pid w' \<noteq> (Inr x, w''))"
proof -
  from database.deactivateProblem_cases [OF assms] obtain old where old: "db_problems (view w) pid = Some old"
    and a: "audit_grows (put_problem (old\<lparr>p_isActive := False\<rparr>) (view w)) (view w')" by auto
  from old assms(2) have "p_id old = pid" by (simp add: problem_ids_ok_def)
  with audit_growsD(2) [OF a] have docs: "db_problems (view w') = (db_problems (view w))(pid \<mapsto> old\<lparr>p_isActive := False\<rparr>)"
    by (simp add: put_problem_def)
  have problems: "collection (Problems B) view db_problems db_problems_update"
    using assms(1) by (simp add: database_def)
  have "getProblemById B pid w' \<noteq> (Inr x, w'')" for x w''
    unfolding getProblemById_def
    using collection.findById_result [OF problems, of pid w'] docs by (auto elim!: await_cases split: option.splits)
  with old a docs show ?thesis by blast
qed


lemma check_examples_ok: "check_examples v = Inr u \<longleftrightarrow> items_of v \<noteq> [] \<and> (\<forall>ex\<in>set (items_of v). \<not> bad_example ex)"
proof -
  have "first_bad i exs = None \<longleftrightarrow> (\<forall>ex\<in>set exs. \<not> bad_example ex)" for i exs
    by (induction exs arbitrary: i) auto
  from this [of 0 "items_of v"] show ?thesis by (cases "first_bad 0 (items_of v)") (auto simp: check_examples_def)
qed

lemma not_blank: "\<not> blank v \<longleftrightarrow> (\<exists>s. v = JStr s \<and> js_trim s \<noteq> [])"
  by (cases v) (auto simp: blank_def)

lemma field_put: "field (set_field k v (JObj fs)) k' = (if k' = k then v else field (JObj fs) k')"
  and put_obj: "\<exists>gs. set_field k v (JObj fs) = JObj gs"
  by simp_all

text \<open>A body that passes \<open>validateCreateProblem\<close> makes a problem of the given author that is
  active, with a trimmed title of at most 200 code units, and none of the fields the server
  sets is left in it. That problem satisfies the schema exactly when no example has an empty
  input or output, which the validation does not ask for.\<close>

theorem validateCreateProblem_sound:
  assumes "validateCreateProblem body = Inr data"
  shows "p_authorId (new_problem data a i t) = a \<and> p_isActive (new_problem data a i t) \<and>
    length (p_title (new_problem data a i t)) \<le> 200 \<and>
    (\<forall>k\<in>set problem_server_fields. field data k = JUndefined) \<and>
    (problem_data_schema data (new_problem data a i t) =
      list_all (\<lambda>(x, y). x \<noteq> [] \<and> y \<noteq> []) (p_examples (new_problem data a i t)))"
proof -
  let ?v = "\<lambda>k. field body k"
  from assms obtain u where title: "\<not> blank (?v ''title'')" "length (js_trim (text_of (?v ''title''))) \<le> 200"
    and desc: "\<not> blank (?v ''description'')" and diff: "valid_difficulty (?v ''difficulty'')"
    and inf: "\<not> blank (?v ''inputFormat'')" and outf: "\<not> blank (?v ''outputFormat'')"
    and con: "\<not> blank (?v ''constraints'')" and ex: "check_examples (?v ''examples'') = Inr u"
    and data: "data = del_fields problem_server_fields
          (set_field ''examples'' (JArr (map clean_example (items_of (?v ''examples''))))
          (set_field ''constraints'' (trimmed (?v ''constraints''))
          (set_field ''outputFormat'' (trimmed (?v ''outputFormat''))
          (set_field ''inputFormat'' (trimmed (?v ''inputFormat''))
          (set_field ''tags'' (clean_tags (?v ''tags''))
          (set_field ''difficulty'' (?v ''difficulty'')
          (set_field ''description'' (trimmed (?v ''description''))
          (set_field ''title'' (trimmed (?v ''title'')) body))))))))"
    unfolding validateCreateProblem_def Let_def by (auto split: if_splits sum.splits)
  from title(1) obtain fs where fs: "body = JObj fs" by (cases body) (auto simp: blank_def)
  have gone: "\<forall>k\<in>set problem_server_fields. field data k = JUndefined" unfolding data by simp
  have fields: "field data ''title'' = trimmed (?v ''title'')" "field data ''description'' = trimmed (?v ''description'')"
    "field data ''difficulty'' = ?v ''difficulty''" "field data ''tags'' = clean_tags (?v ''tags'')"
    "field data ''inputFormat'' = trimmed (?v ''inputFormat'')" "field data ''outputFormat'' = trimmed (?v ''outputFormat'')"
    "field data ''constraints'' = trimmed (?v ''constraints'')"
    "field data ''examples'' = JArr (map clean_example (items_of (?v ''examples'')))"
    unfolding data fs by (simp_all add: problem_server_fields_def)
  have d: "?v ''difficulty'' \<noteq> JUndefined" using diff by (auto simp: valid_difficulty_def)
  let ?p = "new_problem data a i t"
  have p: "p_title ?p = js_trim (text_of (?v ''title''))" "p_description ?p = js_trim (text_of (?v ''description''))"
    "p_inputFormat ?p = js_trim (text_of (?v ''inputFormat''))" "p_outputFormat ?p = js_trim (text_of (?v ''outputFormat''))"
    "p_constraints ?p = js_trim (text_of (?v ''constraints''))"
    "p_examples ?p = map (example_of \<circ> clean_example) (items_of (?v ''examples''))" "p_authorId ?p = a" "p_isActive ?p"
    using d unfolding new_problem_def assign_fields_def allowed_fields_def
    by (simp_all add: fields apply_field_def trimmed_def text_of_def items_of_def clean_tags_def)
  have ne: "js_trim (text_of v) \<noteq> []" if "\<not> blank v" for v
    using that by (auto simp: not_blank text_of_def)
  have "p_examples ?p \<noteq> []" using ex by (simp add: p check_examples_ok)
  then have "problem_data_schema data ?p = list_all (\<lambda>(x, y). x \<noteq> [] \<and> y \<noteq> []) (p_examples ?p)"
    using ne [OF title(1)] ne [OF desc] ne [OF inf] ne [OF outf] ne [OF con] title(2) diff
    by (simp add: problem_data_schema_def problem_schema_def p(1-5) fields list_all_iff)
  with p title(2) gone show ?thesis by simp
qed

section \<open>Concrete instances\<close>

lemma problem_ids_full: "problem_ids_ok (world_view full_world)"
  by (simp add: problem_ids_ok_def world_view_def full_world_def sample_problem_def)

theorem listProblems_refines_witness:
  "\<exists>items pg w'. listProblems (mem_backend accept_all True) (\<lambda>a b. True) (JObj []) (Some ''u'') full_world = (Inr (items, pg), w') \<and>
     length items \<le> pg_total pg"
proof -
  have "(case listProblems (mem_backend accept_all True) (\<lambda>a b. True) (JObj []) (Some ''u'') full_world of
      (Inr x, w) \<Rightarrow> True | _ \<Rightarrow> False)" by code_simp
  then obtain items pg w' where run:
    "listProblems (mem_backend accept_all True) (\<lambda>a b. True) (JObj []) (Some ''u'') full_world = (Inr (items, pg), w')"
    by (auto split: prod.splits sum.splits)
  from listProblems_refines [OF mem_accept.database_axioms run] run show ?thesis
    by (force simp: slice_def)
qed

theorem updateProblem_effect_witness:
  "\<exists>r w'. updateProblem (mem_backend accept_all True) ''p'' (JObj [(''title'', JStr '' Sums ''), (''isActive'', JBool False)])
       (Some ''a'') full_world = (r, w') \<and> db_submissions (world_view w') = db_submissions (world_view full_world)"
proof -
  obtain r w' where run: "updateProblem (mem_backend accept_all True) ''p''
      (JObj [(''title'', JStr '' Sums ''), (''isActive'', JBool False)]) (Some ''a'') full_world = (r, w')" by fastforce
  have "db_submissions (world_view w') = db_submissions (world_view full_world)"
    using updateProblem_effect [OF mem_accept.database_axioms problem_ids_full run] audit_growsD(4)
    by (fastforce simp: put_problem_def)
  with run show ?thesis by blast
qed

theorem deactivateProblem_effect_witness:
  "\<exists>m w' p. deactivateProblem (mem_backend accept_all True) ''p'' (Some ''a'') full_world = (Inr m, w') \<and>
     db_problems (world_view w') ''p'' = Some p \<and> \<not> p_isActive p"
proof -
  have "(case deactivateProblem (mem_backend accept_all True) ''p'' (Some ''a'') full_world of
      (Inr x, w) \<Rightarrow> True | _ \<Rightarrow> False)" by code_simp
  then obtain m w' where run: "deactivateProblem (mem_backend accept_all True) ''p'' (Some ''a'') full_world = (Inr m, w')"
    by (auto split: prod.splits sum.splits)
  from deactivateProblem_effect [OF mem_accept.database_axioms problem_ids_full run] run show ?thesis by auto
qed

definition sample_body :: jsval where
  "sample_body = JObj [(''title'', JStr '' Sum ''), (''description'', JStr ''Add.''), (''difficulty'', JStr ''EASY''),
     (''inputFormat'', JStr ''n''), (''outputFormat'', JStr ''n''), (''constraints'', JStr ''n > 0''),
     (''examples'', JArr [JObj [(''input'', JStr []), (''output'', JStr ''0'')]]), (''authorId'', JStr ''x'')]"

theorem validateCreateProblem_sound_witness:
  "\<exists>data. validateCreateProblem sample_body = Inr data \<and> p_authorId (new_problem data ''a'' ''p'' 0) = ''a'' \<and>
     \<not> problem_data_schema data (new_problem data ''a'' ''p'' 0)"
proof -
  have "js_trim '' Sum '' = ''Sum''" "js_trim ''Add.'' \<noteq> []" "js_trim ''n'' \<noteq> []" "js_trim ''n > 0'' \<noteq> []" by code_simp+
  then obtain data where run: "validateCreateProblem sample_body = Inr data"
    and ex: "field data ''examples'' = JArr [JObj [(''input'', JStr []), (''output'', JStr ''0'')]]"
    by (simp add: validateCreateProblem_def sample_body_def blank_def text_of_def valid_difficulty_def VALID_DIFFICULTIES_def
        check_examples_def bad_example_def items_of_def clean_example_def problem_server_fields_def Let_def)
  have "([], ''0'') \<in> set (p_examples (new_problem data ''a'' ''p'' 0))"
    unfolding new_problem_def assign_fields_def allowed_fields_def
    by (simp add: ex apply_field_def items_of_def example_of_def text_of_def)
  then have "\<not> list_all (\<lambda>(x, y). x \<noteq> [] \<and> y \<noteq> []) (p_examples (new_problem data ''a'' ''p'' 0))"
    by (force simp: list_all_iff)
  with validateCreateProblem_sound [OF run, of "''a''" "''p''" 0] run show ?thesis by blast
qed

end
