(* ===== verification/Users.thy ===== *)
theory Users
  imports Problems
begin

text \<open>
  The profile of a user (\<open>modules/users/user.service.js\<close>): statistics, solved problems and the
  activity by day.
\<close>

section \<open>getUserStats\<close>

record verdict_counts =
  vc_total :: nat
  vc_accepted :: nat
  vc_wrongAnswer :: nat
  vc_compilationError :: nat
  vc_runtimeError :: nat
  vc_timeLimit :: nat
  vc_memoryLimit :: nat

definition no_counts :: verdict_counts where
  "no_counts = \<lparr>vc_total = 0, vc_accepted = 0, vc_wrongAnswer = 0, vc_compilationError = 0,
     vc_runtimeError = 0, vc_timeLimit = 0, vc_memoryLimit = 0\<rparr>"

definition add_stat :: "verdict_counts \<Rightarrow> string list \<times> nat \<Rightarrow> verdict_counts" where
  "add_stat c stat = (case stat of (k, n) \<Rightarrow>
     let c' = c\<lparr>vc_total := vc_total c + n\<rparr> in
     if k = [''ACCEPTED''] then c'\<lparr>vc_accepted := n\<rparr>
     else if k = [''WRONG_ANSWER''] then c'\<lparr>vc_wrongAnswer := n\<rparr>
     else if k = [''COMPILATION_ERROR''] then c'\<lparr>vc_compilationError := n\<rparr>
     else if k = [''RUNTIME_ERROR''] then c'\<lparr>vc_runtimeError := n\<rparr>
     else if k = [''TIME_LIMIT_EXCEEDED''] then c'\<lparr>vc_timeLimit := n\<rparr>
     else if k = [''MEMORY_LIMIT_EXCEEDED''] then c'\<lparr>vc_memoryLimit := n\<rparr>
     else c')"

text \<open>\<open>Number(((accepted / total) * 100).toFixed(2))\<close>, on exact numbers: the nearest hundredth.\<close>

definition acceptance_rate :: "nat \<Rightarrow> nat \<Rightarrow> rat" where
  "acceptance_rate accepted n =
     (if 0 < n then of_int \<lfloor>(of_nat accepted / of_nat n * 100) * 100 + 1 / 2 :: rat\<rfloor> / 100 else 0)"

record solved_counts =
  sc_easy :: nat
  sc_medium :: nat
  sc_hard :: nat

definition add_difficulty :: "solved_counts \<Rightarrow> string list \<times> nat \<Rightarrow> solved_counts" where
  "add_difficulty c dc = (case dc of (k, n) \<Rightarrow>
     if k = [''EASY''] then c\<lparr>sc_easy := n\<rparr>
     else if k = [''MEDIUM''] then c\<lparr>sc_medium := n\<rparr>
     else if k = [''HARD''] then c\<lparr>sc_hard := n\<rparr>
     else c)"

record user_stats =
  us_verdicts :: verdict_counts
  us_solved :: solved_counts
  us_totalSolved :: nat
  us_acceptanceRate :: rat

definition accepted_by :: "oid \<Rightarrow> submission \<Rightarrow> bool" where
  "accepted_by userId s \<longleftrightarrow> s_userId s = userId \<and> s_verdict s = ACCEPTED"

definition countSolved :: "'w backend \<Rightarrow> oid list \<Rightarrow> ('w, solved_counts) io" where
  "countSolved B solvedProblemIds =
     (if solvedProblemIds = [] then ret \<lparr>sc_easy = 0, sc_medium = 0, sc_hard = 0\<rparr>
      else await (groupCount (Problems B) (\<lambda>p. p_id p \<in> set solvedProblemIds \<and> p_isActive p)
          (\<lambda>p. [difficulty_name (p_difficulty p)])) (\<lambda>difficultyCounts.
        ret (foldl add_difficulty \<lparr>sc_easy = 0, sc_medium = 0, sc_hard = 0\<rparr> difficultyCounts)))"

definition getUserStats :: "'w backend \<Rightarrow> oid \<Rightarrow> ('w, user_stats) io" where
  "getUserStats B userId =
     await (groupCount (Submissions B) (\<lambda>s. s_userId s = userId) (\<lambda>s. [verdict_name (s_verdict s)])) (\<lambda>submissionStats.
     let counts = foldl add_stat no_counts submissionStats in
     await (distinctOf (Submissions B) (accepted_by userId) s_problemId) (\<lambda>solvedProblemIds.
     await (countSolved B solvedProblemIds) (\<lambda>solved.
     ret \<lparr>us_verdicts = counts, us_solved = solved,
          us_totalSolved = sc_easy solved + sc_medium solved + sc_hard solved,
          us_acceptanceRate = acceptance_rate (vc_accepted counts) (vc_total counts)\<rparr>)))"

section \<open>getUserSolvedProblems\<close>

definition solved_problem :: "problem \<Rightarrow> jsval" where
  "solved_problem p = JObj
     [(''id'', JStr (p_id p)), (''title'', JStr (p_title p)), (''difficulty'', JStr (difficulty_name (p_difficulty p))),
      (''tags'', JArr (map JStr (p_tags p))), (''createdAt'', js_int (p_createdAt p)), (''solved'', JBool True)]"

definition solved_filter :: "oid list \<Rightarrow> jsval \<Rightarrow> problem \<Rightarrow> bool" where
  "solved_filter ids q p \<longleftrightarrow> p_id p \<in> set ids \<and> p_isActive p \<and>
     (case field q ''difficulty'' of
        JStr s \<Rightarrow> s \<noteq> [] \<longrightarrow> difficulty_name (p_difficulty p) = js_upper s
      | _ \<Rightarrow> True)"

definition newest_problem_first :: "problem \<Rightarrow> problem \<Rightarrow> bool" where
  "newest_problem_first a b \<longleftrightarrow> p_createdAt b \<le> p_createdAt a"

definition getUserSolvedProblems :: "'w backend \<Rightarrow> oid \<Rightarrow> jsval \<Rightarrow> ('w, jsval list \<times> pagination) io" where
  "getUserSolvedProblems B userId q =
     await (distinctOf (Submissions B) (accepted_by userId) s_problemId) (\<lambda>ids.
       if ids = [] then
         ret ([], \<lparr>pg_page = page_of q, pg_limit = limit_of q, pg_total = 0, pg_totalPages = 0\<rparr>)
       else if truthy (field q ''difficulty'') \<and> as_string (field q ''difficulty'') = None then
         throw (js_error ''TypeError'' ''queryParams.difficulty.toUpperCase is not a function'')
       else await (findMany (Problems B) (solved_filter ids q) newest_problem_first (skip_of q) (Some (limit_of q))) (\<lambda>problems.
         await (countDocuments (Problems B) (solved_filter ids q)) (\<lambda>n.
         ret (map solved_problem problems, paginate q n))))"

section \<open>getUserActivity\<close>

text \<open>
  \<open>dayText\<close> is the database's \<open>$dateToString\<close>; \<open>daysBefore n\<close> and \<open>yearBefore\<close> are
  the calendar arithmetic of \<open>Date\<close> in the time zone of the server.
\<close>

record calendar =
  dayText :: "date \<Rightarrow> string"
  daysBefore :: "nat \<Rightarrow> date \<Rightarrow> date"
  yearBefore :: "date \<Rightarrow> date"

definition activity_start :: "calendar \<Rightarrow> string \<Rightarrow> date \<Rightarrow> date \<times> string" where
  "activity_start K rawRange t =
     (if rawRange = ''30d'' then (daysBefore K 30 t, ''30d'')
      else if rawRange = ''90d'' then (daysBefore K 90 t, ''90d'')
      else if rawRange = ''all'' then (0, ''all'')
      else (yearBefore K t, ''1y''))"

record activity =
  ac_range :: string
  ac_total :: nat
  ac_days :: "(string \<times> nat) list"

text \<open>The groups are sorted by their date as the last stages of the aggregation say.\<close>

definition getUserActivity :: "'w backend \<Rightarrow> calendar \<Rightarrow> oid \<Rightarrow> jsval \<Rightarrow> ('w, activity) io" where
  "getUserActivity B K userId q =
     (let range = (if truthy (field q ''range'') then field q ''range'' else JStr ''1y'') in
      case as_string range of
        None \<Rightarrow> throw (js_error ''TypeError'' ''(queryParams.range || \"1y\").toLowerCase is not a function'')
      | Some r \<Rightarrow>
          await (now B) (\<lambda>t.
          let start = activity_start K (js_lower r) t in
          await (groupCount (Submissions B) (\<lambda>s. s_userId s = userId \<and> fst start \<le> s_createdAt s)
              (\<lambda>s. [dayText K (s_createdAt s)])) (\<lambda>groups.
          let activityData = sort_by (\<lambda>a b. text_le (fst a) (fst b)) (map (\<lambda>(k, n). (concat k, n)) groups) in
          ret \<lparr>ac_range = snd start, ac_total = sum_list (map snd activityData), ac_days = activityData\<rparr>)))"

section \<open>Facts\<close>

lemma default_to_Cons:
  "map_of gs k = None \<Longrightarrow>
   default_to (if k = a then n else x) (map_of gs a) = default_to x (map_of ((k, n) # gs) a)"
  by simp

lemma add_stat_fields:
  "add_stat c (k, n) =
     \<lparr>vc_total = vc_total c + n,
      vc_accepted = (if k = [''ACCEPTED''] then n else vc_accepted c),
      vc_wrongAnswer = (if k = [''WRONG_ANSWER''] then n else vc_wrongAnswer c),
      vc_compilationError = (if k = [''COMPILATION_ERROR''] then n else vc_compilationError c),
      vc_runtimeError = (if k = [''RUNTIME_ERROR''] then n else vc_runtimeError c),
      vc_timeLimit = (if k = [''TIME_LIMIT_EXCEEDED''] then n else vc_timeLimit c),
      vc_memoryLimit = (if k = [''MEMORY_LIMIT_EXCEEDED''] then n else vc_memoryLimit c)\<rparr>"
  by (cases c) (simp add: add_stat_def Let_def)

lemma add_difficulty_fields:
  "add_difficulty c (k, n) =
     \<lparr>sc_easy = (if k = [''EASY''] then n else sc_easy c),
      sc_medium = (if k = [''MEDIUM''] then n else sc_medium c),
      sc_hard = (if k = [''HARD''] then n else sc_hard c)\<rparr>"
  by (cases c) (simp add: add_difficulty_def)

lemma foldl_add_stat:
  "distinct (map fst gs) \<Longrightarrow> foldl add_stat c gs =
     \<lparr>vc_total = vc_total c + sum_list (map snd gs),
      vc_accepted = default_to (vc_accepted c) (map_of gs [''ACCEPTED'']),
      vc_wrongAnswer = default_to (vc_wrongAnswer c) (map_of gs [''WRONG_ANSWER'']),
      vc_compilationError = default_to (vc_compilationError c) (map_of gs [''COMPILATION_ERROR'']),
      vc_runtimeError = default_to (vc_runtimeError c) (map_of gs [''RUNTIME_ERROR'']),
      vc_timeLimit = default_to (vc_timeLimit c) (map_of gs [''TIME_LIMIT_EXCEEDED'']),
      vc_memoryLimit = default_to (vc_memoryLimit c) (map_of gs [''MEMORY_LIMIT_EXCEEDED''])\<rparr>"
proof (induction gs arbitrary: c)
  case Nil
  show ?case by simp
next
  case (Cons e gs)
  obtain k n where e: "e = (k, n)" by (cases e)
  have new: "map_of gs k = None" using Cons.prems by (force simp: e map_of_eq_None_iff)
  have IH: "foldl add_stat (add_stat c e) gs =
     \<lparr>vc_total = vc_total (add_stat c e) + sum_list (map snd gs),
      vc_accepted = default_to (vc_accepted (add_stat c e)) (map_of gs [''ACCEPTED'']),
      vc_wrongAnswer = default_to (vc_wrongAnswer (add_stat c e)) (map_of gs [''WRONG_ANSWER'']),
      vc_compilationError = default_to (vc_compilationError (add_stat c e)) (map_of gs [''COMPILATION_ERROR'']),
      vc_runtimeError = default_to (vc_runtimeError (add_stat c e)) (map_of gs [''RUNTIME_ERROR'']),
      vc_timeLimit = default_to (vc_timeLimit (add_stat c e)) (map_of gs [''TIME_LIMIT_EXCEEDED'']),
      vc_memoryLimit = default_to (vc_memoryLimit (add_stat c e)) (map_of gs [''MEMORY_LIMIT_EXCEEDED''])\<rparr>"
    by (rule Cons.IH) (use Cons.prems in simp)
  show ?case
    unfolding foldl_Cons IH by (simp only: e add_stat_fields verdict_counts.simps default_to_Cons [OF new] list.map sum_list.Cons snd_conv add.assoc)
qed

lemma foldl_add_difficulty:
  "distinct (map fst gs) \<Longrightarrow> foldl add_difficulty c gs =
     \<lparr>sc_easy = default_to (sc_easy c) (map_of gs [''EASY'']),
      sc_medium = default_to (sc_medium c) (map_of gs [''MEDIUM'']),
      sc_hard = default_to (sc_hard c) (map_of gs [''HARD''])\<rparr>"
proof (induction gs arbitrary: c)
  case Nil
  show ?case by simp
next
  case (Cons e gs)
  obtain k n where e: "e = (k, n)" by (cases e)
  have new: "map_of gs k = None" using Cons.prems by (force simp: e map_of_eq_None_iff)
  have IH: "foldl add_difficulty (add_difficulty c e) gs =
     \<lparr>sc_easy = default_to (sc_easy (add_difficulty c e)) (map_of gs [''EASY'']),
      sc_medium = default_to (sc_medium (add_difficulty c e)) (map_of gs [''MEDIUM'']),
      sc_hard = default_to (sc_hard (add_difficulty c e)) (map_of gs [''HARD''])\<rparr>"
    by (rule Cons.IH) (use Cons.prems in simp)
  show ?case
    unfolding foldl_Cons IH by (simp only: e add_difficulty_fields solved_counts.simps default_to_Cons [OF new])
qed

lemma acceptance_rate_bounds:
  assumes "a \<le> n"
  shows "0 \<le> acceptance_rate a n \<and> acceptance_rate a n \<le> 100"
proof (cases "0 < n")
  case True
  let ?x = "(of_nat a / of_nat n * 100) * 100 + 1 / 2 :: rat"
  have "(of_nat a :: rat) / of_nat n \<le> 1" using assms True by simp
  then have hi: "?x < 10001" by linarith
  have "0 \<le> (of_nat a :: rat) / of_nat n" by simp
  then have lo: "0 \<le> ?x" by linarith
  from hi have "\<lfloor>?x\<rfloor> < 10001" by (simp add: floor_less_iff)
  then have "of_int \<lfloor>?x\<rfloor> \<le> (10000 :: rat)" by linarith
  moreover from lo have "0 \<le> \<lfloor>?x\<rfloor>" by (rule zero_le_floor [THEN iffD2])
  ultimately show ?thesis using True by (simp add: acceptance_rate_def)
qed (simp add: acceptance_rate_def)

lemma acceptance_rate_full: "0 < n \<Longrightarrow> acceptance_rate n n = 100"
  by (simp add: acceptance_rate_def floor_eq_iff)

text \<open>The number of submissions of a user with a verdict, and of problems solved by difficulty.\<close>

definition verdicts_of :: "db \<Rightarrow> oid \<Rightarrow> verdict \<Rightarrow> nat" where
  "verdicts_of v u r = card (matching (\<lambda>s. s_userId s = u \<and> s_verdict s = r) (db_submissions v))"

definition solved_problems :: "db \<Rightarrow> oid \<Rightarrow> difficulty \<Rightarrow> nat" where
  "solved_problems v u d = card (matching (\<lambda>p. p_isActive p \<and> p_difficulty p = d \<and> solved_by v (Some u) (p_id p)) (db_problems v))"

lemma difficulty_name_inject [simp]: "difficulty_name a = difficulty_name b \<longleftrightarrow> a = b"
  by (cases a; cases b) simp_all

context database
begin

lemma solved_ids:
  assumes "distinctOf (Submissions B) (accepted_by u) s_problemId w = (Inr ids, w')"
  shows "pid \<in> set ids \<longleftrightarrow> solved_by (view w) (Some u) pid" and "view w' = view w"
  using submissions.distinctOf_result [OF assms] keepsD [OF submissions.distinctOf_keeps assms]
  by (auto simp: solved_by_def accepted_by_def)

lemma countSolved_counts:
  assumes "countSolved B ids w = (Inr c, w')" and ids: "\<And>pid. pid \<in> set ids \<longleftrightarrow> solved_by (view w) (Some u) pid"
  shows "c = \<lparr>sc_easy = solved_problems (view w) u EASY, sc_medium = solved_problems (view w) u MEDIUM,
    sc_hard = solved_problems (view w) u HARD\<rparr> \<and> view w' = view w"
proof (cases "ids = []")
  case True
  then have "\<not> solved_by (view w) (Some u) pid" for pid using ids by auto
  then show ?thesis using True assms(1) by (auto simp: countSolved_def solved_problems_def matching_def)
next
  case False
  let ?key = "\<lambda>p :: problem. [difficulty_name (p_difficulty p)]"
  from False assms(1) obtain gs where g: "groupCount (Problems B) (\<lambda>p. p_id p \<in> set ids \<and> p_isActive p) ?key w = (Inr gs, w')"
    and c: "c = foldl add_difficulty \<lparr>sc_easy = 0, sc_medium = 0, sc_hard = 0\<rparr> gs"
    by (auto simp: countSolved_def elim!: await_cases)
  have n: "default_to 0 (map_of gs [difficulty_name d]) = solved_problems (view w) u d" for d
  proof -
    have "(\<lambda>p. (p_id p \<in> set ids \<and> p_isActive p) \<and> ?key p = [difficulty_name d]) =
        (\<lambda>p. p_isActive p \<and> p_difficulty p = d \<and> solved_by (view w) (Some u) (p_id p))"
      by (auto simp: ids fun_eq_iff)
    then show ?thesis
      using problems.group_lookup [OF g, of "[difficulty_name d]"] by (simp add: solved_problems_def)
  qed
  have "view w' = view w" using g by (rule keepsD [OF problems.groupCount_keeps])
  with n [of EASY] n [of MEDIUM] n [of HARD] show ?thesis
    by (simp add: c foldl_add_difficulty [OF problems.group_distinct [OF g]])
qed

lemma getUserStats_counts:
  assumes "getUserStats B u w = (Inr st, w')"
  shows "us_verdicts st = \<lparr>vc_total = card (matching (\<lambda>s. s_userId s = u) (db_submissions (view w))),
      vc_accepted = verdicts_of (view w) u ACCEPTED, vc_wrongAnswer = verdicts_of (view w) u WRONG_ANSWER,
      vc_compilationError = verdicts_of (view w) u COMPILATION_ERROR, vc_runtimeError = verdicts_of (view w) u RUNTIME_ERROR,
      vc_timeLimit = verdicts_of (view w) u TIME_LIMIT_EXCEEDED, vc_memoryLimit = verdicts_of (view w) u MEMORY_LIMIT_EXCEEDED\<rparr>"
    and "us_solved st = \<lparr>sc_easy = solved_problems (view w) u EASY, sc_medium = solved_problems (view w) u MEDIUM,
      sc_hard = solved_problems (view w) u HARD\<rparr>"
    and "us_totalSolved st = sc_easy (us_solved st) + sc_medium (us_solved st) + sc_hard (us_solved st)"
    and "us_acceptanceRate st = acceptance_rate (vc_accepted (us_verdicts st)) (vc_total (us_verdicts st))"
    and "view w' = view w"
proof -
  let ?key = "\<lambda>s :: submission. [verdict_name (s_verdict s)]"
  from assms obtain gs ids c w1 w2 where
    g: "groupCount (Submissions B) (\<lambda>s. s_userId s = u) ?key w = (Inr gs, w1)" and
    d: "distinctOf (Submissions B) (accepted_by u) s_problemId w1 = (Inr ids, w2)" and
    c: "countSolved B ids w2 = (Inr c, w')" and
    st: "st = \<lparr>us_verdicts = foldl add_stat no_counts gs, us_solved = c,
          us_totalSolved = sc_easy c + sc_medium c + sc_hard c,
          us_acceptanceRate = acceptance_rate (vc_accepted (foldl add_stat no_counts gs)) (vc_total (foldl add_stat no_counts gs))\<rparr>"
    unfolding getUserStats_def Let_def by (auto elim!: await_cases)
  have v1: "view w1 = view w" using g by (rule keepsD [OF submissions.groupCount_keeps])
  have v2: "view w2 = view w" using solved_ids(2) [OF d] v1 by simp
  have ids: "pid \<in> set ids \<longleftrightarrow> solved_by (view w2) (Some u) pid" for pid
    using solved_ids(1) [OF d] v1 v2 by simp
  have n: "default_to 0 (map_of gs [verdict_name r]) = verdicts_of (view w) u r" for r
    using submissions.group_lookup [OF g, of "[verdict_name r]"] by (simp add: verdicts_of_def)
  note ns = n [of ACCEPTED] n [of WRONG_ANSWER] n [of COMPILATION_ERROR] n [of RUNTIME_ERROR]
    n [of TIME_LIMIT_EXCEEDED] n [of MEMORY_LIMIT_EXCEEDED]
  show "us_verdicts st = \<lparr>vc_total = card (matching (\<lambda>s. s_userId s = u) (db_submissions (view w))),
      vc_accepted = verdicts_of (view w) u ACCEPTED, vc_wrongAnswer = verdicts_of (view w) u WRONG_ANSWER,
      vc_compilationError = verdicts_of (view w) u COMPILATION_ERROR, vc_runtimeError = verdicts_of (view w) u RUNTIME_ERROR,
      vc_timeLimit = verdicts_of (view w) u TIME_LIMIT_EXCEEDED, vc_memoryLimit = verdicts_of (view w) u MEMORY_LIMIT_EXCEEDED\<rparr>"
    using ns submissions.group_total [OF g]
    by (simp add: st foldl_add_stat [OF submissions.group_distinct [OF g]] no_counts_def)
  show "us_solved st = \<lparr>sc_easy = solved_problems (view w) u EASY, sc_medium = solved_problems (view w) u MEDIUM,
      sc_hard = solved_problems (view w) u HARD\<rparr>" and "view w' = view w"
    using countSolved_counts [OF c ids] v2 by (simp_all add: st)
  show "us_totalSolved st = sc_easy (us_solved st) + sc_medium (us_solved st) + sc_hard (us_solved st)"
    and "us_acceptanceRate st = acceptance_rate (vc_accepted (us_verdicts st)) (vc_total (us_verdicts st))"
    by (simp_all add: st)
qed

lemma verdicts_of_le: "verdicts_of (view w) u r \<le> card (matching (\<lambda>s. s_userId s = u) (db_submissions (view w)))"
  unfolding verdicts_of_def
proof (rule card_mono)
  show "finite (matching (\<lambda>s. s_userId s = u) (db_submissions (view w)))"
    by (rule finite_subset [OF _ submissions.finite_docs [of w]]) (auto simp: matching_def)
qed (auto simp: matching_def)

end

section \<open>Properties\<close>


text \<open>The solved problems listed for a user are, newest first and cut at the requested window, the
  active problems with an accepted submission of that user that pass the filter; a user who has
  solved nothing gets an empty list and zero pages.\<close>

theorem getUserSolvedProblems_page:
  assumes "database B view" and "getUserSolvedProblems B u q w = (Inr (xs, pg), w')"
  shows "\<exists>ids ps. (\<forall>pid. pid \<in> set ids \<longleftrightarrow> solved_by (view w) (Some u) pid) \<and>
    listing (solved_filter ids q) (db_problems (view w)) ps \<and> sorted_wrt newest_problem_first ps \<and>
    xs = map solved_problem (slice (skip_of q) (Some (limit_of q)) ps) \<and> pg_total pg = length ps \<and>
    pg_totalPages pg = (if ids = [] then 0 else total_pages (length ps) (limit_of q)) \<and> view w' = view w"
proof -
  have subs: "collection (Submissions B) view db_submissions db_submissions_update"
    and problems: "collection (Problems B) view db_problems db_problems_update"
    using assms(1) by (simp_all add: database_def)
  from assms(2) obtain ids w1 where d: "distinctOf (Submissions B) (accepted_by u) s_problemId w = (Inr ids, w1)"
    and k: "(if ids = [] then
         ret ([], \<lparr>pg_page = page_of q, pg_limit = limit_of q, pg_total = 0, pg_totalPages = 0\<rparr>)
       else if truthy (field q ''difficulty'') \<and> as_string (field q ''difficulty'') = None then
         throw (js_error ''TypeError'' ''queryParams.difficulty.toUpperCase is not a function'')
       else await (findMany (Problems B) (solved_filter ids q) newest_problem_first (skip_of q) (Some (limit_of q))) (\<lambda>problems.
         await (countDocuments (Problems B) (solved_filter ids q)) (\<lambda>n.
         ret (map solved_problem problems, paginate q n)))) w1 = (Inr (xs, pg), w')"
    unfolding getUserSolvedProblems_def by (auto elim!: await_cases)
  note ids = database.solved_ids [OF assms(1) d]
  show ?thesis
  proof (cases "ids = []")
    case True
    then have "listing (solved_filter ids q) (db_problems (view w)) []"
      by (auto simp: listing_def matching_def solved_filter_def)
    with True k ids show ?thesis by (intro exI [of _ ids] exI [of _ "[]"]) (auto simp: slice_def)
  next
    case False
    with k obtain page n w2 where
      f: "findMany (Problems B) (solved_filter ids q) newest_problem_first (skip_of q) (Some (limit_of q)) w1 = (Inr page, w2)" and
      c: "countDocuments (Problems B) (solved_filter ids q) w2 = (Inr n, w')" and
      x: "xs = map solved_problem page" "pg = paginate q n"
      by (auto elim!: await_cases split: if_splits)
    have pre: "total_preorder newest_problem_first" by (auto simp: total_preorder_def newest_problem_first_def)
    obtain ps where "listing (solved_filter ids q) (db_problems (view w1)) ps" "sorted_wrt newest_problem_first ps"
      "page = slice (skip_of q) (Some (limit_of q)) ps" "n = length ps" "view w' = view w1"
      using collection.window_and_count [OF problems pre f c] by blast
    with False ids x show ?thesis by (intro exI [of _ ids] exI [of _ ps]) auto
  qed
qed

text \<open>The activity of a user lists each day on which the user submitted since the start of the
  range exactly once, in the order of the dates, with the number of submissions of that day;
  the total is the number of all those submissions.\<close>

theorem getUserActivity_days:
  assumes "database B view" and "getUserActivity B K u q w = (Inr a, w')"
  shows "\<exists>start. ac_total a = card (matching (\<lambda>s. s_userId s = u \<and> start \<le> s_createdAt s) (db_submissions (view w))) \<and>
    distinct (map fst (ac_days a)) \<and> sorted_wrt (\<lambda>x y. text_le (fst x) (fst y)) (ac_days a) \<and>
    (\<forall>day n. (day, n) \<in> set (ac_days a) \<longleftrightarrow> 0 < n \<and>
      n = card (matching (\<lambda>s. s_userId s = u \<and> start \<le> s_createdAt s \<and> dayText K (s_createdAt s) = day) (db_submissions (view w))))"
proof -
  have subs: "collection (Submissions B) view db_submissions db_submissions_update"
    using assms(1) by (simp add: database_def)
  let ?day = "\<lambda>s :: submission. [dayText K (s_createdAt s)]"
  let ?le = "\<lambda>a b :: string \<times> nat. text_le (fst a) (fst b)"
  from assms(2) obtain t start r gs w1 where t: "now B w = (Inr t, w1)" and
    g: "groupCount (Submissions B) (\<lambda>s. s_userId s = u \<and> start \<le> s_createdAt s) ?day w1 = (Inr gs, w')" and
    a: "a = \<lparr>ac_range = r, ac_total = sum_list (map snd (sort_by ?le (map (\<lambda>(k, n). (concat k, n)) gs))),
       ac_days = sort_by ?le (map (\<lambda>(k, n). (concat k, n)) gs)\<rparr>"
    unfolding getUserActivity_def Let_def by (auto elim!: await_cases split: option.splits)
  let ?P = "\<lambda>s. s_userId s = u \<and> start \<le> s_createdAt s"
  let ?days = "map (\<lambda>(k, n). (concat k, n)) gs"
  have v1: "view w1 = view w" using t by (rule keepsD [OF database.now_keeps [OF assms(1)]])
  have key: "\<exists>d. k = [d]" if "(k, n) \<in> set gs" for k n
    using collection.group_key [OF subs g that] by auto
  have mem: "(k, n) \<in> set gs \<longleftrightarrow> 0 < n \<and> n = card (matching (\<lambda>s. ?P s \<and> ?day s = k) (db_submissions (view w)))" for k n
    using conjunct2 [OF collection.groupCount_result [OF subs g]] unfolding v1 by (elim allE)
  have total: "sum_list (map snd (sort_by ?le ?days)) = sum_list (map snd gs)"
  proof -
    have "mset (map snd (sort_by ?le ?days)) = mset (map snd ?days)" by (simp only: mset_map mset_sort_by)
    also have "map snd ?days = map snd gs" by (simp add: case_prod_beta comp_def)
    finally show ?thesis by (simp only: sum_mset_sum_list [symmetric])
  qed
  have key': "\<exists>d. k = [d]" if "k \<in> set (map fst gs)" for k
  proof -
    from that obtain n where "(k, n) \<in> set gs" by auto
    then show ?thesis by (rule key)
  qed
  have inj: "inj_on concat (set (map fst gs))"
  proof (rule inj_onI)
    fix j k
    assume "j \<in> set (map fst gs)" "k \<in> set (map fst gs)" "concat j = concat k"
    then show "j = k" using key' [of j] key' [of k] by auto
  qed
  have fsts: "map fst ?days = map concat (map fst gs)" by (simp add: case_prod_beta comp_def)
  have "distinct (map fst ?days)"
    unfolding fsts by (rule distinct_map [THEN iffD2]) (use inj collection.group_distinct [OF subs g] in blast)
  moreover have "mset (map fst (sort_by ?le ?days)) = mset (map fst ?days)"
    by (simp only: mset_map mset_sort_by)
  ultimately have dist: "distinct (map fst (sort_by ?le ?days))" using mset_eq_imp_distinct_iff [of "map fst (sort_by ?le ?days)" "map fst ?days"] by simp
  have sorted: "sorted_wrt ?le (sort_by ?le ?days)" by (rule sorted_sort_by) (rule total_preorder_text)
  have days: "(day, n) \<in> set (sort_by ?le ?days) \<longleftrightarrow> 0 < n \<and>
      n = card (matching (\<lambda>s. s_userId s = u \<and> start \<le> s_createdAt s \<and> dayText K (s_createdAt s) = day) (db_submissions (view w)))" for day n
  proof -
    have "(day, n) \<in> set ?days \<longleftrightarrow> ([day], n) \<in> set gs" using key by force
    then show ?thesis by (simp add: mem conj_assoc)
  qed
  show ?thesis
    unfolding a using total collection.group_total [OF subs g] dist sorted days v1
    by (intro exI [of _ start]) simp
qed


section \<open>Concrete instances\<close>

definition profile_world :: world where
  "profile_world = full_world\<lparr>w_submissions := [(''s'', sample_submission\<lparr>s_verdict := ACCEPTED, s_status := COMPLETED\<rparr>)]\<rparr>"


theorem getUserSolvedProblems_page_witness:
  "\<exists>xs pg w'. getUserSolvedProblems (mem_backend accept_all True) ''u'' (JObj []) profile_world = (Inr (xs, pg), w') \<and>
     length xs \<le> pg_total pg"
proof -
  have "(case getUserSolvedProblems (mem_backend accept_all True) ''u'' (JObj []) profile_world of
      (Inr x, w) \<Rightarrow> True | _ \<Rightarrow> False)" by code_simp
  then obtain xs pg w' where run:
    "getUserSolvedProblems (mem_backend accept_all True) ''u'' (JObj []) profile_world = (Inr (xs, pg), w')"
    by (auto split: prod.splits sum.splits)
  from getUserSolvedProblems_page [OF mem_accept.database_axioms run] run show ?thesis
    by (force simp: slice_def)
qed

text \<open>Days are written by their number, in unary, so that their texts are ordered as the days are.\<close>

definition unary_calendar :: calendar where
  "unary_calendar = \<lparr>dayText = (\<lambda>t. replicate (nat (t div 86400000)) (CHR ''i'')),
     daysBefore = (\<lambda>n t. t - int n * 86400000), yearBefore = (\<lambda>t. t - 365 * 86400000)\<rparr>"

theorem getUserActivity_days_witness:
  "\<exists>a w'. getUserActivity (mem_backend accept_all True) unary_calendar ''u'' (JObj [(''range'', JStr ''ALL'')]) profile_world =
     (Inr a, w') \<and> distinct (map fst (ac_days a))"
proof -
  have "(case getUserActivity (mem_backend accept_all True) unary_calendar ''u'' (JObj [(''range'', JStr ''ALL'')]) profile_world of
      (Inr x, w) \<Rightarrow> True | _ \<Rightarrow> False)" by code_simp
  then obtain a w' where run: "getUserActivity (mem_backend accept_all True) unary_calendar ''u''
      (JObj [(''range'', JStr ''ALL'')]) profile_world = (Inr a, w')"
    by (auto split: prod.splits sum.splits)
  from getUserActivity_days [OF mem_accept.database_axioms run] run show ?thesis by blast
qed

end
