(* ===== verification/TestCases.thy ===== *)
theory TestCases
  imports Problems
begin

text \<open>
  Test cases (\<open>modules/test-cases/test-case.validation.js\<close>, \<open>test-case.service.js\<close>): who
  sees which tests, and the administrators' creation, update and soft deletion.
\<close>

section \<open>test-case.validation.js\<close>

definition VALID_VISIBILITIES :: "string list" where
  "VALID_VISIBILITIES = [''PUBLIC'', ''HIDDEN'']"

definition validateTestCaseId :: "(jsval \<Rightarrow> oid option) \<Rightarrow> jsval \<Rightarrow> err + unit" where
  "validateTestCaseId castId testCaseId =
     (if \<not> truthy testCaseId \<or> castId testCaseId = None
      then Inl (AppError ''Invalid test case ID format'' 400 None) else Inr ())"

definition valid_visibility :: "jsval \<Rightarrow> bool" where
  "valid_visibility v = (case as_string v of None \<Rightarrow> False | Some s \<Rightarrow> s \<in> set VALID_VISIBILITIES)"

text \<open>\<open>typeof order !== 'number' || isNaN(order) || order < 0\<close>.\<close>

fun bad_order :: "jsval \<Rightarrow> bool" where
  "bad_order (JNum NaN) = True"
| "bad_order (JNum (Infinite b)) = (\<not> b)"
| "bad_order (JNum (Finite r)) = (r < 0)"
| "bad_order v = True"

definition test_server_fields :: "string list" where
  "test_server_fields = [''problemId'', ''isActive'', ''createdAt'', ''updatedAt'', ''id'', ''_id'']"

definition validateCreateTestCase :: "jsval \<Rightarrow> err + jsval" where
  "validateCreateTestCase body =
     (let input = field body ''input''; expectedOutput = field body ''expectedOutput'';
          visibility = field body ''visibility''; order = field body ''order'' in
      if as_string input = None then Inl (AppError ''Input is required and must be a string'' 400 None)
      else if as_string expectedOutput = None then
        Inl (AppError ''Expected output is required and must be a string'' 400 None)
      else if \<not> valid_visibility visibility then Inl (AppError ''Visibility must be either PUBLIC or HIDDEN'' 400 None)
      else if bad_order order then Inl (AppError ''Order must be a non-negative number'' 400 None)
      else Inr (del_fields test_server_fields
        (set_field ''order'' order (set_field ''visibility'' visibility
          (set_field ''expectedOutput'' expectedOutput (set_field ''input'' input body))))))"

definition test_fields :: "string list" where
  "test_fields = [''input'', ''expectedOutput'', ''visibility'', ''order'']"

definition validateUpdateTestCase :: "jsval \<Rightarrow> err + jsval" where
  "validateUpdateTestCase body0 =
     (let body = del_fields test_server_fields body0;
          given = (\<lambda>k. field body k \<noteq> JUndefined) in
      if filter (\<lambda>k. k \<in> set test_fields) (keys_of body) = [] then
        Inl (AppError ''At least one valid field must be provided for update'' 400 None)
      else if given ''input'' \<and> as_string (field body ''input'') = None then
        Inl (AppError ''Input must be a string'' 400 None)
      else if given ''expectedOutput'' \<and> as_string (field body ''expectedOutput'') = None then
        Inl (AppError ''Expected output must be a string'' 400 None)
      else if given ''visibility'' \<and> \<not> valid_visibility (field body ''visibility'') then
        Inl (AppError ''Visibility must be either PUBLIC or HIDDEN'' 400 None)
      else if given ''order'' \<and> bad_order (field body ''order'') then
        Inl (AppError ''Order must be a non-negative number'' 400 None)
      else Inr body)"

section \<open>test-case.service.js\<close>

definition visibility_of :: "string \<Rightarrow> visibility" where
  "visibility_of s = (if s = ''PUBLIC'' then PUBLIC else HIDDEN)"

definition number_of :: "jsval \<Rightarrow> jsnum" where
  "number_of v = (case v of JNum x \<Rightarrow> x | _ \<Rightarrow> NaN)"

text \<open>Setting a field with the casts of the schema; validated data.\<close>

definition apply_test_field :: "string \<Rightarrow> jsval \<Rightarrow> testcase \<Rightarrow> testcase" where
  "apply_test_field k v t =
     (if k = ''input'' then t\<lparr>t_input := text_of v\<rparr>
      else if k = ''expectedOutput'' then t\<lparr>t_expectedOutput := text_of v\<rparr>
      else if k = ''visibility'' then t\<lparr>t_visibility := visibility_of (text_of v)\<rparr>
      else if k = ''order'' then t\<lparr>t_order := number_of v\<rparr>
      else t)"

definition assign_test_fields :: "jsval \<Rightarrow> testcase \<Rightarrow> testcase" where
  "assign_test_fields data t =
     foldl (\<lambda>t k. if field data k = JUndefined then t else apply_test_field k (field data k) t) t test_fields"

definition test_data_schema :: "jsval \<Rightarrow> testcase \<Rightarrow> bool" where
  "test_data_schema data t \<longleftrightarrow> testcase_schema t \<and>
     (field data ''visibility'' \<noteq> JUndefined \<longrightarrow> valid_visibility (field data ''visibility''))"

definition new_test :: "jsval \<Rightarrow> oid \<Rightarrow> oid \<Rightarrow> date \<Rightarrow> testcase" where
  "new_test data problemId i t = assign_test_fields data
     \<lparr>t_id = i, t_problemId = problemId, t_input = [], t_expectedOutput = [], t_visibility = HIDDEN,
      t_order = NaN, t_isActive = True, t_createdAt = t\<rparr>"

definition createTestCase :: "'w backend \<Rightarrow> oid \<Rightarrow> jsval \<Rightarrow> oid option \<Rightarrow> ('w, jsval) io" where
  "createTestCase B problemId data user =
     await (findById (Problems B) problemId) (\<lambda>problem. case problem of
       None \<Rightarrow> throw (AppError ''Problem not found'' 404 None)
     | Some _ \<Rightarrow>
         await (create_valid (TestCases B)
           (\<lambda>t. test_data_schema data t \<and> valid_visibility (field data ''visibility'')) (new_test data problemId)) (\<lambda>testCase.
         await (audit_by B user TEST_CASE_CREATED TestCase_target (t_id testCase)
           (JObj [(''problemId'', JStr problemId), (''visibility'', JStr (visibility_name (t_visibility testCase))),
                  (''order'', JNum (t_order testCase))])) (\<lambda>_.
         ret (toSafeTestCase testCase))))"

definition visible_to :: "role \<Rightarrow> testcase \<Rightarrow> bool" where
  "visible_to userRole t \<longleftrightarrow> userRole = ADMIN \<or> t_visibility t = PUBLIC"

definition getTestCasesForProblem :: "'w backend \<Rightarrow> oid \<Rightarrow> role \<Rightarrow> ('w, jsval list) io" where
  "getTestCasesForProblem B problemId userRole =
     await (findById (Problems B) problemId) (\<lambda>problem. case problem of
       None \<Rightarrow> throw (AppError ''Problem not found'' 404 None)
     | Some _ \<Rightarrow>
         await (findMany (TestCases B) (\<lambda>t. activeTests problemId t \<and> visible_to userRole t) order_le 0 None) (\<lambda>testCases.
         ret (map toSafeTestCase testCases)))"

definition getTestCaseById :: "'w backend \<Rightarrow> oid \<Rightarrow> role \<Rightarrow> ('w, jsval) io" where
  "getTestCaseById B testCaseId userRole =
     await (findOne (TestCases B) (\<lambda>t. t_id t = testCaseId \<and>
         (userRole \<noteq> ADMIN \<longrightarrow> t_isActive t \<and> t_visibility t = PUBLIC))) (\<lambda>testCase. case testCase of
       None \<Rightarrow> throw (AppError ''Test case not found'' 404 None)
     | Some t \<Rightarrow> ret (toSafeTestCase t))"

definition test_delta :: "testcase \<Rightarrow> testcase \<Rightarrow> testcase \<Rightarrow> testcase" where
  "test_delta old new d = d\<lparr>
     t_input := (if t_input new = t_input old then t_input d else t_input new),
     t_expectedOutput := (if t_expectedOutput new = t_expectedOutput old then t_expectedOutput d else t_expectedOutput new),
     t_visibility := (if t_visibility new = t_visibility old then t_visibility d else t_visibility new),
     t_order := (if t_order new = t_order old then t_order d else t_order new),
     t_isActive := (if t_isActive new = t_isActive old then t_isActive d else t_isActive new)\<rparr>"

definition updateTestCase :: "'w backend \<Rightarrow> oid \<Rightarrow> jsval \<Rightarrow> oid option \<Rightarrow> ('w, jsval) io" where
  "updateTestCase B testCaseId updateData user =
     await (findById (TestCases B) testCaseId) (\<lambda>found. case found of
       None \<Rightarrow> throw (AppError ''Test case not found'' 404 None)
     | Some old \<Rightarrow>
         let testCase = assign_test_fields updateData old in
         await (save_valid (TestCases B) (test_data_schema updateData) (t_id old) testCase (test_delta old testCase)) (\<lambda>_.
         await (audit_by B user TEST_CASE_UPDATED TestCase_target (t_id old) (changed_fields test_fields updateData)) (\<lambda>_.
         ret (toSafeTestCase testCase))))"

definition deactivateTestCase :: "'w backend \<Rightarrow> oid \<Rightarrow> oid option \<Rightarrow> ('w, string) io" where
  "deactivateTestCase B testCaseId user =
     await (findById (TestCases B) testCaseId) (\<lambda>found. case found of
       None \<Rightarrow> throw (AppError ''Test case not found'' 404 None)
     | Some old \<Rightarrow>
         if t_isActive old then
           let testCase = old\<lparr>t_isActive := False\<rparr> in
           await (save_valid (TestCases B) testcase_schema (t_id old) testCase (test_delta old testCase)) (\<lambda>_.
           await (audit_by B user TEST_CASE_DELETED TestCase_target (t_id old)
             (JObj [(''problemId'', JStr (t_problemId old))])) (\<lambda>_.
           ret ''Test case deactivated successfully''))
         else ret ''Test case deactivated successfully'')"

section \<open>Writing a test case\<close>

definition test_ids_ok :: "db \<Rightarrow> bool" where
  "test_ids_ok v \<longleftrightarrow> (\<forall>i t. db_testCases v i = Some t \<longrightarrow> t_id t = i)"

definition put_test :: "testcase \<Rightarrow> db \<Rightarrow> db" where
  "put_test t v = db_testCases_update (\<lambda>m. m(t_id t \<mapsto> t)) v"

definition same_place :: "testcase \<Rightarrow> testcase \<Rightarrow> bool" where
  "same_place a b \<longleftrightarrow> t_id a = t_id b \<and> t_problemId a = t_problemId b \<and> t_createdAt a = t_createdAt b"

lemma assign_test_fields_place:
  "same_place t (assign_test_fields data t) \<and> t_isActive (assign_test_fields data t) = t_isActive t"
  by (simp add: assign_test_fields_def test_fields_def apply_test_field_def same_place_def)

lemma test_delta_same: "same_place old new \<Longrightarrow> test_delta old new old = new"
  by (cases old; cases new) (simp add: test_delta_def same_place_def)

context database
begin

lemma save_test:
  assumes "save_valid (TestCases B) ok (t_id old) new (test_delta old new) w = (r, w')"
    and doc: "db_testCases (view w) (t_id old) = Some old" and same: "same_place old new"
  shows "(\<exists>e. r = Inl e) \<and> view w' = view w \<or> ok new \<and> view w' = put_test new (view w)"
proof (cases "ok new")
  case True
  with assms(1) have s: "save (TestCases B) (t_id old) (test_delta old new) w = (r, w')"
    by (simp add: save_valid_def)
  have "db_testCases_update (modify (t_id old) (\<lambda>_. True) (test_delta old new)) (view w) = put_test new (view w)"
    using doc test_delta_same [OF same] same
    by (cases "view w") (simp add: put_test_def modify_def same_place_def)
  with testCases.save_view_cases [OF s] testCases.save_ok s True show ?thesis by (cases r) auto
next
  case False
  with assms(1) show ?thesis by (auto simp: save_valid_def)
qed

lemma save_test_and_audit:
  assumes run: "await (save_valid (TestCases B) ok (t_id old) new (test_delta old new)) (\<lambda>_.
      await (audit_by B user a k i d) (\<lambda>_. ret x)) w = (r, w')"
    and doc: "db_testCases (view w) (t_id old) = Some old" and same: "same_place old new"
  shows "(\<exists>e. r = Inl e) \<and> view w' = view w \<or> ok new \<and> audit_grows (put_test new (view w)) (view w')"
    and "r = Inr y \<Longrightarrow> y = x \<and> ok new \<and> audit_grows (put_test new (view w)) (view w')"
proof -
  have "((\<exists>e. r = Inl e) \<and> view w' = view w \<or> ok new \<and> audit_grows (put_test new (view w)) (view w')) \<and>
      (r = Inr y \<longrightarrow> y = x \<and> ok new \<and> audit_grows (put_test new (view w)) (view w'))"
    using run
  proof (cases rule: await_cases)
    case (err e)
    with save_test [OF err(1) doc same] reflpD [OF reflp_audit_grows] show ?thesis by auto
  next
    case (ok u w1)
    with save_test [OF ok(1) doc same] have v1: "ok new" "view w1 = put_test new (view w)" by auto
    from ok(2) v1 show ?thesis
      by (cases rule: await_cases) (use audit_by_effect in fastforce)+
  qed
  then show "(\<exists>e. r = Inl e) \<and> view w' = view w \<or> ok new \<and> audit_grows (put_test new (view w)) (view w')"
    and "r = Inr y \<Longrightarrow> y = x \<and> ok new \<and> audit_grows (put_test new (view w)) (view w')" by blast+
qed

end

section \<open>Properties\<close>

text \<open>C37: The tests shown for a problem are, in their order, exactly its active tests, and for
  everyone but an administrator exactly the public ones among them: no hidden or deactivated
  test reaches a user. Reading changes nothing.\<close>

theorem getTestCasesForProblem_visible:
  assumes "database B view" and "getTestCasesForProblem B pid role w = (Inr xs, w')"
  shows "\<exists>ts. listing (\<lambda>t. activeTests pid t \<and> visible_to role t) (db_testCases (view w)) ts \<and>
    sorted_wrt order_le ts \<and> xs = map toSafeTestCase ts \<and> view w' = view w \<and>
    list_all (\<lambda>t. t_isActive t \<and> (t_visibility t = PUBLIC \<or> role = ADMIN)) ts"
proof -
  have problems: "collection (Problems B) view db_problems db_problems_update"
    and tests: "collection (TestCases B) view db_testCases db_testCases_update"
    using assms(1) by (simp_all add: database_def)
  from assms(2) obtain p w1 ts where p: "findById (Problems B) pid w = (Inr p, w1)"
    and f: "findMany (TestCases B) (\<lambda>t. activeTests pid t \<and> visible_to role t) order_le 0 None w1 = (Inr ts, w')"
    and xs: "xs = map toSafeTestCase ts"
    unfolding getTestCasesForProblem_def by (auto elim!: await_cases split: option.splits)
  have v1: "view w1 = view w" using p by (rule keepsD [OF collection.findById_keeps [OF problems]])
  have v': "view w' = view w" using keepsD [OF collection.findMany_keeps [OF tests] f] v1 by simp
  from collection.findMany_result [OF tests total_preorder_order_le f]
  have ts: "listing (\<lambda>t. activeTests pid t \<and> visible_to role t) (db_testCases (view w)) ts" "sorted_wrt order_le ts"
    by (auto simp: v1)
  have "\<forall>t\<in>set ts. t_isActive t \<and> (t_visibility t = PUBLIC \<or> role = ADMIN)"
    using listing_all [OF ts(1)] by (auto simp: activeTests_def visible_to_def)
  with ts xs v' show ?thesis by (auto simp: list_all_iff)
qed

text \<open>A single test is shown to a user only if it is active and public; for any other test, as
  for an id that is not stored, the answer is 404, so that its existence is not revealed.\<close>

theorem getTestCaseById_visible:
  assumes "database B view" and "test_ids_ok (view w)" and "getTestCaseById B i role w = (r, w')"
  shows "view w' = view w \<and>
    ((\<exists>P e w1. findOne (TestCases B) P w = (Inl e, w1) \<and> r = Inl e) \<or>
     r = (case db_testCases (view w) i of
        None \<Rightarrow> Inl (AppError ''Test case not found'' 404 None)
      | Some t \<Rightarrow> if role = ADMIN \<or> t_isActive t \<and> t_visibility t = PUBLIC then Inr (toSafeTestCase t)
          else Inl (AppError ''Test case not found'' 404 None)))"
  using assms(3) unfolding getTestCaseById_def
proof (cases rule: await_cases)
  case (err e)
  have tests: "collection (TestCases B) view db_testCases db_testCases_update"
    using assms(1) by (simp add: database_def)
  from err keepsD [OF collection.findOne_keeps [OF tests] err(1)] show ?thesis by blast
next
  case (ok found w1)
  let ?P = "\<lambda>t. t_id t = i \<and> (role \<noteq> ADMIN \<longrightarrow> t_isActive t \<and> t_visibility t = PUBLIC)"
  have tests: "collection (TestCases B) view db_testCases db_testCases_update"
    using assms(1) by (simp add: database_def)
  have v1: "view w1 = view w" by (rule keepsD [OF collection.findOne_keeps [OF tests] ok(1)])
  show ?thesis
  proof (cases found)
    case None
    with ok(1) have "matching ?P (db_testCases (view w)) = {}"
      using collection.findOne_None [OF tests] by blast
    then have "\<not> ?P t" if "db_testCases (view w) i = Some t" for t
      using that unfolding matching_def by blast
    with None ok(2) v1 assms(2) show ?thesis
      by (auto simp: test_ids_ok_def split: option.splits)
  next
    case (Some t)
    with ok(1) obtain j where "db_testCases (view w) j = Some t" "?P t"
      using collection.findOne_Some [OF tests] by blast
    with Some ok(2) v1 assms(2) show ?thesis by (auto simp: test_ids_ok_def)
  qed
qed

text \<open>Updating a test writes that test only, with the given fields set, in the same problem and
  with the same activity, and satisfying the schema; beyond that only audit entries are added,
  and a call that fails before writing changes nothing.\<close>

theorem updateTestCase_effect:
  assumes "database B view" and "test_ids_ok (view w)" and "updateTestCase B i data user w = (r, w')"
  shows "(\<exists>e. r = Inl e) \<and> view w' = view w \<or>
    (\<exists>old new. db_testCases (view w) i = Some old \<and> new = assign_test_fields data old \<and> same_place old new \<and>
      t_isActive new = t_isActive old \<and> testcase_schema new \<and> audit_grows (put_test new (view w)) (view w'))"
  using assms(3) unfolding updateTestCase_def
proof (cases rule: await_cases)
  case (err e)
  have tests: "collection (TestCases B) view db_testCases db_testCases_update"
    using assms(1) by (simp add: database_def)
  from err keepsD [OF collection.findById_keeps [OF tests] err(1)] show ?thesis by simp
next
  case (ok found w1)
  have tests: "collection (TestCases B) view db_testCases db_testCases_update"
    using assms(1) by (simp add: database_def)
  have v1: "view w1 = view w" by (rule keepsD [OF collection.findById_keeps [OF tests] ok(1)])
  have found: "found = db_testCases (view w) i" by (rule collection.findById_result [OF tests ok(1)])
  show ?thesis
  proof (cases found)
    case None
    with ok(2) v1 show ?thesis by auto
  next
    case (Some old)
    define new where "new = assign_test_fields data old"
    have id: "t_id old = i" using assms(2) found Some by (simp add: test_ids_ok_def)
    have same: "same_place old new" "t_isActive new = t_isActive old"
      using assign_test_fields_place by (simp_all add: new_def)
    from ok(2) Some have "await (save_valid (TestCases B) (test_data_schema data) (t_id old) new (test_delta old new)) (\<lambda>_.
         await (audit_by B user TEST_CASE_UPDATED TestCase_target (t_id old) (changed_fields test_fields data)) (\<lambda>_.
         ret (toSafeTestCase new))) w1 = (r, w')" by (simp add: new_def Let_def)
    from database.save_test_and_audit(1) [OF assms(1) this _ same(1)] Some found id v1 same show ?thesis
      by (auto simp: test_data_schema_def new_def)
  qed
qed

text \<open>After a successful deactivation the test is stored unchanged but inactive; the problem's
  tests that are judged against are the other ones, and nothing else changes but the audit log.\<close>

theorem deactivateTestCase_effect:
  assumes "database B view" and "test_ids_ok (view w)" and "deactivateTestCase B i user w = (Inr m, w')"
  shows "\<exists>old. db_testCases (view w) i = Some old \<and>
    audit_grows (put_test (old\<lparr>t_isActive := False\<rparr>) (view w)) (view w') \<and>
    matching (activeTests pid) (db_testCases (view w')) = matching (activeTests pid) (db_testCases (view w)) - {i}"
proof -
  have tests: "collection (TestCases B) view db_testCases db_testCases_update"
    using assms(1) by (simp add: database_def)
  from assms(3) obtain old w1 where f: "findById (TestCases B) i w = (Inr (Some old), w1)"
    and k: "(if t_isActive old then
           let testCase = old\<lparr>t_isActive := False\<rparr> in
           await (save_valid (TestCases B) testcase_schema (t_id old) testCase (test_delta old testCase)) (\<lambda>_.
           await (audit_by B user TEST_CASE_DELETED TestCase_target (t_id old)
             (JObj [(''problemId'', JStr (t_problemId old))])) (\<lambda>_.
           ret ''Test case deactivated successfully''))
         else ret ''Test case deactivated successfully'') w1 = (Inr m, w')"
    unfolding deactivateTestCase_def by (auto elim!: await_cases split: option.splits)
  have v1: "view w1 = view w" by (rule keepsD [OF collection.findById_keeps [OF tests] f])
  have old: "db_testCases (view w) i = Some old" using collection.findById_result [OF tests f] by simp
  have id: "t_id old = i" using assms(2) old by (simp add: test_ids_ok_def)
  have a: "audit_grows (put_test (old\<lparr>t_isActive := False\<rparr>) (view w)) (view w')"
  proof (cases "t_isActive old")
    case True
    have same: "same_place old (old\<lparr>t_isActive := False\<rparr>)" by (simp add: same_place_def)
    from True k have "await (save_valid (TestCases B) testcase_schema (t_id old) (old\<lparr>t_isActive := False\<rparr>)
           (test_delta old (old\<lparr>t_isActive := False\<rparr>))) (\<lambda>_.
           await (audit_by B user TEST_CASE_DELETED TestCase_target (t_id old)
             (JObj [(''problemId'', JStr (t_problemId old))])) (\<lambda>_.
           ret ''Test case deactivated successfully'')) w1 = (Inr m, w')" by (simp add: Let_def)
    from database.save_test_and_audit(2) [OF assms(1) this _ same] old id v1 show ?thesis by simp
  next
    case False
    then have "put_test (old\<lparr>t_isActive := False\<rparr>) (view w) = view w"
      using old id by (cases "view w") (simp add: put_test_def fun_upd_idem)
    with False k v1 reflpD [OF reflp_audit_grows] show ?thesis by simp
  qed
  have "db_testCases (view w') = (db_testCases (view w))(i \<mapsto> old\<lparr>t_isActive := False\<rparr>)"
    using audit_growsD(3) [OF a] id by (simp add: put_test_def)
  then have "matching (activeTests pid) (db_testCases (view w')) = matching (activeTests pid) (db_testCases (view w)) - {i}"
    by (auto simp: matching_def activeTests_def)
  with old a show ?thesis by blast
qed

text \<open>A body that passes \<open>validateCreateTestCase\<close> makes an active test of the problem in the
  path, whatever problem or activity the body names; it satisfies the schema exactly when
  neither its input nor its expected output is empty, which the validation does not ask for.\<close>

theorem validateCreateTestCase_sound:
  assumes "validateCreateTestCase body = Inr data"
  shows "t_problemId (new_test data pid i t) = pid \<and> t_isActive (new_test data pid i t) \<and>
    (\<forall>k\<in>set test_server_fields. field data k = JUndefined) \<and>
    (test_data_schema data (new_test data pid i t) \<longleftrightarrow>
       t_input (new_test data pid i t) \<noteq> [] \<and> t_expectedOutput (new_test data pid i t) \<noteq> [])"
proof -
  let ?v = "\<lambda>k. field body k"
  from assms obtain a b where a: "?v ''input'' = JStr a" and b: "?v ''expectedOutput'' = JStr b"
    and vis: "valid_visibility (?v ''visibility'')" and ord: "\<not> bad_order (?v ''order'')"
    and data: "data = del_fields test_server_fields
        (set_field ''order'' (?v ''order'') (set_field ''visibility'' (?v ''visibility'')
          (set_field ''expectedOutput'' (JStr b) (set_field ''input'' (JStr a) body))))"
    unfolding validateCreateTestCase_def Let_def by (auto split: if_splits)
  from a obtain fs where fs: "body = JObj fs" by (cases body) auto
  have fields: "field data ''input'' = JStr a" "field data ''expectedOutput'' = JStr b"
    "field data ''visibility'' = ?v ''visibility''" "field data ''order'' = ?v ''order''"
    unfolding data fs by (simp_all add: test_server_fields_def)
  have gone: "\<forall>k\<in>set test_server_fields. field data k = JUndefined" unfolding data by simp
  obtain n where n: "?v ''order'' = JNum n" using ord by (cases "?v ''order''") auto
  have d: "?v ''visibility'' \<noteq> JUndefined" using vis by (auto simp: valid_visibility_def)
  have "t_input (new_test data pid i t) = a" "t_expectedOutput (new_test data pid i t) = b"
    "t_order (new_test data pid i t) = n" "t_problemId (new_test data pid i t) = pid" "t_isActive (new_test data pid i t)"
    using d n by (simp_all add: new_test_def assign_test_fields_def test_fields_def fields apply_test_field_def text_of_def number_of_def)
  moreover have "(case n of NaN \<Rightarrow> False | Infinite b \<Rightarrow> b | Finite r \<Rightarrow> 0 \<le> r)"
    using ord n by (cases n) auto
  ultimately show ?thesis using gone vis by (simp add: test_data_schema_def testcase_schema_def fields)
qed


section \<open>Concrete instances\<close>

lemma test_ids_full: "test_ids_ok (world_view full_world)"
  by (simp add: test_ids_ok_def world_view_def full_world_def sample_world_def sample_test_def)

theorem getTestCasesForProblem_visible_witness:
  "\<exists>xs w'. getTestCasesForProblem (mem_backend accept_all True) ''p'' USER full_world = (Inr xs, w') \<and> xs = []"
proof -
  have "(case getTestCasesForProblem (mem_backend accept_all True) ''p'' USER full_world of
      (Inr x, w) \<Rightarrow> True | _ \<Rightarrow> False)" by code_simp
  then obtain xs w' where run: "getTestCasesForProblem (mem_backend accept_all True) ''p'' USER full_world = (Inr xs, w')"
    by (auto split: prod.splits sum.splits)
  from getTestCasesForProblem_visible [OF mem_accept.database_axioms run] obtain ts where
    ts: "listing (\<lambda>t. activeTests ''p'' t \<and> visible_to USER t) (db_testCases (world_view full_world)) ts"
    "xs = map toSafeTestCase ts" by blast
  have "t \<notin> set ts" for t
    using ts(1) by (auto simp: listing_mem visible_to_def world_view_def full_world_def sample_world_def sample_test_def
        split: if_splits)
  then have "ts = []" by (cases ts) auto
  with run ts(2) show ?thesis by simp
qed

theorem getTestCaseById_visible_witness:
  "fst (getTestCaseById (mem_backend accept_all True) ''t'' USER full_world) = Inl (AppError ''Test case not found'' 404 None)"
proof -
  obtain r w' where run: "getTestCaseById (mem_backend accept_all True) ''t'' USER full_world = (r, w')" by fastforce
  from getTestCaseById_visible [OF mem_accept.database_axioms test_ids_full run] run show ?thesis
    by (simp add: mem_coll_def world_view_def full_world_def sample_world_def sample_test_def)
qed

theorem updateTestCase_effect_witness:
  "\<exists>r w'. updateTestCase (mem_backend accept_all True) ''t'' (JObj [(''visibility'', JStr ''PUBLIC''), (''isActive'', JBool False)])
       (Some ''a'') full_world = (r, w') \<and> db_problems (world_view w') = db_problems (world_view full_world)"
proof -
  obtain r w' where run: "updateTestCase (mem_backend accept_all True) ''t''
      (JObj [(''visibility'', JStr ''PUBLIC''), (''isActive'', JBool False)]) (Some ''a'') full_world = (r, w')" by fastforce
  have "db_problems (world_view w') = db_problems (world_view full_world)"
    using updateTestCase_effect [OF mem_accept.database_axioms test_ids_full run] audit_growsD(2)
    by (fastforce simp: put_test_def)
  with run show ?thesis by blast
qed

theorem deactivateTestCase_effect_witness:
  "\<exists>m w'. deactivateTestCase (mem_backend accept_all True) ''t'' (Some ''a'') full_world = (Inr m, w') \<and>
     ''t'' \<notin> matching (activeTests ''p'') (db_testCases (world_view w'))"
proof -
  have "(case deactivateTestCase (mem_backend accept_all True) ''t'' (Some ''a'') full_world of
      (Inr x, w) \<Rightarrow> True | _ \<Rightarrow> False)" by code_simp
  then obtain m w' where run: "deactivateTestCase (mem_backend accept_all True) ''t'' (Some ''a'') full_world = (Inr m, w')"
    by (auto split: prod.splits sum.splits)
  from deactivateTestCase_effect [OF mem_accept.database_axioms test_ids_full run, of "''p''"] run show ?thesis by blast
qed

theorem validateCreateTestCase_sound_witness:
  "\<exists>data. validateCreateTestCase (JObj [(''input'', JStr []), (''expectedOutput'', JStr ''1''), (''visibility'', JStr ''HIDDEN''),
       (''order'', JNum (Finite 0)), (''problemId'', JStr ''q'')]) = Inr data \<and>
     t_problemId (new_test data ''p'' ''t'' 0) = ''p'' \<and> \<not> test_data_schema data (new_test data ''p'' ''t'' 0)"
proof -
  obtain data where run: "validateCreateTestCase (JObj [(''input'', JStr []), (''expectedOutput'', JStr ''1''),
      (''visibility'', JStr ''HIDDEN''), (''order'', JNum (Finite 0)), (''problemId'', JStr ''q'')]) = Inr data"
    and i: "field data ''input'' = JStr []"
    by (simp add: validateCreateTestCase_def valid_visibility_def VALID_VISIBILITIES_def test_server_fields_def Let_def)
  have "t_input (new_test data ''p'' ''t'' 0) = []"
    by (simp add: new_test_def assign_test_fields_def test_fields_def apply_test_field_def i text_of_def)
  with validateCreateTestCase_sound [OF run, of "''p''" "''t''" 0] run show ?thesis by blast
qed

end
