(* ===== verification/Submissions.thy ===== *)
theory Submissions
  imports SubmissionExec Pagination
begin

text \<open>
  Creating and reading submissions (\<open>modules/submissions/submission.validation.js\<close>,
  \<open>submission.service.js\<close>), with the producer side of the queue
  (\<open>queues/submission.queue.js\<close>).

  \<open>castId\<close> is the database driver's reading of a value as an object id: \<open>None\<close> where
  \<open>ObjectId.isValid\<close> is false. Ids of documents are compared by their text, as the code
  does. The two reads of a \<open>Promise.all\<close> are taken one after the other.
\<close>

section \<open>submission.validation.js\<close>

definition MAX_SOURCE_CODE_LENGTH :: nat where
  "MAX_SOURCE_CODE_LENGTH = 65536"

definition validateSubmissionId :: "(jsval \<Rightarrow> oid option) \<Rightarrow> jsval \<Rightarrow> err + unit" where
  "validateSubmissionId castId submissionId =
     (if \<not> truthy submissionId \<or> castId submissionId = None
      then Inl (AppError ''Invalid submission ID format'' 400 None) else Inr ())"

text \<open>A middleware that rewrites the body: the error given to \<open>next\<close>, or the new body.\<close>

definition submission_server_fields :: "string list" where
  "submission_server_fields = [''userId'', ''status'', ''verdict'', ''runtimeMs'', ''memoryKb'',
     ''testsPassed'', ''totalTests'', ''id'', ''_id'', ''createdAt'', ''updatedAt'']"

definition validateCreateSubmission :: "(jsval \<Rightarrow> oid option) \<Rightarrow> jsval \<Rightarrow> err + jsval" where
  "validateCreateSubmission castId body =
     (let problemId = field body ''problemId''; language = field body ''language'';
          sourceCode = field body ''sourceCode'' in
      if \<not> truthy problemId \<or> castId problemId = None then
        Inl (AppError ''Valid problem ID is required'' 400 None)
      else if \<not> truthy language \<or> as_string language = None then
        Inl (AppError ''Language is required'' 400 None)
      else
        let text = the (as_string language); normalizedLanguage = js_upper (js_trim text) in
        if normalizedLanguage \<notin> set SUPPORTED_LANGUAGES then
          Inl (AppError (''Unsupported language '' @ [CHR 0x27] @ text @ [CHR 0x27] @
            ''. Supported languages: '' @ js_join '', '' SUPPORTED_LANGUAGES) 400 None)
        else if \<not> truthy sourceCode \<or> as_string sourceCode = None \<or> js_trim (the (as_string sourceCode)) = [] then
          Inl (AppError ''Source code is required and cannot be empty'' 400 None)
        else if MAX_SOURCE_CODE_LENGTH < length (the (as_string sourceCode)) then
          Inl (AppError ''Source code cannot exceed 64KB (65536 characters)'' 400 None)
        else
          Inr (del_fields submission_server_fields
            (set_field ''sourceCode'' sourceCode (set_field ''language'' (JStr normalizedLanguage)
              (set_field ''problemId'' problemId body)))))"

section \<open>submission.queue.js: enqueueSubmission\<close>

definition enqueueSubmission :: "'w backend \<Rightarrow> string \<Rightarrow> string option \<Rightarrow> ('w, unit) io" where
  "enqueueSubmission B submissionId traceparent =
     (if js_trim submissionId = [] then
        throw (plain_error ''Valid submissionId string is required to enqueue submission'')
      else queueAdd B (js_trim submissionId) (js_trim submissionId)
        (case traceparent of Some t \<Rightarrow> (if t = [] then None else Some t) | None \<Rightarrow> None))"

section \<open>submission.service.js\<close>

definition new_submission :: "oid \<Rightarrow> oid \<Rightarrow> string \<Rightarrow> string \<Rightarrow> oid \<Rightarrow> date \<Rightarrow> submission" where
  "new_submission userId problemId language sourceCode i t =
     \<lparr>s_id = i, s_userId = userId, s_problemId = problemId, s_language = language, s_sourceCode = sourceCode,
      s_status = S_PENDING, s_verdict = V_PENDING, s_runtimeMs = None, s_memoryKb = None,
      s_testsPassed = None, s_totalTests = None, s_queuedAt = None, s_startedAt = None,
      s_completedAt = None, s_failedAt = None, s_errorMessage = None,
      s_execution = \<lparr>ex_workerId = None, ex_startedAt = None, ex_completedAt = None\<rparr>, s_createdAt = t\<rparr>"

text \<open>The part after the document was created, and the whole function.\<close>

definition queueSubmission :: "'w backend \<Rightarrow> string option \<Rightarrow> submission \<Rightarrow> ('w, jsval) io" where
  "queueSubmission B traceparent sub =
     await (now B) (\<lambda>t.
     let queued = sub\<lparr>s_status := QUEUED, s_queuedAt := Some t\<rparr> in
     await (saveSubmission B sub queued) (\<lambda>_.
     try_catch
       (await (enqueueSubmission B (s_id queued) traceparent) (\<lambda>_. ret (toSafeSubmission True queued)))
       (\<lambda>queueError. await (now B) (\<lambda>t'.
         let failed = queued\<lparr>s_status := FAILED, s_failedAt := Some t',
               s_errorMessage := Some ''Failed to enqueue submission for processing''\<rparr> in
         await (try_catch (saveSubmission B queued failed) (\<lambda>saveErr. ret ())) (\<lambda>_.
         throw (AppError ''Failed to queue submission for processing. Please try again.''
           503 (Some ''QUEUE_UNAVAILABLE'')))))))"

definition createSubmission ::
  "'w backend \<Rightarrow> oid \<Rightarrow> string \<Rightarrow> string \<Rightarrow> oid \<Rightarrow> string option \<Rightarrow> ('w, jsval) io" where
  "createSubmission B problemId language sourceCode userId traceparent =
     await (findById (Problems B) problemId) (\<lambda>found. case found of
       None \<Rightarrow> throw (AppError ''Problem not found'' 404 None)
     | Some problem \<Rightarrow>
         if \<not> p_isActive problem then throw (AppError ''Cannot submit to an inactive problem'' 400 None)
         else await (countDocuments (TestCases B) (activeTests (p_id problem))) (\<lambda>n.
           if n = 0 then
             throw (AppError ''This problem has no active test cases and is not ready for submissions.''
               422 (Some ''PROBLEM_NOT_READY''))
           else await (create_valid (Submissions B) submission_schema
               (new_submission userId problemId language sourceCode)) (queueSubmission B traceparent)))"

definition getSubmissionById :: "'w backend \<Rightarrow> oid \<Rightarrow> user \<Rightarrow> ('w, jsval) io" where
  "getSubmissionById B submissionId requestingUser =
     await (findById (Submissions B) submissionId) (\<lambda>found. case found of
       None \<Rightarrow> throw (AppError ''Submission not found'' 404 None)
     | Some sub \<Rightarrow>
         let isOwner = (s_userId sub = u_id requestingUser); isAdmin = (u_role requestingUser = ADMIN) in
         if \<not> isOwner \<and> \<not> isAdmin then
           throw (AppError ''Access denied: you do not have permission to view this submission'' 403 None)
         else ret (toSafeSubmission True sub))"

text \<open>The filter of \<open>getMySubmissions\<close>; texts are compared after \<open>toUpperCase\<close>.\<close>

definition string_filter :: "jsval \<Rightarrow> (string \<Rightarrow> bool) \<Rightarrow> bool" where
  "string_filter v eq = (case v of JStr s \<Rightarrow> s \<noteq> [] \<longrightarrow> eq (js_upper s) | _ \<Rightarrow> True)"

definition my_filter :: "(jsval \<Rightarrow> oid option) \<Rightarrow> oid \<Rightarrow> jsval \<Rightarrow> submission \<Rightarrow> bool" where
  "my_filter castId userId q s \<longleftrightarrow> s_userId s = userId \<and>
     (truthy (field q ''problemId'') \<longrightarrow> castId (field q ''problemId'') = Some (s_problemId s)) \<and>
     string_filter (field q ''language'') (\<lambda>l. s_language s = l) \<and>
     string_filter (field q ''verdict'') (\<lambda>v. verdict_name (s_verdict s) = v)"

definition newest_first :: "submission \<Rightarrow> submission \<Rightarrow> bool" where
  "newest_first a b \<longleftrightarrow> s_createdAt b \<le> s_createdAt a"

definition getMySubmissions ::
  "'w backend \<Rightarrow> (jsval \<Rightarrow> oid option) \<Rightarrow> oid \<Rightarrow> jsval \<Rightarrow> ('w, jsval list \<times> pagination) io" where
  "getMySubmissions B castId userId q =
     (if truthy (field q ''problemId'') \<and> castId (field q ''problemId'') = None then
        throw (AppError ''Invalid problem ID format'' 400 None)
      else
        let includeCode = (field q ''includeCode'' = JStr ''true'' \<or> field q ''includeCode'' = JBool True) in
        await (findMany (Submissions B) (my_filter castId userId q) newest_first (skip_of q) (Some (limit_of q))) (\<lambda>subs.
        await (countDocuments (Submissions B) (my_filter castId userId q)) (\<lambda>n.
        ret (map (toSafeSubmission includeCode) subs, paginate q n))))"

lemma total_preorder_newest_first [simp]: "total_preorder newest_first"
  by (auto simp: total_preorder_def newest_first_def)

section \<open>Facts\<close>

text \<open>The three documents a creation goes through, for a given request and id.\<close>

definition fresh_for :: "oid \<Rightarrow> oid \<Rightarrow> string \<Rightarrow> string \<Rightarrow> submission \<Rightarrow> bool" where
  "fresh_for userId problemId language sourceCode d \<longleftrightarrow>
     s_userId d = userId \<and> s_problemId d = problemId \<and> s_language d = language \<and> s_sourceCode d = sourceCode \<and>
     s_status d \<in> {S_PENDING, QUEUED, FAILED} \<and> s_verdict d = V_PENDING \<and>
     s_startedAt d = None \<and> s_completedAt d = None \<and> s_testsPassed d = None"

definition put_sub :: "submission \<Rightarrow> db \<Rightarrow> db" where
  "put_sub d v = db_submissions_update (\<lambda>m. m(s_id d \<mapsto> d)) v"

definition submittable :: "oid \<Rightarrow> db \<Rightarrow> bool" where
  "submittable pid v \<longleftrightarrow> (\<exists>p. db_problems v pid = Some p \<and> p_isActive p \<and>
     matching (activeTests (p_id p)) (db_testCases v) \<noteq> {})"

lemma put_sub_put_sub [simp]: "s_id d' = s_id d \<Longrightarrow> put_sub d' (put_sub d v) = put_sub d' v"
  by (cases v) (simp add: put_sub_def)

context database
begin

lemma save_put_sub:
  assumes "saveSubmission B old new w = (r, w')" and v: "view w = put_sub old v"
    and same: "same_request old new" "s_execution new = s_execution old"
  shows "view w' = put_sub old v \<or> view w' = put_sub new v" and "r = Inr u \<Longrightarrow> view w' = put_sub new v"
proof -
  have "db_submissions_update (modify (s_id old) (\<lambda>_. True) (sub_delta old new)) (view w) = put_sub new v"
    using same v sub_delta_same [OF same]
    by (cases v) (simp add: put_sub_def modify_def same_request_def)
  with submissions.save_view_cases [OF assms(1) [unfolded saveSubmission_def]] saveSubmission_ok v assms(1)
  show "view w' = put_sub old v \<or> view w' = put_sub new v" and "r = Inr u \<Longrightarrow> view w' = put_sub new v"
    by auto
qed

lemma keeps_enqueue: "keeps view (enqueueSubmission B s t)"
  by (simp add: enqueueSubmission_def queueAdd_keeps)

lemma queueSubmission_view:
  assumes run: "queueSubmission B tp sub w = (r, w')" and v: "view w = put_sub sub v"
    and fresh: "fresh_for u p l c sub"
  shows "\<exists>d. view w' = put_sub d v \<and> s_id d = s_id sub \<and> fresh_for u p l c d \<and>
    (\<forall>x. r = Inr x \<longrightarrow> s_status d = QUEUED \<and> x = toSafeSubmission True d \<and>
       (\<exists>w1 w2. enqueueSubmission B (s_id sub) tp w1 = (Inr (), w2)))"
  using run unfolding queueSubmission_def
proof (cases rule: await_cases)
  case (err e)
  with v fresh keepsD [OF now_keeps err(1)] show ?thesis by auto
next
  case (ok t w1)
  define queued where "queued = sub\<lparr>s_status := QUEUED, s_queuedAt := Some t\<rparr>"
  have v1: "view w1 = put_sub sub v" using keepsD [OF now_keeps ok(1)] v by simp
  have q: "same_request sub queued" "s_execution queued = s_execution sub" "s_id queued = s_id sub"
    "fresh_for u p l c queued" "s_status queued = QUEUED"
    using fresh by (simp_all add: queued_def same_request_def fresh_for_def)
  from ok(2) have "await (saveSubmission B sub queued) (\<lambda>_.
     try_catch
       (await (enqueueSubmission B (s_id queued) tp) (\<lambda>_. ret (toSafeSubmission True queued)))
       (\<lambda>queueError. await (now B) (\<lambda>t'.
         let failed = queued\<lparr>s_status := FAILED, s_failedAt := Some t',
               s_errorMessage := Some ''Failed to enqueue submission for processing''\<rparr> in
         await (try_catch (saveSubmission B queued failed) (\<lambda>saveErr. ret ())) (\<lambda>_.
         throw (AppError ''Failed to queue submission for processing. Please try again.''
           503 (Some ''QUEUE_UNAVAILABLE'')))))) w1 = (r, w')"
    unfolding Let_def queued_def .
  then show ?thesis
  proof (cases rule: await_cases)
    case (err e)
    with save_put_sub(1) [OF err(1) v1 q(1,2)] q fresh show ?thesis by auto
  next
    case (ok un w2)
    have v2: "view w2 = put_sub queued v" using save_put_sub(2) [OF ok(1) v1 q(1,2)] by simp
    from ok(2) show ?thesis
    proof (cases rule: try_catch_cases)
      case (caught e w3)
      have v3: "view w3 = put_sub queued v"
        using keepsD [OF keeps_await [OF keeps_enqueue keeps_ret] caught(1)] v2 by simp
      from caught(2) show ?thesis
      proof (cases rule: await_cases)
        case (err e')
        with v3 q keepsD [OF now_keeps err(1)] show ?thesis by auto
      next
        case (ok t' w4)
        define failed where "failed = queued\<lparr>s_status := FAILED, s_failedAt := Some t',
               s_errorMessage := Some ''Failed to enqueue submission for processing''\<rparr>"
        have v4: "view w4 = put_sub queued v" using keepsD [OF now_keeps ok(1)] v3 by simp
        have f: "same_request queued failed" "s_execution failed = s_execution queued" "s_id failed = s_id sub"
          "fresh_for u p l c failed"
          using q by (simp_all add: failed_def same_request_def fresh_for_def)
        from ok(2) obtain x where "saveSubmission B queued failed w4 = (x, w')" and r: "\<forall>x. r \<noteq> Inr x"
          unfolding Let_def failed_def [symmetric]
          by (auto elim!: await_cases try_catch_cases)
        from save_put_sub(1) [OF this(1) v4 f(1,2)] q f r show ?thesis by auto
      qed
    next
      case (ok x)
      from ok(1) obtain un' w3 where e: "enqueueSubmission B (s_id queued) tp w2 = (Inr un', w3)"
        and x: "w' = w3" "x = toSafeSubmission True queued"
        by (auto elim!: await_cases)
      have "view w' = put_sub queued v" using keepsD [OF keeps_enqueue e] v2 x(1) by simp
      with q x(2) ok(2) e show ?thesis by (intro exI [of _ queued]) auto
    qed
  qed
qed

lemma createSubmission_view:
  assumes run: "createSubmission B pid l c uid tp w = (r, w')"
  shows "(view w' = view w \<and> (\<exists>e. r = Inl e)) \<or>
    (\<exists>d. submittable pid (view w) \<and> db_submissions (view w) (s_id d) = None \<and>
      view w' = put_sub d (view w) \<and> fresh_for uid pid l c d \<and> submission_schema d \<and>
      (\<forall>x. r = Inr x \<longrightarrow> s_status d = QUEUED \<and> x = toSafeSubmission True d \<and>
         (\<exists>w1 w2. enqueueSubmission B (s_id d) tp w1 = (Inr (), w2))))"
  using run unfolding createSubmission_def
proof (cases rule: await_cases)
  case (err e)
  with keepsD [OF problems.findById_keeps err(1)] show ?thesis by simp
next
  case (ok found w1)
  have v1: "view w1 = view w" using ok(1) by (rule keepsD [OF problems.findById_keeps])
  show ?thesis
  proof (cases "found = None \<or> \<not> p_isActive (the found)")
    case True
    with ok(2) v1 show ?thesis by (auto split: option.splits)
  next
    case False
    then obtain p where found: "found = Some p" and act: "p_isActive p" by auto
    with ok have p: "db_problems (view w) pid = Some p" using problems.findById_result by auto
    from ok(2) found act have "await (countDocuments (TestCases B) (activeTests (p_id p))) (\<lambda>n.
           if n = 0 then
             throw (AppError ''This problem has no active test cases and is not ready for submissions.''
               422 (Some ''PROBLEM_NOT_READY''))
           else await (create_valid (Submissions B) submission_schema
               (new_submission uid pid l c)) (queueSubmission B tp)) w1 = (r, w')"
      by simp
    then show ?thesis
    proof (cases rule: await_cases)
      case (err e)
      with v1 keepsD [OF testCases.countDocuments_keeps err(1)] show ?thesis by simp
    next
      case (ok n w2)
      have v2: "view w2 = view w" using keepsD [OF testCases.countDocuments_keeps ok(1)] v1 by simp
      have n: "n = card (matching (activeTests (p_id p)) (db_testCases (view w)))"
        using testCases.countDocuments_result [OF ok(1)] v1 by simp
      show ?thesis
      proof (cases "n = 0 \<or> \<not> submission_schema (new_submission uid pid l c [] 0)")
        case True
        with ok(2) v2 show ?thesis by (auto simp: create_valid_def split: if_splits)
      next
        case False
        with ok(2) have k: "await (create (Submissions B) (new_submission uid pid l c)) (queueSubmission B tp) w2 = (r, w')"
          by (simp add: create_valid_def)
        have sub: "submittable pid (view w)"
          using False n p act by (auto simp: submittable_def)
        have schema: "submission_schema d" if "fresh_for uid pid l c d" for d
          using that False by (auto simp: fresh_for_def submission_schema_def new_submission_def)
        have new: "fresh_for uid pid l c (new_submission uid pid l c i t)" "s_id (new_submission uid pid l c i t) = i"
          "db_submissions_update (\<lambda>m. m(i \<mapsto> new_submission uid pid l c i t)) v = put_sub (new_submission uid pid l c i t) v"
          for i t v by (simp_all add: fresh_for_def new_submission_def put_sub_def)
        from k show ?thesis
        proof (cases rule: await_cases)
          case (err e)
          from submissions.create_view_cases [OF err(1)] consider "view w' = view w" |
            i t where "db_submissions (view w) i = None" "view w' = put_sub (new_submission uid pid l c i t) (view w)"
            unfolding v2 new(3) by blast
          then show ?thesis
          proof cases
            case 1
            with err(2) show ?thesis by simp
          next
            case (2 i t)
            with err(2) sub new schema show ?thesis
              by (intro disjI2 exI [of _ "new_submission uid pid l c i t"]) simp
          qed
        next
          case (ok d w3)
          from submissions.create_ok [OF ok(1)] obtain i t where it: "db_submissions (view w) i = None"
            "d = new_submission uid pid l c i t" "view w3 = put_sub d (view w)"
            unfolding v2 new(3) by blast
          have f: "fresh_for uid pid l c d" "s_id d = i" unfolding it(2) by (rule new)+
          from queueSubmission_view [OF ok(2) it(3) f(1)] obtain d' where
            "view w' = put_sub d' (view w)" "s_id d' = s_id d" "fresh_for uid pid l c d'"
            "\<forall>x. r = Inr x \<longrightarrow> s_status d' = QUEUED \<and> x = toSafeSubmission True d' \<and>
              (\<exists>w1 w2. enqueueSubmission B (s_id d) tp w1 = (Inr (), w2))" by blast
          with f it(1) sub schema [OF this(3)] show ?thesis by (intro disjI2 exI [of _ d']) simp
        qed
      qed
    qed
  qed
qed

end

section \<open>Properties\<close>

text \<open>C32: A submission that is accepted for judging was made to an existing, active problem with
  an active test case; exactly one document is added to the database, valid, of this user and
  request, QUEUED and without a verdict; the answer is that document, and the queue has taken
  a job carrying its id as the job id and the only payload.\<close>

theorem createSubmission_queued:
  assumes "database B view" and "createSubmission B pid l c uid tp w = (Inr x, w')"
  shows "\<exists>d. submittable pid (view w) \<and> db_submissions (view w) (s_id d) = None \<and>
    view w' = put_sub d (view w) \<and> fresh_for uid pid l c d \<and> submission_schema d \<and> s_status d = QUEUED \<and>
    x = toSafeSubmission True d \<and>
    (\<exists>t w1 w2. queueAdd B (js_trim (s_id d)) (js_trim (s_id d)) t w1 = (Inr (), w2))"
proof -
  obtain d w1 w2 where d: "submittable pid (view w)" "db_submissions (view w) (s_id d) = None"
      "view w' = put_sub d (view w)" "fresh_for uid pid l c d" "submission_schema d" "s_status d = QUEUED"
      "x = toSafeSubmission True d" and e: "enqueueSubmission B (s_id d) tp w1 = (Inr (), w2)"
    using database.createSubmission_view [OF assms] by blast
  from e have "\<exists>t. queueAdd B (js_trim (s_id d)) (js_trim (s_id d)) t w1 = (Inr (), w2)"
    by (auto simp: enqueueSubmission_def split: if_splits)
  with d show ?thesis by blast
qed

text \<open>Whatever fails on the way, creating a submission changes nothing but the submissions,
  where it adds at most one document, of this user and request, that is PENDING, QUEUED or
  FAILED and carries no verdict; for a problem that does not exist, is inactive or has no
  active test case, nothing is stored and the call fails.\<close>

theorem createSubmission_frame:
  assumes "database B view" and "createSubmission B pid l c uid tp w = (r, w')"
  shows "((\<exists>e. r = Inl e) \<and> view w' = view w) \<or>
    (submittable pid (view w) \<and> (\<exists>d. db_submissions (view w) (s_id d) = None \<and>
       view w' = put_sub d (view w) \<and> fresh_for uid pid l c d \<and> submission_schema d))"
  using database.createSubmission_view [OF assms] by blast

text \<open>C33: A submission is shown, with its code, to its owner and to administrators only; everyone
  else gets 403, and 404 is the answer for an id that is not stored. Reading changes nothing.\<close>

theorem getSubmissionById_access:
  assumes "database B view" and "getSubmissionById B i u w = (r, w')"
  shows "view w' = view w \<and>
    ((\<exists>e w1. findById (Submissions B) i w = (Inl e, w1) \<and> r = Inl e) \<or>
     r = (case db_submissions (view w) i of
        None \<Rightarrow> Inl (AppError ''Submission not found'' 404 None)
      | Some d \<Rightarrow> if s_userId d = u_id u \<or> u_role u = ADMIN then Inr (toSafeSubmission True d)
          else Inl (AppError ''Access denied: you do not have permission to view this submission'' 403 None)))"
  using assms(2) unfolding getSubmissionById_def
proof (cases rule: await_cases)
  case (err e)
  with database.axioms(4) [OF assms(1)] collection.findById_keeps keepsD show ?thesis by metis
next
  case (ok found w1)
  have coll: "collection (Submissions B) view db_submissions db_submissions_update"
    by (rule database.axioms(4) [OF assms(1)])
  have "view w1 = view w" using ok(1) by (rule keepsD [OF collection.findById_keeps [OF coll]])
  moreover have "found = db_submissions (view w) i" by (rule collection.findById_result [OF coll ok(1)])
  ultimately show ?thesis using ok(2) by (auto simp: Let_def split: option.splits if_splits)
qed

text \<open>The history endpoint answers with a page of the caller's own submissions that match the
  filters, newest first, cut at the requested window, and counts them all; the source code is
  in the answer only when asked for.\<close>

theorem getMySubmissions_own:
  assumes "database B view" and "getMySubmissions B castId uid q w = (Inr (xs, pg), w')"
  shows "\<exists>ds ic. listing (my_filter castId uid q) (db_submissions (view w)) ds \<and> sorted_wrt newest_first ds \<and>
    (\<forall>d\<in>set ds. s_userId d = uid) \<and>
    xs = map (toSafeSubmission ic) (slice (skip_of q) (Some (limit_of q)) ds) \<and>
    (ic \<longrightarrow> field q ''includeCode'' \<noteq> JUndefined) \<and> pg = paginate q (length ds)"
proof -
  let ?P = "my_filter castId uid q"
  let ?ic = "field q ''includeCode'' = JStr ''true'' \<or> field q ''includeCode'' = JBool True"
  have coll: "collection (Submissions B) view db_submissions db_submissions_update"
    by (rule database.axioms(4) [OF assms(1)])
  from assms(2) obtain subs w1 n where
    f: "findMany (Submissions B) ?P newest_first (skip_of q) (Some (limit_of q)) w = (Inr subs, w1)" and
    c: "countDocuments (Submissions B) ?P w1 = (Inr n, w')" and
    x: "xs = map (toSafeSubmission ?ic) subs" "pg = paginate q n"
    by (auto simp: getMySubmissions_def Let_def elim!: await_cases split: if_splits)
  obtain ds where ds: "listing ?P (db_submissions (view w)) ds" "sorted_wrt newest_first ds"
      "subs = slice (skip_of q) (Some (limit_of q)) ds"
    using collection.findMany_result [OF coll total_preorder_newest_first f] by blast
  have "view w1 = view w" using f by (rule keepsD [OF collection.findMany_keeps [OF coll]])
  then have n: "n = length ds"
    using collection.countDocuments_result [OF coll c] listing_length [OF ds(1)] by simp
  have own: "\<forall>d\<in>set ds. s_userId d = uid"
    using listing_all [OF ds(1)] by (auto simp: my_filter_def)
  have ic: "?ic \<longrightarrow> field q ''includeCode'' \<noteq> JUndefined" by auto
  show ?thesis
    by (intro exI [of _ ds] exI [of _ ?ic] conjI) (use ds own ic x n in simp_all)
qed


text \<open>A body that passes \<open>validateCreateSubmission\<close> has an object id, a supported language
  in upper case and a source code of at most 65536 code units that is not blank; the document
  made of it passes the schema, and no field the server sets is left in it.\<close>

theorem validateCreateSubmission_sound:
  assumes "validateCreateSubmission castId body = Inr body'"
  shows "\<exists>p l c. castId (field body' ''problemId'') = Some p \<and> field body' ''language'' = JStr l \<and>
    field body' ''sourceCode'' = JStr c \<and> js_trim c \<noteq> [] \<and> length c \<le> 65536 \<and>
    submission_schema (new_submission u p l c i t) \<and>
    (\<forall>k\<in>set submission_server_fields. field body' k = JUndefined)"
proof -
  let ?v = "\<lambda>k. field body k"
  from assms obtain p l c where
    p: "truthy (?v ''problemId'')" "castId (?v ''problemId'') = Some p" and
    l: "?v ''language'' = JStr l" "js_upper (js_trim l) \<in> set SUPPORTED_LANGUAGES" and
    c: "?v ''sourceCode'' = JStr c" "c \<noteq> []" "js_trim c \<noteq> []" "length c \<le> 65536" and
    body': "body' = del_fields submission_server_fields
            (set_field ''sourceCode'' (JStr c) (set_field ''language'' (JStr (js_upper (js_trim l)))
              (set_field ''problemId'' (?v ''problemId'') body)))"
    by (auto simp: validateCreateSubmission_def Let_def MAX_SOURCE_CODE_LENGTH_def split: if_splits)
  from l obtain fs where fs: "body = JObj fs" by (cases body) auto
  have keep: "field body' ''problemId'' = ?v ''problemId''" "field body' ''language'' = JStr (js_upper (js_trim l))"
    "field body' ''sourceCode'' = JStr c"
    unfolding body' fs by (simp_all add: submission_server_fields_def)
  have gone: "\<forall>k\<in>set submission_server_fields. field body' k = JUndefined"
    unfolding body' by simp
  have "submission_schema (new_submission u p (js_upper (js_trim l)) c i t)"
    using l(2) c by (simp add: submission_schema_def new_submission_def SUPPORTED_LANGUAGES_def)
  with keep gone p(2) c show ?thesis by auto
qed

section \<open>Concrete instances\<close>

lemma database_accept: "database (mem_backend accept_all True) world_view"
  by (rule mem_accept.database_axioms)

lemma sample_creation:
  "\<exists>x w'. createSubmission (mem_backend accept_all True) ''p'' ''CPP'' ''int main(){}'' ''u'' None full_world = (Inr x, w')"
proof -
  have ok: "submission_schema (new_submission ''u'' ''p'' ''CPP'' ''int main(){}'' i t)" for i t
    by (simp add: submission_schema_def new_submission_def)
  have n: "filter (activeTests ''p'') (alist_docs (w_testCases full_world)) = [sample_test]"
    by code_simp
  have i: "js_trim (fresh_oid (w_submissions full_world)) = fresh_oid (w_submissions full_world)"
    "fresh_oid (w_submissions full_world) \<noteq> []" by code_simp+
  have p: "map_of (w_problems full_world) ''p'' = Some sample_problem" "p_isActive sample_problem" "p_id sample_problem = ''p''"
    by (simp_all add: full_world_def sample_problem_def)
  have s: "s_id (new_submission u q l c j t) = j" for u q l c j t
    by (simp add: new_submission_def)
  show ?thesis
    by (simp add: createSubmission_def create_valid_def ok mem_coll_def await_def try_catch_def n p i s
        queueSubmission_def saveSubmission_def enqueueSubmission_def Let_def)
qed

theorem createSubmission_queued_witness:
  "\<exists>x w'. createSubmission (mem_backend accept_all True) ''p'' ''CPP'' ''int main(){}'' ''u'' None full_world = (Inr x, w') \<and>
     (\<exists>d. db_submissions (world_view w') (s_id d) = Some d \<and> s_status d = QUEUED \<and> s_userId d = ''u'')"
proof -
  obtain x w' where run:
    "createSubmission (mem_backend accept_all True) ''p'' ''CPP'' ''int main(){}'' ''u'' None full_world = (Inr x, w')"
    using sample_creation by blast
  from createSubmission_queued [OF database_accept run] run show ?thesis
    by (fastforce simp: put_sub_def fresh_for_def)
qed

theorem createSubmission_frame_witness:
  "\<exists>r w'. createSubmission (mem_backend accept_all True) ''q'' ''CPP'' ''int main(){}'' ''u'' None full_world = (r, w') \<and>
     world_view w' = world_view full_world"
proof -
  obtain r w' where run:
    "createSubmission (mem_backend accept_all True) ''q'' ''CPP'' ''int main(){}'' ''u'' None full_world = (r, w')"
    by fastforce
  have "\<not> submittable ''q'' (world_view full_world)"
    by (simp add: submittable_def world_view_def full_world_def)
  with createSubmission_frame [OF database_accept run] run show ?thesis by blast
qed

theorem getSubmissionById_access_witness:
  "fst (getSubmissionById (mem_backend accept_all True) ''s'' (sample_user\<lparr>u_id := ''x''\<rparr>) full_world) =
     Inl (AppError ''Access denied: you do not have permission to view this submission'' 403 None)"
proof -
  obtain r w' where run:
    "getSubmissionById (mem_backend accept_all True) ''s'' (sample_user\<lparr>u_id := ''x''\<rparr>) full_world = (r, w')"
    by fastforce
  from getSubmissionById_access [OF database_accept run] run show ?thesis
    by (simp add: mem_coll_def world_view_def full_world_def sample_world_def sample_submission_def sample_user_def)
qed

theorem getMySubmissions_own_witness:
  "\<exists>xs pg w'. getMySubmissions (mem_backend accept_all True) as_string ''u'' (JObj []) full_world = (Inr (xs, pg), w') \<and>
     length xs \<le> pg_total pg"
proof -
  have "(case getMySubmissions (mem_backend accept_all True) as_string ''u'' (JObj []) full_world of
      (Inr x, w) \<Rightarrow> True | _ \<Rightarrow> False)"
    by code_simp
  then obtain xs pg w' where run:
    "getMySubmissions (mem_backend accept_all True) as_string ''u'' (JObj []) full_world = (Inr (xs, pg), w')"
    by (auto split: prod.splits sum.splits)
  from getMySubmissions_own [OF database_accept run] run show ?thesis
    by (force simp: slice_def)
qed

theorem validateCreateSubmission_sound_witness:
  "\<exists>b p. validateCreateSubmission as_string (JObj [(''problemId'', JStr ''p''), (''language'', JStr '' cpp ''),
       (''sourceCode'', JStr ''int main(){}''), (''verdict'', JStr ''ACCEPTED'')]) = Inr b \<and>
     as_string (field b ''problemId'') = Some p \<and> field b ''verdict'' = JUndefined"
proof -
  have "js_upper (js_trim '' cpp '') = ''CPP''" "js_trim ''int main(){}'' \<noteq> []" by code_simp+
  then obtain b where b: "validateCreateSubmission as_string (JObj [(''problemId'', JStr ''p''), (''language'', JStr '' cpp ''),
       (''sourceCode'', JStr ''int main(){}''), (''verdict'', JStr ''ACCEPTED'')]) = Inr b"
    by (simp add: validateCreateSubmission_def SUPPORTED_LANGUAGES_def MAX_SOURCE_CODE_LENGTH_def)
  obtain p where p: "as_string (field b ''problemId'') = Some p"
    and gone: "\<forall>k\<in>set submission_server_fields. field b k = JUndefined"
    using validateCreateSubmission_sound [OF b, of "[]" "[]" 0] by blast
  have "field b ''verdict'' = JUndefined"
    by (rule bspec [OF gone]) (simp add: submission_server_fields_def)
  with b p show ?thesis by blast
qed

end
