(* ===== verification/Registry.thy ===== *)
theory Registry
  imports Effects
begin

text \<open>
  The registry of worker processes (\<open>workers/worker-registry.service.js\<close>): records with a time
  to live under the keys \<open>codearena:workers:<workerId>\<close> of Redis.

  Redis is a parameter. A stored text is represented by what \<open>JSON.parse\<close> makes of it, so that
  storing \<open>JSON.stringify(v)\<close> stores \<open>v\<close>. The contract \<open>redis_store\<close> speaks about the
  entries that are alive at a call; that entries expire is a step of the world between calls.
\<close>

section \<open>Redis\<close>

datatype stored_text = Malformed | Json jsval

type_synonym entries = "string \<rightharpoonup> stored_text \<times> nat"

text \<open>
  \<open>r_connect\<close> is \<open>getRedisConnection()\<close>; \<open>r_get\<close> gives \<open>None\<close> for a missing key or an
  empty text; \<open>r_keys\<close> lists the keys with a prefix.
\<close>

record 'w redis =
  r_connect :: "('w, unit) io"
  r_get :: "string \<Rightarrow> ('w, stored_text option) io"
  r_set :: "string \<Rightarrow> jsval \<Rightarrow> nat \<Rightarrow> ('w, unit) io"
  r_del :: "string \<Rightarrow> ('w, unit) io"
  r_keys :: "string \<Rightarrow> ('w, string list) io"
  r_mget :: "string list \<Rightarrow> ('w, stored_text option list) io"

locale redis_store =
  fixes R :: "'w redis" and view :: "'w \<Rightarrow> entries"
  assumes connect_keeps: "keeps view (r_connect R)"
    and get_keeps: "keeps view (r_get R k)"
    and keys_keeps: "keeps view (r_keys R p)"
    and mget_keeps: "keeps view (r_mget R ks)"
    and get_result: "r_get R k w = (Inr x, w') \<Longrightarrow> x = map_option fst (view w k)"
    and set_ok: "r_set R k v ttl w = (Inr u, w') \<Longrightarrow> view w' = (view w)(k \<mapsto> (Json v, ttl))"
    and set_err: "r_set R k v ttl w = (Inl e, w') \<Longrightarrow> view w' = view w \<or> view w' = (view w)(k \<mapsto> (Json v, ttl))"
    and del_ok: "r_del R k w = (Inr u, w') \<Longrightarrow> view w' = (view w)(k := None)"
    and del_err: "r_del R k w = (Inl e, w') \<Longrightarrow> view w' = view w \<or> view w' = (view w)(k := None)"
    and keys_result: "r_keys R p w = (Inr ks, w') \<Longrightarrow>
      distinct ks \<and> set ks = {k \<in> dom (view w). js_starts_with k p}"
    and mget_result: "r_mget R ks w = (Inr xs, w') \<Longrightarrow> xs = map (\<lambda>k. map_option fst (view w k)) ks"

text \<open>
  The process: \<open>new Date().toISOString()\<close>, \<open>new Date(text)\<close> as a number (\<open>None\<close> for an
  invalid date), the process id and the host name.
\<close>

record 'w process =
  nowIso :: "('w, string) io"
  dateOf :: "jsval \<Rightarrow> int option"
  pid :: nat
  hostname :: string

section \<open>The operations\<close>

definition WORKER_KEY_PREFIX :: string where
  "WORKER_KEY_PREFIX = ''codearena:workers:''"

definition DEFAULT_HEARTBEAT_TTL_S :: nat where
  "DEFAULT_HEARTBEAT_TTL_S = 15"

definition getWorkerKey :: "string \<Rightarrow> string" where
  "getWorkerKey workerId = WORKER_KEY_PREFIX @ workerId"

definition num :: "nat \<Rightarrow> jsval" where
  "num n = JNum (Finite (of_nat n))"

text \<open>\<open>try { ...; return true } catch { return false }\<close>.\<close>

definition or_false :: "('w, unit) io \<Rightarrow> ('w, bool) io" where
  "or_false m = try_catch (await m (\<lambda>_. ret True)) (\<lambda>err. ret False)"

definition registerWorker ::
  "'w redis \<Rightarrow> 'w process \<Rightarrow> string \<Rightarrow> nat \<Rightarrow> string \<Rightarrow> nat \<Rightarrow> ('w, bool) io" where
  "registerWorker R P workerId concurrency status ttlSeconds =
     (if workerId = [] then ret False
      else or_false
        (await (r_connect R) (\<lambda>_.
         await (nowIso P) (\<lambda>t.
         r_set R (getWorkerKey workerId)
           (JObj [(''workerId'', JStr workerId), (''status'', JStr status), (''concurrency'', num concurrency),
                  (''startedAt'', JStr t), (''lastHeartbeat'', JStr t), (''pid'', num (pid P)),
                  (''hostname'', JStr (hostname P))]) ttlSeconds))))"

text \<open>
  The record written back: the stored one with the given fields set, or a fresh one. Parsing a
  malformed text and setting a field of \<open>null\<close> throw; on other values that are no objects a
  field is not kept by \<open>JSON.stringify\<close>.
\<close>

definition fresh_record :: "'w process \<Rightarrow> string \<Rightarrow> string \<Rightarrow> string \<Rightarrow> jsval" where
  "fresh_record P workerId status t = JObj
     [(''workerId'', JStr workerId), (''status'', JStr status), (''startedAt'', JStr t),
      (''lastHeartbeat'', JStr t), (''pid'', num (pid P)), (''hostname'', JStr (hostname P))]"

definition rewritten :: "(jsval \<Rightarrow> jsval) \<Rightarrow> jsval \<Rightarrow> stored_text option \<Rightarrow> err + jsval" where
  "rewritten f fresh existingRaw = (case existingRaw of
     None \<Rightarrow> Inr fresh
   | Some Malformed \<Rightarrow> Inl (js_error ''SyntaxError'' ''Unexpected token in JSON'')
   | Some (Json v) \<Rightarrow>
       if v = JNull then Inl (js_error ''TypeError'' ''Cannot set properties of null'') else Inr (f v))"

definition rewrite_entry ::
  "'w redis \<Rightarrow> 'w process \<Rightarrow> string \<Rightarrow> (string \<Rightarrow> jsval \<Rightarrow> jsval) \<Rightarrow> (string \<Rightarrow> jsval) \<Rightarrow> nat \<Rightarrow> ('w, unit) io" where
  "rewrite_entry R P workerId f fresh ttl =
     await (r_connect R) (\<lambda>_.
     await (r_get R (getWorkerKey workerId)) (\<lambda>existingRaw.
     await (nowIso P) (\<lambda>t.
     case rewritten (f t) (fresh t) existingRaw of
       Inl e \<Rightarrow> throw e
     | Inr record \<Rightarrow> r_set R (getWorkerKey workerId) record ttl)))"

definition heartbeatWorker :: "'w redis \<Rightarrow> 'w process \<Rightarrow> string \<Rightarrow> nat \<Rightarrow> ('w, bool) io" where
  "heartbeatWorker R P workerId ttlSeconds =
     (if workerId = [] then ret False
      else or_false (rewrite_entry R P workerId (\<lambda>t. set_field ''lastHeartbeat'' (JStr t))
        (fresh_record P workerId ''READY'') ttlSeconds))"

definition updateWorkerStatus :: "'w redis \<Rightarrow> 'w process \<Rightarrow> string \<Rightarrow> string \<Rightarrow> nat \<Rightarrow> ('w, bool) io" where
  "updateWorkerStatus R P workerId status ttlSeconds =
     (if workerId = [] then ret False
      else or_false (rewrite_entry R P workerId
        (\<lambda>t v. set_field ''lastHeartbeat'' (JStr t) (set_field ''status'' (JStr status) v))
        (fresh_record P workerId status) (if status = ''STOPPED'' then 5 else ttlSeconds)))"

definition deregisterWorker :: "'w redis \<Rightarrow> string \<Rightarrow> ('w, bool) io" where
  "deregisterWorker R workerId =
     (if workerId = [] then ret False
      else or_false (await (r_connect R) (\<lambda>_. r_del R (getWorkerKey workerId))))"

text \<open>One entry of the list; a malformed text and \<open>null\<close> are left out.\<close>

definition worker_entry :: "stored_text option \<Rightarrow> jsval option" where
  "worker_entry raw = (case raw of
     Some (Json v) \<Rightarrow>
       if v = JNull then None
       else Some (JObj [(''workerId'', field v ''workerId''), (''status'', field v ''status''),
         (''concurrency'', (if truthy (field v ''concurrency'') then field v ''concurrency'' else num 1)),
         (''startedAt'', field v ''startedAt''), (''lastHeartbeat'', field v ''lastHeartbeat''),
         (''hostname'', field v ''hostname''), (''pid'', field v ''pid'')])
   | _ \<Rightarrow> None)"

text \<open>The comparison of the sort; a difference that is NaN counts as equal.\<close>

definition started_le :: "'w process \<Rightarrow> jsval \<Rightarrow> jsval \<Rightarrow> bool" where
  "started_le P a b = (case (dateOf P (field a ''startedAt''), dateOf P (field b ''startedAt'')) of
     (Some x, Some y) \<Rightarrow> x \<le> y | _ \<Rightarrow> True)"

definition fetchWorkers :: "'w redis \<Rightarrow> 'w process \<Rightarrow> ('w, jsval list) io" where
  "fetchWorkers R P =
     await (r_keys R WORKER_KEY_PREFIX) (\<lambda>keys.
       if keys = [] then ret []
       else await (r_mget R keys) (\<lambda>values.
         ret (sort_by (started_le P) (List.map_filter worker_entry values))))"

text \<open>\<open>timedOut\<close>: the timer of 200 ms fires before Redis has answered, and wins the race.\<close>

definition getActiveWorkers :: "'w redis \<Rightarrow> 'w process \<Rightarrow> bool \<Rightarrow> ('w, jsval list) io" where
  "getActiveWorkers R P timedOut =
     try_catch
       (await (r_connect R) (\<lambda>_.
        await (try_catch (fetchWorkers R P) (\<lambda>err. ret [])) (\<lambda>fetched.
        ret (if timedOut then [] else fetched))))
       (\<lambda>err. ret [])"

section \<open>Facts\<close>

lemma or_false_total: "\<exists>b. fst (or_false m w) = Inr b"
  by (auto simp: or_false_def try_catch_def await_def split: prod.split sum.split)

lemma guarded_total: "\<exists>b. fst ((if c then ret False else or_false m) w) = Inr b"
  by (cases c) (use or_false_total in \<open>auto intro: exI [of _ False]\<close>)

lemma or_false_True: "or_false m w = (Inr True, w') \<Longrightarrow> m w = (Inr (), w')"
  by (auto simp: or_false_def elim!: try_catch_cases await_cases)

definition ttl_of :: "string \<Rightarrow> nat \<Rightarrow> nat" where
  "ttl_of status ttl = (if status = ''STOPPED'' then 5 else ttl)"

context redis_store
begin

lemma rewrite_entry_ok:
  assumes run: "rewrite_entry R P i f fresh ttl w = (Inr (), w')" and clock: "keeps view (nowIso P)"
  shows "\<exists>t v. view w' = (view w)(getWorkerKey i \<mapsto> (Json v, ttl)) \<and>
    (case view w (getWorkerKey i) of
       None \<Rightarrow> v = fresh t
     | Some (x, _) \<Rightarrow> \<exists>old. x = Json old \<and> old \<noteq> JNull \<and> v = f t old)"
proof -
  from run obtain w1 w2 w3 x t v where c: "r_connect R w = (Inr (), w1)" and g: "r_get R (getWorkerKey i) w1 = (Inr x, w2)"
    and n: "nowIso P w2 = (Inr t, w3)" and rw: "rewritten (f t) (fresh t) x = Inr v"
    and s: "r_set R (getWorkerKey i) v ttl w3 = (Inr (), w')"
    unfolding rewrite_entry_def by (auto elim!: await_cases split: sum.splits)
  have v1: "view w1 = view w" using c by (rule keepsD [OF connect_keeps])
  have v3: "view w3 = view w" using keepsD [OF get_keeps g] keepsD [OF clock n] v1 by simp
  have x: "x = map_option fst (view w (getWorkerKey i))" using get_result [OF g] v1 by simp
  have "view w' = (view w)(getWorkerKey i \<mapsto> (Json v, ttl))" using set_ok [OF s] v3 by simp
  moreover have "case view w (getWorkerKey i) of None \<Rightarrow> v = fresh t
     | Some (x, _) \<Rightarrow> \<exists>old. x = Json old \<and> old \<noteq> JNull \<and> v = f t old"
    using rw x by (auto simp: rewritten_def split: option.splits stored_text.splits if_splits)
  ultimately show ?thesis by blast
qed

lemma fetchWorkers_ok:
  assumes "fetchWorkers R P w = (Inr xs, w')"
  shows "\<exists>ks. distinct ks \<and> set ks = {k \<in> dom (view w). js_starts_with k WORKER_KEY_PREFIX} \<and>
    mset xs = mset (List.map_filter (\<lambda>k. worker_entry (map_option fst (view w k))) ks)"
proof -
  from assms obtain ks w1 where k: "r_keys R WORKER_KEY_PREFIX w = (Inr ks, w1)" and
    g: "(if ks = [] then ret []
       else await (r_mget R ks) (\<lambda>values.
         ret (sort_by (started_le P) (List.map_filter worker_entry values)))) w1 = (Inr xs, w')"
    unfolding fetchWorkers_def by (auto elim!: await_cases)
  have v1: "view w1 = view w" using k by (rule keepsD [OF keys_keeps])
  have "mset xs = mset (List.map_filter (\<lambda>k. worker_entry (map_option fst (view w k))) ks)"
  proof (cases "ks = []")
    case True
    with g show ?thesis by (simp add: List.map_filter_def)
  next
    case False
    with g obtain vs where vs: "r_mget R ks w1 = (Inr vs, w')"
      and xs: "xs = sort_by (started_le P) (List.map_filter worker_entry vs)"
      by (auto elim!: await_cases)
    have "vs = map (\<lambda>k. map_option fst (view w k)) ks" using mget_result [OF vs] v1 by simp
    then have "List.map_filter worker_entry vs = List.map_filter (\<lambda>k. worker_entry (map_option fst (view w k))) ks"
      by (simp add: List.map_filter_def filter_map comp_def)
    then show ?thesis by (simp add: xs)
  qed
  with keys_result [OF k] show ?thesis by blast
qed

end

section \<open>Properties\<close>

text \<open>Whatever Redis does, the operations of the registry return: none of them throws, so a
  worker's start, heartbeat and shutdown and the metrics page never fail because of it.\<close>

theorem registry_never_throws:
  "(\<exists>b. fst (registerWorker R P i c s ttl w) = Inr b) \<and> (\<exists>b. fst (heartbeatWorker R P i ttl w) = Inr b) \<and>
   (\<exists>b. fst (updateWorkerStatus R P i s ttl w) = Inr b) \<and> (\<exists>b. fst (deregisterWorker R i w) = Inr b) \<and>
   (\<exists>ws. fst (getActiveWorkers R P late w) = Inr ws)"
proof -
  have "\<exists>ws. fst (getActiveWorkers R P late w) = Inr ws"
    unfolding getActiveWorkers_def try_catch_def await_def ret_def
    by (auto split: prod.split sum.split)
  then show ?thesis
    unfolding registerWorker_def heartbeatWorker_def updateWorkerStatus_def deregisterWorker_def
    by (intro conjI guarded_total)
qed

text \<open>A heartbeat that succeeds renews the entry of its worker only. A live entry keeps its
  fields, the status among them, except for the time of the last heartbeat; an entry that has
  expired is made anew with the status READY, whatever the worker's status was before.\<close>

theorem heartbeatWorker_effect:
  assumes "redis_store R view" and "keeps view (nowIso P)" and "heartbeatWorker R P i ttl w = (Inr True, w')"
  shows "\<exists>v. view w' = (view w)(getWorkerKey i \<mapsto> (Json v, ttl)) \<and>
    (case view w (getWorkerKey i) of
       None \<Rightarrow> field v ''status'' = JStr ''READY'' \<and> field v ''workerId'' = JStr i
     | Some (x, _) \<Rightarrow> \<exists>old. x = Json old \<and> (\<forall>k. k \<noteq> ''lastHeartbeat'' \<longrightarrow> field v k = field old k))"
proof -
  have "rewrite_entry R P i (\<lambda>t. set_field ''lastHeartbeat'' (JStr t)) (fresh_record P i ''READY'') ttl w = (Inr (), w')"
    using assms(3) by (auto simp: heartbeatWorker_def intro: or_false_True split: if_splits)
  from redis_store.rewrite_entry_ok [OF assms(1) this assms(2)] obtain t v where
    v: "view w' = (view w)(getWorkerKey i \<mapsto> (Json v, ttl))" and
    c: "case view w (getWorkerKey i) of None \<Rightarrow> v = fresh_record P i ''READY'' t
     | Some (x, _) \<Rightarrow> \<exists>old. x = Json old \<and> old \<noteq> JNull \<and> v = set_field ''lastHeartbeat'' (JStr t) old" by blast
  have keep: "k \<noteq> ''lastHeartbeat'' \<Longrightarrow> field (set_field ''lastHeartbeat'' (JStr t) old) k = field old k" for k old
    by (cases old) auto
  show ?thesis
    using v c keep by (intro exI [of _ v] conjI) (auto simp: fresh_record_def split: option.splits)
qed

text \<open>A status update that succeeds leaves the entry of its worker with that status, keeping the
  other fields of a live entry, for the given time to live, or for five seconds when the
  worker has stopped; no other entry changes.\<close>

theorem updateWorkerStatus_effect:
  assumes "redis_store R view" and "keeps view (nowIso P)" and "updateWorkerStatus R P i s ttl w = (Inr True, w')"
    and "\<forall>x n. view w (getWorkerKey i) = Some (x, n) \<longrightarrow> (\<exists>fs. x = Json (JObj fs))"
  shows "\<exists>v. view w' = (view w)(getWorkerKey i \<mapsto> (Json v, ttl_of s ttl)) \<and> field v ''status'' = JStr s \<and>
    (case view w (getWorkerKey i) of
       None \<Rightarrow> field v ''workerId'' = JStr i
     | Some (x, _) \<Rightarrow> \<exists>old. x = Json old \<and> (\<forall>k. k \<notin> {''lastHeartbeat'', ''status''} \<longrightarrow> field v k = field old k))"
proof -
  let ?f = "\<lambda>t v. set_field ''lastHeartbeat'' (JStr t) (set_field ''status'' (JStr s) v)"
  have "rewrite_entry R P i ?f (fresh_record P i s) (ttl_of s ttl) w = (Inr (), w')"
    using assms(3) by (auto simp: updateWorkerStatus_def ttl_of_def intro: or_false_True split: if_splits)
  from redis_store.rewrite_entry_ok [OF assms(1) this assms(2)] obtain t v where
    v: "view w' = (view w)(getWorkerKey i \<mapsto> (Json v, ttl_of s ttl))" and
    c: "case view w (getWorkerKey i) of None \<Rightarrow> v = fresh_record P i s t
     | Some (x, _) \<Rightarrow> \<exists>old. x = Json old \<and> old \<noteq> JNull \<and> v = ?f t old" by blast
  have keep: "field (?f t (JObj fs)) ''status'' = JStr s \<and>
      (\<forall>k. k \<notin> {''lastHeartbeat'', ''status''} \<longrightarrow> field (?f t (JObj fs)) k = field (JObj fs) k)" for fs
    by simp
  show ?thesis
  proof (cases "view w (getWorkerKey i)")
    case None
    with v c show ?thesis by (intro exI [of _ v]) (simp add: fresh_record_def)
  next
    case (Some e)
    then obtain x n where e: "view w (getWorkerKey i) = Some (x, n)" by (cases e) simp
    with assms(4) obtain fs where "x = Json (JObj fs)" by blast
    with e c have "v = ?f t (JObj fs)" by simp
    with v e keep [of fs] \<open>x = Json (JObj fs)\<close> show ?thesis by (intro exI [of _ v]) (simp del: set_field.simps)
  qed
qed

text \<open>Unless the timer fires or Redis fails, the list shows each live, readable entry of the
  registry once, and nothing else.\<close>

theorem getActiveWorkers_lists:
  assumes "redis_store R view" and "getActiveWorkers R P False w = (Inr xs, w')" and "xs \<noteq> []"
  shows "\<exists>ks. distinct ks \<and> set ks = {k \<in> dom (view w). js_starts_with k WORKER_KEY_PREFIX} \<and>
    mset xs = mset (List.map_filter (\<lambda>k. worker_entry (map_option fst (view w k))) ks)"
proof -
  from assms(2,3) obtain w1 where c: "r_connect R w = (Inr (), w1)" and f: "fetchWorkers R P w1 = (Inr xs, w')"
    unfolding getActiveWorkers_def by (auto elim!: try_catch_cases await_cases)
  have "view w1 = view w" using c by (rule keepsD [OF redis_store.connect_keeps [OF assms(1)]])
  with redis_store.fetchWorkers_ok [OF assms(1) f] show ?thesis by simp
qed


section \<open>A Redis in memory\<close>

type_synonym mem_entries = "(string \<times> (stored_text \<times> nat)) list"

definition mem_redis :: "mem_entries redis" where
  "mem_redis =
     \<lparr>r_connect = ret (),
      r_get = (\<lambda>k. gets (\<lambda>l. map_option fst (map_of l k))),
      r_set = (\<lambda>k v ttl. modify_state (assoc_put k (Json v, ttl))),
      r_del = (\<lambda>k. modify_state (filter (\<lambda>(k', e). k' \<noteq> k))),
      r_keys = (\<lambda>p. gets (\<lambda>l. filter (\<lambda>k. js_starts_with k p) (remdups (map fst l)))),
      r_mget = (\<lambda>ks. gets (\<lambda>l. map (\<lambda>k. map_option fst (map_of l k)) ks))\<rparr>"

interpretation mem_registry: redis_store mem_redis map_of
proof
  fix p w ks w'
  assume "r_keys mem_redis p w = (Inr ks, w')"
  then show "distinct ks \<and> set ks = {k \<in> dom (map_of w). js_starts_with k p}"
    by (force simp: mem_redis_def dom_map_of_conv_image_fst)
qed (auto simp: mem_redis_def keeps_def map_of_filter_key)

definition sample_process :: "mem_entries process" where
  "sample_process = \<lparr>nowIso = ret ''t'', dateOf = (\<lambda>v. Some 0), pid = 7, hostname = ''h''\<rparr>"

lemma sample_clock: "keeps map_of (nowIso sample_process)"
  by (simp add: sample_process_def)

lemmas registry_run = mem_redis_def sample_process_def or_false_def rewrite_entry_def rewritten_def
  try_catch_def await_def getWorkerKey_def WORKER_KEY_PREFIX_def

theorem heartbeatWorker_effect_witness:
  "\<exists>w' v. heartbeatWorker mem_redis sample_process ''w1'' 15 [] = (Inr True, w') \<and>
     map_of w' (getWorkerKey ''w1'') = Some (Json v, 15) \<and> field v ''status'' = JStr ''READY''"
proof -
  have "\<exists>w'. heartbeatWorker mem_redis sample_process ''w1'' 15 [] = (Inr True, w')"
    by (simp add: heartbeatWorker_def registry_run)
  then obtain w' where run: "heartbeatWorker mem_redis sample_process ''w1'' 15 [] = (Inr True, w')" by blast
  from heartbeatWorker_effect [OF mem_registry.redis_store_axioms sample_clock run] run show ?thesis by auto
qed

theorem updateWorkerStatus_effect_witness:
  "\<exists>w' v. updateWorkerStatus mem_redis sample_process ''w1'' ''STOPPED'' 15 [] = (Inr True, w') \<and>
     map_of w' (getWorkerKey ''w1'') = Some (Json v, 5) \<and> field v ''status'' = JStr ''STOPPED''"
proof -
  have "\<exists>w'. updateWorkerStatus mem_redis sample_process ''w1'' ''STOPPED'' 15 [] = (Inr True, w')"
    by (simp add: updateWorkerStatus_def registry_run)
  then obtain w' where run: "updateWorkerStatus mem_redis sample_process ''w1'' ''STOPPED'' 15 [] = (Inr True, w')" by blast
  have "\<forall>x n. map_of [] (getWorkerKey ''w1'') = Some (x, n) \<longrightarrow> (\<exists>fs. x = Json (JObj fs))" by simp
  from updateWorkerStatus_effect [OF mem_registry.redis_store_axioms sample_clock run this] run show ?thesis
    by (auto simp: ttl_of_def)
qed

theorem getActiveWorkers_lists_witness:
  "\<exists>xs w'. getActiveWorkers mem_redis sample_process False [(getWorkerKey ''w1'', (Json (JObj []), 15))] = (Inr xs, w') \<and>
     length xs = 1"
proof -
  let ?w = "[(getWorkerKey ''w1'', (Json (JObj []), 15::nat))]"
  have k: "js_starts_with (getWorkerKey ''w1'') WORKER_KEY_PREFIX"
    by (simp add: getWorkerKey_def js_starts_with_def)
  obtain x where run: "getActiveWorkers mem_redis sample_process False ?w = (Inr [x], ?w)"
    by (simp add: getActiveWorkers_def fetchWorkers_def mem_redis_def try_catch_def await_def k
        List.map_filter_def worker_entry_def sort_by_def)
  from getActiveWorkers_lists [OF mem_registry.redis_store_axioms run] obtain ks where
    "set ks = {k \<in> dom (map_of ?w). js_starts_with k WORKER_KEY_PREFIX}" by auto
  with k have "set ks = {getWorkerKey ''w1''}" by auto
  with run show ?thesis by auto
qed

end
