(* ===== verification/Tracing.thy ===== *)
theory Tracing
  imports Effects
begin

text \<open>
  The propagation of trace contexts (\<open>modules/observability/tracing.service.js\<close>). Random
  bytes are a parameter: \<open>hexBytes n\<close> gives \<open>2 * n\<close> hexadecimal digits.
\<close>

section \<open>The format\<close>

definition formatTraceparent :: "string \<Rightarrow> string \<Rightarrow> string \<Rightarrow> string" where
  "formatTraceparent traceId spanId flags = ''00-'' @ traceId @ ''-'' @ spanId @ ''-'' @ flags"

text \<open>\<open>TRACEPARENT_REGEX.exec\<close>: the three groups of a match.\<close>

definition parse_traceparent :: "string \<Rightarrow> (string \<times> string \<times> string) option" where
  "parse_traceparent s =
     (let t = take 32 (drop 3 s); p = take 16 (drop 36 s); f = drop 53 s in
      if length s = 55 \<and> take 3 s = ''00-'' \<and> s ! 35 = CHR ''-'' \<and> s ! 52 = CHR ''-'' \<and>
         (\<forall>c\<in>set t. is_hex c) \<and> (\<forall>c\<in>set p. is_hex c) \<and> (\<forall>c\<in>set f. is_hex c)
      then Some (t, p, f) else None)"

section \<open>Contexts\<close>

record trace_span =
  traceId :: string
  spanId :: string
  traceFlags :: string
  traceparent :: string

record trace_context = trace_span +
  isNew :: bool

definition generateTraceId :: "(nat \<Rightarrow> ('w, string) io) \<Rightarrow> ('w, string) io" where
  "generateTraceId hexBytes = hexBytes 16"

definition generateSpanId :: "(nat \<Rightarrow> ('w, string) io) \<Rightarrow> ('w, string) io" where
  "generateSpanId hexBytes = hexBytes 8"

text \<open>
  The header value: a string, or a headers object whose \<open>traceparent\<close> or \<open>x-trace-id\<close>
  is one; \<open>trim\<close> of any other truthy value is a \<open>TypeError\<close>.
\<close>

definition header_value :: "jsval \<Rightarrow> err + string" where
  "header_value headerInput =
     (case as_string headerInput of
        Some s \<Rightarrow> Inr (js_trim s)
      | None \<Rightarrow>
          if truthy headerInput \<and> is_object headerInput then
            (let tp = field headerInput ''traceparent''; xt = field headerInput ''x-trace-id'';
                 v = (if truthy tp then tp else if truthy xt then xt else JStr []) in
             case as_string v of
               Some s \<Rightarrow> Inr (js_trim s)
             | None \<Rightarrow> Inl (js_error ''TypeError'' ''trim is not a function''))
          else Inr [])"

definition accepted_header :: "string \<Rightarrow> (string \<times> string \<times> string) option" where
  "accepted_header s = (case parse_traceparent s of
     Some (t, p, f) \<Rightarrow>
       if t \<noteq> replicate 32 (CHR ''0'') \<and> p \<noteq> replicate 16 (CHR ''0'') then Some (t, p, f) else None
   | None \<Rightarrow> None)"

definition extractOrCreateContext :: "(nat \<Rightarrow> ('w, string) io) \<Rightarrow> jsval \<Rightarrow> ('w, trace_context) io" where
  "extractOrCreateContext hexBytes headerInput =
     (case header_value headerInput of
        Inl e \<Rightarrow> throw e
      | Inr s \<Rightarrow>
          (case accepted_header s of
             Some (t, p, f) \<Rightarrow> ret \<lparr>traceId = t, spanId = p, traceFlags = f,
               traceparent = formatTraceparent t p f, isNew = False\<rparr>
           | None \<Rightarrow>
               await (generateTraceId hexBytes) (\<lambda>t.
               await (generateSpanId hexBytes) (\<lambda>p.
                 ret \<lparr>traceId = t, spanId = p, traceFlags = ''01'',
                   traceparent = formatTraceparent t p ''01'', isNew = True\<rparr>))))"

definition createChildSpan :: "(nat \<Rightarrow> ('w, string) io) \<Rightarrow> jsval \<Rightarrow> ('w, trace_span) io" where
  "createChildSpan hexBytes parentTraceparent =
     await (extractOrCreateContext hexBytes parentTraceparent) (\<lambda>parent.
     await (generateSpanId hexBytes) (\<lambda>childSpanId.
       ret \<lparr>traceId = traceId parent, spanId = childSpanId, traceFlags = traceFlags parent,
         traceparent = formatTraceparent (traceId parent) childSpanId (traceFlags parent)\<rparr>))"

section \<open>What the code relies on\<close>

locale random_hex =
  fixes hexBytes :: "nat \<Rightarrow> ('w, string) io"
  assumes hexBytes_hex: "hexBytes n w = (Inr s, w') \<Longrightarrow> length s = 2 * n \<and> (\<forall>c\<in>set s. is_hex c)"

section \<open>Facts\<close>

definition hex_of_length :: "nat \<Rightarrow> string \<Rightarrow> bool" where
  "hex_of_length n s \<longleftrightarrow> length s = n \<and> (\<forall>c\<in>set s. is_hex c)"

lemma parse_format:
  assumes "hex_of_length 32 t" "hex_of_length 16 p" "hex_of_length 2 f"
  shows "parse_traceparent (formatTraceparent t p f) = Some (t, p, f)"
  using assms
  by (simp add: parse_traceparent_def formatTraceparent_def hex_of_length_def nth_append)

lemma parse_Some:
  assumes "parse_traceparent s = Some (t, p, f)"
  shows "hex_of_length 32 t \<and> hex_of_length 16 p \<and> hex_of_length 2 f \<and> s = formatTraceparent t p f"
proof -
  from assms have len: "length s = 55" and pre: "take 3 s = ''00-''" and d: "s ! 35 = CHR ''-''" "s ! 52 = CHR ''-''"
    and parts: "t = take 32 (drop 3 s)" "p = take 16 (drop 36 s)" "f = drop 53 s"
    and hex: "\<forall>c\<in>set t. is_hex c" "\<forall>c\<in>set p. is_hex c" "\<forall>c\<in>set f. is_hex c"
    by (auto simp: parse_traceparent_def Let_def split: if_splits)
  have "s = take 3 s @ drop 3 s" by simp
  also have "drop 3 s = take 32 (drop 3 s) @ drop 35 s"
    using append_take_drop_id [of 32 "drop 3 s"] by simp
  also have "drop 35 s = s ! 35 # drop 36 s" using len Cons_nth_drop_Suc [of 35 s] by simp
  also have "drop 36 s = take 16 (drop 36 s) @ drop 52 s"
    using append_take_drop_id [of 16 "drop 36 s"] by simp
  also have "drop 52 s = s ! 52 # drop 53 s" using len Cons_nth_drop_Suc [of 52 s] by simp
  finally have "s = ''00-'' @ t @ CHR ''-'' # p @ CHR ''-'' # f"
    unfolding pre d parts [symmetric] by simp
  moreover have "length t = 32" "length p = 16" "length f = 2"
    using len unfolding parts by simp_all
  ultimately show ?thesis using hex unfolding formatTraceparent_def hex_of_length_def by simp
qed

lemma is_hex_not_ws: "is_hex c \<Longrightarrow> \<not> is_ws c"
  by (auto simp: is_hex_def is_digit_def is_ws_def)

lemma js_trim_no_ends: "s \<noteq> [] \<Longrightarrow> \<not> is_ws (hd s) \<Longrightarrow> \<not> is_ws (last s) \<Longrightarrow> js_trim s = s"
proof -
  assume s: "s \<noteq> []" "\<not> is_ws (hd s)" "\<not> is_ws (last s)"
  then have "dropWhile is_ws s = s" by (cases s) simp_all
  moreover have "drop_tail_while is_ws s = s" using s by (cases s rule: rev_cases) simp_all
  ultimately show ?thesis by (simp add: js_trim_def js_trim_start_def js_trim_end_def)
qed

lemma trim_format: "hex_of_length 2 f \<Longrightarrow> js_trim (formatTraceparent t p f) = formatTraceparent t p f"
proof (rule js_trim_no_ends)
  assume f: "hex_of_length 2 f"
  then have "f \<noteq> []" by (auto simp: hex_of_length_def)
  with f have "last (formatTraceparent t p f) = last f" "is_hex (last f)"
    by (auto simp: formatTraceparent_def hex_of_length_def)
  then show "\<not> is_ws (last (formatTraceparent t p f))" by (simp add: is_hex_not_ws)
qed (simp_all add: formatTraceparent_def is_ws_def code_unit_def)

section \<open>Properties\<close>

text \<open>C31: a trace context survives the trip through a header: a well-formed one, with identifiers
  that are not all zeros, is read back with the same ids and flags and is not marked new.\<close>

theorem traceparent_roundtrip:
  assumes "hex_of_length 32 t" and "hex_of_length 16 p" and "hex_of_length 2 f"
    and "t \<noteq> replicate 32 (CHR ''0'')" and "p \<noteq> replicate 16 (CHR ''0'')"
  shows "extractOrCreateContext hexBytes (JStr (formatTraceparent t p f)) w =
    (Inr \<lparr>traceId = t, spanId = p, traceFlags = f, traceparent = formatTraceparent t p f, isNew = False\<rparr>, w)"
  using assms
  by (simp add: extractOrCreateContext_def header_value_def trim_format accepted_header_def parse_format)

theorem traceparent_roundtrip_witness:
  "\<exists>c. extractOrCreateContext (\<lambda>n w. (Inr [], w)) (JStr (formatTraceparent (replicate 32 (CHR ''a'')) (replicate 16 (CHR ''b'')) ''01'')) () = (Inr c, ())
     \<and> \<not> isNew c"
proof -
  have hex: "hex_of_length 32 (replicate 32 (CHR ''a''))" "hex_of_length 16 (replicate 16 (CHR ''b''))"
    "hex_of_length 2 ''01''"
    by (auto simp: hex_of_length_def is_hex_def is_digit_def code_unit_def)
  have ne: "replicate 32 (CHR ''a'') \<noteq> replicate 32 (CHR ''0'')" "replicate 16 (CHR ''b'') \<noteq> replicate 16 (CHR ''0'')"
    by (simp_all add: replicate_eq_replicate)
  from traceparent_roundtrip [OF hex ne, of "\<lambda>n w. (Inr [], w)" "()"] show ?thesis by auto
qed

text \<open>whatever header comes in, a context that is returned is well formed: its ids are
  hexadecimal of the right length and its header string is their formatting; a child span keeps
  the trace id and the flags of an accepted parent.\<close>

theorem trace_context_well_formed:
  assumes "random_hex hexBytes"
    and "extractOrCreateContext hexBytes h w = (Inr c, w')"
  shows "hex_of_length 32 (traceId c) \<and> hex_of_length 16 (spanId c) \<and> hex_of_length 2 (traceFlags c) \<and>
    traceparent c = formatTraceparent (traceId c) (spanId c) (traceFlags c) \<and>
    (\<not> isNew c \<longrightarrow> (\<forall>d w1 w2. createChildSpan hexBytes h w1 = (Inr d, w2) \<longrightarrow>
       traceId d = traceId c \<and> traceFlags d = traceFlags c))"
proof -
  have hex: "hex_of_length (2 * n) s" if "hexBytes n u = (Inr s, u')" for n s u u'
    using random_hex.hexBytes_hex [OF assms(1) that] by (simp add: hex_of_length_def)
  from assms(2) obtain s where s: "header_value h = Inr s"
    by (auto simp: extractOrCreateContext_def split: sum.splits)
  show ?thesis
  proof (cases "accepted_header s")
    case None
    with assms(2) s obtain t p w1 where gen: "hexBytes 16 w = (Inr t, w1)" "hexBytes 8 w1 = (Inr p, w')"
      and c: "c = \<lparr>traceId = t, spanId = p, traceFlags = ''01'', traceparent = formatTraceparent t p ''01'', isNew = True\<rparr>"
      by (auto simp: extractOrCreateContext_def generateTraceId_def generateSpanId_def elim!: await_cases)
    from hex [OF gen(1)] hex [OF gen(2)] show ?thesis
      by (simp add: c) (simp add: hex_of_length_def is_hex_def is_digit_def code_unit_def)
  next
    case (Some x)
    obtain t p f where x: "x = (t, p, f)" by (cases x)
    with Some have parse: "parse_traceparent s = Some (t, p, f)"
      by (auto simp: accepted_header_def split: option.splits if_splits prod.splits)
    have run: "extractOrCreateContext hexBytes h u = (Inr \<lparr>traceId = t, spanId = p, traceFlags = f,
        traceparent = formatTraceparent t p f, isNew = False\<rparr>, u)" for u
      by (simp add: extractOrCreateContext_def s Some x)
    have child: "traceId d = t \<and> traceFlags d = f" if "createChildSpan hexBytes h w1 = (Inr d, w2)" for d w1 w2
      using that unfolding createChildSpan_def by (auto simp: run elim!: await_cases)
    from run [of w] assms(2) parse_Some [OF parse] child show ?thesis by auto
  qed
qed

section \<open>A source of digits\<close>

definition seven_bytes :: "nat \<Rightarrow> ('w, string) io" where
  "seven_bytes n = ret (replicate (2 * n) (CHR ''7''))"

interpretation sevens: random_hex seven_bytes
  by unfold_locales (auto simp: seven_bytes_def is_hex_def is_digit_def code_unit_def)

theorem trace_context_well_formed_witness:
  "\<exists>c. extractOrCreateContext seven_bytes JUndefined () = (Inr c, ()) \<and> hex_of_length 32 (traceId c)"
proof -
  obtain c where run: "extractOrCreateContext seven_bytes JUndefined () = (Inr c, ())"
    by (simp add: extractOrCreateContext_def header_value_def accepted_header_def parse_traceparent_def
        generateTraceId_def generateSpanId_def seven_bytes_def await_def)
  from trace_context_well_formed [OF sevens.random_hex_axioms run] run show ?thesis by blast
qed

end
