(* ===== verification/Api.thy ===== *)
theory Api
  imports Accounts Users TestCases Submissions Registry Tracing
begin

text \<open>
  The HTTP API: the route tables (\<open>modules/*/*.routes.js\<close>, mounted by \<open>app.js\<close>), their
  middleware chains, the controllers (\<open>modules/*/*.controller.js\<close>) and the central error handler
  (\<open>middleware/error-handler.js\<close>). A request is served by the guards of the first matching route
  and its controller; every exception ends in the error handler.

  Parsing of the request, CORS, security headers and the rate limiters' counters belong to
  libraries: a parsed request is the input, and whether a limiter blocks is a parameter.
\<close>

section \<open>Requests and responses\<close>

text \<open>
  \<open>rq_path\<close> are the decoded segments below \<open>/api/v1\<close>; \<open>rq_id\<close> and \<open>rq_traceparent\<close> were
  set by the middleware before the routers.
\<close>

record request =
  rq_method :: string
  rq_path :: "string list"
  rq_authorization :: "string option"
  rq_query :: jsval
  rq_body :: jsval
  rq_ip :: string
  rq_id :: string
  rq_traceparent :: "string option"

record response =
  rs_status :: int
  rs_body :: jsval

record 'w api =
  a_backend :: "'w backend"
  a_auth :: "'w auth_env"
  a_redis :: "'w redis"
  a_process :: "'w process"
  a_calendar :: calendar
  a_regex :: "string \<Rightarrow> string \<Rightarrow> bool"
  a_queryValue :: "string \<Rightarrow> jsval \<Rightarrow> err + (string \<Rightarrow> bool)"
  a_limited :: "string \<Rightarrow> string \<Rightarrow> ('w, bool) io"
  a_queueMetrics :: "('w, jsval option) io"
  a_workersTimeOut :: bool

text \<open>What a chain of middleware has put on the request.\<close>

record ctx =
  cx_user :: "user option"
  cx_params :: "(string \<times> string) list"
  cx_body :: jsval

section \<open>error-handler.js\<close>

text \<open>
  \<open>res.statusCode\<close> is still 200 when an error comes in; the stack, sent in development only, is
  left out. An unset \<open>errors\<close> is no list of messages.
\<close>

definition own_status :: "err \<Rightarrow> int" where
  "own_status e = (case statusCode e of Some s \<Rightarrow> if s = 0 then 500 else s | None \<Rightarrow> 500)"

definition error_status :: "err \<Rightarrow> int" where
  "error_status e =
     (if ename e = ''TokenExpiredError'' \<or> ename e = ''JsonWebTokenError'' then 401
      else if ename e = ''CastError'' \<or> ename e = ''ValidationError'' then 400
      else if dbCode e = Some 11000 then 409
      else own_status e)"

definition nonempty :: "string option \<Rightarrow> string \<Rightarrow> string" where
  "nonempty s d = (case s of Some t \<Rightarrow> if t = [] then d else t | None \<Rightarrow> d)"

definition error_code :: "err \<Rightarrow> string" where
  "error_code e =
     (if ename e = ''JsonWebTokenError'' then ''INVALID_TOKEN''
      else if ename e = ''TokenExpiredError'' then ''TOKEN_EXPIRED''
      else if ename e = ''CastError'' then ''INVALID_ID_FORMAT''
      else if ename e = ''ValidationError'' then ''VALIDATION_ERROR''
      else if dbCode e = Some 11000 then ''DUPLICATE_KEY_ERROR''
      else nonempty (errorCode e)
        (if own_status e = 404 then ''RESOURCE_NOT_FOUND''
         else if own_status e = 400 then ''VALIDATION_ERROR'' else ''INTERNAL_ERROR''))"

definition error_message :: "err \<Rightarrow> string" where
  "error_message e =
     (if ename e = ''JsonWebTokenError'' then ''Invalid token''
      else if ename e = ''TokenExpiredError'' then ''Token has expired''
      else if ename e = ''CastError'' then ''Invalid '' @ nonempty (epath e) ''ID'' @ '' format''
      else if ename e = ''ValidationError'' then
        (case eerrors e of
           Some ms \<Rightarrow> if ms = [] then ''Validation error'' else js_join '', '' ms
         | None \<Rightarrow> ''Validation error'')
      else if dbCode e = Some 11000 then ''User already exists''
      else nonempty (Some (emessage e)) ''Internal server error'')"

definition errorHandler :: "string \<Rightarrow> err \<Rightarrow> response" where
  "errorHandler requestId e =
     \<lparr>rs_status = error_status e, rs_body = JObj (
        [(''success'', JBool False), (''message'', JStr (error_message e)), (''errorCode'', JStr (error_code e)),
         (''error'', JObj [(''code'', JStr (error_code e)), (''message'', JStr (error_message e))])] @
        (if requestId = [] then [] else [(''requestId'', JStr requestId)]))\<rparr>"

definition notFound :: response where
  "notFound = \<lparr>rs_status = 404, rs_body = JObj [(''success'', JBool False), (''message'', JStr ''Route not found'')]\<rparr>"

definition success :: "int \<Rightarrow> jsval \<Rightarrow> response" where
  "success status data = \<lparr>rs_status = status, rs_body = JObj [(''success'', JBool True), (''data'', data)]\<rparr>"

definition confirmation :: "string \<Rightarrow> response" where
  "confirmation message = \<lparr>rs_status = 200, rs_body = JObj [(''success'', JBool True), (''message'', JStr message)]\<rparr>"

section \<open>Results as JSON\<close>

definition js_nat :: "nat \<Rightarrow> jsval" where
  "js_nat n = js_int (int n)"

definition pagination_json :: "pagination \<Rightarrow> jsval" where
  "pagination_json p = JObj [(''page'', js_nat (pg_page p)), (''limit'', js_nat (pg_limit p)),
     (''total'', js_nat (pg_total p)), (''totalPages'', js_nat (pg_totalPages p))]"

definition paged :: "string \<Rightarrow> jsval list \<Rightarrow> pagination \<Rightarrow> response" where
  "paged name items p = \<lparr>rs_status = 200, rs_body = JObj [(''success'', JBool True),
     (''data'', JObj [(name, JArr items), (''pagination'', pagination_json p)]),
     (''pagination'', pagination_json p)]\<rparr>"

definition item_json :: "problem_item \<Rightarrow> jsval" where
  "item_json p = JObj
     [(''id'', JStr (pi_id p)), (''title'', JStr (pi_title p)), (''difficulty'', JStr (difficulty_name (pi_difficulty p))),
      (''tags'', JArr (map JStr (pi_tags p))), (''authorId'', JStr (pi_authorId p)),
      (''createdAt'', js_int (pi_createdAt p)), (''solved'', JBool (pi_solved p)),
      (''testCasesCount'', js_nat (pi_testCasesCount p)), (''readiness'', readiness_json (pi_readiness p))]"

definition stats_fields :: "user_stats \<Rightarrow> (string \<times> jsval) list" where
  "stats_fields s = (let v = us_verdicts s; c = us_solved s in
     [(''totalProblemsSolved'', js_nat (us_totalSolved s)), (''easySolved'', js_nat (sc_easy c)),
      (''mediumSolved'', js_nat (sc_medium c)), (''hardSolved'', js_nat (sc_hard c)),
      (''totalSubmissions'', js_nat (vc_total v)), (''acceptedSubmissions'', js_nat (vc_accepted v)),
      (''wrongAnswerSubmissions'', js_nat (vc_wrongAnswer v)),
      (''compilationErrorSubmissions'', js_nat (vc_compilationError v)),
      (''runtimeErrorSubmissions'', js_nat (vc_runtimeError v)),
      (''timeLimitExceededSubmissions'', js_nat (vc_timeLimit v)),
      (''memoryLimitExceededSubmissions'', js_nat (vc_memoryLimit v)),
      (''acceptanceRate'', JNum (Finite (us_acceptanceRate s)))])"

definition activity_json :: "activity \<Rightarrow> jsval" where
  "activity_json a = JObj [(''range'', JStr (ac_range a)), (''totalSubmissions'', js_nat (ac_total a)),
     (''activity'', JArr (map (\<lambda>(d, n). JObj [(''date'', JStr d), (''submissions'', js_nat n)]) (ac_days a)))]"

section \<open>Middleware\<close>

datatype guard =
    Limit string string
  | Authenticate
  | Optional_auth
  | Authorize "role list"
  | Check_param "jsval \<Rightarrow> err + unit" string
  | Check_body "jsval \<Rightarrow> err + jsval"

definition param :: "ctx \<Rightarrow> string \<Rightarrow> jsval" where
  "param c name = (case map_of (cx_params c) name of Some s \<Rightarrow> JStr s | None \<Rightarrow> JUndefined)"

text \<open>The key of a limiter: the submission limiter counts per user, the others per address.\<close>

definition limit_key :: "string \<Rightarrow> request \<Rightarrow> ctx \<Rightarrow> string" where
  "limit_key name rq c =
     (if name = ''submission'' then (case cx_user c of Some u \<Rightarrow> u_id u | None \<Rightarrow> rq_ip rq) else rq_ip rq)"

definition too_many :: "string \<Rightarrow> response" where
  "too_many message = \<lparr>rs_status = 429, rs_body = JObj [(''success'', JBool False),
     (''error'', JObj [(''code'', JStr ''RATE_LIMIT_EXCEEDED''), (''message'', JStr message)])]\<rparr>"

text \<open>A guard throws (\<open>next(error)\<close>), answers the request itself, or passes it on.\<close>

fun run_guard :: "'w api \<Rightarrow> request \<Rightarrow> guard \<Rightarrow> ctx \<Rightarrow> ('w, response + ctx) io" where
  "run_guard A rq (Limit name message) c =
     await (a_limited A name (limit_key name rq c)) (\<lambda>blocked.
       ret (if blocked then Inl (too_many message) else Inr c))"
| "run_guard A rq Authenticate c =
     await (authenticate (a_backend A) (a_auth A) (rq_authorization rq)) (\<lambda>u. ret (Inr (c\<lparr>cx_user := Some u\<rparr>)))"
| "run_guard A rq Optional_auth c =
     await (optionalAuthenticate (a_backend A) (a_auth A) (rq_authorization rq)) (\<lambda>u. ret (Inr (c\<lparr>cx_user := u\<rparr>)))"
| "run_guard A rq (Authorize roles) c =
     (case authorize roles (cx_user c) of Inl e \<Rightarrow> throw e | Inr _ \<Rightarrow> ret (Inr c))"
| "run_guard A rq (Check_param f name) c =
     (case f (param c name) of Inl e \<Rightarrow> throw e | Inr _ \<Rightarrow> ret (Inr c))"
| "run_guard A rq (Check_body f) c =
     (case f (cx_body c) of Inl e \<Rightarrow> throw e | Inr body \<Rightarrow> ret (Inr (c\<lparr>cx_body := body\<rparr>)))"

fun run_guards :: "'w api \<Rightarrow> request \<Rightarrow> guard list \<Rightarrow> ctx \<Rightarrow> ('w, response + ctx) io" where
  "run_guards A rq [] c = ret (Inr c)"
| "run_guards A rq (g # gs) c = await (run_guard A rq g c) (\<lambda>x. case x of
     Inl r \<Rightarrow> ret (Inl r) | Inr c' \<Rightarrow> run_guards A rq gs c')"

section \<open>Routes\<close>

datatype operation =
    Register_user | Login_user
  | Get_me | Get_my_stats | Get_my_solved | Get_my_activity
  | List_problems | Get_problem | Create_problem | Update_problem | Deactivate_problem
  | Create_test | List_tests | Get_test | Update_test | Deactivate_test
  | Create_submission | List_my_submissions | Get_submission
  | List_audit_logs | Get_queue_metrics | List_workers

datatype segment = Lit string | Param string

text \<open>Express compares literal segments without regard to case; a parameter is not empty.\<close>

fun match_path :: "segment list \<Rightarrow> string list \<Rightarrow> (string \<times> string) list option" where
  "match_path [] [] = Some []"
| "match_path (Lit l # ps) (s # ss) = (if js_lower s = l then match_path ps ss else None)"
| "match_path (Param p # ps) (s # ss) =
     (if s = [] then None else map_option (\<lambda>m. (p, s) # m) (match_path ps ss))"
| "match_path ps ss = None"

type_synonym route = "string \<times> segment list \<times> guard list \<times> operation"

definition auth_routes :: "route list" where
  "auth_routes =
     [(''POST'', [Lit ''auth'', Lit ''register''],
         [Limit ''register'' ''Too many registration attempts. Please try again in 15 minutes.'',
          Check_body validateRegister], Register_user),
      (''POST'', [Lit ''auth'', Lit ''login''],
         [Limit ''login'' ''Too many login attempts. Please try again in 15 minutes.'',
          Check_body validateLogin], Login_user)]"

definition user_routes :: "route list" where
  "user_routes =
     [(''GET'', [Lit ''users'', Lit ''me'', Lit ''stats''], [Authenticate], Get_my_stats),
      (''GET'', [Lit ''users'', Lit ''me'', Lit ''solved-problems''], [Authenticate], Get_my_solved),
      (''GET'', [Lit ''users'', Lit ''me'', Lit ''activity''], [Authenticate], Get_my_activity),
      (''GET'', [Lit ''users'', Lit ''me''], [Authenticate], Get_me)]"

definition problem_routes :: "(jsval \<Rightarrow> oid option) \<Rightarrow> route list" where
  "problem_routes cast =
     (let known = Check_param (validateProblemId cast) ''problemId'' in
     [(''GET'', [Lit ''problems''], [Optional_auth], List_problems),
      (''GET'', [Lit ''problems'', Param ''problemId''], [known], Get_problem),
      (''POST'', [Lit ''problems''],
         [Authenticate, Authorize [ADMIN], Check_body validateCreateProblem], Create_problem),
      (''PATCH'', [Lit ''problems'', Param ''problemId''],
         [Authenticate, Authorize [ADMIN], known, Check_body validateUpdateProblem], Update_problem),
      (''DELETE'', [Lit ''problems'', Param ''problemId''],
         [Authenticate, Authorize [ADMIN], known], Deactivate_problem)])"

definition problem_test_routes :: "(jsval \<Rightarrow> oid option) \<Rightarrow> route list" where
  "problem_test_routes cast =
     (let known = Check_param (validateProblemId cast) ''problemId'' in
     [(''POST'', [Lit ''problems'', Param ''problemId'', Lit ''test-cases''],
         [Authenticate, Authorize [ADMIN], known, Check_body validateCreateTestCase], Create_test),
      (''GET'', [Lit ''problems'', Param ''problemId'', Lit ''test-cases''], [Authenticate, known], List_tests)])"

definition test_routes :: "(jsval \<Rightarrow> oid option) \<Rightarrow> route list" where
  "test_routes cast =
     (let known = Check_param (validateTestCaseId cast) ''testCaseId'' in
     [(''GET'', [Lit ''test-cases'', Param ''testCaseId''], [Authenticate, known], Get_test),
      (''PATCH'', [Lit ''test-cases'', Param ''testCaseId''],
         [Authenticate, Authorize [ADMIN], known, Check_body validateUpdateTestCase], Update_test),
      (''DELETE'', [Lit ''test-cases'', Param ''testCaseId''],
         [Authenticate, Authorize [ADMIN], known], Deactivate_test)])"

definition submission_routes :: "(jsval \<Rightarrow> oid option) \<Rightarrow> route list" where
  "submission_routes cast =
     [(''POST'', [Lit ''submissions''],
         [Authenticate,
          Limit ''submission'' ''Submission rate limit exceeded. You may submit up to 10 solutions per minute.'',
          Check_body (validateCreateSubmission cast)], Create_submission),
      (''GET'', [Lit ''submissions'', Lit ''me''], [Authenticate], List_my_submissions),
      (''GET'', [Lit ''submissions'', Param ''submissionId''],
         [Authenticate, Check_param (validateSubmissionId cast) ''submissionId''], Get_submission)]"

definition admin_routes :: "route list" where
  "admin_routes =
     [(''GET'', [Lit ''admin'', Lit ''audit-logs''], [Authenticate, Authorize [ADMIN]], List_audit_logs),
      (''GET'', [Lit ''admin'', Lit ''queue-metrics''], [Authenticate, Authorize [ADMIN]], Get_queue_metrics),
      (''GET'', [Lit ''admin'', Lit ''workers''], [Authenticate, Authorize [ADMIN]], List_workers)]"

definition routes :: "(jsval \<Rightarrow> oid option) \<Rightarrow> route list" where
  "routes cast = auth_routes @ user_routes @ problem_routes cast @ problem_test_routes cast @
     test_routes cast @ submission_routes cast @ admin_routes"

fun find_route :: "route list \<Rightarrow> string \<Rightarrow> string list \<Rightarrow> ((string \<times> string) list \<times> guard list \<times> operation) option" where
  "find_route [] meth path = None"
| "find_route ((m, pat, gs, oper) # rs) meth path =
     (if m = meth then (case match_path pat path of
        Some ps \<Rightarrow> Some (ps, gs, oper)
      | None \<Rightarrow> find_route rs meth path)
      else find_route rs meth path)"

section \<open>Controllers\<close>

text \<open>An id of the path or the body as the object mapper reads it; \<open>req.user\<close> behind \<open>authenticate\<close>.\<close>

definition as_id :: "'w api \<Rightarrow> jsval \<Rightarrow> ('w, oid) io" where
  "as_id A v = (case castId (a_auth A) v of
     Some i \<Rightarrow> ret i | None \<Rightarrow> throw (js_error ''CastError'' ''Cast to ObjectId failed''))"

definition signed_in :: "ctx \<Rightarrow> ('w, user) io" where
  "signed_in c = (case cx_user c of
     Some u \<Rightarrow> ret u | None \<Rightarrow> throw (js_error ''TypeError'' ''Cannot read properties of undefined''))"

definition auth_controller :: "'w api \<Rightarrow> ctx \<Rightarrow> operation \<Rightarrow> ('w, response) io" where
  "auth_controller A c oper =
     (let email = text_of (field (cx_body c) ''email''); password = text_of (field (cx_body c) ''password'') in
      if oper = Register_user then
        await (register (a_backend A) (a_auth A) (text_of (field (cx_body c) ''name'')) email password) (\<lambda>user.
          ret (success 201 (JObj [(''user'', user)])))
      else
        await (login (a_backend A) (a_auth A) email password) (\<lambda>(user, token).
          ret (success 200 (JObj [(''user'', user), (''token'', JStr token)]))))"

definition user_controller :: "'w api \<Rightarrow> request \<Rightarrow> ctx \<Rightarrow> operation \<Rightarrow> ('w, response) io" where
  "user_controller A rq c oper = await (signed_in c) (\<lambda>u.
     if oper = Get_my_stats then
       await (getUserStats (a_backend A) (u_id u)) (\<lambda>stats.
         ret (success 200 (JObj (stats_fields stats @ [(''stats'', JObj (stats_fields stats))]))))
     else if oper = Get_my_solved then
       await (getUserSolvedProblems (a_backend A) (u_id u) (rq_query rq)) (\<lambda>(ps, pg). ret (paged ''problems'' ps pg))
     else if oper = Get_my_activity then
       await (getUserActivity (a_backend A) (a_calendar A) (u_id u) (rq_query rq)) (\<lambda>a.
         ret (success 200 (activity_json a)))
     else
       ret (success 200 (set_field ''user'' (toSafeUser u) (toSafeUser u))))"

definition problem_controller :: "'w api \<Rightarrow> request \<Rightarrow> ctx \<Rightarrow> operation \<Rightarrow> ('w, response) io" where
  "problem_controller A rq c oper =
     (if oper = List_problems then
        await (listProblems (a_backend A) (a_regex A) (rq_query rq) (map_option u_id (cx_user c))) (\<lambda>(ps, pg).
          ret (paged ''problems'' (map item_json ps) pg))
      else if oper = Create_problem then
        await (signed_in c) (\<lambda>u.
        await (createProblem (a_backend A) (cx_body c) (u_id u)) (\<lambda>p. ret (success 201 (JObj [(''problem'', p)]))))
      else await (as_id A (param c ''problemId'')) (\<lambda>i.
        if oper = Update_problem then
          await (updateProblem (a_backend A) i (cx_body c) (map_option u_id (cx_user c))) (\<lambda>p.
            ret (success 200 (JObj [(''problem'', p)])))
        else if oper = Deactivate_problem then
          await (deactivateProblem (a_backend A) i (map_option u_id (cx_user c))) (\<lambda>m. ret (confirmation m))
        else await (getProblemById (a_backend A) i) (\<lambda>p. ret (success 200 (JObj [(''problem'', p)])))))"

definition test_controller :: "'w api \<Rightarrow> ctx \<Rightarrow> operation \<Rightarrow> ('w, response) io" where
  "test_controller A c oper =
     (if oper = Create_test \<or> oper = List_tests then
        await (as_id A (param c ''problemId'')) (\<lambda>i.
          if oper = Create_test then
            await (createTestCase (a_backend A) i (cx_body c) (map_option u_id (cx_user c))) (\<lambda>t.
              ret (success 201 (JObj [(''testCase'', t)])))
          else await (signed_in c) (\<lambda>u.
            await (getTestCasesForProblem (a_backend A) i (u_role u)) (\<lambda>ts.
              ret (success 200 (JObj [(''testCases'', JArr ts)])))))
      else await (as_id A (param c ''testCaseId'')) (\<lambda>i.
        if oper = Update_test then
          await (updateTestCase (a_backend A) i (cx_body c) (map_option u_id (cx_user c))) (\<lambda>t.
            ret (success 200 (JObj [(''testCase'', t)])))
        else if oper = Deactivate_test then
          await (deactivateTestCase (a_backend A) i (map_option u_id (cx_user c))) (\<lambda>m. ret (confirmation m))
        else await (signed_in c) (\<lambda>u.
          await (getTestCaseById (a_backend A) i (u_role u)) (\<lambda>t. ret (success 200 (JObj [(''testCase'', t)]))))))"

definition submission_controller :: "'w api \<Rightarrow> request \<Rightarrow> ctx \<Rightarrow> operation \<Rightarrow> ('w, response) io" where
  "submission_controller A rq c oper = await (signed_in c) (\<lambda>u.
     if oper = Create_submission then
       await (as_id A (field (cx_body c) ''problemId'')) (\<lambda>i.
       await (createSubmission (a_backend A) i (text_of (field (cx_body c) ''language''))
           (text_of (field (cx_body c) ''sourceCode'')) (u_id u) (rq_traceparent rq)) (\<lambda>s.
         ret (success 201 (JObj [(''submission'', s)]))))
     else if oper = List_my_submissions then
       await (getMySubmissions (a_backend A) (castId (a_auth A)) (u_id u) (rq_query rq)) (\<lambda>(ss, pg).
         ret (paged ''submissions'' ss pg))
     else await (as_id A (param c ''submissionId'')) (\<lambda>i.
       await (getSubmissionById (a_backend A) i u) (\<lambda>s. ret (success 200 (JObj [(''submission'', s)])))))"

definition admin_controller :: "'w api \<Rightarrow> request \<Rightarrow> operation \<Rightarrow> ('w, response) io" where
  "admin_controller A rq oper =
     (if oper = List_audit_logs then
        await (getAuditLogs (a_backend A) (a_queryValue A) (rq_query rq)) (\<lambda>(ls, pg).
          ret (success 200 (JObj [(''logs'', JArr ls), (''pagination'', pagination_json pg)])))
      else if oper = Get_queue_metrics then
        await (a_queueMetrics A) (\<lambda>counts. case counts of
          None \<Rightarrow> throw (AppError ''Queue service unavailable'' 503 (Some ''QUEUE_UNAVAILABLE''))
        | Some m \<Rightarrow> ret (success 200 m))
      else await (getActiveWorkers (a_redis A) (a_process A) (a_workersTimeOut A)) (\<lambda>ws.
        ret (success 200 (JObj [(''count'', js_nat (length ws)), (''workers'', JArr ws)]))))"

definition handle :: "'w api \<Rightarrow> request \<Rightarrow> ctx \<Rightarrow> operation \<Rightarrow> ('w, response) io" where
  "handle A rq c oper =
     (if oper \<in> {Register_user, Login_user} then auth_controller A c oper
      else if oper \<in> {Get_me, Get_my_stats, Get_my_solved, Get_my_activity} then user_controller A rq c oper
      else if oper \<in> {List_problems, Get_problem, Create_problem, Update_problem, Deactivate_problem}
        then problem_controller A rq c oper
      else if oper \<in> {Create_test, List_tests, Get_test, Update_test, Deactivate_test}
        then test_controller A c oper
      else if oper \<in> {Create_submission, List_my_submissions, Get_submission} then submission_controller A rq c oper
      else admin_controller A rq oper)"

definition serve :: "'w api \<Rightarrow> request \<Rightarrow> ('w, response) io" where
  "serve A rq =
     (case find_route (routes (castId (a_auth A))) (rq_method rq) (rq_path rq) of
        None \<Rightarrow> ret notFound
      | Some (params, guards, oper) \<Rightarrow>
          try_catch
            (await (run_guards A rq guards \<lparr>cx_user = None, cx_params = params, cx_body = rq_body rq\<rparr>) (\<lambda>x.
               case x of Inl r \<Rightarrow> ret r | Inr c \<Rightarrow> handle A rq c oper))
            (\<lambda>e. ret (errorHandler (rq_id rq) e)))"

end
