(* ===== verification/ApiGuards.thy ===== *)
theory ApiGuards
  imports Api
begin

text \<open>
  What the API guarantees as a whole: who can change the catalogue (problems, test cases and the
  audit log), that every request is answered, and the status of every refusal. The contract
  \<open>api_host\<close> adds to \<open>credentials\<close> that the limiters, the queue's counters and the worker registry
  live outside the database.
\<close>

section \<open>The catalogue\<close>

definition calm :: "db \<Rightarrow> db \<Rightarrow> bool" where
  "calm v v' \<longleftrightarrow> db_problems v' = db_problems v \<and> db_testCases v' = db_testCases v \<and>
     db_auditLogs v' = db_auditLogs v"

lemma reflp_calm [simp]: "reflp calm"
  by (rule reflpI) (simp add: calm_def)

lemma transp_calm [simp]: "transp calm"
  by (rule transpI) (auto simp: calm_def)

lemma calm_refl [simp]: "calm v v"
  by (simp add: calm_def)

lemma calm_submissions [simp]: "calm v (db_submissions_update f v)"
  by (simp add: calm_def)

lemma calm_users [simp]: "calm v (db_users_update f v)"
  by (simp add: calm_def)

named_theorems calm_intros "computations that leave the catalogue unchanged"

lemma calm_keeps: "keeps view m \<Longrightarrow> moves calm view m"
  by (rule moves_keeps) simp

lemma calm_ret [calm_intros]: "moves calm view (ret a)" "moves calm view (throw e)"
  by (simp_all add: calm_keeps)

lemma calm_await [calm_intros]:
  "moves calm view m \<Longrightarrow> (\<And>a. moves calm view (k a)) \<Longrightarrow> moves calm view (await m k)"
  by (rule moves_await) simp_all

lemma calm_try_catch [calm_intros]:
  "moves calm view m \<Longrightarrow> (\<And>e. moves calm view (h e)) \<Longrightarrow> moves calm view (try_catch m h)"
  by (rule moves_try_catch) simp_all

lemma calm_choice [calm_intros]:
  "moves calm view m \<Longrightarrow> moves calm view n \<Longrightarrow> moves calm view (if b then m else n)"
  "moves calm view m \<Longrightarrow> (\<And>x. moves calm view (k x)) \<Longrightarrow> moves calm view (case v of None \<Rightarrow> m | Some x \<Rightarrow> k x)"
  "(\<And>x y. moves calm view (f x y)) \<Longrightarrow> moves calm view (case p of (x, y) \<Rightarrow> f x y)"
  "(\<And>x. moves calm view (g x)) \<Longrightarrow> (\<And>x. moves calm view (k' x)) \<Longrightarrow>
     moves calm view (case s of Inl x \<Rightarrow> g x | Inr x \<Rightarrow> k' x)"
  "moves calm view (f' z) \<Longrightarrow> moves calm view (let x = z in f' x)"
  by (auto split: option.split prod.split sum.split)

section \<open>Operations that leave the catalogue alone\<close>

locale api_host = credentials "a_backend A" view "a_auth A"
  for A :: "'w api" and view :: "'w \<Rightarrow> db" +
  assumes limited_keeps: "keeps view (a_limited A n k)"
    and queueMetrics_keeps: "keeps view (a_queueMetrics A)"
    and registry_keeps: "keeps view (r_connect (a_redis A))" "keeps view (r_keys (a_redis A) p)"
      "keeps view (r_mget (a_redis A) ks)"
begin

lemma calm_reads [calm_intros]:
  "moves calm view (findById (Users (a_backend A)) i)" "moves calm view (findOne (Users (a_backend A)) P)"
  "moves calm view (findMany (Users (a_backend A)) P le n lm)"
  "moves calm view (findById (Problems (a_backend A)) i)"
  "moves calm view (findMany (Problems (a_backend A)) P' le' n lm)"
  "moves calm view (countDocuments (Problems (a_backend A)) P')"
  "moves calm view (groupCount (Problems (a_backend A)) P' key')"
  "moves calm view (findOne (TestCases (a_backend A)) Q)"
  "moves calm view (findMany (TestCases (a_backend A)) Q le2 n lm)"
  "moves calm view (countDocuments (TestCases (a_backend A)) Q)"
  "moves calm view (groupCount (TestCases (a_backend A)) Q key2)"
  "moves calm view (findById (Submissions (a_backend A)) i)"
  "moves calm view (findMany (Submissions (a_backend A)) S le3 n lm)"
  "moves calm view (countDocuments (Submissions (a_backend A)) S)"
  "moves calm view (groupCount (Submissions (a_backend A)) S key3)"
  "moves calm view (distinctOf (Submissions (a_backend A)) S fld)"
  "moves calm view (findMany (AuditLogs (a_backend A)) L le4 n lm)"
  "moves calm view (countDocuments (AuditLogs (a_backend A)) L)"
  "moves calm view (now (a_backend A))"
  by (rule calm_keeps, rule users.reads_keep problems.reads_keep testCases.reads_keep
      submissions.reads_keep auditLogs.reads_keep now_keeps)+

lemma calm_accounts [calm_intros]:
  "moves calm view (argonHash (a_auth A) pw)" "moves calm view (argonVerify (a_auth A) h pw)"
  "moves calm view (jwtSign (a_auth A) p k)" "moves calm view (authenticate (a_backend A) (a_auth A) hdr)"
  "moves calm view (verifyToken (a_auth A) tok)" "moves calm view (find_subject (a_backend A) (a_auth A) sub)"
  by (rule calm_keeps, rule hash_keeps check_keeps sign_keeps keeps_authenticate keeps_verifyToken keeps_find_subject)+

lemma calm_outside [calm_intros]:
  "moves calm view (a_limited A n k)" "moves calm view (a_queueMetrics A)"
  "moves calm view (r_connect (a_redis A))" "moves calm view (r_keys (a_redis A) p)"
  "moves calm view (r_mget (a_redis A) ks)" "moves calm view (enqueueSubmission (a_backend A) j t)"
  by (rule calm_keeps, rule limited_keeps queueMetrics_keeps registry_keeps keeps_enqueue)+

lemma calm_creates [calm_intros]:
  "moves calm view (create_valid (Users (a_backend A)) ok mk)"
  "moves calm view (create_valid (Submissions (a_backend A)) ok' mk')"
proof -
  have "moves calm view (create (Users (a_backend A)) mk)"
  proof (rule movesI)
    fix s r s'
    assume "create (Users (a_backend A)) mk s = (r, s')"
    then show "calm (view s) (view s')"
      by (cases r) (auto dest: users.create_ok users.create_err)
  qed
  moreover have "moves calm view (create (Submissions (a_backend A)) mk')"
  proof (rule movesI)
    fix s r s'
    assume "create (Submissions (a_backend A)) mk' s = (r, s')"
    then show "calm (view s) (view s')"
      by (cases r) (auto dest: submissions.create_ok submissions.create_err)
  qed
  ultimately show "moves calm view (create_valid (Users (a_backend A)) ok mk)"
    "moves calm view (create_valid (Submissions (a_backend A)) ok' mk')"
    by (auto simp: create_valid_def intro: calm_intros)
qed

lemma calm_save [calm_intros]: "moves calm view (saveSubmission (a_backend A) old new)"
proof (rule movesI)
  fix s r s'
  assume "saveSubmission (a_backend A) old new s = (r, s')"
  from submissions.save_view_cases [OF this [unfolded saveSubmission_def]]
  show "calm (view s) (view s')" by auto
qed

lemma calm_register: "moves calm view (register (a_backend A) (a_auth A) n e pw)"
  unfolding register_def by (intro calm_intros)

lemma calm_login: "moves calm view (login (a_backend A) (a_auth A) e pw)"
  unfolding login_def generateToken_def by (intro calm_intros)

lemma calm_optional: "moves calm view (optionalAuthenticate (a_backend A) (a_auth A) hdr)"
  unfolding optionalAuthenticate_def by (intro calm_intros)

lemma calm_user_service:
  "moves calm view (getUserStats (a_backend A) u)" "moves calm view (getUserSolvedProblems (a_backend A) u q)"
  "moves calm view (getUserActivity (a_backend A) K u q)"
  unfolding getUserStats_def countSolved_def getUserSolvedProblems_def getUserActivity_def
  by (intro calm_intros)+

lemma calm_readiness: "moves calm view (getProblemReadiness (a_backend A) i)"
  unfolding getProblemReadiness_def by (intro calm_intros)

lemma calm_problem_reads:
  "moves calm view (listProblems (a_backend A) rx q u)" "moves calm view (getProblemById (a_backend A) i)"
  unfolding listProblems_def getProblemById_def by (intro calm_intros calm_readiness)+

lemma calm_test_reads:
  "moves calm view (getTestCasesForProblem (a_backend A) i r)" "moves calm view (getTestCaseById (a_backend A) i r)"
  unfolding getTestCasesForProblem_def getTestCaseById_def by (intro calm_intros)+

lemma calm_submission_service:
  "moves calm view (createSubmission (a_backend A) prob l src u tp)"
  "moves calm view (getMySubmissions (a_backend A) cast u q)" "moves calm view (getSubmissionById (a_backend A) i me)"
  unfolding createSubmission_def queueSubmission_def getMySubmissions_def getSubmissionById_def
  by (intro calm_intros)+

lemma calm_admin_reads:
  "moves calm view (getAuditLogs (a_backend A) qv q)" "moves calm view (getActiveWorkers (a_redis A) P b)"
  unfolding getAuditLogs_def getActiveWorkers_def fetchWorkers_def by (intro calm_intros)+

lemma calm_as_id [calm_intros]: "moves calm view (as_id A v)" "moves calm view (signed_in c)"
  unfolding as_id_def signed_in_def by (intro calm_intros)+

lemmas calm_services = calm_register calm_login calm_optional calm_user_service calm_problem_reads
  calm_test_reads calm_submission_service calm_admin_reads

end

lemma serve_answers: "\<exists>resp w'. serve A rq w = (Inr resp, w')"
  by (auto simp: serve_def try_catch_def split: option.splits prod.splits sum.splits)

section \<open>The route table\<close>

definition changes_catalogue :: "operation \<Rightarrow> bool" where
  "changes_catalogue oper \<longleftrightarrow> oper \<in> {Create_problem, Update_problem, Deactivate_problem,
     Create_test, Update_test, Deactivate_test}"

definition for_admins :: "operation \<Rightarrow> bool" where
  "for_admins oper \<longleftrightarrow> changes_catalogue oper \<or> oper \<in> {List_audit_logs, Get_queue_metrics, List_workers}"

definition for_everyone :: "operation \<Rightarrow> bool" where
  "for_everyone oper \<longleftrightarrow> oper \<in> {Register_user, Login_user, List_problems, Get_problem}"

lemma find_route_mem: "find_route rs m p = Some (ps, gs, oper) \<Longrightarrow> \<exists>pat. (m, pat, gs, oper) \<in> set rs"
proof (induction rs)
  case (Cons r rs)
  then show ?case by (cases r) (auto split: if_splits option.splits)
qed simp

lemmas route_tables = routes_def auth_routes_def user_routes_def problem_routes_def problem_test_routes_def
  test_routes_def submission_routes_def admin_routes_def Let_def

lemma admin_route:
  "find_route (routes cast) m p = Some (ps, gs, oper) \<Longrightarrow> for_admins oper \<Longrightarrow>
   \<exists>gs'. gs = Authenticate # Authorize [ADMIN] # gs'"
  by (drule find_route_mem) (auto simp: route_tables for_admins_def changes_catalogue_def)

lemma private_route:
  "find_route (routes cast) m p = Some (ps, gs, oper) \<Longrightarrow> \<not> for_everyone oper \<Longrightarrow> \<exists>gs'. gs = Authenticate # gs'"
  by (drule find_route_mem) (auto simp: route_tables for_everyone_def)

context api_host
begin

lemma calm_guard: "moves calm view (run_guard A rq g c)"
  by (cases g) (auto intro!: calm_intros calm_optional)

lemma calm_guards: "moves calm view (run_guards A rq gs c)"
proof (induction gs arbitrary: c)
  case Nil
  show ?case unfolding run_guards.simps by (intro calm_intros)
next
  case (Cons g gs)
  then show ?case by (auto intro!: calm_intros calm_guard)
qed

lemma calm_handle: "\<not> changes_catalogue oper \<Longrightarrow> moves calm view (handle A rq c oper)"
  by (cases oper)
    (simp_all add: changes_catalogue_def handle_def auth_controller_def user_controller_def problem_controller_def
      test_controller_def submission_controller_def admin_controller_def calm_intros calm_services)

lemma admin_guards:
  assumes "run_guards A rq (Authenticate # Authorize [ADMIN] # gs) c w = (Inr (Inr c'), w')"
  shows "\<exists>u w1. authenticate (a_backend A) (a_auth A) (rq_authorization rq) w = (Inr u, w1) \<and> u_role u = ADMIN"
  using assms by (auto elim!: await_cases simp: authorize_def split: if_splits)

lemma serve_catalogue:
  assumes run: "serve A rq w = (r, w')"
  shows "calm (view w) (view w') \<or>
    (\<exists>u w1. authenticate (a_backend A) (a_auth A) (rq_authorization rq) w = (Inr u, w1) \<and> u_role u = ADMIN)"
proof (cases "find_route (routes (castId (a_auth A))) (rq_method rq) (rq_path rq)")
  case None
  with run show ?thesis by (simp add: serve_def)
next
  case (Some found)
  obtain ps gs oper where f: "found = (ps, gs, oper)" by (cases found)
  let ?c = "\<lparr>cx_user = None, cx_params = ps, cx_body = rq_body rq\<rparr>"
  have run': "try_catch (await (run_guards A rq gs ?c) (\<lambda>x. case x of Inl r \<Rightarrow> ret r | Inr c \<Rightarrow> handle A rq c oper))
      (\<lambda>e. ret (errorHandler (rq_id rq) e)) w = (r, w')"
    using run Some f by (simp add: serve_def)
  show ?thesis
  proof (cases "changes_catalogue oper")
    case False
    then have "moves calm view (try_catch
        (await (run_guards A rq gs ?c) (\<lambda>x. case x of Inl r \<Rightarrow> ret r | Inr c \<Rightarrow> handle A rq c oper))
        (\<lambda>e. ret (errorHandler (rq_id rq) e)))"
      by (intro calm_intros calm_guards calm_handle)
    from movesD [OF this run'] show ?thesis by blast
  next
    case True
    then obtain gs' where gs: "gs = Authenticate # Authorize [ADMIN] # gs'"
      using admin_route [OF Some [unfolded f]] by (auto simp: for_admins_def)
    obtain x w1 where g: "run_guards A rq gs ?c w = (x, w1)" by fastforce
    have v: "calm (view w) (view w1)" by (rule movesD [OF calm_guards g])
    show ?thesis
    proof (cases "\<exists>c'. x = Inr (Inr c')")
      case True
      with g gs admin_guards show ?thesis by blast
    next
      case False
      then have "w' = w1" using run' g
        by (cases x) (auto simp: try_catch_def await_def split: sum.splits)
      with v show ?thesis by simp
    qed
  qed
qed

end

section \<open>Properties\<close>

text \<open>C8: only administrators change the catalogue: if serving a request changes a problem, a test
  case or the audit log, the request carried a token that this server signed for an account which
  is stored now, active, and an administrator, whatever the request's method, path and body are.\<close>

theorem catalogue_guarded:
  assumes "api_host A view" and "serve A rq w = (r, w')"
  shows "calm (view w) (view w') \<or>
    (\<exists>a token decoded i u. rq_authorization rq = Some a \<and> bearer_token a = Some token \<and>
       carries (a_auth A) token decoded \<and> castId (a_auth A) (field decoded ''sub'') = Some i \<and>
       db_users (view w) i = Some u \<and> u_isActive u \<and> u_role u = ADMIN)"
  using api_host.serve_catalogue [OF assms]
    credentials.authenticate_ok [OF api_host.axioms(1) [OF assms(1)]] by blast

text \<open>C9: every request is answered, and the two refusals come before anything else: without an
  authorization header every route but registration, login and the two public problem pages
  answers 401, and an administrators' route answers 403 to an authenticated user who is none; the
  state is that after the guards.\<close>

theorem refusals:
  "(\<exists>resp w'. serve A rq w = (Inr resp, w')) \<and>
   (\<forall>ps gs oper. find_route (routes (castId (a_auth A))) (rq_method rq) (rq_path rq) = Some (ps, gs, oper) \<longrightarrow>
     (\<not> for_everyone oper \<and> rq_authorization rq = None \<longrightarrow>
        (\<exists>resp. serve A rq w = (Inr resp, w) \<and> rs_status resp = 401)) \<and>
     (\<forall>u w1. for_admins oper \<and> authenticate (a_backend A) (a_auth A) (rq_authorization rq) w = (Inr u, w1) \<and>
        u_role u \<noteq> ADMIN \<longrightarrow> (\<exists>resp. serve A rq w = (Inr resp, w1) \<and> rs_status resp = 403)))"
proof (intro conjI allI impI)
  show "\<exists>resp w'. serve A rq w = (Inr resp, w')" by (rule serve_answers)
next
  fix ps gs oper
  assume found: "find_route (routes (castId (a_auth A))) (rq_method rq) (rq_path rq) = Some (ps, gs, oper)"
    and h: "\<not> for_everyone oper \<and> rq_authorization rq = None"
  from private_route [OF found] h obtain gs' where "gs = Authenticate # gs'" by blast
  with found h show "\<exists>resp. serve A rq w = (Inr resp, w) \<and> rs_status resp = 401"
    by (simp add: serve_def try_catch_def await_def authenticate_def errorHandler_def error_status_def
        own_status_def AppError_def js_error_def)
next
  fix ps gs oper u w1
  assume found: "find_route (routes (castId (a_auth A))) (rq_method rq) (rq_path rq) = Some (ps, gs, oper)"
    and h: "for_admins oper \<and> authenticate (a_backend A) (a_auth A) (rq_authorization rq) w = (Inr u, w1) \<and> u_role u \<noteq> ADMIN"
  from admin_route [OF found] h obtain gs' where "gs = Authenticate # Authorize [ADMIN] # gs'" by blast
  with found h show "\<exists>resp. serve A rq w = (Inr resp, w1) \<and> rs_status resp = 403"
    by (simp add: serve_def try_catch_def await_def authorize_def errorHandler_def error_status_def
        own_status_def AppError_def js_error_def)
qed

section \<open>The API in memory\<close>

definition mem_api :: "world api" where
  "mem_api = \<lparr>a_backend = mem_backend accept_all True, a_auth = plain_auth,
     a_redis = \<lparr>r_connect = ret (), r_get = (\<lambda>k. ret None), r_set = (\<lambda>k v t. ret ()), r_del = (\<lambda>k. ret ()),
       r_keys = (\<lambda>p. ret []), r_mget = (\<lambda>ks. ret [])\<rparr>,
     a_process = \<lparr>nowIso = ret ''t'', dateOf = (\<lambda>v. None), pid = 1, hostname = ''h''\<rparr>,
     a_calendar = \<lparr>dayText = (\<lambda>t. ''d''), daysBefore = (\<lambda>n t. t), yearBefore = (\<lambda>t. t)\<rparr>,
     a_regex = (\<lambda>p s. js_includes s p), a_queryValue = (\<lambda>k v. Inr (\<lambda>s. JStr s = v)),
     a_limited = (\<lambda>n k. ret False), a_queueMetrics = ret None, a_workersTimeOut = False\<rparr>"

lemma mem_api_simps [simp]:
  "a_backend mem_api = mem_backend accept_all True" "a_auth mem_api = plain_auth"
  "a_limited mem_api n k = ret False" "a_queueMetrics mem_api = ret None"
  "r_connect (a_redis mem_api) = ret ()" "r_keys (a_redis mem_api) p = ret []" "r_mget (a_redis mem_api) ks = ret []"
  by (simp_all add: mem_api_def)

interpretation mem_serves: api_host mem_api world_view
proof (intro api_host.intro api_host_axioms.intro)
  show "credentials (a_backend mem_api) world_view (a_auth mem_api)"
    using plain.credentials_axioms by simp
qed simp_all

definition anonymous_delete :: request where
  "anonymous_delete = \<lparr>rq_method = ''DELETE'', rq_path = [''problems'', ''p''], rq_authorization = None,
     rq_query = JObj [], rq_body = JObj [], rq_ip = ''::1'', rq_id = ''r1'', rq_traceparent = None\<rparr>"

lemma delete_route:
  "\<exists>ps gs. find_route (routes (castId plain_auth)) ''DELETE'' [''problems'', ''p''] = Some (ps, gs, Deactivate_problem)"
proof -
  have "js_lower ''problems'' = ''problems''" "js_lower ''p'' = ''p''" by code_simp+
  then show ?thesis by (simp add: route_tables)
qed

theorem catalogue_guarded_witness:
  "\<exists>r w'. serve mem_api anonymous_delete full_world = (r, w') \<and> calm (world_view full_world) (world_view w')"
proof -
  obtain r w' where run: "serve mem_api anonymous_delete full_world = (r, w')" by fastforce
  from catalogue_guarded [OF mem_serves.api_host_axioms run] run show ?thesis
    by (auto simp: anonymous_delete_def)
qed

theorem refusals_witness:
  "\<exists>resp. serve mem_api anonymous_delete full_world = (Inr resp, full_world) \<and> rs_status resp = 401"
proof -
  obtain ps gs where "find_route (routes (castId (a_auth mem_api))) (rq_method anonymous_delete) (rq_path anonymous_delete) =
      Some (ps, gs, Deactivate_problem)"
    using delete_route by (auto simp: anonymous_delete_def)
  moreover have "\<not> for_everyone Deactivate_problem \<and> rq_authorization anonymous_delete = None"
    by (simp add: for_everyone_def anonymous_delete_def)
  ultimately show ?thesis using refusals [of mem_api anonymous_delete full_world] by blast
qed

end
