(* ===== verification/Config.thy ===== *)
theory Config
  imports Pagination
begin

text \<open>
  Configuration and connections: \<open>config/env.js\<close>, \<open>config/database.js\<close> and the options of
  \<open>config/redis.js\<close>. \<open>process.env\<close> is a map, the host name, the process id and random suffixes are
  arguments, and \<open>Number(text)\<close> is a parameter. The database driver is a parameter.
\<close>

section \<open>env.js\<close>

type_synonym environment = "string \<rightharpoonup> string"

text \<open>\<open>process.env.X || d\<close>.\<close>

definition env_text :: "environment \<Rightarrow> string \<Rightarrow> string \<Rightarrow> string" where
  "env_text E k d = (case E k of Some s \<Rightarrow> if s = [] then d else s | None \<Rightarrow> d)"

definition env_set :: "environment \<Rightarrow> string \<Rightarrow> bool" where
  "env_set E k \<longleftrightarrow> env_text E k [] \<noteq> []"

definition node_env :: "environment \<Rightarrow> string" where
  "node_env E = env_text E ''NODE_ENV'' ''development''"

definition missing_settings :: "environment \<Rightarrow> string list" where
  "missing_settings E =
     (if node_env E = ''production'' then
        (if \<not> env_set E ''JWT_SECRET'' then [''JWT_SECRET is required in production'']
         else if length (env_text E ''JWT_SECRET'' []) < 32 then [''JWT_SECRET must be at least 32 characters in production'']
         else []) @
        (if env_set E ''MONGODB_URI'' then [] else [''MONGODB_URI is required in production'']) @
        (if env_set E ''REDIS_HOST'' \<or> env_set E ''REDIS_URL'' then []
         else [''REDIS_HOST or REDIS_URL is required in production''])
      else [])"

definition validateEnv :: "environment \<Rightarrow> err + unit" where
  "validateEnv E =
     (if missing_settings E = [] then Inr ()
      else Inl (plain_error (''[Config Error] Environment validation failed:'' @ [CHR 0x0A] @ '' - '' @
        js_join ([CHR 0x0A] @ '' - '') (missing_settings E))))"

definition parsePositiveInt :: "(string \<Rightarrow> jsnum) \<Rightarrow> string option \<Rightarrow> int \<Rightarrow> int" where
  "parsePositiveInt toNumber val defaultVal = (case val of
     None \<Rightarrow> defaultVal
   | Some s \<Rightarrow>
       if js_trim s = [] then defaultVal
       else case toNumber s of
         Finite r \<Rightarrow> if \<lfloor>r\<rfloor> = \<lceil>r\<rceil> \<and> 0 < r then \<lfloor>r\<rfloor> else defaultVal
       | _ \<Rightarrow> defaultVal)"

definition explicit_id :: "jsval \<Rightarrow> string" where
  "explicit_id v = (case v of JStr s \<Rightarrow> js_trim s | _ \<Rightarrow> [])"

definition resolveApiInstanceId :: "environment \<Rightarrow> string \<Rightarrow> nat \<Rightarrow> jsval \<Rightarrow> string" where
  "resolveApiInstanceId E host process_id explicitId =
     (if explicit_id explicitId \<noteq> [] then explicit_id explicitId
      else if js_trim (env_text E ''API_INSTANCE_ID'' []) \<noteq> [] then js_trim (env_text E ''API_INSTANCE_ID'' [])
      else ''api-'' @ host @ ''-'' @ show_int (int process_id))"

definition resolveWorkerId :: "environment \<Rightarrow> string \<Rightarrow> nat \<Rightarrow> string \<Rightarrow> jsval \<Rightarrow> string" where
  "resolveWorkerId E host process_id randomSuffix explicitId =
     (if explicit_id explicitId \<noteq> [] then explicit_id explicitId
      else if js_trim (env_text E ''WORKER_ID'' []) \<noteq> [] then js_trim (env_text E ''WORKER_ID'' [])
      else ''worker-'' @ host @ ''-'' @ show_int (int process_id) @ ''-'' @ randomSuffix)"

record configuration =
  cf_env :: string
  cf_port :: int
  cf_mongoUri :: string
  cf_replicaSet :: "string option"
  cf_readPreference :: "string option"
  cf_retryWrites :: "bool option"
  cf_redisHost :: string
  cf_redisPort :: int
  cf_redisPassword :: "string option"
  cf_redisUrl :: "string option"
  cf_workerId :: "string option"
  cf_workerConcurrency :: int
  cf_heartbeatIntervalMs :: int
  cf_shutdownTimeoutMs :: int
  cf_staleTimeoutMs :: int
  cf_jwtSecret :: string
  cf_jwtExpiresIn :: string
  cf_corsOrigin :: string
  cf_logLevel :: string
  cf_executionMode :: string
  cf_sandboxImage :: string
  cf_registerMax :: int
  cf_loginMax :: int
  cf_submissionMax :: int
  cf_workspaceBase :: string

definition env_trimmed :: "environment \<Rightarrow> string \<Rightarrow> string option" where
  "env_trimmed E k = (let s = js_trim (env_text E k []) in if s = [] then None else Some s)"

definition env_optional :: "environment \<Rightarrow> string \<Rightarrow> string option" where
  "env_optional E k = (if env_set E k then E k else None)"

definition env_int :: "environment \<Rightarrow> string \<Rightarrow> int \<Rightarrow> int" where
  "env_int E k d = int_or (case E k of Some s \<Rightarrow> JStr s | None \<Rightarrow> JUndefined) d"

definition load_config :: "(string \<Rightarrow> jsnum) \<Rightarrow> environment \<Rightarrow> configuration" where
  "load_config toNumber E =
     \<lparr>cf_env = node_env E,
      cf_port = env_int E ''PORT'' 5000,
      cf_mongoUri = env_text E ''MONGODB_URI'' ''mongodb://localhost:27017/codearena'',
      cf_replicaSet = env_trimmed E ''MONGODB_REPLICA_SET'',
      cf_readPreference = env_trimmed E ''MONGODB_READ_PREFERENCE'',
      cf_retryWrites = map_option (\<lambda>s. s = ''true'') (E ''MONGODB_RETRY_WRITES''),
      cf_redisHost = env_text E ''REDIS_HOST'' ''localhost'',
      cf_redisPort = env_int E ''REDIS_PORT'' 6379,
      cf_redisPassword = env_optional E ''REDIS_PASSWORD'',
      cf_redisUrl = env_optional E ''REDIS_URL'',
      cf_workerId = env_trimmed E ''WORKER_ID'',
      cf_workerConcurrency = parsePositiveInt toNumber (E ''WORKER_CONCURRENCY'') 2,
      cf_heartbeatIntervalMs = parsePositiveInt toNumber (E ''WORKER_HEARTBEAT_INTERVAL_MS'') 5000,
      cf_shutdownTimeoutMs = parsePositiveInt toNumber (E ''WORKER_GRACEFUL_SHUTDOWN_TIMEOUT_MS'') 10000,
      cf_staleTimeoutMs = parsePositiveInt toNumber (E ''WORKER_STALE_TIMEOUT_MS'') 30000,
      cf_jwtSecret = env_text E ''JWT_SECRET''
        (if node_env E = ''test'' then ''test-jwt-secret-key'' else ''codearena-dev-local-secret-key-32charsmin!''),
      cf_jwtExpiresIn = env_text E ''JWT_EXPIRES_IN'' ''1d'',
      cf_corsOrigin = env_text E ''CORS_ORIGIN'' ''http://localhost:5173,http://127.0.0.1:5173,http://localhost:3000'',
      cf_logLevel = env_text E ''LOG_LEVEL'' (if node_env E = ''production'' then ''info'' else ''debug''),
      cf_executionMode = env_text E ''EXECUTION_MODE'' ''docker'',
      cf_sandboxImage = env_text E ''CODEARENA_SANDBOX_IMAGE'' ''codearena-sandbox:v1'',
      cf_registerMax = env_int E ''RATE_LIMIT_REGISTER_MAX'' 5,
      cf_loginMax = env_int E ''RATE_LIMIT_LOGIN_MAX'' 10,
      cf_submissionMax = env_int E ''RATE_LIMIT_SUBMISSION_MAX'' 10,
      cf_workspaceBase = env_text E ''CODEARENA_WORKSPACE_BASE'' ''/tmp/codearena-workspaces''\<rparr>"

text \<open>Loading the module validates the environment, except under test.\<close>

definition require_config :: "(string \<Rightarrow> jsnum) \<Rightarrow> environment \<Rightarrow> err + configuration" where
  "require_config toNumber E =
     (if node_env E = ''test'' then Inr (load_config toNumber E)
      else case validateEnv E of Inl e \<Rightarrow> Inl e | Inr _ \<Rightarrow> Inr (load_config toNumber E))"

section \<open>database.js\<close>

text \<open>The overrides of a call, and the options handed to the driver.\<close>

record mongo_overrides =
  ov_uri :: "string option"
  ov_replicaSet :: "string option"
  ov_readPreference :: "string option"
  ov_retryWrites :: "bool option"

record mongo_options =
  mo_serverSelectionTimeoutMS :: nat
  mo_replicaSet :: "string option"
  mo_readPreference :: "string option"
  mo_retryWrites :: "bool option"

definition first_text :: "string option \<Rightarrow> string option \<Rightarrow> string option" where
  "first_text a b = (if a \<noteq> None \<and> a \<noteq> Some [] then a else if b \<noteq> Some [] then b else None)"

text \<open>
  The managed and the standalone branch of the code are the same; the overrides that are spread
  into the options come first.
\<close>

definition getMongooseOptions :: "configuration \<Rightarrow> mongo_overrides \<Rightarrow> mongo_options" where
  "getMongooseOptions cfg ov =
     (let explicitReplicaSet = first_text (ov_replicaSet ov) (cf_replicaSet cfg);
          explicitReadPreference = first_text (ov_readPreference ov) (cf_readPreference cfg);
          explicitRetryWrites = (if ov_retryWrites ov \<noteq> None then ov_retryWrites ov else cf_retryWrites cfg) in
      if explicitReplicaSet \<noteq> None then
        \<lparr>mo_serverSelectionTimeoutMS = 5000, mo_replicaSet = explicitReplicaSet,
         mo_readPreference = Some (default_to ''primaryPreferred'' explicitReadPreference),
         mo_retryWrites = Some (default_to True explicitRetryWrites)\<rparr>
      else
        \<lparr>mo_serverSelectionTimeoutMS = 5000, mo_replicaSet = ov_replicaSet ov,
         mo_readPreference = (if explicitReadPreference \<noteq> None then explicitReadPreference else ov_readPreference ov),
         mo_retryWrites = explicitRetryWrites\<rparr>)"

text \<open>The driver and the timer; \<open>m_wait\<close> is the \<open>setTimeout\<close> promise, which does not reject.\<close>

record 'w mongo_driver =
  m_connect :: "string \<Rightarrow> mongo_options \<Rightarrow> ('w, unit) io"
  m_wait :: "nat \<Rightarrow> 'w \<Rightarrow> 'w"
  m_disconnect :: "('w, unit) io"
  m_readyState :: "'w \<Rightarrow> nat"

text \<open>The loop, after \<open>attempt\<close> attempts; \<open>False\<close> is leaving it without a connection.\<close>

function connect_loop ::
  "'w mongo_driver \<Rightarrow> string \<Rightarrow> mongo_options \<Rightarrow> nat \<Rightarrow> nat \<Rightarrow> nat \<Rightarrow> ('w, bool) io" where
  "connect_loop D uri opts maxRetries delayMs attempt w =
     (if maxRetries \<le> attempt then (Inr False, w)
      else case m_connect D uri opts w of
        (Inr _, w1) \<Rightarrow> (Inr True, w1)
      | (Inl e, w1) \<Rightarrow>
          if maxRetries \<le> attempt + 1 then (Inl e, w1)
          else connect_loop D uri opts maxRetries delayMs (attempt + 1) (m_wait D (delayMs * 2 ^ attempt) w1))"
  by pat_completeness auto
termination by (relation "measure (\<lambda>(D, uri, opts, maxRetries, delayMs, attempt, w). maxRetries - attempt)") auto

definition connectDB ::
  "'w mongo_driver \<Rightarrow> configuration \<Rightarrow> nat \<Rightarrow> nat \<Rightarrow> mongo_overrides \<Rightarrow> ('w, bool) io" where
  "connectDB D cfg retries delayMs ov =
     connect_loop D (cf_mongoUri cfg) (getMongooseOptions cfg ov)
       (if cf_env cfg = ''test'' then 1 else retries) delayMs 0"

definition disconnectDB :: "'w mongo_driver \<Rightarrow> ('w, unit) io" where
  "disconnectDB D = try_catch (m_disconnect D) (\<lambda>error. ret ())"

definition isConnected :: "'w mongo_driver \<Rightarrow> 'w \<Rightarrow> bool" where
  "isConnected D w \<longleftrightarrow> m_readyState D w = 1"

section \<open>redis.js: the delay between reconnections\<close>

definition retryStrategy :: "nat \<Rightarrow> nat" where
  "retryStrategy n = min (n * 100) 3000"

section \<open>Facts\<close>

lemma parsePositiveInt_pos: "0 < d \<Longrightarrow> 0 < parsePositiveInt toNumber v d"
  by (auto simp: parsePositiveInt_def split: option.split jsnum.split)

lemma env_set_iff: "env_set E k \<longleftrightarrow> (\<exists>s. E k = Some s \<and> s \<noteq> [])"
  by (auto simp: env_set_def env_text_def split: option.split)

lemma env_text_given: "E k = Some s \<Longrightarrow> s \<noteq> [] \<Longrightarrow> env_text E k d = s"
  by (simp add: env_text_def)

text \<open>What production requires of its environment.\<close>

definition production_ready :: "environment \<Rightarrow> bool" where
  "production_ready E \<longleftrightarrow> (\<exists>s. E ''JWT_SECRET'' = Some s \<and> 32 \<le> length s) \<and> (\<exists>u. E ''MONGODB_URI'' = Some u \<and> u \<noteq> []) \<and>
     ((\<exists>h. E ''REDIS_HOST'' = Some h \<and> h \<noteq> []) \<or> (\<exists>u. E ''REDIS_URL'' = Some u \<and> u \<noteq> []))"

lemma missing_settings_none:
  assumes "node_env E = ''production''"
  shows "missing_settings E = [] \<longleftrightarrow> production_ready E"
proof -
  have "env_set E ''JWT_SECRET'' \<and> 32 \<le> length (env_text E ''JWT_SECRET'' []) \<longleftrightarrow> (\<exists>s. E ''JWT_SECRET'' = Some s \<and> 32 \<le> length s)"
    by (auto simp: env_set_iff env_text_def)
  then show ?thesis using assms by (auto simp: missing_settings_def production_ready_def env_set_iff [symmetric])
qed

text \<open>C29: production runs exactly on a complete environment, and never on a default. With
  \<open>NODE_ENV=production\<close> the configuration loads exactly if \<open>JWT_SECRET\<close> is given with at least 32
  characters, \<open>MONGODB_URI\<close> is given, and \<open>REDIS_HOST\<close> or \<open>REDIS_URL\<close> is; it then signs tokens
  with that secret and talks to that database and that Redis. Any text of that length is accepted as a
  secret, also the one that \<open>.env.example\<close> publishes: placeholders are not recognised. In every
  environment the concurrency, the heartbeat interval and the shutdown and stale time-outs of the worker
  are positive whatever the variables hold.\<close>

theorem require_config_sound:
  assumes "node_env E = ''production''"
  shows "(require_config toNumber E = Inr (load_config toNumber E) \<longleftrightarrow>
      (\<exists>s. E ''JWT_SECRET'' = Some s \<and> 32 \<le> length s) \<and> (\<exists>u. E ''MONGODB_URI'' = Some u \<and> u \<noteq> []) \<and>
      ((\<exists>h. E ''REDIS_HOST'' = Some h \<and> h \<noteq> []) \<or> (\<exists>u. E ''REDIS_URL'' = Some u \<and> u \<noteq> []))) \<and>
    (\<forall>cfg. require_config toNumber E = Inr cfg \<longrightarrow> cf_env cfg = ''production'' \<and>
      E ''JWT_SECRET'' = Some (cf_jwtSecret cfg) \<and> 32 \<le> length (cf_jwtSecret cfg) \<and>
      E ''MONGODB_URI'' = Some (cf_mongoUri cfg) \<and>
      (E ''REDIS_HOST'' = Some (cf_redisHost cfg) \<or> cf_redisUrl cfg = E ''REDIS_URL'' \<and> cf_redisUrl cfg \<noteq> None) \<and>
      (\<exists>cfg'. require_config toNumber (E(''JWT_SECRET'' \<mapsto> ''codearena-dev-local-secret-key-32charsmin!'')) = Inr cfg' \<and>
        cf_jwtSecret cfg' = ''codearena-dev-local-secret-key-32charsmin!'')) \<and>
    (\<forall>E' cfg. require_config toNumber E' = Inr cfg \<longrightarrow> 0 < cf_workerConcurrency cfg \<and> 0 < cf_heartbeatIntervalMs cfg \<and>
      0 < cf_shutdownTimeoutMs cfg \<and> 0 < cf_staleTimeoutMs cfg)"
proof -
  have loads: "require_config toNumber E1 = Inr cfg \<longleftrightarrow> cfg = load_config toNumber E1 \<and> production_ready E1"
    if "node_env E1 = ''production''" for E1 cfg
    using that missing_settings_none [OF that] by (auto simp: require_config_def validateEnv_def)
  have given: "cf_env cfg = ''production'' \<and>
      E ''JWT_SECRET'' = Some (cf_jwtSecret cfg) \<and> 32 \<le> length (cf_jwtSecret cfg) \<and> E ''MONGODB_URI'' = Some (cf_mongoUri cfg) \<and>
      (E ''REDIS_HOST'' = Some (cf_redisHost cfg) \<or> cf_redisUrl cfg = E ''REDIS_URL'' \<and> cf_redisUrl cfg \<noteq> None)"
    if cfg: "cfg = load_config toNumber E" and ready: "production_ready E" for cfg
  proof -
    from ready obtain s u where s: "E ''JWT_SECRET'' = Some s" "32 \<le> length s" and u: "E ''MONGODB_URI'' = Some u" "u \<noteq> []"
      unfolding production_ready_def by blast
    have "s \<noteq> []" using s(2) by auto
    then have "cf_jwtSecret cfg = s" "cf_mongoUri cfg = u" "cf_env cfg = ''production''"
      using s u assms by (simp_all add: cfg load_config_def env_text_given)
    moreover have "E ''REDIS_HOST'' = Some (cf_redisHost cfg) \<or> cf_redisUrl cfg = E ''REDIS_URL'' \<and> cf_redisUrl cfg \<noteq> None"
    proof (cases "\<exists>h. E ''REDIS_HOST'' = Some h \<and> h \<noteq> []")
      case True
      then show ?thesis by (auto simp: cfg load_config_def env_text_given)
    next
      case False
      then obtain r where "E ''REDIS_URL'' = Some r" "r \<noteq> []" using ready unfolding production_ready_def by blast
      then show ?thesis by (simp add: cfg load_config_def env_optional_def env_set_iff)
    qed
    ultimately show ?thesis using s u by simp
  qed
  have published: "\<exists>cfg'. require_config toNumber (E(''JWT_SECRET'' \<mapsto> ''codearena-dev-local-secret-key-32charsmin!'')) = Inr cfg' \<and>
        cf_jwtSecret cfg' = ''codearena-dev-local-secret-key-32charsmin!''" if "production_ready E"
  proof -
    let ?E = "E(''JWT_SECRET'' \<mapsto> ''codearena-dev-local-secret-key-32charsmin!'')"
    have "node_env ?E = ''production''" using assms by (simp add: node_env_def env_text_def)
    moreover have "production_ready ?E" using that by (simp add: production_ready_def)
    ultimately have "require_config toNumber ?E = Inr (load_config toNumber ?E)" using loads by blast
    then show ?thesis by (simp add: load_config_def env_text_def)
  qed
  have positive: "0 < cf_workerConcurrency cfg \<and> 0 < cf_heartbeatIntervalMs cfg \<and> 0 < cf_shutdownTimeoutMs cfg \<and>
      0 < cf_staleTimeoutMs cfg" if "require_config toNumber E' = Inr cfg" for E' cfg
  proof -
    have "cfg = load_config toNumber E'" using that by (auto simp: require_config_def split: if_splits sum.splits)
    then show ?thesis by (simp add: load_config_def parsePositiveInt_pos)
  qed
  show ?thesis
    using loads [OF assms] given published positive unfolding production_ready_def by blast
qed

definition production_environment :: environment where
  "production_environment = [''NODE_ENV'' \<mapsto> ''production'', ''JWT_SECRET'' \<mapsto> replicate 32 (CHR ''k''),
     ''MONGODB_URI'' \<mapsto> ''mongodb://db/x'', ''REDIS_HOST'' \<mapsto> ''redis'', ''WORKER_CONCURRENCY'' \<mapsto> ''-3'']"

theorem require_config_sound_witness:
  "\<exists>cfg. require_config (\<lambda>s. NaN) production_environment = Inr cfg \<and> cf_env cfg = ''production'' \<and>
     cf_jwtSecret cfg = replicate 32 (CHR ''k'') \<and> 0 < cf_workerConcurrency cfg"
proof -
  have "require_config (\<lambda>s. NaN) production_environment = Inr (load_config (\<lambda>s. NaN) production_environment)"
    by (simp add: require_config_def validateEnv_def missing_settings_def env_set_def env_text_def node_env_def
        production_environment_def)
  then obtain cfg where run: "require_config (\<lambda>s. NaN) production_environment = Inr cfg"
    and e: "cf_env cfg = ''production''"
    by (simp add: load_config_def node_env_def env_text_def production_environment_def)
  have "node_env production_environment = ''production''"
    by (simp add: node_env_def env_text_def production_environment_def)
  from require_config_sound [OF this] run have
    "production_environment ''JWT_SECRET'' = Some (cf_jwtSecret cfg)" "0 < cf_workerConcurrency cfg" by blast+
  with run e show ?thesis by (auto simp: production_environment_def)
qed

section \<open>The schedule of the connection attempts\<close>

text \<open>A driver whose first attempts are refused, with a record of the attempts and the pauses.\<close>

record dial =
  dl_refusals :: nat
  dl_attempts :: nat
  dl_waits :: "nat list"

definition refused :: err where
  "refused = js_error ''MongooseServerSelectionError'' ''connect ECONNREFUSED''"

definition dial_driver :: "dial mongo_driver" where
  "dial_driver =
     \<lparr>m_connect = (\<lambda>uri o' w.
        if dl_refusals w = 0 then (Inr (), w\<lparr>dl_attempts := dl_attempts w + 1\<rparr>)
        else (Inl refused, w\<lparr>dl_refusals := dl_refusals w - 1, dl_attempts := dl_attempts w + 1\<rparr>)),
      m_wait = (\<lambda>n w. w\<lparr>dl_waits := dl_waits w @ [n]\<rparr>),
      m_disconnect = ret (), m_readyState = (\<lambda>w. 1)\<rparr>"

declare connect_loop.simps [simp del]

lemma pauses_Suc: "map (\<lambda>j. d * 2 ^ (n + j)) [0..<Suc k] = d * 2 ^ n # map (\<lambda>j. d * 2 ^ (Suc n + j)) [0..<k]"
  for d :: nat
  by (simp only: upt_conv_Cons zero_less_Suc list.map map_Suc_upt [symmetric] map_map comp_def
      add_0_right add_Suc_right add_Suc)

lemma dial_schedule:
  "connect_loop dial_driver uri opts (Suc m + n) d n \<lparr>dl_refusals = k, dl_attempts = a, dl_waits = ws\<rparr> =
     (if k \<le> m
      then (Inr True, \<lparr>dl_refusals = 0, dl_attempts = a + k + 1,
              dl_waits = ws @ map (\<lambda>j. d * 2 ^ (n + j)) [0..<k]\<rparr>)
      else (Inl refused, \<lparr>dl_refusals = k - Suc m, dl_attempts = a + Suc m,
              dl_waits = ws @ map (\<lambda>j. d * 2 ^ (n + j)) [0..<m]\<rparr>))"
proof (induction m arbitrary: n k a ws)
  case 0
  show ?case by (subst connect_loop.simps) (simp add: dial_driver_def)
next
  case (Suc m)
  show ?case
  proof (cases k)
    case 0
    then show ?thesis by (subst connect_loop.simps) (simp add: dial_driver_def)
  next
    case (Suc k')
    have "connect_loop dial_driver uri opts (Suc (Suc m) + n) d n \<lparr>dl_refusals = k, dl_attempts = a, dl_waits = ws\<rparr> =
      connect_loop dial_driver uri opts (Suc m + Suc n) d (Suc n)
        \<lparr>dl_refusals = k', dl_attempts = Suc a, dl_waits = ws @ [d * 2 ^ n]\<rparr>"
      by (subst connect_loop.simps) (simp add: dial_driver_def Suc)
    then show ?thesis unfolding Suc.IH Suc by (simp only: pauses_Suc) simp
  qed
qed

lemma sum_pauses: "sum_list (map (\<lambda>j. d * 2 ^ j) [0..<m]) + d = d * 2 ^ m" for d :: nat
  by (induction m) (simp_all add: algebra_simps)

text \<open>C27: connecting terminates, after at most the given number of attempts and with the exponential
  schedule: against a database that refuses the first \<open>k\<close> attempts, it succeeds at attempt
  \<open>k + 1\<close> if that many are allowed, and otherwise fails with the driver's error after the last
  attempt, without a pause after it; the pauses double from \<open>delayMs\<close>, and never add up to
  \<open>delayMs * 2 ^ (retries - 1)\<close>.\<close>

theorem connectDB_schedule:
  assumes "0 < retries" and "cf_env cfg \<noteq> ''test''"
  shows "\<exists>r w'. connectDB dial_driver cfg retries delayMs ov \<lparr>dl_refusals = k, dl_attempts = 0, dl_waits = []\<rparr> = (r, w') \<and>
    r = (if k < retries then Inr True else Inl refused) \<and>
    dl_attempts w' = min (k + 1) retries \<and>
    dl_waits w' = map (\<lambda>j. delayMs * 2 ^ j) [0..<min k (retries - 1)] \<and>
    sum_list (dl_waits w') + delayMs \<le> delayMs * 2 ^ (retries - 1)"
proof -
  from assms(1) obtain m where m: "retries = Suc m" by (cases retries) auto
  have le: "sum_list (map (\<lambda>j. delayMs * 2 ^ j) [0..<i]) + delayMs \<le> delayMs * 2 ^ m" if "i \<le> m" for i
    unfolding sum_pauses using that by (intro mult_left_mono power_increasing) auto
  show ?thesis
    using dial_schedule [of "cf_mongoUri cfg" "getMongooseOptions cfg ov" m 0 delayMs k 0 "[]"] assms(2) le [of k] le [of m]
    by (auto simp: connectDB_def m min_def not_le)
qed

theorem connectDB_schedule_witness:
  "\<exists>w'. connectDB dial_driver (load_config (\<lambda>s. NaN) Map.empty) 5 1000
      \<lparr>ov_uri = None, ov_replicaSet = None, ov_readPreference = None, ov_retryWrites = None\<rparr>
      \<lparr>dl_refusals = 3, dl_attempts = 0, dl_waits = []\<rparr> = (Inr True, w') \<and>
    dl_attempts w' = 4 \<and> dl_waits w' = [1000, 2000, 4000]"
proof -
  have "(0::nat) < 5" "cf_env (load_config (\<lambda>s. NaN) Map.empty) \<noteq> ''test''"
    by (simp_all add: load_config_def node_env_def env_text_def)
  from connectDB_schedule [OF this, of 1000
      "\<lparr>ov_uri = None, ov_replicaSet = None, ov_readPreference = None, ov_retryWrites = None\<rparr>" 3]
  show ?thesis by (auto simp: upt_conv_Cons)
qed

end
