(* ===== verification/Lifecycle.thy ===== *)
theory Lifecycle
  imports Config Registry Worker
begin

text \<open>
  The life of the two kinds of processes: start-up and shutdown of a worker
  (\<open>workers/submission.worker.js\<close>) and of an API server (\<open>server.js\<close>), with the shared
  connections they open and close (\<open>config/redis.js\<close>, \<open>queues/submission.queue.js\<close>).

  \<open>process.exit\<close> is recorded in the state, and so is the timer that forces an exit. The calls a
  shutdown makes may throw or stay pending for ever (a Redis command while the server is away, a
  worker that waits for its jobs, a server that waits for its connections), and so may the shutdown;
  a call that stays pending leaves the world as it is. Those of a start-up settle. Logging is left out.
\<close>

section \<open>The process and its host\<close>

text \<open>A BullMQ worker object: its handle, id and concurrency, whether its connection is its own, and
  whether its heartbeat timer runs.\<close>

record worker_instance =
  wi_ref :: nat
  wi_id :: string
  wi_concurrency :: int
  wi_owns :: bool
  wi_heartbeat :: bool

text \<open>The module-level variables; \<open>dm_server\<close> is the listening HTTP server and \<open>dm_forceExit\<close>
  the time of the timer of a running shutdown.\<close>

record 'w daemon =
  dm_world :: 'w
  dm_sharedRedis :: bool
  dm_queue :: bool
  dm_worker :: "worker_instance option"
  dm_server :: bool
  dm_shuttingDown :: bool
  dm_workerId :: "string option"
  dm_forceExit :: "int option"
  dm_exit :: "int option"

text \<open>The calls of a shutdown that may stay pending.\<close>

datatype host_call =
  StatusCall | PauseCall | CloseWorkerCall | QuitOwnCall | CloseQueueCall | QuitCall | DisconnectCall | CloseServerCall

record 'w host =
  h_config :: configuration
  h_mongo :: "'w mongo_driver"
  h_redis :: "'w redis"
  h_process :: "'w process"
  h_hangs :: "host_call \<Rightarrow> 'w \<Rightarrow> bool"
  h_resolveId :: "jsval \<Rightarrow> 'w \<Rightarrow> string \<times> 'w"
  h_newClient :: "('w, unit) io"
  h_ping :: "('w, string) io"
  h_clientReady :: "'w \<Rightarrow> bool"
  h_quit :: "('w, unit) io"
  h_disconnect :: "('w, unit) io"
  h_newQueue :: "('w, unit) io"
  h_closeQueue :: "('w, unit) io"
  h_queueCounts :: "('w, jsval) io"
  h_newWorker :: "int \<Rightarrow> bool \<Rightarrow> ('w, nat) io"
  h_waitReady :: "nat \<Rightarrow> ('w, unit) io"
  h_pause :: "nat \<Rightarrow> ('w, unit) io"
  h_closeWorker :: "nat \<Rightarrow> ('w, unit) io"
  h_quitOwn :: "nat \<Rightarrow> ('w, unit) io"
  h_disconnectOwn :: "nat \<Rightarrow> ('w, unit) io"
  h_listen :: "('w, unit) io"
  h_closeServer :: "'w \<Rightarrow> 'w"

definition in_process :: "('w, 'a) io \<Rightarrow> ('w daemon, 'a) io" where
  "in_process m = on_part dm_world (\<lambda>w s. s\<lparr>dm_world := w\<rparr>) m"

text \<open>\<open>try { await m } catch {}\<close>.\<close>

definition quietly :: "('s, 'a) io \<Rightarrow> ('s, unit) io" where
  "quietly m = try_catch (await m (\<lambda>_. ret ())) (\<lambda>err. ret ())"

definition when_io :: "bool \<Rightarrow> ('s, unit) io \<Rightarrow> ('s, unit) io" where
  "when_io b m = (if b then m else ret ())"

definition process_exit :: "int \<Rightarrow> ('w daemon, unit) io" where
  "process_exit code = modify_state (\<lambda>s. s\<lparr>dm_exit := Some code\<rparr>)"

text \<open>\<open>resolveWorkerId\<close>, which does not throw (\<open>Config\<close>).\<close>

definition resolve_id :: "'w host \<Rightarrow> jsval \<Rightarrow> ('w daemon, string) io" where
  "resolve_id H v = in_process (\<lambda>w. case h_resolveId H v w of (i, w') \<Rightarrow> (Inr i, w'))"

text \<open>A call that may stay pending, and \<open>try { await m } catch {}\<close> around one.\<close>

definition may_hang :: "'w host \<Rightarrow> host_call \<Rightarrow> ('w daemon, 'a) io \<Rightarrow> ('w daemon, 'a) pio" where
  "may_hang H c m = (\<lambda>s. if h_hangs H c (dm_world s) then (None, s) else prompt m s)"

definition pquietly :: "('s, 'a) pio \<Rightarrow> ('s, unit) pio" where
  "pquietly m = ptry_catch (pawait m (\<lambda>_. prompt (ret ()))) (\<lambda>err. prompt (ret ()))"

definition pwhen :: "bool \<Rightarrow> ('s, unit) pio \<Rightarrow> ('s, unit) pio" where
  "pwhen b m = (if b then m else prompt (ret ()))"

text \<open>The timer of a shutdown: set, cleared, and run, should it fire.\<close>

definition arm :: "int \<Rightarrow> 'w daemon \<Rightarrow> 'w daemon" where
  "arm ms s = s\<lparr>dm_forceExit := Some ms\<rparr>"

definition disarm :: "'w daemon \<Rightarrow> 'w daemon" where
  "disarm s = s\<lparr>dm_forceExit := None\<rparr>"

definition timer_fires :: "'w daemon \<Rightarrow> 'w daemon" where
  "timer_fires s = (if dm_forceExit s = None then s else s\<lparr>dm_exit := Some 1\<rparr>)"

section \<open>redis.js\<close>

definition getRedisConnection :: "'w host \<Rightarrow> ('w daemon, unit) io" where
  "getRedisConnection H = await (gets dm_sharedRedis) (\<lambda>open.
     if open then ret ()
     else await (in_process (h_newClient H)) (\<lambda>_. modify_state (\<lambda>s. s\<lparr>dm_sharedRedis := True\<rparr>)))"

text \<open>The readiness and, when it is missing, the details; the latency is left out.\<close>

definition checkRedisReadiness :: "'w host \<Rightarrow> ('w daemon, bool \<times> string option) io" where
  "checkRedisReadiness H = await (getRedisConnection H) (\<lambda>_.
     try_catch (await (in_process (h_ping H)) (\<lambda>pong. ret (pong = ''PONG'', None)))
       (\<lambda>error. ret (False, Some (emessage error))))"

definition closeRedisConnection :: "'w host \<Rightarrow> ('w daemon, unit) pio" where
  "closeRedisConnection H = pawait (prompt (gets dm_sharedRedis)) (\<lambda>open.
     if \<not> open then prompt (ret ())
     else pawait (ptry_catch
         (pawait (prompt (gets (\<lambda>s. h_clientReady H (dm_world s)))) (\<lambda>ready.
            if ready then may_hang H QuitCall (in_process (h_quit H)) else prompt (in_process (h_disconnect H))))
         (\<lambda>err. prompt (quietly (in_process (h_disconnect H))))) (\<lambda>_.
       prompt (modify_state (\<lambda>s. s\<lparr>dm_sharedRedis := False\<rparr>))))"

section \<open>submission.queue.js\<close>

definition getQueue :: "'w host \<Rightarrow> ('w daemon, unit) io" where
  "getQueue H = await (gets dm_queue) (\<lambda>open.
     if open then ret ()
     else await (getRedisConnection H) (\<lambda>_.
          await (in_process (h_newQueue H)) (\<lambda>_. modify_state (\<lambda>s. s\<lparr>dm_queue := True\<rparr>))))"

text \<open>\<open>timedOut\<close>: the timer of 250 ms fires before the counters have been read.\<close>

definition getQueueMetrics :: "'w host \<Rightarrow> bool \<Rightarrow> ('w daemon, jsval option) io" where
  "getQueueMetrics H timedOut =
     try_catch
       (await (getQueue H) (\<lambda>_.
        await (try_catch (await (in_process (h_queueCounts H)) (\<lambda>c. ret (Some c))) (\<lambda>err. ret None)) (\<lambda>counts.
        ret (if timedOut then None else counts))))
       (\<lambda>error. ret None)"

definition closeQueue :: "'w host \<Rightarrow> ('w daemon, unit) pio" where
  "closeQueue H = pawait (prompt (gets dm_queue)) (\<lambda>open.
     pawait (pwhen open (pawait (pquietly (may_hang H CloseQueueCall (in_process (h_closeQueue H)))) (\<lambda>_.
        prompt (modify_state (\<lambda>s. s\<lparr>dm_queue := False\<rparr>))))) (\<lambda>_.
     closeRedisConnection H))"

section \<open>Starting a worker\<close>

record start_options =
  so_workerId :: jsval
  so_concurrency :: "jsnum option"
  so_skipDb :: bool
  so_skipRedis :: bool
  so_skipRegistry :: bool
  so_connection :: bool

definition no_overrides :: mongo_overrides where
  "no_overrides = \<lparr>ov_uri = None, ov_replicaSet = None, ov_readPreference = None, ov_retryWrites = None\<rparr>"

definition connect_database :: "'w host \<Rightarrow> ('w daemon, unit) io" where
  "connect_database H = await (in_process (connectDB (h_mongo H) (h_config H) 5 1000 no_overrides)) (\<lambda>_. ret ())"

definition require_redis :: "'w host \<Rightarrow> ('w daemon, unit) io" where
  "require_redis H = await (checkRedisReadiness H) (\<lambda>(ready, details).
     if ready then ret ()
     else throw (plain_error (''Redis readiness check failed: '' @
       (case details of Some d \<Rightarrow> if d = [] then ''Connection unreachable'' else d
        | None \<Rightarrow> ''Connection unreachable''))))"

definition worker_concurrency :: "'w host \<Rightarrow> start_options \<Rightarrow> int" where
  "worker_concurrency H opts = parseWorkerConcurrency
     (case so_concurrency opts of Some n \<Rightarrow> Some n
      | None \<Rightarrow> Some (Finite (of_int (cf_workerConcurrency (h_config H))))) 2"

definition announce :: "'w host \<Rightarrow> string \<Rightarrow> string \<Rightarrow> ('w daemon, unit) io" where
  "announce H workerId status =
     await (in_process (updateWorkerStatus (h_redis H) (h_process H) workerId status DEFAULT_HEARTBEAT_TTL_S)) (\<lambda>_. ret ())"

definition startWorker :: "'w host \<Rightarrow> bool \<Rightarrow> start_options \<Rightarrow> ('w daemon, worker_instance) io" where
  "startWorker H standalone opts =
     try_catch
       (await (resolve_id H (so_workerId opts)) (\<lambda>workerId.
        await (modify_state (\<lambda>s. s\<lparr>dm_workerId := Some workerId\<rparr>)) (\<lambda>_.
        await (when_io (\<not> so_skipDb opts) (connect_database H)) (\<lambda>_.
        await (when_io (\<not> so_skipRedis opts) (require_redis H)) (\<lambda>_.
        let concurrency = worker_concurrency H opts in
        await (when_io (\<not> so_skipRegistry opts)
          (await (in_process (registerWorker (h_redis H) (h_process H) workerId (nat concurrency)
             ''STARTING'' DEFAULT_HEARTBEAT_TTL_S)) (\<lambda>_. ret ()))) (\<lambda>_.
        await (in_process (h_newWorker H concurrency (\<not> so_connection opts))) (\<lambda>worker.
        await (in_process (h_waitReady H worker)) (\<lambda>_.
        await (when_io (\<not> so_skipRegistry opts) (announce H workerId ''READY'')) (\<lambda>_.
        let inst = \<lparr>wi_ref = worker, wi_id = workerId, wi_concurrency = concurrency,
              wi_owns = (\<not> so_connection opts), wi_heartbeat = (\<not> so_skipRegistry opts)\<rparr> in
        await (modify_state (\<lambda>s. s\<lparr>dm_worker := Some inst\<rparr>)) (\<lambda>_. ret inst))))))))))
       (\<lambda>error. await (when_io standalone (process_exit 1)) (\<lambda>_. throw error))"

section \<open>Shutting a worker down\<close>

definition shutdown_id :: "'w host \<Rightarrow> worker_instance option \<Rightarrow> ('w daemon, string) io" where
  "shutdown_id H workerToClose = (case workerToClose of
     Some inst \<Rightarrow> ret (wi_id inst)
   | None \<Rightarrow> await (gets dm_workerId) (\<lambda>current. case current of
       Some i \<Rightarrow> ret i | None \<Rightarrow> resolve_id H JUndefined))"

text \<open>\<open>options.timeoutMs || config.worker.gracefulShutdownTimeoutMs || 10000\<close>.\<close>

definition guard_time :: "'w host \<Rightarrow> int option \<Rightarrow> int" where
  "guard_time H timeoutMs =
     (let configured = cf_shutdownTimeoutMs (h_config H); default = (if configured = 0 then 10000 else configured)
      in case timeoutMs of None \<Rightarrow> default | Some t \<Rightarrow> if t = 0 then default else t)"

text \<open>\<open>clearInterval\<close> on the heartbeat timer of the worker object.\<close>

definition stop_heartbeat :: "nat \<Rightarrow> 'w daemon \<Rightarrow> 'w daemon" where
  "stop_heartbeat r s = s\<lparr>dm_worker := map_option
     (\<lambda>inst. if wi_ref inst = r then inst\<lparr>wi_heartbeat := False\<rparr> else inst) (dm_worker s)\<rparr>"

definition close_worker :: "'w host \<Rightarrow> worker_instance \<Rightarrow> ('w daemon, unit) pio" where
  "close_worker H inst =
     pawait (pquietly (may_hang H CloseWorkerCall (in_process (h_closeWorker H (wi_ref inst))))) (\<lambda>_.
     pawait (pquietly (may_hang H StatusCall (announce H (wi_id inst) ''STOPPED''))) (\<lambda>_.
     pawait (pwhen (wi_owns inst)
       (ptry_catch (may_hang H QuitOwnCall (in_process (h_quitOwn H (wi_ref inst))))
          (\<lambda>err. prompt (in_process (h_disconnectOwn H (wi_ref inst)))))) (\<lambda>_.
     prompt (modify_state (\<lambda>s. if map_option wi_ref (dm_worker s) = Some (wi_ref inst) then s\<lparr>dm_worker := None\<rparr> else s)))))"

definition close_connections :: "'w host \<Rightarrow> bool \<Rightarrow> ('w daemon, unit) pio" where
  "close_connections H exitProcess =
     pawait (pquietly (closeQueue H)) (\<lambda>_.
     pawait (pquietly (may_hang H DisconnectCall (in_process (disconnectDB (h_mongo H))))) (\<lambda>_.
     pawait (prompt (modify_state disarm)) (\<lambda>_.
     prompt (when_io exitProcess (process_exit 0)))))"

text \<open>What comes before the timer is set: the \<open>DRAINING\<close> update, and the pause of the worker.\<close>

definition stop_intake :: "'w host \<Rightarrow> string \<Rightarrow> worker_instance option \<Rightarrow> ('w daemon, unit) pio" where
  "stop_intake H workerId workerToClose =
     pawait (pquietly (may_hang H StatusCall (announce H workerId ''DRAINING''))) (\<lambda>_.
     case workerToClose of
       None \<Rightarrow> prompt (ret ())
     | Some inst \<Rightarrow>
         pawait (pquietly (may_hang H PauseCall (in_process (h_pause H (wi_ref inst))))) (\<lambda>_.
         prompt (modify_state (stop_heartbeat (wi_ref inst)))))"

definition shutdown :: "'w host \<Rightarrow> bool \<Rightarrow> worker_instance option \<Rightarrow> int option \<Rightarrow> ('w daemon, unit) pio" where
  "shutdown H exitProcess targetWorker timeoutMs = pawait (prompt (gets dm_shuttingDown)) (\<lambda>busy.
     if busy \<and> targetWorker = None then prompt (ret ())
     else
       pawait (prompt (when_io (targetWorker = None) (modify_state (\<lambda>s. s\<lparr>dm_shuttingDown := True\<rparr>)))) (\<lambda>_.
       pawait (prompt (gets (\<lambda>s. if targetWorker \<noteq> None then targetWorker else dm_worker s))) (\<lambda>workerToClose.
       pawait (prompt (shutdown_id H workerToClose)) (\<lambda>workerId.
       pawait (stop_intake H workerId workerToClose) (\<lambda>_.
       pawait (prompt (when_io exitProcess (modify_state (arm (guard_time H timeoutMs))))) (\<lambda>_.
       pawait (case workerToClose of None \<Rightarrow> prompt (ret ()) | Some inst \<Rightarrow> close_worker H inst) (\<lambda>_.
       if targetWorker \<noteq> None \<and> \<not> exitProcess then prompt (ret ())
       else close_connections H exitProcess)))))))"

text \<open>\<open>resetWorkerState\<close>.\<close>

definition resetWorkerState :: "'w daemon \<Rightarrow> 'w daemon" where
  "resetWorkerState s = s\<lparr>dm_shuttingDown := False, dm_worker := None, dm_workerId := None\<rparr>"

section \<open>The API server\<close>

text \<open>\<open>listen\<close> resolves when the server listens and rejects on its \<open>error\<close> event, outside the
  \<open>try\<close>; \<open>exitOnError\<close> is \<open>options.exitOnError !== false\<close>.\<close>

definition startServer :: "'w host \<Rightarrow> bool \<Rightarrow> bool \<Rightarrow> ('w daemon, unit) io" where
  "startServer H skipDb exitOnError =
     await (try_catch (when_io (\<not> skipDb) (connect_database H))
       (\<lambda>error. await (when_io exitOnError (process_exit 1)) (\<lambda>_. throw error))) (\<lambda>_.
     await (modify_state (\<lambda>s. s\<lparr>dm_server := True\<rparr>)) (\<lambda>_. in_process (h_listen H)))"

text \<open>\<open>targeted\<close>: a server instance was given, as the tests do.\<close>

definition shutdownServer :: "'w host \<Rightarrow> bool \<Rightarrow> bool \<Rightarrow> ('w daemon, unit) pio" where
  "shutdownServer H exitProcess targeted = pawait (prompt (gets dm_shuttingDown)) (\<lambda>busy.
     if busy then prompt (ret ())
     else
       pawait (prompt (modify_state (\<lambda>s. s\<lparr>dm_shuttingDown := True\<rparr>))) (\<lambda>_.
       pawait (prompt (when_io exitProcess (modify_state (arm 10000)))) (\<lambda>_.
       pawait (prompt (gets dm_server)) (\<lambda>listening.
       pawait (pwhen (targeted \<or> listening) (may_hang H CloseServerCall
         (modify_state (\<lambda>s. s\<lparr>dm_world := h_closeServer H (dm_world s)\<rparr>)))) (\<lambda>_.
       if targeted \<and> \<not> exitProcess then prompt (modify_state (\<lambda>s. s\<lparr>dm_shuttingDown := False\<rparr>))
       else close_connections H exitProcess)))))"

section \<open>Facts\<close>

lemma in_process_run: "in_process m s = (fst (m (dm_world s)), s\<lparr>dm_world := snd (m (dm_world s))\<rparr>)"
  by (simp add: in_process_def on_part_def split: prod.splits)

lemma quietly_in_process: "\<exists>w. quietly (in_process m) s = (Inr (), s\<lparr>dm_world := w\<rparr>)"
  by (rule exI [of _ "snd (m (dm_world s))"])
    (simp add: quietly_def try_catch_def await_def in_process_run split: sum.split)

lemma announce_in_process:
  "announce H i st = in_process (await (updateWorkerStatus (h_redis H) (h_process H) i st DEFAULT_HEARTBEAT_TTL_S) (\<lambda>_. ret ()))"
  by (rule ext) (auto simp: announce_def await_def in_process_run split: prod.split sum.split)

lemma quietly_run: "quietly (in_process m) s = (Inr (), s\<lparr>dm_world := snd (m (dm_world s))\<rparr>)"
  by (simp add: quietly_def try_catch_def await_def in_process_run split: sum.split)

text \<open>The world after an attempt to announce a status.\<close>

definition stamped :: "'w host \<Rightarrow> string \<Rightarrow> string \<Rightarrow> 'w \<Rightarrow> 'w" where
  "stamped H i st w = snd (await (updateWorkerStatus (h_redis H) (h_process H) i st DEFAULT_HEARTBEAT_TTL_S)
     (\<lambda>_. ret ()) w)"

lemma quietly_announce: "quietly (announce H i st) s = (Inr (), s\<lparr>dm_world := stamped H i st (dm_world s)\<rparr>)"
  unfolding announce_in_process stamped_def by (rule quietly_run)

lemmas pio_run = pawait_def prompt_def ptry_catch_def pwhen_def when_io_def

lemma pawait_gets [simp]: "pawait (prompt (gets f)) k s = k (f s) s"
  by (simp add: pawait_def prompt_def)

lemma pawait_modify [simp]: "pawait (prompt (modify_state f)) k s = k () (f s)"
  by (simp add: pawait_def prompt_def)

lemma pawait_prompt: "m s = (Inr a, s') \<Longrightarrow> pawait (prompt m) k s = k a s'"
  by (simp add: pawait_def prompt_def)

lemma may_hang_run:
  "may_hang H c (in_process m) s = (if h_hangs H c (dm_world s) then (None, s)
     else (Some (fst (m (dm_world s))), s\<lparr>dm_world := snd (m (dm_world s))\<rparr>))"
  by (simp add: may_hang_def prompt_def in_process_run)

lemma pquietly_may_hang:
  "pquietly (may_hang H c (in_process m)) s =
     (if h_hangs H c (dm_world s) then (None, s) else (Some (Inr ()), s\<lparr>dm_world := snd (m (dm_world s))\<rparr>))"
  by (simp add: pquietly_def may_hang_def pio_run in_process_run split: sum.split)

lemma pquietly_announce:
  "pquietly (may_hang H c (announce H i st)) s =
     (if h_hangs H c (dm_world s) then (None, s) else (Some (Inr ()), s\<lparr>dm_world := stamped H i st (dm_world s)\<rparr>))"
  unfolding announce_in_process stamped_def by (rule pquietly_may_hang)

lemma pquietly_value: "m s = (Some (Inr ()), s') \<Longrightarrow> pquietly m s = (Some (Inr ()), s')"
  by (simp add: pquietly_def pio_run)

lemma pquietly_pending: "m s = (None, s') \<Longrightarrow> pquietly m s = (None, s')"
  by (simp add: pquietly_def pio_run)

lemma settled_may_hang: "\<forall>c w. \<not> h_hangs H c w \<Longrightarrow> settled (may_hang H c m)"
  by (simp add: settled_def may_hang_def prompt_def split: prod.split)

lemma settled_pquietly: "settled m \<Longrightarrow> settled (pquietly m)"
  unfolding pquietly_def by (intro settled_ptry_catch settled_pawait settled_prompt)

lemma settled_pwhen: "settled m \<Longrightarrow> settled (pwhen b m)"
  by (simp add: pwhen_def)

lemmas settled_intros = settled_pawait settled_ptry_catch settled_pquietly settled_pwhen settled_may_hang

lemma closeRedisConnection_run:
  "\<exists>w. closeRedisConnection H s = (None, s) \<or>
     closeRedisConnection H s = (Some (Inr ()), s\<lparr>dm_world := w, dm_sharedRedis := False\<rparr>)"
proof (cases "dm_sharedRedis s")
  case False
  then have "closeRedisConnection H s = (Some (Inr ()), s\<lparr>dm_world := dm_world s, dm_sharedRedis := False\<rparr>)"
    by (simp add: closeRedisConnection_def pio_run)
  then show ?thesis by blast
next
  case True
  show ?thesis
    by (auto simp: closeRedisConnection_def pio_run may_hang_def in_process_run True quietly_run split: sum.split)
qed

lemma closeQueue_run:
  "\<exists>w b. closeQueue H s = (None, s\<lparr>dm_world := w, dm_queue := b\<rparr>) \<or>
     closeQueue H s = (Some (Inr ()), s\<lparr>dm_world := w, dm_queue := False, dm_sharedRedis := False\<rparr>)"
proof (cases "dm_queue s \<and> h_hangs H CloseQueueCall (dm_world s)")
  case True
  then have "closeQueue H s = (None, s\<lparr>dm_world := dm_world s, dm_queue := dm_queue s\<rparr>)"
    by (simp add: closeQueue_def pio_run pquietly_may_hang)
  then show ?thesis by blast
next
  case False
  define w where "w = (if dm_queue s then snd (h_closeQueue H (dm_world s)) else dm_world s)"
  have run: "closeQueue H s = closeRedisConnection H (s\<lparr>dm_world := w, dm_queue := False\<rparr>)"
  proof (cases "dm_queue s")
    case True
    with False show ?thesis by (simp add: closeQueue_def pio_run pquietly_may_hang w_def)
  next
    case no: False
    then have "s\<lparr>dm_world := w, dm_queue := False\<rparr> = s" unfolding w_def by (cases s) simp
    with no show ?thesis by (simp add: closeQueue_def pio_run)
  qed
  have "s\<lparr>dm_world := w, dm_queue := False, dm_world := v, dm_sharedRedis := False\<rparr> =
      s\<lparr>dm_world := v, dm_queue := False, dm_sharedRedis := False\<rparr>" for v
    by simp
  note closeRedisConnection_run [of H "s\<lparr>dm_world := w, dm_queue := False\<rparr>", unfolded this]
  then show ?thesis unfolding run by blast
qed

lemma close_connections_run:
  "\<exists>w b c. close_connections H ex s = (None, s\<lparr>dm_world := w, dm_queue := b, dm_sharedRedis := c\<rparr>) \<or>
     close_connections H ex s = (Some (Inr ()), s\<lparr>dm_world := w, dm_queue := False, dm_sharedRedis := False,
       dm_forceExit := None, dm_exit := (if ex then Some 0 else dm_exit s)\<rparr>)"
proof -
  obtain w b where "closeQueue H s = (None, s\<lparr>dm_world := w, dm_queue := b\<rparr>) \<or>
      closeQueue H s = (Some (Inr ()), s\<lparr>dm_world := w, dm_queue := False, dm_sharedRedis := False\<rparr>)"
    using closeQueue_run by metis
  then show ?thesis
  proof
    assume "closeQueue H s = (None, s\<lparr>dm_world := w, dm_queue := b\<rparr>)"
    then have "close_connections H ex s = (None, s\<lparr>dm_world := w, dm_queue := b, dm_sharedRedis := dm_sharedRedis s\<rparr>)"
      using pquietly_pending [of "closeQueue H"] by (simp add: close_connections_def pawait_def)
    then show ?thesis by blast
  next
    assume q: "closeQueue H s = (Some (Inr ()), s\<lparr>dm_world := w, dm_queue := False, dm_sharedRedis := False\<rparr>)"
    define s1 where "s1 = s\<lparr>dm_world := w, dm_queue := False, dm_sharedRedis := False\<rparr>"
    have "close_connections H ex s = (if h_hangs H DisconnectCall w then (None, s1)
      else (Some (Inr ()), s\<lparr>dm_world := snd (disconnectDB (h_mongo H) w), dm_queue := False,
         dm_sharedRedis := False, dm_forceExit := None, dm_exit := (if ex then Some 0 else dm_exit s)\<rparr>))"
      using pquietly_value [of "closeQueue H", OF q] unfolding s1_def
      by (simp add: close_connections_def pawait_def pquietly_may_hang prompt_def disarm_def when_io_def process_exit_def)
    then show ?thesis unfolding s1_def by (cases "h_hangs H DisconnectCall w") (simp only: if_True if_False; blast)+
  qed
qed

lemma close_worker_run:
  "case close_worker H inst s of
     (None, s') \<Rightarrow> s' = s\<lparr>dm_world := dm_world s'\<rparr>
   | (Some (Inl e), s') \<Rightarrow> s' = s\<lparr>dm_world := dm_world s'\<rparr> \<and> (\<exists>n v v'. h_disconnectOwn H n v = (Inl e, v'))
   | (Some (Inr u), s') \<Rightarrow> s' = s\<lparr>dm_world := dm_world s',
       dm_worker := (if map_option wi_ref (dm_worker s) = Some (wi_ref inst) then None else dm_worker s)\<rparr>"
proof -
  define w1 where "w1 = snd (h_closeWorker H (wi_ref inst) (dm_world s))"
  define w2 where "w2 = stamped H (wi_id inst) ''STOPPED'' w1"
  obtain r3 w3 where quit: "h_quitOwn H (wi_ref inst) w2 = (r3, w3)" by fastforce
  obtain r4 w4 where disc: "h_disconnectOwn H (wi_ref inst) w3 = (r4, w4)" by fastforce
  then have throws: "\<exists>n v v'. h_disconnectOwn H n v = (Inl e, v')" if "r4 = Inl e" for e using that by blast
  note run = close_worker_def pawait_def pquietly_may_hang pquietly_announce prompt_def ptry_catch_def pwhen_def
    may_hang_run in_process_run w1_def [symmetric] w2_def [symmetric] quit disc
  show ?thesis
  proof (cases "h_hangs H CloseWorkerCall (dm_world s) \<or> h_hangs H StatusCall w1")
    case True
    then show ?thesis by (cases "h_hangs H CloseWorkerCall (dm_world s)") (simp_all add: run)
  next
    case False
    then show ?thesis
      by (cases "wi_owns inst"; cases "h_hangs H QuitOwnCall w2"; cases r3; cases r4) (auto simp: run throws)
  qed
qed

lemma shutdown_id_run: "\<exists>i s'. shutdown_id H wk s = (Inr i, s') \<and> s' = s\<lparr>dm_world := dm_world s'\<rparr>"
  by (auto simp: shutdown_id_def await_def resolve_id_def in_process_run split: option.split prod.split)

lemma connect_loop_True:
  "connect_loop D uri opts m d n w = (Inr b, w') \<Longrightarrow> n < m \<Longrightarrow> b"
proof (induction D uri opts m d n w rule: connect_loop.induct)
  case (1 D uri opts m d n w)
  obtain r w1 where c: "m_connect D uri opts w = (r, w1)" by fastforce
  show ?case
  proof (cases r)
    case (Inr u)
    with 1(2,3) c show ?thesis using connect_loop.simps [of D uri opts m d n w] by simp
  next
    case (Inl e)
    with 1(2,3) c have "\<not> m \<le> n + 1" "connect_loop D uri opts m d (n + 1) (m_wait D (d * 2 ^ n) w1) = (Inr b, w')"
      using connect_loop.simps [of D uri opts m d n w] by (auto split: if_splits)
    with 1(1) [OF _ c [symmetric] _] 1(3) Inl show ?thesis by auto
  qed
qed

lemma when_io_ok: "when_io b m s = (Inr u, s') \<Longrightarrow> b \<and> m s = (Inr u, s') \<or> \<not> b \<and> s' = s"
  by (auto simp: when_io_def split: if_splits)

section \<open>What starting a worker leaves alone\<close>

abbreviation fate :: "'w daemon \<Rightarrow> worker_instance option \<times> int option" where
  "fate s \<equiv> (dm_worker s, dm_exit s)"

lemma keeps_in_process [keeps_intros]: "keeps fate (in_process m)"
  by (simp add: keeps_def in_process_run)

lemma keeps_resolve_id [keeps_intros]: "keeps fate (resolve_id H v)"
  unfolding resolve_id_def by (rule keeps_in_process)

lemma keeps_when_io [keeps_intros]: "keeps view m \<Longrightarrow> keeps view (when_io b m)"
  by (simp add: when_io_def)

lemma keeps_modify_fate [keeps_intros]: "(\<And>s. fate (f s) = fate s) \<Longrightarrow> keeps fate (modify_state f)"
  by (simp add: keeps_def)

lemma keeps_checkRedisReadiness [keeps_intros]: "keeps fate (checkRedisReadiness H)"
  unfolding checkRedisReadiness_def getRedisConnection_def by (auto intro!: keeps_intros)

lemma keeps_require_redis [keeps_intros]: "keeps fate (require_redis H)"
  unfolding require_redis_def by (auto intro!: keeps_intros split: prod.split)

lemma keeps_connect_database [keeps_intros]: "keeps fate (connect_database H)"
  unfolding connect_database_def by (auto intro!: keeps_intros)

lemma keeps_announce [keeps_intros]: "keeps fate (announce H i st)"
  unfolding announce_def by (auto intro!: keeps_intros)

lemma require_redis_pong:
  "require_redis H s = (Inr u, s') \<Longrightarrow> \<exists>w w'. h_ping H w = (Inr ''PONG'', w')"
  by (auto simp: require_redis_def checkRedisReadiness_def in_process_run
      elim!: await_cases try_catch_cases split: if_splits prod.splits) (metis prod.collapse)+

lemma connect_database_connected:
  assumes "connect_database H s = (Inr u, s')"
  shows "\<exists>w'. connectDB (h_mongo H) (h_config H) 5 1000 no_overrides (dm_world s) = (Inr True, w')"
proof -
  obtain b w' where "connectDB (h_mongo H) (h_config H) 5 1000 no_overrides (dm_world s) = (Inr b, w')"
    using assms by (auto simp: connect_database_def in_process_run elim!: await_cases) (metis prod.collapse)
  moreover from this have b by (auto simp: connectDB_def intro: connect_loop_True)
  ultimately show ?thesis by auto
qed

lemma worker_concurrency_pos: "0 < worker_concurrency H opts"
  by (auto simp: worker_concurrency_def parseWorkerConcurrency_def split: jsnum.split option.split)

text \<open>A computation whose errors leave the worker and the exit code alone, and whose values satisfy \<open>Q\<close>.\<close>

definition starts :: "('a \<Rightarrow> 'w daemon \<Rightarrow> bool) \<Rightarrow> worker_instance option \<times> int option \<Rightarrow> ('w daemon, 'a) io \<Rightarrow> bool" where
  "starts Q v m \<longleftrightarrow> (\<forall>s. fate s = v \<longrightarrow>
     (case m s of (Inl e, s') \<Rightarrow> fate s' = v | (Inr a, s') \<Rightarrow> Q a s'))"

lemma starts_await:
  fixes m :: "('w daemon, 'a) io"
  assumes "keeps fate m" "\<And>a s s'. m s = (Inr a, s') \<Longrightarrow> starts Q v (k a)"
  shows "starts Q v (await m k)"
  unfolding starts_def
proof (intro allI impI)
  fix s :: "'w daemon" assume v: "fate s = v"
  show "case await m k s of (Inl e, s') \<Rightarrow> fate s' = v | (Inr a, s') \<Rightarrow> Q a s'"
  proof (cases "m s")
    case (Pair r s1)
    then have f: "fate s1 = v" using assms(1) v by (metis keepsD)
    show ?thesis
    proof (cases r)
      case (Inl e)
      then show ?thesis using Pair f by (simp add: await_def)
    next
      case (Inr a)
      then have "starts Q v (k a)" using Pair assms(2) by blast
      then show ?thesis using Pair Inr f by (auto simp: await_def starts_def)
    qed
  qed
qed

definition started :: "'w host \<Rightarrow> start_options \<Rightarrow> int option \<Rightarrow> worker_instance \<Rightarrow> 'w daemon \<Rightarrow> bool" where
  "started H opts x inst s \<longleftrightarrow>
     dm_worker s = Some inst \<and> dm_exit s = x \<and> wi_concurrency inst = worker_concurrency H opts \<and>
     wi_heartbeat inst = (\<not> so_skipRegistry opts) \<and> wi_owns inst = (\<not> so_connection opts) \<and>
     (so_skipDb opts \<or> (\<exists>w w'. connectDB (h_mongo H) (h_config H) 5 1000 no_overrides w = (Inr True, w'))) \<and>
     (so_skipRedis opts \<or> (\<exists>w w'. h_ping H w = (Inr ''PONG'', w')))"

lemma starts_last:
  assumes "started H opts x inst (s0\<lparr>dm_worker := Some inst, dm_exit := x\<rparr>)"
  shows "starts (started H opts x) (wk, x) (await (modify_state (\<lambda>s. s\<lparr>dm_worker := Some inst\<rparr>)) (\<lambda>_. ret inst))"
  using assms by (auto simp: starts_def started_def await_def)

text \<open>A worker process starts only after its dependencies answered, or leaves no worker behind.
  When \<open>startWorker\<close> returns an instance, that instance is the module's worker, its concurrency is
  positive whatever the options and the configuration say, the database was connected unless skipped
  and Redis answered \<open>PONG\<close> unless skipped; when it throws, the module's worker is the one it
  was before and the process exits with code 1 exactly when it runs standalone.\<close>

theorem startWorker_fail_fast:
  "case startWorker H standalone opts s of
     (Inr inst, s') \<Rightarrow> dm_worker s' = Some inst \<and> dm_exit s' = dm_exit s \<and> 0 < wi_concurrency inst \<and>
       (so_skipDb opts \<or> (\<exists>w w'. connectDB (h_mongo H) (h_config H) 5 1000 no_overrides w = (Inr True, w'))) \<and>
       (so_skipRedis opts \<or> (\<exists>w w'. h_ping H w = (Inr ''PONG'', w')))
   | (Inl e, s') \<Rightarrow> dm_worker s' = dm_worker s \<and> dm_exit s' = (if standalone then Some 1 else dm_exit s)"
proof -
  obtain body where run: "startWorker H standalone opts =
      try_catch body (\<lambda>error. await (when_io standalone (process_exit 1)) (\<lambda>_. throw error))"
    and body: "starts (started H opts (dm_exit s)) (fate s) body"
  proof (rule that [OF startWorker_def], goal_cases)
    case 1
    show ?case
      unfolding Let_def
      by (intro starts_await keeps_intros starts_last)
        (auto simp: started_def dest!: when_io_ok connect_database_connected require_redis_pong)
  qed
  obtain r s1 where b: "body s = (r, s1)" by fastforce
  with body have "case r of Inl e \<Rightarrow> fate s1 = fate s | Inr inst \<Rightarrow> started H opts (dm_exit s) inst s1"
    by (auto simp: starts_def split: sum.splits prod.splits)
  then show ?thesis
    by (auto simp: run try_catch_def b await_def when_io_def process_exit_def started_def worker_concurrency_pos
        split: sum.splits)
qed

text \<open>A shutdown that stays pending before its timer is set.\<close>

definition stuck_unguarded :: "'w host \<Rightarrow> 'w daemon \<Rightarrow> bool" where
  "stuck_unguarded H s \<longleftrightarrow> (case shutdown_id H (dm_worker s) (s\<lparr>dm_shuttingDown := True\<rparr>) of
     (Inl e, s1) \<Rightarrow> False
   | (Inr i, s1) \<Rightarrow> h_hangs H StatusCall (dm_world s1) \<or>
       (dm_worker s \<noteq> None \<and> h_hangs H PauseCall (stamped H i ''DRAINING'' (dm_world s1))))"

lemma stop_intake_run:
  assumes id: "shutdown_id H (dm_worker s) (s\<lparr>dm_shuttingDown := True\<rparr>) = (Inr i, s1)"
  shows "case stop_intake H i (dm_worker s) s1 of
      (None, s') \<Rightarrow> stuck_unguarded H s \<and> s' = s\<lparr>dm_shuttingDown := True, dm_world := dm_world s'\<rparr>
    | (Some (Inl e), s') \<Rightarrow> False
    | (Some (Inr u), s') \<Rightarrow> \<not> stuck_unguarded H s \<and> s' = s\<lparr>dm_shuttingDown := True, dm_world := dm_world s',
        dm_worker := map_option (\<lambda>inst. inst\<lparr>wi_heartbeat := False\<rparr>) (dm_worker s)\<rparr>"
proof -
  have stuck: "stuck_unguarded H s \<longleftrightarrow> h_hangs H StatusCall (dm_world s1) \<or>
      (dm_worker s \<noteq> None \<and> h_hangs H PauseCall (stamped H i ''DRAINING'' (dm_world s1)))"
    by (simp add: stuck_unguarded_def id)
  define w1 where "w1 = dm_world s1"
  have s1: "s1 = s\<lparr>dm_shuttingDown := True, dm_world := w1\<rparr>"
    using shutdown_id_run [of H "dm_worker s" "s\<lparr>dm_shuttingDown := True\<rparr>"] id by (auto simp: w1_def)
  have none: "s\<lparr>dm_shuttingDown := True, dm_world := w, dm_worker := None\<rparr> = s\<lparr>dm_shuttingDown := True, dm_world := w\<rparr>"
    if "dm_worker s = None" for w
    using that by (cases s) simp
  show ?thesis
  proof (cases "dm_worker s")
    case None
    then show ?thesis unfolding stuck
      by (simp add: stop_intake_def pawait_def pquietly_announce prompt_def s1 none)
  next
    case (Some inst)
    then show ?thesis unfolding stuck
      by (simp add: stop_intake_def pawait_def pquietly_announce pquietly_may_hang prompt_def s1 stop_heartbeat_def)
  qed
qed

lemma close_connections_case:
  "case close_connections H ex s of
     (None, s') \<Rightarrow> dm_forceExit s' = dm_forceExit s \<and> dm_exit s' = dm_exit s \<and> dm_shuttingDown s' = dm_shuttingDown s
   | (Some (Inl e), s') \<Rightarrow> False
   | (Some (Inr u), s') \<Rightarrow> dm_worker s' = dm_worker s \<and> \<not> dm_queue s' \<and> \<not> dm_sharedRedis s' \<and>
       dm_forceExit s' = None \<and> dm_exit s' = (if ex then Some 0 else dm_exit s) \<and> dm_shuttingDown s' = dm_shuttingDown s"
proof -
  obtain w b c where "close_connections H ex s = (None, s\<lparr>dm_world := w, dm_queue := b, dm_sharedRedis := c\<rparr>) \<or>
     close_connections H ex s = (Some (Inr ()), s\<lparr>dm_world := w, dm_queue := False, dm_sharedRedis := False,
       dm_forceExit := None, dm_exit := (if ex then Some 0 else dm_exit s)\<rparr>)"
    using close_connections_run by metis
  then show ?thesis
  proof
    assume "close_connections H ex s = (None, s\<lparr>dm_world := w, dm_queue := b, dm_sharedRedis := c\<rparr>)"
    then show ?thesis by simp
  next
    assume "close_connections H ex s = (Some (Inr ()), s\<lparr>dm_world := w, dm_queue := False, dm_sharedRedis := False,
       dm_forceExit := None, dm_exit := (if ex then Some 0 else dm_exit s)\<rparr>)"
    then show ?thesis by simp
  qed
qed

text \<open>The part of a shutdown that the timer watches over.\<close>

definition close_all :: "'w host \<Rightarrow> bool \<Rightarrow> worker_instance option \<Rightarrow> ('w daemon, unit) pio" where
  "close_all H exitProcess workerToClose =
     pawait (case workerToClose of None \<Rightarrow> prompt (ret ()) | Some inst \<Rightarrow> close_worker H inst) (\<lambda>_.
       close_connections H exitProcess)"

lemma shutdown_steps:
  assumes "\<not> dm_shuttingDown s" and "shutdown_id H (dm_worker s) (s\<lparr>dm_shuttingDown := True\<rparr>) = (Inr i, s1)"
  shows "shutdown H ex None ms s = pawait (stop_intake H i (dm_worker s)) (\<lambda>_.
    pawait (prompt (when_io ex (modify_state (arm (guard_time H ms))))) (\<lambda>_. close_all H ex (dm_worker s))) s1"
  using assms(1) by (simp add: shutdown_def close_all_def when_io_def pawait_prompt [of "shutdown_id H (dm_worker s)", OF assms(2)])

lemma close_all_case:
  assumes "map_option wi_ref (dm_worker s) = map_option wi_ref wk"
  shows "case close_all H ex wk s of
      (None, s') \<Rightarrow> dm_forceExit s' = dm_forceExit s \<and> dm_exit s' = dm_exit s \<and> dm_shuttingDown s' = dm_shuttingDown s
    | (Some (Inl e), s') \<Rightarrow> dm_forceExit s' = dm_forceExit s \<and> dm_exit s' = dm_exit s \<and>
        dm_shuttingDown s' = dm_shuttingDown s \<and> (\<exists>n v v'. h_disconnectOwn H n v = (Inl e, v'))
    | (Some (Inr u), s') \<Rightarrow> dm_worker s' = None \<and> \<not> dm_queue s' \<and> \<not> dm_sharedRedis s' \<and> dm_forceExit s' = None \<and>
        dm_exit s' = (if ex then Some 0 else dm_exit s) \<and> dm_shuttingDown s' = dm_shuttingDown s"
proof -
  define m where "m = (case wk of None \<Rightarrow> prompt (ret ()) | Some inst \<Rightarrow> close_worker H inst)"
  have m: "case m s of
      (None, s') \<Rightarrow> s' = s\<lparr>dm_world := dm_world s'\<rparr>
    | (Some (Inl e), s') \<Rightarrow> s' = s\<lparr>dm_world := dm_world s'\<rparr> \<and> (\<exists>n v v'. h_disconnectOwn H n v = (Inl e, v'))
    | (Some (Inr u), s') \<Rightarrow> s' = s\<lparr>dm_world := dm_world s', dm_worker := None\<rparr>"
  proof (cases wk)
    case None
    with assms have "s\<lparr>dm_worker := None\<rparr> = s" by (cases s) simp
    with None show ?thesis by (simp add: m_def prompt_def)
  next
    case (Some inst)
    with assms have "map_option wi_ref (dm_worker s) = Some (wi_ref inst)" by simp
    with close_worker_run [where H = H and inst = inst and s = s] Some show ?thesis by (simp add: m_def split: prod.splits option.splits sum.splits)
  qed
  obtain r1 s1 where run1: "m s = (r1, s1)" by fastforce
  have all: "close_all H ex wk s = (case (r1, s1) of (None, s') \<Rightarrow> (None, s')
      | (Some (Inl e), s') \<Rightarrow> (Some (Inl e), s') | (Some (Inr a), s') \<Rightarrow> close_connections H ex s')"
    by (simp add: close_all_def m_def [symmetric] pawait_def run1)
  consider (pending) "r1 = None" | (err) e where "r1 = Some (Inl e)" | (ok) "r1 = Some (Inr ())"
    by (cases r1) (auto simp: split: sum.splits, metis (full_types) old.unit.exhaust sumE)
  then show ?thesis
  proof cases
    case pending
    with m run1 have "s1 = s\<lparr>dm_world := dm_world s1\<rparr>" by simp
    then have "dm_forceExit s1 = dm_forceExit s \<and> dm_exit s1 = dm_exit s \<and> dm_shuttingDown s1 = dm_shuttingDown s"
      by (metis daemon.select_convs daemon.surjective daemon.update_convs(1))
    with pending all show ?thesis by simp
  next
    case err
    with m run1 have e: "s1 = s\<lparr>dm_world := dm_world s1\<rparr>" "\<exists>n v v'. h_disconnectOwn H n v = (Inl e, v')" by simp_all
    then have "dm_forceExit s1 = dm_forceExit s \<and> dm_exit s1 = dm_exit s \<and> dm_shuttingDown s1 = dm_shuttingDown s"
      by (metis daemon.select_convs daemon.surjective daemon.update_convs(1))
    with err all e(2) show ?thesis by simp
  next
    case ok
    define w1 where "w1 = dm_world s1"
    from ok m run1 have s1: "s1 = s\<lparr>dm_world := w1, dm_worker := None\<rparr>" by (simp add: w1_def)
    obtain r s' where run: "close_connections H ex s1 = (r, s')" by fastforce
    have "close_all H ex wk s = (r, s')" using all ok run by simp
    with run close_connections_case [where H = H and ex = ex and s = s1] show ?thesis
      by (cases r) (auto simp: s1 split: sum.splits)
  qed
qed

lemma shutdown_case:
  assumes idle: "\<not> dm_shuttingDown s" "dm_forceExit s = None"
  shows "case shutdown H ex None ms s of
       (Some (Inr u), s') \<Rightarrow> \<not> stuck_unguarded H s \<and> dm_worker s' = None \<and> \<not> dm_queue s' \<and> \<not> dm_sharedRedis s' \<and>
         dm_forceExit s' = None \<and> dm_exit s' = (if ex then Some 0 else dm_exit s) \<and> dm_shuttingDown s'
     | (Some (Inl e), s') \<Rightarrow> (\<exists>n v v'. h_disconnectOwn H n v = (Inl e, v')) \<and> dm_shuttingDown s'
     | (None, s') \<Rightarrow> dm_forceExit s' = (if ex \<and> \<not> stuck_unguarded H s then Some (guard_time H ms) else None) \<and>
         dm_exit s' = dm_exit s \<and> dm_shuttingDown s'"
proof -
  obtain i s1 where id: "shutdown_id H (dm_worker s) (s\<lparr>dm_shuttingDown := True\<rparr>) = (Inr i, s1)"
    using shutdown_id_run by blast
  note steps = shutdown_steps [OF idle(1) id, of ex ms]
  obtain r2 s2 where intake: "stop_intake H i (dm_worker s) s1 = (r2, s2)" by fastforce
  note case2 = stop_intake_run [OF id, unfolded intake]
  show ?thesis
  proof (cases r2)
    case None
    define w where "w = dm_world s2"
    from None case2 have s2: "stuck_unguarded H s" "s2 = s\<lparr>dm_shuttingDown := True, dm_world := w\<rparr>" by (simp_all add: w_def)
    have "shutdown H ex None ms s = (None, s2)" by (simp add: steps pawait_def intake None)
    with s2 idle show ?thesis by simp
  next
    case (Some q)
    define w where "w = dm_world s2"
    define s3 where "s3 = (if ex then arm (guard_time H ms) s2 else s2)"
    from Some case2 obtain u where q: "q = Inr u" by (cases q) simp_all
    with Some case2 have s2: "\<not> stuck_unguarded H s" "s2 = s\<lparr>dm_shuttingDown := True, dm_world := w,
        dm_worker := map_option (\<lambda>inst. inst\<lparr>wi_heartbeat := False\<rparr>) (dm_worker s)\<rparr>"
      by (simp_all add: w_def)
    have run: "shutdown H ex None ms s = close_all H ex (dm_worker s) s3"
      by (simp add: steps pawait_def intake Some q s3_def prompt_def when_io_def)
    have "map_option wi_ref (dm_worker s3) = map_option wi_ref (dm_worker s)"
      by (cases "dm_worker s") (simp_all add: s3_def arm_def s2(2))
    note all = close_all_case [OF this, where H = H and ex = ex]
    have s3: "dm_exit s3 = dm_exit s" "dm_shuttingDown s3" "dm_forceExit s3 = (if ex then Some (guard_time H ms) else None)"
      by (simp_all add: s3_def arm_def s2(2) idle)
    obtain r s' where final: "close_all H ex (dm_worker s) s3 = (r, s')" by fastforce
    show ?thesis
    proof (cases r)
      case None
      with all s3 s2(1) show ?thesis by (simp add: run final)
    next
      case (Some v)
      with all s3 s2(1) show ?thesis by (cases v) (simp_all add: run final)
    qed
  qed
qed

lemma settled_close_connections:
  assumes "\<forall>c w. \<not> h_hangs H c w"
  shows "settled (close_connections H ex)"
  unfolding close_connections_def closeQueue_def closeRedisConnection_def
  using assms by (auto intro!: settled_intros)

lemma settled_shutdown:
  assumes "\<forall>c w. \<not> h_hangs H c w"
  shows "settled (shutdown H ex t ms)"
proof -
  have "settled (stop_intake H i wk)" for i wk
    unfolding stop_intake_def using assms by (auto intro!: settled_intros split: option.split)
  moreover have "settled (close_worker H inst)" for inst
    unfolding close_worker_def using assms by (auto intro!: settled_intros)
  ultimately show ?thesis unfolding shutdown_def using settled_close_connections [OF assms]
    by (auto intro!: settled_intros split: option.split)
qed

lemma shutdownServer_case:
  assumes "\<not> dm_shuttingDown s"
  shows "case shutdownServer H True targeted s of
       (Some r, s') \<Rightarrow> r = Inr () \<and> dm_exit s' = Some 0 \<and> dm_forceExit s' = None
     | (None, s') \<Rightarrow> dm_forceExit s' = Some 10000"
proof -
  define s1 where "s1 = arm 10000 (s\<lparr>dm_shuttingDown := True\<rparr>)"
  define s2 where "s2 = (if targeted \<or> dm_server s then s1\<lparr>dm_world := h_closeServer H (dm_world s1)\<rparr> else s1)"
  have run: "shutdownServer H True targeted s = (if (targeted \<or> dm_server s) \<and> h_hangs H CloseServerCall (dm_world s)
      then (None, s1) else close_connections H True s2)"
    using assms by (simp add: shutdownServer_def pawait_def prompt_def pwhen_def may_hang_def when_io_def s1_def s2_def arm_def)
  have "dm_forceExit s1 = Some 10000" "dm_forceExit s2 = Some 10000" by (simp_all add: s2_def s1_def arm_def)
  with close_connections_case [where H = H and ex = True and s = s2] show ?thesis
    unfolding run by (auto split: prod.splits option.splits sum.splits)
qed

text \<open>C28: how a shutdown ends. A worker's \<open>shutdown\<close> that returns has got rid of the module's
  worker, the queue and the shared Redis connection, has cleared its timer and, when it may, exits with
  code 0, whatever the calls it made answered. It throws only if the unguarded disconnection of the
  worker's own connection does. If it stays pending, one of the calls does, and the timer, set to the
  configured time, forces the exit with code 1, unless the call is one of the two made before the
  timer is set, the \<open>DRAINING\<close> update or the pause: then nothing ends the process. A second
  shutdown returns at once and does nothing in all cases. The shutdown of an API server sets its timer
  first: it exits with code 0, or with 1 by the timer.\<close>

theorem shutdown_outcome:
  assumes idle: "\<not> dm_shuttingDown s" "dm_forceExit s = None"
  shows "(case shutdown H ex None ms s of
       (Some (Inr u), s') \<Rightarrow> \<not> stuck_unguarded H s \<and> dm_worker s' = None \<and> \<not> dm_queue s' \<and> \<not> dm_sharedRedis s' \<and>
         dm_forceExit s' = None \<and> dm_exit s' = (if ex then Some 0 else dm_exit s)
     | (Some (Inl e), s') \<Rightarrow> (\<exists>n v v'. h_disconnectOwn H n v = (Inl e, v'))
     | (None, s') \<Rightarrow> (\<exists>c w. h_hangs H c w) \<and>
         dm_forceExit s' = (if ex \<and> \<not> stuck_unguarded H s then Some (guard_time H ms) else None) \<and>
         dm_exit (timer_fires s') = (if ex \<and> \<not> stuck_unguarded H s then Some 1 else dm_exit s)) \<and>
    shutdown H ex' None ms' (snd (shutdown H ex None ms s)) = (Some (Inr ()), snd (shutdown H ex None ms s)) \<and>
    (case shutdownServer H True targeted s of
       (Some r, s') \<Rightarrow> r = Inr () \<and> dm_exit s' = Some 0 \<and> dm_forceExit s' = None
     | (None, s') \<Rightarrow> dm_exit (timer_fires s') = Some 1)"
proof -
  obtain r s' where run: "shutdown H ex None ms s = (r, s')" by fastforce
  note c = shutdown_case [OF idle, where H = H and ex = ex and ms = ms, unfolded run]
  from c have busy: "dm_shuttingDown s'" by (auto split: option.splits sum.splits)
  have pending: "\<exists>c w. h_hangs H c w" if "r = None"
    using settledE [OF settled_shutdown run] that by blast
  have again: "shutdown H ex' None ms' s' = (Some (Inr ()), s')"
    using busy unfolding shutdown_def by (simp only: pawait_gets) (simp add: prompt_def)
  show ?thesis
    unfolding run using c pending again shutdownServer_case [OF idle(1), where H = H and targeted = targeted]
    by (auto simp: timer_fires_def split: option.splits sum.splits prod.splits)
qed

text \<open>A host whose database, queue and server answer at once, on the registry's list of entries, and
  one whose Redis does not answer at all.\<close>

definition sample_host :: "mem_entries host" where
  "sample_host =
     \<lparr>h_config = load_config (\<lambda>s. NaN) Map.empty,
      h_mongo = \<lparr>m_connect = (\<lambda>uri opts. ret ()), m_wait = (\<lambda>n w. w), m_disconnect = throw refused, m_readyState = (\<lambda>w. 1)\<rparr>,
      h_redis = mem_redis, h_process = sample_process, h_hangs = (\<lambda>c w. False), h_resolveId = (\<lambda>v w. (''w1'', w)),
      h_newClient = ret (), h_ping = ret ''PONG'', h_clientReady = (\<lambda>w. True), h_quit = throw refused,
      h_disconnect = ret (), h_newQueue = ret (), h_closeQueue = throw refused, h_queueCounts = ret JNull,
      h_newWorker = (\<lambda>n own. ret 1), h_waitReady = (\<lambda>r. ret ()), h_pause = (\<lambda>r. throw refused),
      h_closeWorker = (\<lambda>r. ret ()), h_quitOwn = (\<lambda>r. throw refused), h_disconnectOwn = (\<lambda>r. ret ()),
      h_listen = ret (), h_closeServer = (\<lambda>w. w)\<rparr>"

definition redis_down :: "mem_entries host" where
  "redis_down = sample_host\<lparr>h_hangs := (\<lambda>c w. c \<noteq> DisconnectCall \<and> c \<noteq> CloseServerCall)\<rparr>"

definition sample_daemon :: "mem_entries daemon" where
  "sample_daemon = \<lparr>dm_world = [], dm_sharedRedis = True, dm_queue = True,
     dm_worker = Some \<lparr>wi_ref = 1, wi_id = ''w1'', wi_concurrency = 2, wi_owns = True, wi_heartbeat = True\<rparr>,
     dm_server = True, dm_shuttingDown = False, dm_workerId = Some ''w1'', dm_forceExit = None, dm_exit = None\<rparr>"

theorem shutdown_outcome_witness:
  "(\<exists>s'. shutdown sample_host True None None sample_daemon = (Some (Inr ()), s') \<and> dm_worker s' = None \<and> dm_exit s' = Some 0) \<and>
   (\<exists>s'. shutdown redis_down True None None sample_daemon = (None, s') \<and> dm_exit (timer_fires s') = None) \<and>
   shutdown redis_down True None None (snd (shutdown redis_down True None None sample_daemon)) =
     (Some (Inr ()), snd (shutdown redis_down True None None sample_daemon))"
proof -
  have idle: "\<not> dm_shuttingDown sample_daemon" "dm_forceExit sample_daemon = None" by (simp_all add: sample_daemon_def)
  obtain r s1 where run: "shutdown sample_host True None None sample_daemon = (r, s1)" by fastforce
  obtain q s2 where down: "shutdown redis_down True None None sample_daemon = (q, s2)" by fastforce
  have "\<not> h_hangs sample_host c w" "h_disconnectOwn sample_host n v \<noteq> (Inl e, v')" for c w n v e v'
    by (simp_all add: sample_host_def)
  with shutdown_outcome [where H = sample_host and ex = True and ms = None, OF idle, THEN conjunct1] run
  have up: "r = Some (Inr ()) \<and> dm_worker s1 = None \<and> dm_exit s1 = Some 0"
    by (cases r) (auto split: sum.splits)
  have "stuck_unguarded redis_down sample_daemon" "h_disconnectOwn redis_down n v \<noteq> (Inl e, v')" for n v e v'
    by (simp_all add: stuck_unguarded_def shutdown_id_def sample_daemon_def redis_down_def sample_host_def)
  with shutdown_outcome [where H = redis_down and ex = True and ms = None, OF idle, THEN conjunct1] down
  have "q = None \<and> dm_exit (timer_fires s2) = dm_exit sample_daemon"
    by (cases q) (auto split: sum.splits)
  then have none: "q = None \<and> dm_exit (timer_fires s2) = None" by (simp add: sample_daemon_def)
  have "shutdown redis_down True None None s2 = (Some (Inr ()), s2)"
    using shutdown_outcome [where H = redis_down and ex = True and ms = None and ex' = True and ms' = None,
      OF idle, THEN conjunct2, THEN conjunct1] down by simp
  with up run down none show ?thesis by simp
qed

end
