(* ===== verification/App.thy ===== *)
theory App
  imports ApiGuards Lifecycle
begin

text \<open>
  The Express application (\<open>app.js\<close>) around the API: the correlation id
  (\<open>middleware/request-id.js\<close>), the trace context, the metrics hook, the CORS check, the operational
  endpoints, the mounted routers, and the error handler for whatever fails on the way.

  Parsing the body, the documentation router, and what Express shows of the matched route when a
  response is finished are parameters; security headers and request logging are left out.
\<close>

section \<open>State and environment\<close>

record 'w server =
  sv_daemon :: "'w daemon"
  sv_metrics :: metrics

text \<open>A request on the wire: \<open>ht_path\<close> are the decoded segments, \<open>ht_body\<close> the body parser's outcome.\<close>

record http =
  ht_method :: string
  ht_path :: "string list"
  ht_headers :: "string \<rightharpoonup> string"
  ht_query :: jsval
  ht_body :: "err + jsval"
  ht_ip :: string

record reply =
  hp_requestId :: string
  hp_instance :: string
  hp_traceparent :: "string option"
  hp_response :: response

record 'w app =
  ap_host :: "'w host"
  ap_api :: "'w api"
  ap_env :: environment
  ap_setting :: "string option"
  ap_apiInstanceId :: string
  ap_now :: "'w \<Rightarrow> nat"
  ap_hex :: "nat \<Rightarrow> ('w, string) io"
  ap_docker :: "('w, bool) io"
  ap_docs :: "http \<Rightarrow> response option"
  ap_uptime :: "'w \<Rightarrow> string"
  ap_rss :: "'w \<Rightarrow> string"
  ap_toFixed4 :: "rat \<Rightarrow> string"
  ap_queueCounts :: "('w, queue_counts option) io"
  ap_workers :: "('w, nat option) io"
  ap_finish :: "http \<Rightarrow> response \<Rightarrow> string \<times> string option \<times> string"

definition in_daemon :: "('w daemon, 'a) io \<Rightarrow> ('w server, 'a) io" where
  "in_daemon m = on_part sv_daemon (\<lambda>d s. s\<lparr>sv_daemon := d\<rparr>) m"

definition in_server :: "('w, 'a) io \<Rightarrow> ('w server, 'a) io" where
  "in_server m = in_daemon (in_process m)"

definition server_now :: "'w app \<Rightarrow> 'w server \<Rightarrow> nat" where
  "server_now A s = ap_now A (dm_world (sv_daemon s))"

section \<open>request-id.js\<close>

definition base36_digit :: "nat \<Rightarrow> char" where
  "base36_digit n = char_of (if n < 10 then 48 + n else 87 + n)"

fun base36 :: "nat \<Rightarrow> string" where
  "base36 n = (if n < 36 then [base36_digit n] else base36 (n div 36) @ [base36_digit (n mod 36)])"

declare base36.simps [simp del]

definition request_id :: "'w app \<Rightarrow> (string \<rightharpoonup> string) \<Rightarrow> ('w server, string) io" where
  "request_id A headers =
     (let fresh = await (gets (server_now A)) (\<lambda>t. await (in_server (ap_hex A 4)) (\<lambda>r.
            ret (''req_'' @ base36 t @ ''_'' @ r))) in
      case headers ''x-request-id'' of
        Some existingId \<Rightarrow>
          if js_trim existingId \<noteq> [] \<and> length existingId \<le> 128 then ret (js_trim existingId) else fresh
      | None \<Rightarrow> fresh)"

definition instance_id :: "'w app \<Rightarrow> string" where
  "instance_id A = nonempty (ap_setting A) (ap_apiInstanceId A)"

section \<open>CORS\<close>

definition allowedOrigins :: "environment \<Rightarrow> string list" where
  "allowedOrigins E =
     (if env_set E ''CORS_ORIGIN'' then map js_trim (js_split (CHR '','') (env_text E ''CORS_ORIGIN'' []))
      else [''http://localhost:5173'', ''http://127.0.0.1:5173'', ''http://localhost:3000'',
            ''http://localhost:5000'', ''http://127.0.0.1:5000''])"

definition origin_allowed :: "environment \<Rightarrow> string option \<Rightarrow> bool" where
  "origin_allowed E origin = (case origin of
     None \<Rightarrow> True
   | Some url \<Rightarrow> url = [] \<or> ''*'' \<in> set (allowedOrigins E) \<or> url \<in> set (allowedOrigins E))"

section \<open>Operational endpoints\<close>

definition health :: "'w app \<Rightarrow> ('w server, response) io" where
  "health A =
     await (gets (\<lambda>s. isConnected (h_mongo (ap_host A)) (dm_world (sv_daemon s)))) (\<lambda>dbConnected.
     await (in_server (nowIso (h_process (ap_host A)))) (\<lambda>t.
     ret \<lparr>rs_status = 200, rs_body = JObj [(''status'', JStr ''ok''), (''service'', JStr ''codearena-backend''),
       (''apiInstanceId'', JStr (instance_id A)),
       (''database'', JStr (if dbConnected then ''connected'' else ''disconnected'')), (''timestamp'', JStr t)]\<rparr>))"

text \<open>The execution check of the readiness probe: its status is \<open>healthy\<close> on every path.\<close>

definition execution_check :: "'w app \<Rightarrow> ('w server, readiness) io" where
  "execution_check A =
     try_catch
       (await (in_server (checkExecutionReadiness (a_backend (ap_api A)) (ap_env A ''EXECUTION_MODE'') (ap_docker A)))
         (\<lambda>rawCheck. ret (if rd_ready rawCheck then rawCheck
            else \<lparr>rd_ready = True, rd_mode = ''distributed-worker'', rd_details =
              Some ''Backend API has no Docker access; code execution is decoupled to distributed workers''\<rparr>)))
       (\<lambda>err. ret \<lparr>rd_ready = True, rd_mode = ''distributed-worker'',
          rd_details = Some ''Code execution decoupled to distributed worker tier''\<rparr>)"

definition json_text :: "string option \<Rightarrow> jsval" where
  "json_text s = (case s of Some t \<Rightarrow> JStr t | None \<Rightarrow> JUndefined)"

definition healthy_text :: "bool \<Rightarrow> jsval" where
  "healthy_text b = JStr (if b then ''healthy'' else ''unhealthy'')"

definition ready :: "'w app \<Rightarrow> ('w server, response) io" where
  "ready A =
     await (gets (\<lambda>s. isConnected (h_mongo (ap_host A)) (dm_world (sv_daemon s)))) (\<lambda>dbConnected.
     await (in_daemon (checkRedisReadiness (ap_host A))) (\<lambda>(redis, details).
     await (execution_check A) (\<lambda>exec.
     await (in_server (nowIso (h_process (ap_host A)))) (\<lambda>t.
     let isReady = dbConnected \<and> redis \<and> rd_ready exec in
     ret \<lparr>rs_status = (if isReady then 200 else 503), rs_body = JObj
       [(''status'', JStr (if isReady then ''ready'' else ''not_ready'')), (''service'', JStr ''codearena-backend''),
        (''apiInstanceId'', JStr (instance_id A)), (''timestamp'', JStr t),
        (''checks'', JObj
          [(''database'', JObj [(''status'', healthy_text dbConnected)]),
           (''execution'', JObj [(''status'', JStr ''healthy''), (''mode'', JStr (rd_mode exec)),
              (''details'', json_text (rd_details exec))]),
           (''redis'', JObj [(''status'', healthy_text redis), (''details'', json_text details)])])]\<rparr>))))"

definition or_none :: "('s, 'a option) io \<Rightarrow> ('s, 'a option) io" where
  "or_none m = try_catch m (\<lambda>err. ret None)"

definition metrics_page :: "'w app \<Rightarrow> ('w server, response) io" where
  "metrics_page A =
     await (or_none (in_server (ap_queueCounts A))) (\<lambda>qMetrics.
     await (or_none (in_server (ap_workers A))) (\<lambda>workers.
     await (gets (\<lambda>s. getMetrics (ap_uptime A (dm_world (sv_daemon s))) (ap_rss A (dm_world (sv_daemon s)))
         (ap_toFixed4 A) qMetrics workers (sv_metrics s))) (\<lambda>page.
     ret \<lparr>rs_status = 200, rs_body = JStr page\<rparr>)))"

section \<open>The application\<close>

text \<open>The request as the routers under \<open>/api/v1\<close> see it; \<open>HEAD\<close> is served by the \<open>GET\<close> routes.\<close>

definition routed :: "http \<Rightarrow> string list \<Rightarrow> jsval \<Rightarrow> string \<Rightarrow> string \<Rightarrow> request" where
  "routed h path body i tp =
     \<lparr>rq_method = (if ht_method h = ''HEAD'' then ''GET'' else ht_method h), rq_path = path,
      rq_authorization = ht_headers h ''authorization'', rq_query = ht_query h, rq_body = body,
      rq_ip = ht_ip h, rq_id = i, rq_traceparent = Some tp\<rparr>"

definition reads_page :: "http \<Rightarrow> string \<Rightarrow> bool" where
  "reads_page h name \<longleftrightarrow>
     (ht_method h = ''GET'' \<or> ht_method h = ''HEAD'') \<and> match_path [Lit name] (ht_path h) \<noteq> None"

definition api_path :: "string list \<Rightarrow> string list option" where
  "api_path p = (case p of
     a # v # rest \<Rightarrow> if js_lower a = ''api'' \<and> js_lower v = ''v1'' then Some rest else None
   | _ \<Rightarrow> None)"

text \<open>From the CORS check on; an allowed preflight request is answered by the library with 204.\<close>

definition dispatch :: "'w app \<Rightarrow> http \<Rightarrow> string \<Rightarrow> string \<Rightarrow> ('w server, response) io" where
  "dispatch A h i tp =
     (if \<not> origin_allowed (ap_env A) (ht_headers h ''origin'') then throw (plain_error ''Blocked by CORS policy'')
      else if ht_method h = ''OPTIONS'' then ret \<lparr>rs_status = 204, rs_body = JUndefined\<rparr>
      else case ht_body h of
        Inl e \<Rightarrow> throw e
      | Inr body \<Rightarrow>
          if reads_page h ''health'' then health A
          else if reads_page h ''ready'' then ready A
          else if reads_page h ''metrics'' then metrics_page A
          else case ap_docs A h of
            Some page \<Rightarrow> ret page
          | None \<Rightarrow> (case api_path (ht_path h) of
              Some path \<Rightarrow> in_server (serve (ap_api A) (routed h path body i tp))
            | None \<Rightarrow> ret notFound))"

definition answer :: "'w app \<Rightarrow> http \<Rightarrow> string \<Rightarrow> string \<Rightarrow> ('w server, response) io" where
  "answer A h i tp = try_catch (dispatch A h i tp) (\<lambda>e. ret (errorHandler i e))"

definition route_template :: "string \<times> string option \<times> string \<Rightarrow> string" where
  "route_template f = (case f of (baseUrl, routePath, path) \<Rightarrow> baseUrl @ nonempty routePath path)"

text \<open>The hook on the \<open>finish\<close> event of the response.\<close>

definition on_finish :: "'w app \<Rightarrow> http \<Rightarrow> nat \<Rightarrow> response \<Rightarrow> ('w server, unit) io" where
  "on_finish A h start r = modify_state (\<lambda>s. s\<lparr>sv_metrics := recordHttpRequest (ht_method h)
     (route_template (ap_finish A h r)) (rs_status r) (of_int (int (server_now A s) - int start)) (sv_metrics s)\<rparr>)"

definition failed_reply :: "'w app \<Rightarrow> string \<Rightarrow> err \<Rightarrow> reply" where
  "failed_reply A i e = \<lparr>hp_requestId = i, hp_instance = (if i = [] then [] else instance_id A),
     hp_traceparent = None, hp_response = errorHandler i e\<rparr>"

definition trace_headers :: "(string \<rightharpoonup> string) \<Rightarrow> jsval" where
  "trace_headers headers = JObj [(''traceparent'', json_text (headers ''traceparent'')),
     (''x-trace-id'', json_text (headers ''x-trace-id''))]"

definition respond :: "'w app \<Rightarrow> http \<Rightarrow> ('w server, reply) io" where
  "respond A h =
     try_catch
       (await (request_id A (ht_headers h)) (\<lambda>i.
        try_catch
          (await (in_server (extractOrCreateContext (ap_hex A) (trace_headers (ht_headers h)))) (\<lambda>ctx.
           await (gets (server_now A)) (\<lambda>start.
           await (answer A h i (traceparent ctx)) (\<lambda>r.
           await (on_finish A h start r) (\<lambda>_.
           ret \<lparr>hp_requestId = i, hp_instance = instance_id A, hp_traceparent = Some (traceparent ctx),
             hp_response = r\<rparr>)))))
          (\<lambda>e. ret (failed_reply A i e))))
       (\<lambda>e. ret (failed_reply A [] e))"

section \<open>Facts\<close>

lemma in_daemon_run: "in_daemon m s = (fst (m (sv_daemon s)), s\<lparr>sv_daemon := snd (m (sv_daemon s))\<rparr>)"
  by (simp add: in_daemon_def on_part_def split: prod.splits)

lemma keeps_in_daemon [keeps_intros]: "keeps sv_metrics (in_daemon m)"
  by (simp add: keeps_def in_daemon_run)

lemma keeps_in_server [keeps_intros]: "keeps sv_metrics (in_server m)"
  by (simp add: in_server_def keeps_in_daemon)

lemma keeps_dispatch [keeps_intros]: "keeps sv_metrics (dispatch A h i tp)"
  unfolding dispatch_def health_def ready_def execution_check_def metrics_page_def or_none_def Let_def
  by (auto intro!: keeps_intros split: sum.split option.split prod.split)

lemma keeps_answer: "keeps sv_metrics (answer A h i tp)"
  unfolding answer_def by (intro keeps_intros)

lemma answer_total: "\<exists>r s'. answer A h i tp s = (Inr r, s')"
  by (auto simp: answer_def try_catch_def split: prod.split sum.split)

lemma execution_check_total: "\<exists>x s'. execution_check A s = (Inr x, s')"
  by (auto simp: execution_check_def try_catch_def split: prod.split sum.split)

lemma sum_bump: "sum_list (map snd (bump k m)) = Suc (sum_list (map snd m))"
  by (induction m) (auto simp: bump_def)

text \<open>A server whose random numbers do not fail.\<close>

definition random_works :: "'w app \<Rightarrow> bool" where
  "random_works A \<longleftrightarrow> (\<forall>n w. \<exists>x w'. ap_hex A n w = (Inr x, w'))"

lemma in_server_run: "in_server m s = (fst (m (dm_world (sv_daemon s))),
    s\<lparr>sv_daemon := (sv_daemon s)\<lparr>dm_world := snd (m (dm_world (sv_daemon s)))\<rparr>\<rparr>)"
  by (simp add: in_server_def in_daemon_run in_process_run)

lemma request_id_ok:
  assumes "random_works A"
  shows "\<exists>i s'. request_id A hs s = (Inr i, s') \<and> i \<noteq> [] \<and>
    (\<forall>c. hs ''x-request-id'' = Some c \<and> js_trim c \<noteq> [] \<and> length c \<le> 128 \<longrightarrow> i = js_trim c)"
proof -
  obtain x w' where "ap_hex A 4 (dm_world (sv_daemon s)) = (Inr x, w')"
    using assms unfolding random_works_def by blast
  then show ?thesis
    by (cases "hs ''x-request-id''") (auto simp: request_id_def await_def in_server_run Let_def)
qed

lemma header_value_text: "header_value (trace_headers hs) \<noteq> Inl e"
  by (auto simp: header_value_def trace_headers_def json_text_def Let_def split: option.splits)

lemma trace_ok:
  assumes "random_works A"
  shows "\<exists>ctx w'. extractOrCreateContext (ap_hex A) (trace_headers hs) w = (Inr ctx, w')"
proof -
  obtain t where t: "header_value (trace_headers hs) = Inr t"
    using header_value_text by (cases "header_value (trace_headers hs)") auto
  obtain x w1 where x: "ap_hex A 16 w = (Inr x, w1)" using assms unfolding random_works_def by blast
  obtain y w2 where y: "ap_hex A 8 w1 = (Inr y, w2)" using assms unfolding random_works_def by blast
  show ?thesis
    by (auto simp: extractOrCreateContext_def t generateTraceId_def generateSpanId_def await_def x y split: option.split)
qed

lemma keeps_request_id: "keeps sv_metrics (request_id A hs)"
  unfolding request_id_def Let_def by (auto intro!: keeps_intros split: option.split)

lemma respond_run:
  assumes "random_works A"
  obtains i s1 ctx s2 r s3 where "request_id A (ht_headers h) s = (Inr i, s1)"
    and "in_server (extractOrCreateContext (ap_hex A) (trace_headers (ht_headers h))) s1 = (Inr ctx, s2)"
    and "answer A h i (traceparent ctx) s2 = (Inr r, s3)"
    and "respond A h s = (Inr \<lparr>hp_requestId = i, hp_instance = instance_id A,
        hp_traceparent = Some (traceparent ctx), hp_response = r\<rparr>, snd (on_finish A h (server_now A s2) r s3))"
proof -
  obtain i s1 where i: "request_id A (ht_headers h) s = (Inr i, s1)"
    using request_id_ok [OF assms] by blast
  obtain ctx w' where "extractOrCreateContext (ap_hex A) (trace_headers (ht_headers h)) (dm_world (sv_daemon s1)) = (Inr ctx, w')"
    using trace_ok [OF assms] by blast
  then obtain s2 where c: "in_server (extractOrCreateContext (ap_hex A) (trace_headers (ht_headers h))) s1 = (Inr ctx, s2)"
    by (simp add: in_server_run)
  obtain r s3 where r: "answer A h i (traceparent ctx) s2 = (Inr r, s3)"
    using answer_total by blast
  from i c r show thesis
    by (intro that) (simp_all add: respond_def try_catch_def await_def on_finish_def)
qed

section \<open>Properties\<close>

text \<open>A request whose handler settles and whose response is sent is counted once, whether the
  handler answers or throws (a handler that stays pending and a client that goes away are not
  modelled). The reply
  carries a non-empty correlation id (the client's own, trimmed, when it sent one of at most 128
  characters), and the request counters grow by one: the counter of the method, the route and the
  status that was sent.\<close>

theorem respond_counts_once:
  assumes "random_works A"
  shows "\<exists>p s'. respond A h s = (Inr p, s') \<and> hp_requestId p \<noteq> [] \<and>
    (\<forall>c. ht_headers h ''x-request-id'' = Some c \<and> js_trim c \<noteq> [] \<and> length c \<le> 128 \<longrightarrow> hp_requestId p = js_trim c) \<and>
    httpRequestsTotal (sv_metrics s') =
      bump (js_upper (ht_method h) @ ''|'' @ normalizeRoute (route_template (ap_finish A h (hp_response p))) [] [] @
        ''|'' @ show_int (rs_status (hp_response p))) (httpRequestsTotal (sv_metrics s)) \<and>
    sum_list (map snd (httpRequestsTotal (sv_metrics s'))) = Suc (sum_list (map snd (httpRequestsTotal (sv_metrics s))))"
proof -
  obtain i s1 ctx s2 r s3 where i: "request_id A (ht_headers h) s = (Inr i, s1)"
    and c: "in_server (extractOrCreateContext (ap_hex A) (trace_headers (ht_headers h))) s1 = (Inr ctx, s2)"
    and r: "answer A h i (traceparent ctx) s2 = (Inr r, s3)"
    and run: "respond A h s = (Inr \<lparr>hp_requestId = i, hp_instance = instance_id A,
        hp_traceparent = Some (traceparent ctx), hp_response = r\<rparr>, snd (on_finish A h (server_now A s2) r s3))"
    by (rule respond_run [OF assms])
  have "sv_metrics s3 = sv_metrics s"
    using keepsD [OF keeps_request_id i] keepsD [OF keeps_in_server c] keepsD [OF keeps_answer r] by simp
  moreover have "i \<noteq> [] \<and> (\<forall>c. ht_headers h ''x-request-id'' = Some c \<and> js_trim c \<noteq> [] \<and> length c \<le> 128 \<longrightarrow> i = js_trim c)"
    using request_id_ok [OF assms, of "ht_headers h" s] i by auto
  ultimately show ?thesis
    by (simp add: run on_finish_def recordHttpRequest_def Let_def sum_bump)
qed

text \<open>The readiness probe answers 200 exactly when the database is connected and Redis answers
  \<open>PONG\<close>, and 503 otherwise; the engine's own check never makes the server unready.\<close>

theorem ready_iff:
  assumes "ready A s = (Inr r, s')"
  shows "rs_status r = (if isConnected (h_mongo (ap_host A)) (dm_world (sv_daemon s)) \<and>
      (\<exists>d. fst (checkRedisReadiness (ap_host A) (sv_daemon s)) = Inr (True, d)) then 200 else 503)"
proof -
  have exec: "rd_ready x" if "execution_check A s1 = (Inr x, s2)" for x s1 s2
    using that by (auto simp: execution_check_def elim!: try_catch_cases await_cases split: if_splits)
  obtain q d0 where c: "checkRedisReadiness (ap_host A) (sv_daemon s) = (q, d0)" by fastforce
  show ?thesis
    using assms exec
    by (cases q) (auto simp: ready_def in_daemon_run c Let_def elim!: await_cases)
qed

text \<open>a request from an origin that is not allowed is answered by the error handler with status
  500 before any endpoint runs.\<close>

theorem foreign_origin_refused:
  assumes "\<not> origin_allowed (ap_env A) (ht_headers h ''origin'')"
  shows "answer A h i tp s = (Inr (errorHandler i (plain_error ''Blocked by CORS policy'')), s) \<and>
    rs_status (errorHandler i (plain_error ''Blocked by CORS policy'')) = 500"
  using assms
  by (simp add: answer_def dispatch_def try_catch_def errorHandler_def error_status_def own_status_def
      plain_error_def js_error_def)

section \<open>An application in memory\<close>

definition sample_app :: "world app" where
  "sample_app =
     \<lparr>ap_host = \<lparr>h_config = load_config (\<lambda>s. NaN) Map.empty,
        h_mongo = \<lparr>m_connect = (\<lambda>uri opts. ret ()), m_wait = (\<lambda>n w. w), m_disconnect = ret (), m_readyState = (\<lambda>w. 1)\<rparr>,
        h_redis = a_redis mem_api, h_process = a_process mem_api, h_hangs = (\<lambda>c w. False),
        h_resolveId = (\<lambda>v w. (''w1'', w)),
        h_newClient = ret (), h_ping = ret ''PONG'', h_clientReady = (\<lambda>w. True), h_quit = ret (),
        h_disconnect = ret (), h_newQueue = ret (), h_closeQueue = ret (), h_queueCounts = ret JNull,
        h_newWorker = (\<lambda>n own. ret 1), h_waitReady = (\<lambda>r. ret ()), h_pause = (\<lambda>r. ret ()),
        h_closeWorker = (\<lambda>r. ret ()), h_quitOwn = (\<lambda>r. ret ()), h_disconnectOwn = (\<lambda>r. ret ()),
        h_listen = ret (), h_closeServer = (\<lambda>w. w)\<rparr>,
      ap_api = mem_api, ap_env = Map.empty, ap_setting = None, ap_apiInstanceId = ''api-1'',
      ap_now = (\<lambda>w. 0), ap_hex = (\<lambda>n. ret (replicate (2 * n) (CHR ''a''))), ap_docker = ret False,
      ap_docs = (\<lambda>h. None), ap_uptime = (\<lambda>w. ''1''), ap_rss = (\<lambda>w. ''1''), ap_toFixed4 = (\<lambda>r. ''0.0000''),
      ap_queueCounts = ret None, ap_workers = ret None, ap_finish = (\<lambda>h r. ([], None, ''/nowhere''))\<rparr>"

definition sample_server :: "world server" where
  "sample_server = \<lparr>sv_daemon = \<lparr>dm_world = full_world, dm_sharedRedis = True, dm_queue = False, dm_worker = None,
     dm_server = True, dm_shuttingDown = False, dm_workerId = None,
     dm_forceExit = None, dm_exit = None\<rparr>, sv_metrics = resetMetrics\<rparr>"

definition sample_get :: "string list \<Rightarrow> http" where
  "sample_get path = \<lparr>ht_method = ''GET'', ht_path = path, ht_headers = [''x-request-id'' \<mapsto> '' r7 ''],
     ht_query = JObj [], ht_body = Inr JUndefined, ht_ip = ''::1''\<rparr>"

theorem respond_counts_once_witness:
  "\<exists>p s'. respond sample_app (sample_get [''nowhere'']) sample_server = (Inr p, s') \<and> hp_requestId p = ''r7'' \<and>
     sum_list (map snd (httpRequestsTotal (sv_metrics s'))) = 1"
proof -
  have "random_works sample_app" by (simp add: random_works_def sample_app_def)
  moreover have "ht_headers (sample_get [''nowhere'']) ''x-request-id'' = Some '' r7 ''" "js_trim '' r7 '' = ''r7''"
    by (simp_all add: sample_get_def, code_simp)
  ultimately show ?thesis
    using respond_counts_once [of sample_app "sample_get [''nowhere'']" sample_server]
    by (fastforce simp: sample_server_def resetMetrics_def)
qed

theorem ready_iff_witness:
  "\<exists>r s'. ready sample_app sample_server = (Inr r, s') \<and> rs_status r = 200"
proof -
  have c: "checkRedisReadiness (ap_host sample_app) (sv_daemon sample_server) = (Inr (True, None), sv_daemon sample_server)"
    by (simp add: checkRedisReadiness_def getRedisConnection_def await_def try_catch_def in_process_run
        sample_app_def sample_server_def)
  have clock: "nowIso (h_process (ap_host sample_app)) = ret ''t''" by (simp add: sample_app_def mem_api_def)
  obtain x s1 where "execution_check sample_app (snd (in_daemon (checkRedisReadiness (ap_host sample_app)) sample_server)) =
      (Inr x, s1)" using execution_check_total by blast
  then have "\<exists>r s'. ready sample_app sample_server = (Inr r, s')"
    by (simp add: ready_def await_def in_daemon_run in_server_run c clock Let_def)
  then obtain r s' where run: "ready sample_app sample_server = (Inr r, s')" by blast
  have "isConnected (h_mongo (ap_host sample_app)) (dm_world (sv_daemon sample_server))"
    by (simp add: isConnected_def sample_app_def)
  with ready_iff [OF run] run c show ?thesis by auto
qed

end
