(* ===== verification/Stack.thy ===== *)
theory Stack
  imports Client App
begin

text \<open>
  The browser and the server together: the network between \<open>Client\<close> and \<open>App\<close>, and what the
  composition of the two programs guarantees. JSON texts are identified with their values; path
  segments are sent without escapes, as ids and route names are.
\<close>

section \<open>The network\<close>

definition http_of :: "outgoing \<Rightarrow> http" where
  "http_of og = (let parts = js_split (CHR ''?'') (og_url og) in
     \<lparr>ht_method = og_method og,
      ht_path = tl (js_split (CHR ''/'') (hd parts)),
      ht_headers = (case og_token og of None \<Rightarrow> Map.empty | Some t \<Rightarrow> [''authorization'' \<mapsto> ''Bearer '' @ t]),
      ht_query = JObj (map (\<lambda>(k, v). (k, JStr v)) (parse_query (js_join ''?'' (tl parts)))),
      ht_body = Inr (og_body og), ht_ip = ''::1''\<rparr>)"

definition fetch_api :: "'w app \<Rightarrow> outgoing \<Rightarrow> ('w server, fetched) io" where
  "fetch_api A og = await (respond A (http_of og)) (\<lambda>p.
     ret \<lparr>ft_status = rs_status (hp_response p), ft_json = Some (rs_body (hp_response p))\<rparr>)"

definition api_net :: "'w app \<Rightarrow> (jsval \<Rightarrow> jsnum) \<Rightarrow> (jsnum \<Rightarrow> string) \<Rightarrow> 'w server net" where
  "api_net A toNumber numText =
     \<lparr>n_fetch = fetch_api A, n_baseUrl = ''/api/v1'', n_toNumber = toNumber, n_numText = numText\<rparr>"

text \<open>The documentation router answers under its own path only.\<close>

definition docs_apart :: "'w app \<Rightarrow> bool" where
  "docs_apart A \<longleftrightarrow> (\<forall>h p. ap_docs A h = Some p \<longrightarrow> (\<exists>rest. api_path (ht_path h) = Some (''docs'' # rest)))"

section \<open>A request of the browser\<close>

locale stack = api_host "ap_api A" view for A :: "'w app" and view :: "'w \<Rightarrow> db" +
  assumes random: "random_works A"
    and random_keeps: "keeps view (ap_hex A n)"
    and docs: "docs_apart A"
begin

abbreviation data_of :: "'w server \<Rightarrow> db" where
  "data_of s \<equiv> view (dm_world (sv_daemon s))"

lemma keeps_server: "keeps view m \<Longrightarrow> keeps data_of (in_server m)"
  by (auto simp: keeps_def in_server_run)

lemma keeps_context: "keeps data_of (in_server (extractOrCreateContext (ap_hex A) v))"
  by (rule keeps_server)
    (auto simp: extractOrCreateContext_def generateTraceId_def generateSpanId_def
      intro!: keeps_intros random_keeps split: sum.split option.split)

lemma keeps_id: "keeps data_of (request_id A hs)"
  unfolding request_id_def Let_def
  by (auto intro!: keeps_intros keeps_server random_keeps split: option.split)

lemma fetch_answer:
  assumes "fetch_api A og s = (Inr f, s')"
  obtains i tp s1 r s2 where "answer A (http_of og) i tp s1 = (Inr r, s2)" "data_of s1 = data_of s"
    "data_of s' = data_of s2" "f = \<lparr>ft_status = rs_status r, ft_json = Some (rs_body r)\<rparr>"
proof -
  obtain i s1 ctx s2 r s3 where i: "request_id A (ht_headers (http_of og)) s = (Inr i, s1)"
    and c: "in_server (extractOrCreateContext (ap_hex A) (trace_headers (ht_headers (http_of og)))) s1 = (Inr ctx, s2)"
    and r: "answer A (http_of og) i (traceparent ctx) s2 = (Inr r, s3)"
    and run: "respond A (http_of og) s = (Inr \<lparr>hp_requestId = i, hp_instance = instance_id A,
        hp_traceparent = Some (traceparent ctx), hp_response = r\<rparr>, snd (on_finish A (http_of og) (server_now A s2) r s3))"
    by (rule respond_run [OF random])
  have "data_of s2 = data_of s"
    using keepsD [OF keeps_id i] keepsD [OF keeps_context c] by simp
  moreover have "data_of s' = data_of s3" "f = \<lparr>ft_status = rs_status r, ft_json = Some (rs_body r)\<rparr>"
    using assms run by (auto simp: fetch_api_def await_def on_finish_def)
  ultimately show thesis by (rule that [OF r])
qed

lemma fetch_total: "\<exists>f s'. fetch_api A og s = (Inr f, s')"
proof -
  obtain p s' where "respond A (http_of og) s = (Inr p, s')"
    by (rule respond_run [OF random, of "http_of og" s]) blast
  then show ?thesis by (simp add: fetch_api_def await_def)
qed

lemma answer_api:
  assumes "api_path (ht_path h) = Some path" and "hd path \<noteq> ''docs''" and "path \<noteq> []"
    and "ht_headers h ''origin'' = None" and "ht_method h \<noteq> ''OPTIONS''" and "ht_body h = Inr body"
    and run: "answer A h i tp s = (Inr r, s')"
  shows "\<exists>w'. serve (ap_api A) (routed h path body i tp) (dm_world (sv_daemon s)) = (Inr r, w') \<and> data_of s' = view w'"
proof -
  have "ap_docs A h = None"
  proof (cases "ap_docs A h")
    case (Some p)
    then have "\<exists>rest. api_path (ht_path h) = Some (''docs'' # rest)" using docs unfolding docs_apart_def by blast
    with assms(1,2) show ?thesis by auto
  qed
  moreover have "\<not> reads_page h name" if "name \<noteq> []" for name
    using assms(1,3) by (auto simp: reads_page_def api_path_def split: list.splits if_splits)
  ultimately have d: "dispatch A h i tp = in_server (serve (ap_api A) (routed h path body i tp))"
    using assms(1,4-6) by (simp add: dispatch_def origin_allowed_def)
  obtain resp w' where s: "serve (ap_api A) (routed h path body i tp) (dm_world (sv_daemon s)) = (Inr resp, w')"
    using serve_answers [of "ap_api A" "routed h path body i tp" "dm_world (sv_daemon s)"] by blast
  with run show ?thesis by (auto simp: answer_def d in_server_run try_catch_def)
qed

lemma send_api:
  assumes "send (api_net A toNumber numText) meth endpoint body b = (Inr v, b')"
    and og: "og = \<lparr>og_method = meth, og_url = join_url ''/api/v1'' endpoint, og_token = stored_token b, og_body = json_sent body\<rparr>"
    and path: "api_path (ht_path (http_of og)) = Some path" "hd path \<noteq> ''docs''" "path \<noteq> []"
    and meth: "meth \<noteq> ''OPTIONS''"
  shows "\<exists>i tp w r w'. serve (ap_api A) (routed (http_of og) path (json_sent body) i tp) w = (Inr r, w') \<and>
    view w = data_of (br_world b) \<and> data_of (br_world b') = view w' \<and> v = rs_body r \<and>
    br_storage b' = br_storage b \<and> br_token b' = br_token b \<and> br_user b' = br_user b"
proof -
  from assms(1) obtain f s' where f: "fetch_api A og (br_world b) = (Inr f, s')"
    and b': "b' = b\<lparr>br_world := s'\<rparr>" and v: "v = default_to JNull (ft_json f)"
    by (auto simp: send_def og api_net_def over_net_def on_part_def Let_def
        elim!: await_cases try_catch_cases split: if_splits prod.splits)
  obtain i tp s1 r s2 where r: "answer A (http_of og) i tp s1 = (Inr r, s2)" "data_of s1 = data_of (br_world b)"
    "data_of s' = data_of s2" "f = \<lparr>ft_status = rs_status r, ft_json = Some (rs_body r)\<rparr>"
    using fetch_answer [OF f] by metis
  have h: "ht_headers (http_of og) ''origin'' = None" "ht_method (http_of og) \<noteq> ''OPTIONS''"
    "ht_body (http_of og) = Inr (json_sent body)"
    using meth by (auto simp: http_of_def og Let_def split: option.split)
  from answer_api [OF path h r(1)] obtain w' where
    "serve (ap_api A) (routed (http_of og) path (json_sent body) i tp) (dm_world (sv_daemon s1)) = (Inr r, w')" "data_of s2 = view w'"
    by blast
  with r v b' show ?thesis by fastforce
qed

end

section \<open>The two routes of a session\<close>

lemma lower_names:
  "js_lower ''api'' = ''api''" "js_lower ''v1'' = ''v1''" "js_lower ''auth'' = ''auth''" "js_lower ''login'' = ''login''"
  "js_lower ''users'' = ''users''" "js_lower ''me'' = ''me''"
  by code_simp+

lemma login_path: "api_path (ht_path (http_of \<lparr>og_method = m, og_url = join_url ''/api/v1'' ''/auth/login'', og_token = t, og_body = v\<rparr>)) =
    Some [''auth'', ''login'']"
  by (simp add: http_of_def join_url_def strip_slash_def js_starts_with_def api_path_def lower_names)

lemma me_path: "api_path (ht_path (http_of \<lparr>og_method = m, og_url = join_url ''/api/v1'' ''/users/me'', og_token = t, og_body = v\<rparr>)) =
    Some [''users'', ''me'']"
  by (simp add: http_of_def join_url_def strip_slash_def js_starts_with_def api_path_def lower_names)

lemma login_route: "find_route (routes cast) ''POST'' [''auth'', ''login''] = Some ([],
    [Limit ''login'' ''Too many login attempts. Please try again in 15 minutes.'', Check_body validateLogin], Login_user)"
  by (simp add: route_tables lower_names)

lemma me_route: "find_route (routes cast) ''GET'' [''users'', ''me''] = Some ([], [Authenticate], Get_me)"
  by (simp add: route_tables lower_names)

lemma errorHandler_no_data: "field (rs_body (errorHandler i e)) ''data'' = JUndefined"
  by (simp add: errorHandler_def)

lemma too_many_no_data: "field (rs_body (too_many m)) ''data'' = JUndefined"
  by (simp add: too_many_def)

lemma lower_ws: "is_ws (lower_char c) \<longleftrightarrow> is_ws c"
proof -
  have "code_unit c < 256" by (simp add: code_unit_def)
  then show ?thesis
    by (auto simp: is_ws_def lower_char_def Let_def code_unit_def)
qed

lemma lower_char_idem: "lower_char (lower_char c) = lower_char c"
proof -
  have "code_unit c < 256" by (simp add: code_unit_def)
  then show ?thesis
    by (auto simp: lower_char_def Let_def code_unit_def split: if_splits)
qed

lemma dropWhile_lower: "dropWhile is_ws (map lower_char s) = map lower_char (dropWhile is_ws s)"
  by (induction s) (simp_all add: lower_ws)

lemma trim_lower: "js_trim (js_lower s) = js_lower (js_trim s)"
  by (simp add: js_trim_def js_trim_end_def js_trim_start_def drop_tail_while_def js_lower_def
      dropWhile_lower rev_map)

lemma lower_idem: "js_lower (js_lower s) = js_lower s"
  by (simp add: js_lower_def lower_char_idem)

lemma normal_email_idem: "js_lower (js_trim (js_lower (js_trim s))) = js_lower (js_trim s)"
  by (simp add: trim_lower lower_idem)

lemma serve_route:
  assumes "find_route (routes (castId (a_auth B))) (rq_method rq) (rq_path rq) = Some (ps, gs, oper)"
    and "serve B rq w = (Inr r, w')" and "field (rs_body r) ''data'' \<noteq> JUndefined"
  obtains x w1 where "run_guards B rq gs \<lparr>cx_user = None, cx_params = ps, cx_body = rq_body rq\<rparr> w = (Inr x, w1)"
    and "(case x of Inl r \<Rightarrow> ret r | Inr c \<Rightarrow> handle B rq c oper) w1 = (Inr r, w')"
  using assms
  by (auto simp: serve_def errorHandler_no_data elim!: try_catch_cases await_cases [where k = "\<lambda>x. case x of Inl r \<Rightarrow> ret r | Inr c \<Rightarrow> handle B rq c oper"])

context stack
begin

lemma limited_same: "a_limited (ap_api A) n k w = (x, w1) \<Longrightarrow> view w1 = view w"
  by (rule keepsD [OF limited_keeps])

lemma serve_login_data:
  assumes run: "serve (ap_api A) rq w = (Inr r, w')"
    and rq: "rq_method rq = ''POST''" "rq_path rq = [''auth'', ''login'']"
      "rq_body rq = JObj [(''email'', JStr email), (''password'', JStr password)]"
    and data: "field (rs_body r) ''data'' \<noteq> JUndefined"
  shows "\<exists>u tok w1. login (a_backend (ap_api A)) (a_auth (ap_api A)) (js_lower (js_trim email)) password w1 = (Inr (u, tok), w') \<and>
    view w1 = view w \<and> rs_body r = JObj [(''success'', JBool True), (''data'', JObj [(''user'', u), (''token'', JStr tok)])]"
proof -
  let ?c = "\<lparr>cx_user = None, cx_params = [], cx_body = rq_body rq\<rparr>"
  note f = trans [OF arg_cong2 [where f = "find_route (routes (castId (a_auth (ap_api A))))", OF rq(1,2)] login_route]
  obtain x w1 where g: "run_guards (ap_api A) rq (Limit ''login'' ''Too many login attempts. Please try again in 15 minutes.'' #
        [Check_body validateLogin]) ?c w = (Inr x, w1)"
    and k: "(case x of Inl r \<Rightarrow> ret r | Inr c \<Rightarrow> handle (ap_api A) rq c Login_user) w1 = (Inr r, w')"
    by (rule serve_route [OF f run data])
  from g obtain blocked w2 where lm: "a_limited (ap_api A) ''login'' (limit_key ''login'' rq ?c) w = (Inr blocked, w2)"
    and g2: "(if blocked then ret (Inl (too_many ''Too many login attempts. Please try again in 15 minutes.''))
      else run_guards (ap_api A) rq [Check_body validateLogin] ?c) w2 = (Inr x, w1)"
    by (auto elim!: await_cases split: if_splits)
  from g2 k data have nb: "\<not> blocked" by (auto simp: too_many_no_data)
  with g2 obtain v where v: "validateLogin (rq_body rq) = Inr v" and x: "x = Inr (?c\<lparr>cx_body := v\<rparr>)" and w12: "w1 = w2"
    by (auto elim!: await_cases split: sum.splits)
  have w1: "view w1 = view w" unfolding w12 by (rule limited_same [OF lm])
  from v have b: "v = JObj [(''email'', JStr (js_lower (js_trim email))), (''password'', JStr password)]"
    by (auto simp: validateLogin_def rq(3) split: if_splits)
  from k obtain u tok where "login (a_backend (ap_api A)) (a_auth (ap_api A)) (js_lower (js_trim email)) password w1 = (Inr (u, tok), w')"
    "rs_body r = JObj [(''success'', JBool True), (''data'', JObj [(''user'', u), (''token'', JStr tok)])]"
    by (auto simp: x handle_def auth_controller_def b text_of_def success_def Let_def elim!: await_cases)
  with w1 show ?thesis by (intro exI [of _ u] exI [of _ tok] exI [of _ w1]) simp
qed

lemma serve_me_data:
  assumes run: "serve (ap_api A) rq w = (Inr r, w')"
    and rq: "rq_method rq = ''GET''" "rq_path rq = [''users'', ''me'']"
    and data: "field (rs_body r) ''data'' \<noteq> JUndefined"
  shows "\<exists>u. authenticate (a_backend (ap_api A)) (a_auth (ap_api A)) (rq_authorization rq) w = (Inr u, w') \<and>
    rs_body r = JObj [(''success'', JBool True), (''data'', set_field ''user'' (toSafeUser u) (toSafeUser u))]"
proof -
  let ?c = "\<lparr>cx_user = None, cx_params = [], cx_body = rq_body rq\<rparr>"
  from run data obtain x w1 where g: "run_guards (ap_api A) rq [Authenticate] ?c w = (Inr x, w1)"
    and k: "(case x of Inl r \<Rightarrow> ret r | Inr c \<Rightarrow> handle (ap_api A) rq c Get_me) w1 = (Inr r, w')"
    using serve_route [OF _ run data, of "[]"] me_route rq by metis
  then show ?thesis
    by (auto simp: handle_def user_controller_def signed_in_def success_def elim!: await_cases)
qed

lemma serve_login_limited:
  assumes "a_limited (ap_api A) ''login'' (limit_key ''login'' rq \<lparr>cx_user = None, cx_params = [], cx_body = rq_body rq\<rparr>) w =
      (Inr True, w')"
    and rq: "rq_method rq = ''POST''" "rq_path rq = [''auth'', ''login'']"
  shows "serve (ap_api A) rq w = (Inr (too_many ''Too many login attempts. Please try again in 15 minutes.''), w')"
  using assms(1) by (simp add: serve_def rq login_route try_catch_def await_def)

lemma login_over_net:
  assumes "session_login (api_net A toNumber numText) email password b = (Inr x, b1)"
  shows "\<exists>tok w1 w2. login (a_backend (ap_api A)) (a_auth (ap_api A)) (js_lower (js_trim email)) password w1 = (Inr (x, tok), w2) \<and>
    view w1 = data_of (br_world b) \<and> data_of (br_world b1) = view w2 \<and>
    br_storage b1 = Some tok \<and> br_token b1 = JStr tok \<and> br_user b1 = x"
proof -
  let ?N = "api_net A toNumber numText"
  let ?body = "JObj [(''email'', JStr email), (''password'', JStr password)]"
  from assms obtain v b0 data token where s: "send ?N ''POST'' ''/auth/login'' ?body b = (Inr v, b0)"
    and d: "data = field v ''data''" "data \<noteq> JUndefined" "token = field data ''token''" "x = field data ''user''"
    and b1: "b1 = b0\<lparr>br_storage := Some (js_text numText token), br_user := x, br_token := token\<rparr>"
    by (auto simp: session_login_def authService_login_def api_post_def prop_of_def set_session_def api_net_def
        elim!: await_cases split: if_splits)
  from send_api [OF s refl login_path] obtain i tp w r w' where
    r: "serve (ap_api A) (routed (http_of \<lparr>og_method = ''POST'', og_url = join_url ''/api/v1'' ''/auth/login'',
        og_token = stored_token b, og_body = ?body\<rparr>) [''auth'', ''login''] ?body i tp) w = (Inr r, w')"
    and w: "view w = data_of (br_world b)" "data_of (br_world b0) = view w'" "v = rs_body r"
    by auto
  from serve_login_data [OF r] d w(3) obtain u tok w1 where
    "login (a_backend (ap_api A)) (a_auth (ap_api A)) (js_lower (js_trim email)) password w1 = (Inr (u, tok), w')"
    "view w1 = view w" "rs_body r = JObj [(''success'', JBool True), (''data'', JObj [(''user'', u), (''token'', JStr tok)])]"
    by (auto simp: routed_def http_of_def Let_def)
  with d w b1 show ?thesis by auto
qed

lemma me_over_net:
  assumes "authService_getMe (api_net A toNumber numText) b = (Inr y, b1)"
  shows "\<exists>u w w'. authenticate (a_backend (ap_api A)) (a_auth (ap_api A)) (map_option ((@) ''Bearer '') (stored_token b)) w = (Inr u, w') \<and>
    view w = data_of (br_world b) \<and> y = toSafeUser u"
proof -
  let ?N = "api_net A toNumber numText"
  from assms obtain v data where s: "send ?N ''GET'' ''/users/me'' JUndefined b = (Inr v, b1)"
    and d: "data = field v ''data''" "data \<noteq> JUndefined" "y = js_or (field data ''user'') data"
    by (auto simp: authService_getMe_def api_get_def prop_of_def elim!: await_cases split: if_splits)
  from send_api [OF s refl me_path] obtain i tp w r w' where
    r: "serve (ap_api A) (routed (http_of \<lparr>og_method = ''GET'', og_url = join_url ''/api/v1'' ''/users/me'',
        og_token = stored_token b, og_body = JUndefined\<rparr>) [''users'', ''me''] JUndefined i tp) w = (Inr r, w')"
    and w: "view w = data_of (br_world b)" "v = rs_body r"
    by auto
  from serve_me_data [OF r] d w(2) obtain u where
    "authenticate (a_backend (ap_api A)) (a_auth (ap_api A)) (map_option ((@) ''Bearer '') (stored_token b)) w = (Inr u, w')"
    "rs_body r = JObj [(''success'', JBool True), (''data'', set_field ''user'' (toSafeUser u) (toSafeUser u))]"
    by (cases "stored_token b") (auto simp: routed_def http_of_def Let_def)
  moreover from this d w(2) have "y = toSafeUser u"
    by (simp add: js_or_def field_set_field toSafeUser_def split: jsval.split)
  ultimately show ?thesis using w(1) by blast
qed

lemma login_limited:
  assumes "\<forall>k w. \<exists>w'. a_limited (ap_api A) ''login'' k w = (Inr True, w')"
  shows "\<exists>e b1. session_login (api_net A toNumber numText) email password b = (Inl e, b1) \<and>
    emessage e = ''[object Object]''"
proof -
  let ?N = "api_net A toNumber numText"
  let ?body = "JObj [(''email'', JStr email), (''password'', JStr password)]"
  let ?og = "\<lparr>og_method = ''POST'', og_url = join_url ''/api/v1'' ''/auth/login'', og_token = stored_token b, og_body = ?body\<rparr>"
  let ?m = "''Too many login attempts. Please try again in 15 minutes.''"
  obtain f s' where f: "fetch_api A ?og (br_world b) = (Inr f, s')" using fetch_total by blast
  obtain i tp s1 r s2 where r: "answer A (http_of ?og) i tp s1 = (Inr r, s2)"
    and fr: "f = \<lparr>ft_status = rs_status r, ft_json = Some (rs_body r)\<rparr>"
    using fetch_answer [OF f] by metis
  have h: "ht_headers (http_of ?og) ''origin'' = None" "ht_method (http_of ?og) \<noteq> ''OPTIONS''" "ht_body (http_of ?og) = Inr ?body"
    by (auto simp: http_of_def Let_def split: option.split)
  from answer_api [OF login_path _ _ h r] obtain w' where
    sv: "serve (ap_api A) (routed (http_of ?og) [''auth'', ''login''] ?body i tp) (dm_world (sv_daemon s1)) = (Inr r, w')"
    by auto
  have "rq_method (routed (http_of ?og) [''auth'', ''login''] ?body i tp) = ''POST''"
    "rq_path (routed (http_of ?og) [''auth'', ''login''] ?body i tp) = [''auth'', ''login'']"
    by (simp_all add: routed_def http_of_def Let_def)
  note rq = this
  let ?rq = "routed (http_of ?og) [''auth'', ''login''] ?body i tp"
  obtain w2 where lm: "a_limited (ap_api A) ''login'' (limit_key ''login'' ?rq \<lparr>cx_user = None, cx_params = [],
      cx_body = rq_body ?rq\<rparr>) (dm_world (sv_daemon s1)) = (Inr True, w2)"
    using assms by blast
  have "r = too_many ?m" using serve_login_limited [OF lm rq] sv by simp
  then have fm: "f = \<lparr>ft_status = 429, ft_json = Some (rs_body (too_many ?m))\<rparr>" by (simp add: fr too_many_def)
  have "response_error ?N 429 (rs_body (too_many ?m)) = plain_error ''[object Object]''"
    by (simp add: response_error_def too_many_def js_or_def)
  then have "send ?N ''POST'' ''/auth/login'' ?body b = (Inl (plain_error ''[object Object]''), b\<lparr>br_world := s'\<rparr>)"
    using f fm by (simp add: send_def api_net_def over_net_def on_part_def await_def try_catch_def Let_def
        plain_error_def js_error_def)
  then show ?thesis
    by (simp add: session_login_def authService_login_def api_post_def await_def plain_error_def js_error_def)
qed

end

section \<open>Properties\<close>


text \<open>a limited login is not explained to the user: when the login limiter blocks the request,
  the form's error is the text of the error object instead of its message.\<close>

theorem limited_login_message:
  assumes "stack A view"
    and "\<forall>k w. \<exists>w'. a_limited (ap_api A) ''login'' k w = (Inr True, w')"
  shows "\<exists>e b1. session_login (api_net A toNumber numText) email password b = (Inl e, b1) \<and>
    emessage e = ''[object Object]''"
  using stack.login_limited [OF assms] by blast


section \<open>The stack in memory\<close>

definition login_server :: "world server" where
  "login_server = sample_server\<lparr>sv_daemon := (sv_daemon sample_server)\<lparr>dm_world := login_world\<rparr>\<rparr>"

definition sample_net :: "world app \<Rightarrow> world server net" where
  "sample_net A = api_net A (\<lambda>v. NaN) (\<lambda>n. ''1'')"

definition sample_browser :: "world server browser" where
  "sample_browser = initial_session None login_server"

interpretation mem_stack: stack sample_app world_view
proof (intro stack.intro stack_axioms.intro)
  show "api_host (ap_api sample_app) world_view"
    using mem_serves.api_host_axioms by (simp add: sample_app_def)
qed (simp_all add: random_works_def sample_app_def docs_apart_def keeps_intros)

lemma sample_visit:
  obtains x b1 y b2 where "session_login (sample_net sample_app) '' ANN@x.org'' ''secret-1'' sample_browser = (Inr x, b1)"
    "authService_getMe (sample_net sample_app) b1 = (Inr y, b2)"
proof -
  have "(case session_login (sample_net sample_app) '' ANN@x.org'' ''secret-1'' sample_browser of
      (Inr x, b1) \<Rightarrow> (case authService_getMe (sample_net sample_app) b1 of (Inr y, b2) \<Rightarrow> True | _ \<Rightarrow> False) | _ \<Rightarrow> False)"
    by code_simp
  then show thesis by (auto split: prod.splits sum.splits intro: that)
qed


definition limited_app :: "world app" where
  "limited_app = sample_app\<lparr>ap_api := mem_api\<lparr>a_limited := (\<lambda>n k. ret True)\<rparr>\<rparr>"

interpretation limited_stack: stack limited_app world_view
proof (intro stack.intro stack_axioms.intro api_host.intro api_host_axioms.intro)
  show "credentials (a_backend (ap_api limited_app)) world_view (a_auth (ap_api limited_app))"
    using plain.credentials_axioms by (simp add: limited_app_def)
qed (simp_all add: random_works_def limited_app_def sample_app_def docs_apart_def keeps_intros)

theorem limited_login_message_witness:
  "\<exists>e b1. session_login (sample_net limited_app) ''ann@x.org'' ''secret-1'' sample_browser = (Inl e, b1) \<and>
    emessage e = ''[object Object]''"
  unfolding sample_net_def
  by (rule limited_login_message [OF limited_stack.stack_axioms]) (simp add: limited_app_def ret_def)

end
