(* ===== verification/ProblemPage.thy ===== *)
theory ProblemPage
  imports Client Models
begin

text \<open>
  The data of the problem page (\<open>frontend/src/pages/ProblemDetails.jsx\<close>): its showcase catalogue,
  the choice of the problem that is shown and of the one that submissions go to, the starting
  text of the editor, and the previous and next links. The description of the first catalogue
  entry is an element of the page, not a text, and is left out.
\<close>

section \<open>The catalogue\<close>

definition js_lines :: "string list \<Rightarrow> string" where
  "js_lines ls = js_join [CHR 0x0A] ls"

definition two_sum :: jsval where
  "two_sum = JObj
    [(''id'', JStr ''two-sum''),
     (''displayId'', js_int 1),
     (''title'', JStr ''Two Sum''),
     (''difficulty'', JStr ''Easy''),
     (''topic'', JStr ''Arrays''),
     (''tags'', JArr [JStr ''Array'', JStr ''Hash Map'']),
     (''acceptance'', JStr ''52.3%''),
     (''submissionsCount'', JStr ''124.6K''),
     (''examples'', JArr
      [JObj [(''input'', JStr ''nums = [2,7,11,15], target = 9''), (''output'', JStr ''[0,1]''), (''explanation'', JStr ''Because nums[0] + nums[1] == 9, we return [0, 1].'')],
       JObj [(''input'', JStr ''nums = [3,2,4], target = 6''), (''output'', JStr ''[1,2]'')],
       JObj [(''input'', JStr ''nums = [3,3], target = 6''), (''output'', JStr ''[0,1]'')]]),
     (''constraints'', JArr [JStr ''2 <= nums.length <= 10^4'', JStr ''-10^9 <= nums[i] <= 10^9'', JStr ''-10^9 <= target <= 10^9'', JStr ''Only one valid answer exists.'']),
     (''testCases'', JArr
      [JObj [(''id'', js_int 1), (''input'', JStr (js_lines
      [''nums = [2,7,11,15]'',
       ''target = 9''])), (''expectedOutput'', JStr ''[0,1]''), (''rawInput'', JStr (js_lines
      [''4 9'',
       ''2 7 11 15'',
       []]))],
       JObj [(''id'', js_int 2), (''input'', JStr (js_lines
      [''nums = [3,2,4]'',
       ''target = 6''])), (''expectedOutput'', JStr ''[1,2]''), (''rawInput'', JStr (js_lines
      [''3 6'',
       ''3 2 4'',
       []]))],
       JObj [(''id'', js_int 3), (''input'', JStr (js_lines
      [''nums = [3,3]'',
       ''target = 6''])), (''expectedOutput'', JStr ''[0,1]''), (''rawInput'', JStr (js_lines
      [''2 6'',
       ''3 3'',
       []]))]]),
     (''starterCode'', JObj [(''CPP'', JStr (js_lines
      [''#include <bits/stdc++.h>'',
       ''using namespace std;'',
       [],
       ''class Solution {'',
       ''public:'',
       ''    vector<int> twoSum(vector<int>& nums, int target) {'',
       ''        // Write your code here'',
       ''        '',
       ''    }'',
       ''};''])), (''PYTHON'', JStr (js_lines
      [''class Solution:'',
       ''    def twoSum(self, nums: list[int], target: int) -> list[int]:'',
       ''        # Write your code here'',
       ''        pass''])), (''JAVASCRIPT'', JStr (js_lines
      [''/**'',
       '' * @param {number[]} nums'',
       '' * @param {number} target'',
       '' * @return {number[]}'',
       '' */'',
       ''var twoSum = function(nums, target) {'',
       ''    // Write your code here'',
       ''};'']))])]"

definition valid_parentheses :: jsval where
  "valid_parentheses = JObj
    [(''id'', JStr ''valid-parentheses''),
     (''displayId'', js_int 2),
     (''title'', JStr ''Valid Parentheses''),
     (''difficulty'', JStr ''Easy''),
     (''topic'', JStr ''Strings''),
     (''tags'', JArr [JStr ''Stack'', JStr ''String'']),
     (''acceptance'', JStr ''48.7%''),
     (''submissionsCount'', JStr ''98.4K''),
     (''description'', JStr (js_lines
      [''Given a string s containing just the characters '(', ')', '{', '}', '[' and ']', determine if the input string is valid.'',
       [],
       ''An input string is valid if:'',
       ''1. Open brackets must be closed by the same type of brackets.'',
       ''2. Open brackets must be closed in the correct order.'',
       ''3. Every close bracket has a corresponding open bracket of the same type.''])),
     (''examples'', JArr
      [JObj [(''input'', JStr ''s = \"()\"''), (''output'', JStr ''true'')],
       JObj [(''input'', JStr ''s = \"()[]{}\"''), (''output'', JStr ''true'')],
       JObj [(''input'', JStr ''s = \"(]\"''), (''output'', JStr ''false'')]]),
     (''constraints'', JArr [JStr ''1 <= s.length <= 10^4'', JStr ''s consists of parentheses only \"()[]{}\"'']),
     (''testCases'', JArr
      [JObj [(''id'', js_int 1), (''input'', JStr ''s = \"()\"''), (''expectedOutput'', JStr ''true''), (''rawInput'', JStr (js_lines
      [''()'',
       []]))],
       JObj [(''id'', js_int 2), (''input'', JStr ''s = \"()[]{}\"''), (''expectedOutput'', JStr ''true''), (''rawInput'', JStr (js_lines
      [''()[]{}'',
       []]))],
       JObj [(''id'', js_int 3), (''input'', JStr ''s = \"(]\"''), (''expectedOutput'', JStr ''false''), (''rawInput'', JStr (js_lines
      [''(]'',
       []]))]]),
     (''starterCode'', JObj [(''CPP'', JStr (js_lines
      [''#include <bits/stdc++.h>'',
       ''using namespace std;'',
       [],
       ''class Solution {'',
       ''public:'',
       ''    bool isValid(string s) {'',
       ''        // Write your code here'',
       ''        '',
       ''    }'',
       ''};''])), (''PYTHON'', JStr (js_lines
      [''class Solution:'',
       ''    def isValid(self, s: str) -> bool:'',
       ''        # Write your code here'',
       ''        pass''])), (''JAVASCRIPT'', JStr (js_lines
      [''/**'',
       '' * @param {string} s'',
       '' * @return {boolean}'',
       '' */'',
       ''var isValid = function(s) {'',
       ''    // Write your code here'',
       ''};'']))])]"

text \<open>The starting text of the editor for a problem without one.\<close>

definition default_code :: "string \<Rightarrow> jsval" where
  "default_code language =
     (if language = ''CPP'' then JStr (js_lines
      [''#include <bits/stdc++.h>'',
       ''using namespace std;'',
       [],
       ''class Solution {'',
       ''public:'',
       ''    void solve() {'',
       ''        // Write your solution here'',
       ''    }'',
       ''};'',
       [],
       ''int main() {'',
       ''    ios_base::sync_with_stdio(false);'',
       ''    cin.tie(NULL);'',
       ''    Solution s;'',
       ''    s.solve();'',
       ''    return 0;'',
       ''}''])
      else if language = ''PYTHON'' then JStr (js_lines
      [''import sys'',
       [],
       ''class Solution:'',
       ''    def solve(self):'',
       ''        # Write your solution here'',
       ''        pass'',
       [],
       ''if __name__ == '__main__':'',
       ''    s = Solution()'',
       ''    s.solve()''])
      else JStr (js_lines
      [''const fs = require('fs');'',
       [],
       ''function solve() {'',
       ''    // Write your solution here'',
       ''}'',
       [],
       ''solve();'']))"

definition CATALOG_PROBLEMS :: "jsval list" where
  "CATALOG_PROBLEMS = [two_sum, valid_parentheses]"

text \<open>The text of the editor after a change of the problem or the language.\<close>

definition starter_code :: "jsval \<Rightarrow> string \<Rightarrow> jsval" where
  "starter_code problem language = js_or (field (field problem ''starterCode'') language) (default_code language)"

section \<open>Titles\<close>

text \<open>\<open>s.replace(/\s+/g, '-')\<close>.\<close>

function dash_spaces :: "string \<Rightarrow> string" where
  "dash_spaces [] = []"
| "dash_spaces (c # s) = (if is_ws c then CHR ''-'' # dash_spaces (dropWhile is_ws s) else c # dash_spaces s)"
  by pat_completeness auto

termination
  by (relation "measure length") (auto simp: le_imp_less_Suc length_dropWhile_le)

definition title_slug :: "string \<Rightarrow> string" where
  "title_slug t = dash_spaces (js_lower t)"

definition title_key :: "string \<Rightarrow> string" where
  "title_key t = js_trim (js_lower t)"

text \<open>\<open>v.m(...)\<close> for a method of strings.\<close>

definition as_text :: "jsval \<Rightarrow> string \<Rightarrow> ('s, string) io" where
  "as_text v meth = (case v of JStr s \<Rightarrow> ret s
     | _ \<Rightarrow> await (prop_of v meth) (\<lambda>_. throw (js_error ''TypeError'' (meth @ '' is not a function''))))"

definition text_at :: "jsval \<Rightarrow> string \<Rightarrow> ('s, string) io" where
  "text_at v k = await (prop_of v k) (\<lambda>t. as_text t ''toLowerCase'')"

text \<open>\<open>v.title?.toLowerCase().trim()\<close>.\<close>

definition key_optional :: "jsval \<Rightarrow> ('s, string option) io" where
  "key_optional t = (if t = JUndefined \<or> t = JNull then ret None
     else await (as_text t ''toLowerCase'') (\<lambda>s. ret (Some (title_key s))))"

fun find_js :: "('a \<Rightarrow> ('s, bool) io) \<Rightarrow> 'a list \<Rightarrow> ('s, 'a option) io" where
  "find_js P [] = ret None"
| "find_js P (x # xs) = await (P x) (\<lambda>ok. if ok then ret (Some x) else find_js P xs)"

definition items :: "jsval \<Rightarrow> ('s, jsval list) io" where
  "items v = (case v of JArr vs \<Rightarrow> ret vs
     | _ \<Rightarrow> await (prop_of v ''find'') (\<lambda>_. throw (js_error ''TypeError'' ''find is not a function'')))"

definition named :: "string \<Rightarrow> jsval \<Rightarrow> ('s, bool) io" where
  "named problemId p = await (prop_of p ''id'') (\<lambda>i.
     if i = JStr problemId then ret True
     else await (text_at p ''title'') (\<lambda>t. ret (title_slug t = problemId)))"

definition entitled :: "string \<Rightarrow> jsval \<Rightarrow> ('s, bool) io" where
  "entitled key p = await (text_at p ''title'') (\<lambda>t. ret (title_key t = key))"

section \<open>loadData\<close>

definition is_object_id :: "string \<Rightarrow> bool" where
  "is_object_id s \<longleftrightarrow> length s = 24 \<and> list_all is_hex s"

text \<open>\<open>matchedCatalog?.k\<close> and \<open>{...p, k: v}\<close>.\<close>

definition of_match :: "jsval option \<Rightarrow> string \<Rightarrow> jsval" where
  "of_match m k = (case m of Some c \<Rightarrow> field c k | None \<Rightarrow> JUndefined)"

definition spread :: "jsval \<Rightarrow> (string \<times> jsval) list \<Rightarrow> jsval" where
  "spread p kvs = foldl (\<lambda>v (k, x). set_field k x v) (case p of JObj fs \<Rightarrow> JObj fs | _ \<Rightarrow> JObj []) kvs"

definition first_of :: "jsval \<Rightarrow> jsval" where
  "first_of v = (case v of JArr (x # _) \<Rightarrow> x | JStr (c # _) \<Rightarrow> JStr [c] | _ \<Rightarrow> JUndefined)"

definition capital :: "string \<Rightarrow> string" where
  "capital s = (case s of [] \<Rightarrow> [] | c # r \<Rightarrow> upper_char c @ r)"

definition topic_of :: "jsval \<Rightarrow> ('s, jsval) io" where
  "topic_of p = (let tag = first_of (field p ''tags'') in
     if truthy tag then await (as_text tag ''charAt'') (\<lambda>t. ret (JStr (capital t))) else ret (JStr ''Algorithms''))"

definition split_constraints :: "jsval \<Rightarrow> jsval option \<Rightarrow> ('s, jsval) io" where
  "split_constraints p matched = (let c = field p ''constraints'' in
     if truthy c then await (as_text c ''split'') (\<lambda>t. ret (JArr (map JStr (js_split (CHR 0x0A) t))))
     else ret (js_or (of_match matched ''constraints'') (JArr [])))"

fun example_cases :: "int \<Rightarrow> jsval list \<Rightarrow> ('s, jsval list) io" where
  "example_cases i [] = ret []"
| "example_cases i (ex # exs) =
     await (prop_of ex ''input'') (\<lambda>inp.
     await (prop_of ex ''output'') (\<lambda>out.
     await (example_cases (i + 1) exs) (\<lambda>rest.
     ret (JObj [(''id'', js_int (i + 1)), (''input'', inp), (''expectedOutput'', out), (''rawInput'', inp)] # rest))))"

definition cases_of :: "jsval \<Rightarrow> jsval option \<Rightarrow> ('s, jsval) io" where
  "cases_of p matched = (let tcs = of_match matched ''testCases''; exs = field p ''examples'' in
     if truthy tcs then ret tcs
     else if exs = JUndefined \<or> exs = JNull then ret (JArr [])
     else await (items exs) (\<lambda>xs. await (example_cases 0 xs) (\<lambda>cs. ret (JArr cs))))"

definition rich_problem :: "jsval \<Rightarrow> jsval option \<Rightarrow> jsval \<Rightarrow> string \<Rightarrow> string \<Rightarrow> ('s, jsval) io" where
  "rich_problem p matched topic acceptance submissions =
     await (split_constraints p matched) (\<lambda>constraints.
     await (cases_of p matched) (\<lambda>testCases.
     ret (spread p
       [(''topic'', topic),
        (''acceptance'', js_or (of_match matched ''acceptance'') (JStr acceptance)),
        (''submissionsCount'', js_or (of_match matched ''submissionsCount'') (JStr submissions)),
        (''examples'', js_or (js_or (field p ''examples'') (of_match matched ''examples'')) (JArr [])),
        (''constraints'', constraints), (''testCases'', testCases),
        (''starterCode'', js_or (of_match matched ''starterCode'') JNull)])))"

text \<open>\<open>realDb ? realDb.id : allList[0]?.id\<close>.\<close>

definition real_id :: "jsval option \<Rightarrow> jsval list \<Rightarrow> jsval" where
  "real_id realDb allList = (case realDb of Some p \<Rightarrow> field p ''id''
     | None \<Rightarrow> (case allList of [] \<Rightarrow> JUndefined | p # _ \<Rightarrow> field p ''id''))"

definition showcase :: "jsval \<Rightarrow> string \<Rightarrow> jsval list \<Rightarrow> ('s, jsval) io" where
  "showcase entry key allList = await (find_js (entitled key) allList) (\<lambda>realDb.
     ret (spread entry [(''realId'', real_id realDb allList)]))"

definition choose_problem :: "string \<Rightarrow> jsval \<Rightarrow> jsval \<Rightarrow> ('s, jsval) io" where
  "choose_problem problemId problems fetchedProblem =
     await (find_js (named problemId) CATALOG_PROBLEMS) (\<lambda>slugMatch.
     await (items problems) (\<lambda>allList.
     await (find_js (named problemId) allList) (\<lambda>listMatch.
     if truthy fetchedProblem then
       await (key_optional (field fetchedProblem ''title'')) (\<lambda>key.
       await (find_js (\<lambda>cp. await (text_at cp ''title'') (\<lambda>t. ret (Some (title_key t) = key))) CATALOG_PROBLEMS) (\<lambda>matched.
       await (if truthy (of_match matched ''topic'') then ret (of_match matched ''topic'') else topic_of fetchedProblem) (\<lambda>topic.
       rich_problem fetchedProblem matched topic ''52.3%'' ''124.6K'')))
     else case slugMatch of
       Some entry \<Rightarrow> await (text_at entry ''title'') (\<lambda>t. showcase entry (title_key t) allList)
     | None \<Rightarrow> (case listMatch of
         Some p \<Rightarrow>
           await (text_at p ''title'') (\<lambda>t.
           await (find_js (entitled (title_key t)) CATALOG_PROBLEMS) (\<lambda>matched.
           rich_problem p matched (js_or (of_match matched ''topic'') (JStr ''Algorithms'')) ''45.0%'' ''15.2K''))
       | None \<Rightarrow> showcase two_sum ''two sum'' allList))))"

record loaded =
  ld_backend :: "jsval option"
  ld_problem :: "jsval option"

definition loadData :: "'w net \<Rightarrow> string \<Rightarrow> ('w browser, loaded) io" where
  "loadData N problemId =
     await (try_catch (await (problemService_getProblems N (JObj [])) (\<lambda>l. ret (Some l))) (\<lambda>_. ret None)) (\<lambda>backend.
     await (if is_object_id problemId then try_catch (problemService_getProblemById N problemId) (\<lambda>_. ret JNull)
            else ret JNull) (\<lambda>fetchedProblem.
     await (try_catch
         (await (choose_problem problemId (default_to (JArr []) backend) fetchedProblem) (\<lambda>p. ret (Some p)))
         (\<lambda>_. ret None)) (\<lambda>problem.
     ret \<lparr>ld_backend = backend, ld_problem = problem\<rparr>)))"

definition targetProblemId :: "jsval \<Rightarrow> jsval" where
  "targetProblemId problem = js_or (field problem ''realId'') (field problem ''id'')"

section \<open>Editor and navigation\<close>

text \<open>The Tab key over a selection: the new text and the caret.\<close>

definition tab_key :: "nat \<Rightarrow> nat \<Rightarrow> string \<Rightarrow> string \<times> nat" where
  "tab_key start stop val = (take start val @ ''    '' @ drop stop val, start + 4)"

definition lineCount :: "string \<Rightarrow> nat" where
  "lineCount sourceCode = length (js_split (CHR 0x0A) sourceCode)"

text \<open>
  The previous and the next problem: the first entry of the list that is the problem of the page
  (by its id, or by its title when both have none or the same), and its neighbour.
\<close>

definition title_key_of :: "jsval \<Rightarrow> string option" where
  "title_key_of p = (case field p ''title'' of JStr t \<Rightarrow> Some (title_key t) | _ \<Rightarrow> None)"

fun find_index :: "('a \<Rightarrow> bool) \<Rightarrow> 'a list \<Rightarrow> nat option" where
  "find_index P [] = None"
| "find_index P (x # xs) = (if P x then Some 0 else map_option Suc (find_index P xs))"

definition link_of :: "(jsnum \<Rightarrow> string) \<Rightarrow> jsval \<Rightarrow> string" where
  "link_of numText p = js_text numText (js_or (js_or (field p ''id'') (field p ''slug''))
     (case field p ''title'' of JStr t \<Rightarrow> JStr (title_slug t) | _ \<Rightarrow> JUndefined))"

definition handleNavProblem :: "(jsnum \<Rightarrow> string) \<Rightarrow> string \<Rightarrow> jsval list \<Rightarrow> string \<Rightarrow> jsval \<Rightarrow> string option" where
  "handleNavProblem numText direction backendProblems problemId problem =
     (let l = (if backendProblems \<noteq> [] then backendProblems else CATALOG_PROBLEMS) in
      case find_index (\<lambda>p. field p ''id'' = JStr problemId \<or> title_key_of p = title_key_of problem) l of
        None \<Rightarrow> None
      | Some i \<Rightarrow>
          if direction = ''next'' then if Suc i < length l then Some (link_of numText (l ! Suc i)) else None
          else if 0 < i then Some (link_of numText (l ! (i - 1))) else None)"

section \<open>Facts on the choice\<close>

definition text_in :: "jsval \<Rightarrow> string \<Rightarrow> string" where
  "text_in p k = (case field p k of JStr s \<Rightarrow> s | _ \<Rightarrow> [])"

text \<open>The entries of a list answer: objects with an id and a title.\<close>

definition summary :: "jsval \<Rightarrow> bool" where
  "summary p \<longleftrightarrow> (\<exists>fs. p = JObj fs) \<and> field p ''id'' = JStr (text_in p ''id'') \<and> text_in p ''id'' \<noteq> [] \<and>
     field p ''title'' = JStr (text_in p ''title'') \<and> field p ''realId'' = JUndefined"

lemma find_js_pure:
  "(\<And>x. x \<in> set xs \<Longrightarrow> P x s = (Inr (p x), s)) \<Longrightarrow> find_js P xs s = (Inr (find p xs), s)"
  by (induction xs) (simp_all add: await_def)

lemma prop_of_object: "summary p \<Longrightarrow> prop_of p k = ret (field p k)"
  by (auto simp: summary_def prop_of_def)

lemma named_summary: "summary p \<Longrightarrow> named pid p = ret (text_in p ''id'' = pid \<or> title_slug (text_in p ''title'') = pid)"
  by (auto simp: named_def prop_of_object text_at_def as_text_def summary_def await_def)

lemma entitled_summary: "summary p \<Longrightarrow> entitled key p = ret (title_key (text_in p ''title'') = key)"
  by (auto simp: entitled_def prop_of_object text_at_def as_text_def summary_def await_def)

lemma find_summaries:
  assumes "list_all summary l"
  shows "find_js (named pid) l s = (Inr (find (\<lambda>p. text_in p ''id'' = pid \<or> title_slug (text_in p ''title'') = pid) l), s)"
    and "find_js (entitled key) l s = (Inr (find (\<lambda>p. title_key (text_in p ''title'') = key) l), s)"
  using assms by (auto intro!: find_js_pure simp: named_summary entitled_summary list_all_iff)

lemma field_foldl_set:
  "field (foldl (\<lambda>v (k, x). set_field k x v) (JObj fs) kvs) j = (case map_of (rev kvs) j of Some x \<Rightarrow> x | None \<Rightarrow> field (JObj fs) j)"
proof (induction kvs arbitrary: fs)
  case (Cons kv kvs)
  obtain k x where kv: "kv = (k, x)" by force
  show ?case by (simp add: kv Cons map_add_def split: option.split)
qed simp

lemma field_spread:
  "p = JObj fs \<Longrightarrow> field (spread p kvs) j = (case map_of (rev kvs) j of Some x \<Rightarrow> x | None \<Rightarrow> field p j)"
  by hypsubst (simp add: spread_def field_foldl_set del: field.simps)

lemma catalogue_fields:
  "field two_sum ''id'' = JStr ''two-sum''" "field two_sum ''title'' = JStr ''Two Sum''"
  "field valid_parentheses ''id'' = JStr ''valid-parentheses''" "field valid_parentheses ''title'' = JStr ''Valid Parentheses''"
  "field two_sum ''realId'' = JUndefined" "field valid_parentheses ''realId'' = JUndefined"
  by (simp_all add: two_sum_def valid_parentheses_def)

lemma catalogue_objects: "\<exists>fs. two_sum = JObj fs" "\<exists>fs. valid_parentheses = JObj fs"
  by (simp_all add: two_sum_def valid_parentheses_def)

lemma catalogue_summaries: "list_all summary CATALOG_PROBLEMS"
  using catalogue_objects by (simp add: CATALOG_PROBLEMS_def summary_def text_in_def catalogue_fields)

lemma catalogue_slugs: "title_slug ''Two Sum'' = ''two-sum''" "title_slug ''Valid Parentheses'' = ''valid-parentheses''"
  by code_simp+

lemma not_in_catalogue:
  "pid \<notin> {''two-sum'', ''valid-parentheses''} \<Longrightarrow> find_js (named pid) CATALOG_PROBLEMS s = (Inr None, s)"
  unfolding find_summaries [OF catalogue_summaries]
  by (auto simp: CATALOG_PROBLEMS_def text_in_def catalogue_fields catalogue_slugs)

lemma rich_problem_ids:
  assumes "rich_problem p matched topic acc n s = (Inr q, s')" and "p = JObj fs"
  shows "field q ''id'' = field p ''id'' \<and> field q ''realId'' = field p ''realId''"
  using assms by (auto simp: rich_problem_def field_spread elim!: await_cases)

lemma showcase_summary:
  assumes "list_all summary l" and "entry = JObj fs"
  shows "showcase entry key l s =
    (Inr (spread entry [(''realId'', real_id (find (\<lambda>p. title_key (text_in p ''title'') = key) l) l)]), s)"
  by (simp add: showcase_def await_def find_summaries(2) [OF assms(1)])

lemma list_match_target:
  assumes "list_all summary l" and "pid \<notin> {''two-sum'', ''valid-parentheses''}"
    and "find (\<lambda>p. text_in p ''id'' = pid \<or> title_slug (text_in p ''title'') = pid) l = Some p"
    and "choose_problem pid (JArr l) JNull s = (Inr q, s')"
  shows "targetProblemId q = field p ''id''"
proof -
  have p: "summary p" using assms(1,3) by (auto simp: find_Some_iff list_all_length)
  then obtain fs where fs: "p = JObj fs" by (auto simp: summary_def)
  from assms(4) obtain matched topic s1 where "rich_problem p matched topic ''45.0%'' ''15.2K'' s1 = (Inr q, s')"
    by (auto simp: choose_problem_def await_def not_in_catalogue [OF assms(2)] items_def find_summaries(1) [OF assms(1)] assms(3)
        split: prod.splits sum.splits)
  from rich_problem_ids [OF this fs] p show ?thesis
    by (auto simp: targetProblemId_def summary_def js_or_def)
qed

lemma fetched_target:
  assumes "fetched = JObj fs" and "choose_problem pid problems fetched s = (Inr q, s')"
  shows "targetProblemId q = targetProblemId fetched"
proof -
  have "truthy fetched" by (simp add: assms(1))
  with assms(2) obtain matched topic s1 where "rich_problem fetched matched topic ''52.3%'' ''124.6K'' s1 = (Inr q, s')"
    by (auto simp: choose_problem_def elim!: await_cases)
  from rich_problem_ids [OF this assms(1)] show ?thesis by (simp add: targetProblemId_def)
qed

section \<open>Properties\<close>

lemma object_id_no_slug: "is_object_id pid \<Longrightarrow> pid \<notin> {''two-sum'', ''valid-parentheses''}"
  by (auto simp: is_object_id_def)

text \<open>C14: the page of a listed problem submits to that problem, with one exception. The page was
  loaded for an object id that the backend lists. When the request for the problem itself succeeds
  and names that id, a submission is sent with that id, whatever the titles are. When that request
  fails, the page falls back on the list, and a submission is sent with the id of the first listed
  problem whose id is the one asked for or whose title, in lower case and with dashes for spaces,
  spells it: this is the id asked for as soon as no listed title spells it.\<close>

theorem known_problem_target:
  assumes "problemService_getProblems N (JObj []) b = (Inr (JArr l), b1)" and "list_all summary l"
    and "is_object_id pid" and "\<exists>p\<in>set l. text_in p ''id'' = pid"
    and "\<forall>v b2. problemService_getProblemById N pid b1 = (Inr v, b2) \<longrightarrow>
      (\<exists>fs. v = JObj fs) \<and> field v ''id'' = JStr pid \<and> field v ''realId'' = JUndefined"
    and "loadData N pid b = (Inr r, b')" and "ld_problem r = Some q"
  shows "(\<forall>v b2. problemService_getProblemById N pid b1 = (Inr v, b2) \<longrightarrow> targetProblemId q = JStr pid) \<and>
    (\<forall>e b2. problemService_getProblemById N pid b1 = (Inl e, b2) \<longrightarrow>
      (\<exists>i<length l. (text_in (l ! i) ''id'' = pid \<or> title_slug (text_in (l ! i) ''title'') = pid) \<and>
        (\<forall>j<i. text_in (l ! j) ''id'' \<noteq> pid \<and> title_slug (text_in (l ! j) ''title'') \<noteq> pid) \<and>
        targetProblemId q = JStr (text_in (l ! i) ''id''))) \<and>
    ((\<forall>p\<in>set l. title_slug (text_in p ''title'') \<noteq> pid) \<longrightarrow> targetProblemId q = JStr pid)"
proof -
  let ?P = "\<lambda>p. text_in p ''id'' = pid \<or> title_slug (text_in p ''title'') = pid"
  obtain fetched b2 where "(if is_object_id pid then try_catch (problemService_getProblemById N pid) (\<lambda>_. ret JNull)
      else ret JNull) b1 = (Inr fetched, b2)"
    and q: "choose_problem pid (JArr l) fetched b2 = (Inr q, b')"
    using assms(6,7) by (auto simp: loadData_def assms(1) elim!: await_cases try_catch_cases)
  then have f: "try_catch (problemService_getProblemById N pid) (\<lambda>_. ret JNull) b1 = (Inr fetched, b2)"
    using assms(3) by simp
  have ok: "targetProblemId q = JStr pid" if "problemService_getProblemById N pid b1 = (Inr v, b3)" for v b3
  proof -
    have v: "(\<exists>fs. v = JObj fs) \<and> targetProblemId v = JStr pid"
      using assms(5) that by (fastforce simp: targetProblemId_def js_or_def)
    have "fetched = v" using f that by (simp add: try_catch_def)
    with v fetched_target q show ?thesis by metis
  qed
  have failed: "\<exists>i<length l. ?P (l ! i) \<and> (\<forall>j<i. \<not> ?P (l ! j)) \<and> targetProblemId q = JStr (text_in (l ! i) ''id'')"
    if "problemService_getProblemById N pid b1 = (Inl e, b3)" for e b3
  proof -
    have "fetched = JNull" using f that by (simp add: try_catch_def)
    have "find ?P l \<noteq> None" using assms(4) by (auto simp: find_None_iff)
    then obtain p where p: "find ?P l = Some p" by auto
    then obtain i where i: "i < length l" "?P (l ! i)" "p = l ! i" "\<forall>j<i. \<not> ?P (l ! j)" by (auto simp: find_Some_iff)
    have "field p ''id'' = JStr (text_in p ''id'')"
      using assms(2) i(1,3) by (simp add: list_all_length summary_def)
    then have "targetProblemId q = JStr (text_in (l ! i) ''id'')"
      using list_match_target [OF assms(2) object_id_no_slug [OF assms(3)] p] q \<open>fetched = JNull\<close> i(3) by simp
    with i show ?thesis by blast
  qed
  have "targetProblemId q = JStr pid" if no: "\<forall>p\<in>set l. title_slug (text_in p ''title'') \<noteq> pid"
  proof (cases "problemService_getProblemById N pid b1")
    case (Pair x b3)
    then show ?thesis using ok failed no by (cases x) (auto dest: nth_mem)
  qed
  with ok failed show ?thesis by blast
qed

text \<open>the page of a problem that does not exist shows another problem and submits to a third.
  When neither the backend nor the catalogue knows the id and the backend lists no Two Sum, the
  page shows Two Sum of the catalogue, and what is submitted there is sent to the first problem
  of the backend's list.\<close>

theorem unknown_problem_target:
  assumes "problemService_getProblems N (JObj []) b = (Inr (JArr (p # ps)), b1)" and "list_all summary (p # ps)"
    and "\<forall>x\<in>set (p # ps). text_in x ''id'' \<noteq> pid \<and> title_slug (text_in x ''title'') \<noteq> pid \<and>
      title_key (text_in x ''title'') \<noteq> ''two sum''"
    and "pid \<notin> {''two-sum'', ''valid-parentheses''}"
    and "is_object_id pid \<longrightarrow> (\<exists>e b2. problemService_getProblemById N pid b1 = (Inl e, b2))"
  shows "\<exists>r b' q. loadData N pid b = (Inr r, b') \<and> ld_problem r = Some q \<and> field q ''title'' = JStr ''Two Sum'' \<and>
    targetProblemId q = field p ''id''"
proof -
  obtain b2 where f: "(if is_object_id pid then try_catch (problemService_getProblemById N pid) (\<lambda>_. ret JNull)
      else ret JNull) b1 = (Inr JNull, b2)"
    using assms(5) by (cases "is_object_id pid") (auto simp: try_catch_def)
  obtain fs where fs: "two_sum = JObj fs" using catalogue_objects by blast
  have none: "find (\<lambda>x. text_in x ''id'' = pid \<or> title_slug (text_in x ''title'') = pid) (p # ps) = None"
    "find (\<lambda>x. title_key (text_in x ''title'') = ''two sum'') (p # ps) = None"
    using assms(3) unfolding find_None_iff by blast+
  let ?q = "spread two_sum [(''realId'', field p ''id'')]"
  have "choose_problem pid (JArr (p # ps)) JNull b2 = (Inr ?q, b2)"
    unfolding choose_problem_def
    by (simp add: await_def not_in_catalogue [OF assms(4)] items_def find_summaries(1) [OF assms(2)] none
        showcase_summary [OF assms(2) fs] real_id_def del: find_js.simps find.simps)
  then have "loadData N pid b = (Inr \<lparr>ld_backend = Some (JArr (p # ps)), ld_problem = Some ?q\<rparr>, b2)"
    using f by (simp add: loadData_def assms(1) await_def try_catch_def)
  moreover have "field ?q ''title'' = JStr ''Two Sum''" "targetProblemId ?q = field p ''id''"
    using assms(2) by (auto simp: field_spread [OF fs] catalogue_fields targetProblemId_def js_or_def summary_def)
  ultimately show ?thesis by auto
qed

lemma find_index_nth: "i < length xs \<Longrightarrow> P (xs ! i) \<Longrightarrow> \<forall>j<i. \<not> P (xs ! j) \<Longrightarrow> find_index P xs = Some i"
proof (induction xs arbitrary: i)
  case (Cons x xs)
  show ?case
  proof (cases i)
    case (Suc j)
    have "\<not> P x" using Cons.prems(3) Suc by force
    moreover have "find_index P xs = Some j" by (rule Cons.IH) (use Cons.prems Suc in \<open>auto\<close>)
    ultimately show ?thesis by (simp add: Suc)
  qed (use Cons in simp)
qed simp

lemma page_index:
  assumes "list_all summary l" and "distinct (map (\<lambda>p. text_in p ''id'') l)"
    and "distinct (map (\<lambda>p. title_key (text_in p ''title'')) l)" and "i < length l"
  shows "find_index (\<lambda>p. field p ''id'' = JStr (text_in (l ! i) ''id'') \<or> title_key_of p = title_key_of (l ! i)) l = Some i"
proof (rule find_index_nth [OF assms(4)], simp, intro allI impI)
  fix j assume j: "j < i"
  have s: "summary (l ! k)" if "k < length l" for k using assms(1) that by (simp add: list_all_length)
  have "text_in (l ! j) ''id'' \<noteq> text_in (l ! i) ''id''" "title_key (text_in (l ! j) ''title'') \<noteq> title_key (text_in (l ! i) ''title'')"
    using assms(2-4) j by (auto simp: distinct_conv_nth)
  then show "\<not> (field (l ! j) ''id'' = JStr (text_in (l ! i) ''id'') \<or> title_key_of (l ! j) = title_key_of (l ! i))"
    using s [of i] s [of j] j assms(4) by (simp add: summary_def title_key_of_def)
qed

text \<open>the next link and the previous link are inverse: in a list with different ids and titles, the
  next link of a problem's page leads to the page of the problem after it, and the previous link
  of that page leads back.\<close>

theorem next_then_previous:
  assumes "list_all summary l" and "distinct (map (\<lambda>p. text_in p ''id'') l)"
    and "distinct (map (\<lambda>p. title_key (text_in p ''title'')) l)" and "Suc i < length l"
  shows "handleNavProblem numText ''next'' l (text_in (l ! i) ''id'') (l ! i) = Some (text_in (l ! Suc i) ''id'') \<and>
    handleNavProblem numText ''prev'' l (text_in (l ! Suc i) ''id'') (l ! Suc i) = Some (text_in (l ! i) ''id'')"
proof -
  have link: "link_of numText (l ! k) = text_in (l ! k) ''id''" if "k < length l" for k
    using assms(1) that by (auto simp: list_all_length summary_def link_of_def js_or_def)
  have "l \<noteq> []" using assms(4) by auto
  then show ?thesis
    using page_index [OF assms(1-3), of i] page_index [OF assms(1-3) assms(4)] assms(4)
    by (simp add: handleNavProblem_def link)
qed

section \<open>A backend with one problem\<close>

definition sample_entry :: jsval where
  "sample_entry = JObj [(''id'', JStr ''0123456789abcdef01234567''), (''title'', JStr ''Max Flow'')]"

definition one_problem :: "unit net" where
  "one_problem = answering 200 (JObj [(''data'', JObj [(''problems'', JArr [sample_entry]), (''problem'', sample_entry)])])"

lemma sample_entry_facts: "summary sample_entry" "text_in sample_entry ''id'' = ''0123456789abcdef01234567''"
    "text_in sample_entry ''title'' = ''Max Flow''"
  by (simp_all add: summary_def text_in_def sample_entry_def)

lemma sample_slug: "title_slug ''Max Flow'' = ''max-flow''" "title_key ''Max Flow'' = ''max flow''"
  by code_simp+

lemma one_problem_answers:
  "problemService_getProblems one_problem (JObj []) signed_in = (Inr (JArr [sample_entry]), signed_in)"
  "problemService_getProblemById one_problem ''0123456789abcdef01234567'' signed_in = (Inr sample_entry, signed_in)"
  by code_simp+

theorem known_problem_target_witness:
  "\<exists>r b q. loadData one_problem ''0123456789abcdef01234567'' signed_in = (Inr r, b) \<and> ld_problem r = Some q \<and>
     targetProblemId q = JStr ''0123456789abcdef01234567''"
proof -
  have "(case loadData one_problem ''0123456789abcdef01234567'' signed_in of (Inr r, b) \<Rightarrow> ld_problem r \<noteq> None | _ \<Rightarrow> False)"
    by code_simp
  then obtain r b q where run: "loadData one_problem ''0123456789abcdef01234567'' signed_in = (Inr r, b)" "ld_problem r = Some q"
    by (auto split: prod.splits sum.splits)
  have "is_object_id ''0123456789abcdef01234567''" by code_simp
  moreover have "\<exists>fs. sample_entry = JObj fs" "field sample_entry ''id'' = JStr ''0123456789abcdef01234567''"
    "field sample_entry ''realId'' = JUndefined"
    by (simp_all add: sample_entry_def)
  ultimately have "targetProblemId q = JStr ''0123456789abcdef01234567''"
    using known_problem_target [OF one_problem_answers(1) _ _ _ _ run] one_problem_answers(2) by (simp add: sample_entry_facts)
  with run show ?thesis by blast
qed

theorem unknown_problem_target_witness:
  "\<exists>r b q. loadData one_problem ''3sum'' signed_in = (Inr r, b) \<and> ld_problem r = Some q \<and>
     field q ''title'' = JStr ''Two Sum'' \<and> targetProblemId q = JStr ''0123456789abcdef01234567''"
proof -
  have "field sample_entry ''id'' = JStr ''0123456789abcdef01234567''" by (simp add: sample_entry_def)
  moreover have "\<not> is_object_id ''3sum''" by (simp add: is_object_id_def)
  ultimately show ?thesis
    using unknown_problem_target [OF one_problem_answers(1), of "''3sum''"] by (simp add: sample_entry_facts sample_slug)
qed

theorem next_then_previous_witness:
  "handleNavProblem (\<lambda>n. []) ''next'' CATALOG_PROBLEMS ''two-sum'' two_sum = Some ''valid-parentheses''"
proof -
  have "distinct (map (\<lambda>p. text_in p ''id'') CATALOG_PROBLEMS)" "distinct (map (\<lambda>p. title_key (text_in p ''title'')) CATALOG_PROBLEMS)"
    by code_simp+
  from next_then_previous [OF catalogue_summaries this, of 0 "\<lambda>n. []"] show ?thesis
    by (simp add: CATALOG_PROBLEMS_def text_in_def catalogue_fields)
qed

end
