(* ===== verification/ProblemList.thy ===== *)
theory ProblemList
  imports ProblemPage
begin

text \<open>
  The list of problems (\<open>frontend/src/pages/Problems.jsx\<close>): the showcase entries merged with the
  problems of the backend, the filters, the pages of the table, the bookmarks and the links. A
  problem of the backend whose title is not a text makes the merge throw, as in the page.
\<close>

section \<open>Rows\<close>

record row =
  ro_displayId :: nat
  ro_id :: jsval
  ro_title :: string
  ro_difficulty :: string
  ro_topics :: "string list"
  ro_extraTopicsCount :: nat
  ro_acceptance :: string
  ro_solvedCount :: string
  ro_company :: string
  ro_realProblem :: bool

definition showcase_row :: "nat \<Rightarrow> string \<Rightarrow> string \<Rightarrow> string list \<Rightarrow> nat \<Rightarrow> string \<Rightarrow> string \<Rightarrow> string \<Rightarrow> row" where
  "showcase_row n title difficulty topics extra acceptance solved company =
     \<lparr>ro_displayId = n, ro_id = JUndefined, ro_title = title, ro_difficulty = difficulty, ro_topics = topics,
      ro_extraTopicsCount = extra, ro_acceptance = acceptance, ro_solvedCount = solved, ro_company = company,
      ro_realProblem = False\<rparr>"

definition SHOWCASE_PROBLEMS :: "row list" where
  "SHOWCASE_PROBLEMS =
     [showcase_row 1 ''Two Sum'' ''Easy'' [''Array'', ''Hash Map''] 1 ''52.3%'' ''124.6K'' ''Google'',
      showcase_row 2 ''Valid Parentheses'' ''Easy'' [''Stack'', ''String''] 0 ''48.7%'' ''98.4K'' ''Amazon'',
      showcase_row 3 ''Merge Two Sorted Lists'' ''Easy'' [''Linked List'', ''Recursion''] 0 ''50.1%'' ''92.1K'' ''Microsoft'',
      showcase_row 4 ''Longest Substring Without Repeating Characters'' ''Medium''
        [''String'', ''Hash Map'', ''Sliding Window''] 0 ''36.2%'' ''78.5K'' ''Amazon'',
      showcase_row 5 ''median of Two Sorted Arrays'' ''Hard'' [''Array'', ''Binary Search'', ''Divide & Conquer''] 0
        ''32.1%'' ''64.2K'' ''Google'',
      showcase_row 6 ''Palindrome Number'' ''Easy'' [''Math'', ''String''] 0 ''55.6%'' ''110.4K'' ''Meta'',
      showcase_row 7 ''Reverse Linked List'' ''Easy'' [''Linked List'', ''Recursion''] 0 ''58.3%'' ''101.3K'' ''Apple'',
      showcase_row 8 ''Maximum Subarray'' ''Medium'' [''Array'', ''Dynamic Programming''] 0 ''44.9%'' ''86.7K'' ''Microsoft'',
      showcase_row 9 ''Climbing Stairs'' ''Easy'' [''Dynamic Programming'', ''Math''] 0 ''49.2%'' ''93.1K'' ''Amazon'',
      showcase_row 10 ''Trapping Rain Water'' ''Hard'' [''Array'', ''Two Pointers'', ''Stack''] 0 ''41.7%'' ''71.9K'' ''Google'']"

definition PAGE_SIZE :: nat where
  "PAGE_SIZE = 10"

definition TOTAL_PROBLEMS_COUNT :: nat where
  "TOTAL_PROBLEMS_COUNT = 532"

section \<open>The merge\<close>

fun map_js :: "('a \<Rightarrow> ('s, 'b) io) \<Rightarrow> 'a list \<Rightarrow> ('s, 'b list) io" where
  "map_js f [] = ret []"
| "map_js f (x # xs) = await (f x) (\<lambda>y. await (map_js f xs) (\<lambda>ys. ret (y # ys)))"

text \<open>\<open>t.replace('-', ' ')\<close>, and \<open>replace(/\b\w/g, upper)\<close>.\<close>

fun dash_to_space :: "string \<Rightarrow> string" where
  "dash_to_space [] = []"
| "dash_to_space (c # s) = (if c = CHR ''-'' then CHR '' '' # s else c # dash_to_space s)"

definition is_word :: "char \<Rightarrow> bool" where
  "is_word c \<longleftrightarrow> is_digit c \<or> (65 \<le> code_unit c \<and> code_unit c \<le> 90) \<or> (97 \<le> code_unit c \<and> code_unit c \<le> 122) \<or> c = CHR ''_''"

fun capital_words :: "bool \<Rightarrow> string \<Rightarrow> string" where
  "capital_words after [] = []"
| "capital_words after (c # s) = (if is_word c \<and> \<not> after then upper_char c else [c]) @ capital_words (is_word c) s"

definition shown_difficulty :: "jsval \<Rightarrow> ('s, string) io" where
  "shown_difficulty d = (if truthy d
     then await (as_text d ''charAt'') (\<lambda>s. ret (take 1 s @ js_lower (drop 1 s)))
     else ret ''Medium'')"

definition shown_topics :: "jsval \<Rightarrow> ('s, string list) io" where
  "shown_topics tags = (case tags of
     JArr (t # ts) \<Rightarrow> map_js (\<lambda>t. await (as_text t ''replace'') (\<lambda>s. ret (capital_words False (dash_to_space s)))) (t # ts)
   | JStr (c # s) \<Rightarrow> throw (js_error ''TypeError'' ''bp.tags.map is not a function'')
   | _ \<Rightarrow> ret [''Algorithms''])"

definition problem_key :: "jsval \<Rightarrow> ('s, string) io" where
  "problem_key p = await (text_at p ''title'') (\<lambda>t. ret (title_key t))"

definition merge_row :: "(string \<times> jsval) list \<Rightarrow> jsval list \<Rightarrow> row \<Rightarrow> row" where
  "merge_row titles backend sp = (case map_of (rev titles) (title_key (ro_title sp)) of
     Some found \<Rightarrow> sp\<lparr>ro_id := field found ''id'', ro_realProblem := True\<rparr>
   | None \<Rightarrow> sp\<lparr>ro_id := js_or (case backend of [] \<Rightarrow> JUndefined | p # _ \<Rightarrow> field p ''id'')
       (JStr (''showcase-'' @ show_int (int (ro_displayId sp)))), ro_realProblem := False\<rparr>)"

definition backend_row :: "nat \<times> jsval \<Rightarrow> ('s, row) io" where
  "backend_row ip = (let p = snd ip in
     await (text_at p ''title'') (\<lambda>t.
     await (shown_difficulty (field p ''difficulty'')) (\<lambda>d.
     await (shown_topics (field p ''tags'')) (\<lambda>ts.
     ret \<lparr>ro_displayId = length SHOWCASE_PROBLEMS + fst ip + 1, ro_id = field p ''id'', ro_title = t, ro_difficulty = d,
       ro_topics = ts, ro_extraTopicsCount = 0, ro_acceptance = ''45.0%'', ro_solvedCount = ''15.2K'',
       ro_company = ''CodeArena'', ro_realProblem = True\<rparr>))))"

definition allProblems :: "jsval list \<Rightarrow> ('s, row list) io" where
  "allProblems backend =
     await (map_js problem_key backend) (\<lambda>ks.
     let titles = zip ks backend;
         merged = map (merge_row titles backend) SHOWCASE_PROBLEMS;
         existing = set (map (\<lambda>r. title_key (ro_title r)) merged);
         rest = map snd (filter (\<lambda>kp. fst kp \<notin> existing) titles) in
     await (map_js backend_row (zip [0..<length rest] rest)) (\<lambda>additional. ret (merged @ additional)))"

section \<open>The page\<close>

record list_page =
  lp_activeNav :: string
  lp_searchQuery :: string
  lp_selectedDifficulty :: string
  lp_selectedTopic :: string
  lp_selectedCompany :: string
  lp_selectedStatus :: string
  lp_sortBy :: string
  lp_currentPage :: nat
  lp_bookmarkedIds :: "jsval set"

definition first_list_page :: list_page where
  "first_list_page = \<lparr>lp_activeNav = ''all'', lp_searchQuery = [], lp_selectedDifficulty = ''All'', lp_selectedTopic = ''All'',
     lp_selectedCompany = ''All'', lp_selectedStatus = ''All'', lp_sortBy = ''default'', lp_currentPage = 1, lp_bookmarkedIds = {}\<rparr>"

definition some_topic :: "row \<Rightarrow> string \<Rightarrow> bool" where
  "some_topic p q \<longleftrightarrow> list_ex (\<lambda>t. js_includes (js_lower t) q) (ro_topics p)"

definition matches_search :: "string \<Rightarrow> row \<Rightarrow> bool" where
  "matches_search query p \<longleftrightarrow> js_trim query = [] \<or> js_includes (js_lower (ro_title p)) (js_lower query) \<or>
     some_topic p (js_lower query)"

definition is_shown :: "list_page \<Rightarrow> row \<Rightarrow> bool" where
  "is_shown s p \<longleftrightarrow> matches_search (lp_searchQuery s) p \<and>
     (lp_selectedDifficulty s = ''All'' \<or> js_lower (ro_difficulty p) = js_lower (lp_selectedDifficulty s)) \<and>
     (lp_selectedTopic s = ''All'' \<or> some_topic p (js_lower (lp_selectedTopic s))) \<and>
     (lp_selectedCompany s = ''All'' \<or> js_lower (ro_company p) = js_lower (lp_selectedCompany s)) \<and>
     (lp_selectedStatus s = ''Solved'' \<longrightarrow> ro_solvedCount p \<noteq> ''0'') \<and>
     (if lp_activeNav s = ''recommended'' then ro_displayId p \<le> 5
      else if lp_activeNav s = ''solved'' then ro_id p \<in> lp_bookmarkedIds s \<or> ro_displayId p mod 2 = 0
      else True)"

definition filteredProblems :: "list_page \<Rightarrow> row list \<Rightarrow> row list" where
  "filteredProblems s rows = filter (is_shown s) rows"

definition paginatedProblems :: "nat \<Rightarrow> row list \<Rightarrow> row list" where
  "paginatedProblems currentPage rows = (let start = (currentPage - 1) * PAGE_SIZE in take PAGE_SIZE (drop start rows))"

text \<open>The text under the table: the first and the last number it announces.\<close>

definition announced :: "nat \<Rightarrow> nat \<times> nat" where
  "announced currentPage = ((currentPage - 1) * PAGE_SIZE + 1, min (currentPage * PAGE_SIZE) TOTAL_PROBLEMS_COUNT)"

datatype list_event =
    Nav string | Search string | Pick_difficulty string | Pick_topic string | Pick_company string | Pick_status string
  | Sort string | Prev_page | Page nat | Last_page | Next_page | Bookmark jsval

definition toggleBookmark :: "jsval \<Rightarrow> list_page \<Rightarrow> list_page" where
  "toggleBookmark i s = s\<lparr>lp_bookmarkedIds :=
     (if i \<in> lp_bookmarkedIds s then lp_bookmarkedIds s - {i} else insert i (lp_bookmarkedIds s))\<rparr>"

fun list_step :: "list_event \<Rightarrow> list_page \<Rightarrow> list_page" where
  "list_step (Nav x) s = s\<lparr>lp_activeNav := x, lp_currentPage := 1\<rparr>"
| "list_step (Search x) s = s\<lparr>lp_searchQuery := x, lp_currentPage := 1\<rparr>"
| "list_step (Pick_difficulty x) s = s\<lparr>lp_selectedDifficulty := x, lp_currentPage := 1\<rparr>"
| "list_step (Pick_topic x) s = s\<lparr>lp_selectedTopic := x, lp_currentPage := 1\<rparr>"
| "list_step (Pick_company x) s = s\<lparr>lp_selectedCompany := x, lp_currentPage := 1\<rparr>"
| "list_step (Pick_status x) s = s\<lparr>lp_selectedStatus := x, lp_currentPage := 1\<rparr>"
| "list_step (Sort x) s = s\<lparr>lp_sortBy := x\<rparr>"
| "list_step Prev_page s = s\<lparr>lp_currentPage := max 1 (lp_currentPage s - 1)\<rparr>"
| "list_step (Page n) s = (if n \<in> {1..5} then s\<lparr>lp_currentPage := n\<rparr> else s)"
| "list_step Last_page s = s\<lparr>lp_currentPage := 54\<rparr>"
| "list_step Next_page s = s\<lparr>lp_currentPage := min 54 (lp_currentPage s + 1)\<rparr>"
| "list_step (Bookmark i) s = toggleBookmark i s"

section \<open>Opening a problem\<close>

definition handleSolve :: "(jsnum \<Rightarrow> string) \<Rightarrow> jsval list \<Rightarrow> row \<Rightarrow> ('s, string) io" where
  "handleSolve numText backend p =
     await (if truthy (ro_id p) then await (as_text (ro_id p) ''startsWith'') (\<lambda>s. ret (\<not> js_starts_with s ''showcase-''))
            else ret False) (\<lambda>direct.
     if direct then ret (''/problems/'' @ js_text numText (ro_id p))
     else case backend of
       b # _ \<Rightarrow> await (prop_of b ''id'') (\<lambda>i. ret (''/problems/'' @ js_text numText i))
     | [] \<Rightarrow> ret (''/problems/'' @ js_text numText (ro_id p)))"

section \<open>Facts on the merge\<close>

text \<open>The problems of a list answer, with texts where the page takes texts.\<close>

definition listable :: "jsval \<Rightarrow> bool" where
  "listable p \<longleftrightarrow> summary p \<and> (\<exists>d. field p ''difficulty'' = JStr d) \<and> (\<exists>ts. field p ''tags'' = JArr (map JStr ts))"

definition key_of :: "jsval \<Rightarrow> string" where
  "key_of p = title_key (text_in p ''title'')"

lemma map_js_pure: "(\<And>x. x \<in> set xs \<Longrightarrow> f x s = (Inr (g x), s)) \<Longrightarrow> map_js f xs s = (Inr (map g xs), s)"
  by (induction xs) (simp_all add: await_def)

lemma text_at_summary: "summary p \<Longrightarrow> text_at p ''title'' s = (Inr (text_in p ''title''), s)"
  by (auto simp: text_at_def prop_of_object as_text_def summary_def await_def)

lemma problem_key_summary: "summary p \<Longrightarrow> problem_key p s = (Inr (key_of p), s)"
  by (simp add: problem_key_def text_at_summary await_def key_of_def)

lemma shown_topics_texts: "\<exists>ts'. shown_topics (JArr (map JStr ts)) s = (Inr ts', s)"
proof (cases ts)
  case (Cons t r)
  have "map_js (\<lambda>t. await (as_text t ''replace'') (\<lambda>s. ret (capital_words False (dash_to_space s)))) (map JStr ts) s =
      (Inr (map (\<lambda>v. case v of JStr t \<Rightarrow> capital_words False (dash_to_space t) | _ \<Rightarrow> []) (map JStr ts)), s)"
    by (rule map_js_pure) (auto simp: as_text_def await_def)
  then show ?thesis by (simp add: shown_topics_def Cons)
qed (simp add: shown_topics_def)

lemma backend_row_listable:
  assumes "listable p"
  obtains r where "backend_row (i, p) s = (Inr r, s)" "ro_id r = field p ''id''" "ro_realProblem r" "ro_title r = text_in p ''title''"
proof -
  from assms obtain d ts where d: "field p ''difficulty'' = JStr d" and ts: "field p ''tags'' = JArr (map JStr ts)" and p: "summary p"
    by (auto simp: listable_def)
  obtain ts' where ts': "shown_topics (JArr (map JStr ts)) s = (Inr ts', s)" using shown_topics_texts [of ts s] by blast
  have "\<exists>d'. shown_difficulty (JStr d) s = (Inr d', s)"
    by (simp add: shown_difficulty_def as_text_def await_def)
  then obtain d' where d': "shown_difficulty (JStr d) s = (Inr d', s)" by blast
  show thesis
    by (rule that [of "\<lparr>ro_displayId = length SHOWCASE_PROBLEMS + i + 1, ro_id = field p ''id'', ro_title = text_in p ''title'',
        ro_difficulty = d', ro_topics = ts', ro_extraTopicsCount = 0, ro_acceptance = ''45.0%'', ro_solvedCount = ''15.2K'',
        ro_company = ''CodeArena'', ro_realProblem = True\<rparr>"])
      (simp_all add: backend_row_def Let_def await_def text_at_summary [OF p] d ts d' ts')
qed

lemma backend_rows:
  assumes "list_all listable ps"
  shows "\<exists>rs. map_js backend_row (zip [n..<n + length ps] ps) s = (Inr rs, s) \<and>
    map ro_id rs = map (\<lambda>p. field p ''id'') ps \<and> list_all ro_realProblem rs"
  using assms
proof (induction ps arbitrary: n)
  case (Cons p ps)
  obtain r where "backend_row (n, p) s = (Inr r, s)" "ro_id r = field p ''id''" "ro_realProblem r"
    using Cons.prems by (auto elim: backend_row_listable [of p n s])
  moreover have "\<exists>rs. map_js backend_row (zip [Suc n..<Suc n + length ps] ps) s = (Inr rs, s) \<and>
      map ro_id rs = map (\<lambda>p. field p ''id'') ps \<and> list_all ro_realProblem rs"
    by (rule Cons.IH) (use Cons.prems in simp)
  moreover have "[n..<n + length (p # ps)] = n # [Suc n..<Suc n + length ps]" by (simp add: upt_rec)
  ultimately show ?case by (auto simp: await_def)
qed simp

lemma showcase_titles_distinct: "distinct (map (\<lambda>r. title_key (ro_title r)) SHOWCASE_PROBLEMS)"
  by code_simp

lemma mset_looked_up:
  assumes "distinct (map fst kvs)" and "distinct ks"
  shows "mset (map (\<lambda>k. the (map_of kvs k)) (filter (\<lambda>k. map_of kvs k \<noteq> None) ks)) =
    mset (map snd (filter (\<lambda>kv. fst kv \<in> set ks) kvs))"
proof -
  let ?xs = "filter (\<lambda>k. map_of kvs k \<noteq> None) ks" and ?ys = "map fst (filter (\<lambda>kv. fst kv \<in> set ks) kvs)"
  have "distinct ?ys" using assms(1) by (simp add: distinct_map inj_on_def)
  moreover have "set ?xs = set ?ys" by (auto simp: map_of_eq_None_iff)
  ultimately have "mset ?xs = mset ?ys" using assms(2) by (metis distinct_filter set_eq_iff_mset_eq_distinct)
  then have "mset (map (\<lambda>k. the (map_of kvs k)) ?xs) = mset (map (\<lambda>k. the (map_of kvs k)) ?ys)"
    by (simp only: mset_map)
  also have "map (\<lambda>k. the (map_of kvs k)) ?ys = map snd (filter (\<lambda>kv. fst kv \<in> set ks) kvs)"
    using assms(1) by (auto simp: map_of_is_SomeI)
  finally show ?thesis .
qed

lemma merge_row_facts:
  "ro_title (merge_row titles backend sp) = ro_title sp"
  "ro_realProblem (merge_row titles backend sp) \<longleftrightarrow> map_of (rev titles) (title_key (ro_title sp)) \<noteq> None"
  "ro_realProblem (merge_row titles backend sp) \<Longrightarrow>
    ro_id (merge_row titles backend sp) = field (the (map_of (rev titles) (title_key (ro_title sp)))) ''id''"
  by (auto simp: merge_row_def split: option.split)

lemma merged_ids:
  assumes "distinct (map fst titles)"
  shows "mset (map ro_id (filter ro_realProblem (map (merge_row titles backend) SHOWCASE_PROBLEMS))) =
    mset (map (\<lambda>kp. field (snd kp) ''id'') (filter (\<lambda>kp. fst kp \<in> (\<lambda>r. title_key (ro_title r)) ` set SHOWCASE_PROBLEMS) titles))"
proof -
  let ?ks = "map (\<lambda>r. title_key (ro_title r)) SHOWCASE_PROBLEMS"
  let ?get = "\<lambda>k. the (map_of (rev titles) k)"
  have "map ro_id (filter ro_realProblem (map (merge_row titles backend) sps)) =
      map (\<lambda>p. field p ''id'') (map ?get (filter (\<lambda>k. map_of (rev titles) k \<noteq> None) (map (\<lambda>r. title_key (ro_title r)) sps)))" for sps
    by (induction sps) (simp_all add: merge_row_facts del: not_None_eq)
  then have "mset (map ro_id (filter ro_realProblem (map (merge_row titles backend) SHOWCASE_PROBLEMS))) =
      image_mset (\<lambda>p. field p ''id'') (mset (map ?get (filter (\<lambda>k. map_of (rev titles) k \<noteq> None) ?ks)))"
    by (simp only: mset_map)
  also have "mset (map ?get (filter (\<lambda>k. map_of (rev titles) k \<noteq> None) ?ks)) =
      mset (map snd (filter (\<lambda>kv. fst kv \<in> set ?ks) (rev titles)))"
    by (rule mset_looked_up) (use assms showcase_titles_distinct in \<open>simp_all add: rev_map [symmetric]\<close>)
  finally show ?thesis by (simp add: rev_filter [symmetric] rev_map [symmetric] image_mset.compositionality comp_def)
qed

lemma all_rows:
  assumes "list_all listable backend"
  defines "titles \<equiv> zip (map key_of backend) backend"
  obtains rs where
    "allProblems backend s = (Inr (map (merge_row titles backend) SHOWCASE_PROBLEMS @ rs), s)"
    "map ro_id rs = map (\<lambda>kp. field (snd kp) ''id'')
       (filter (\<lambda>kp. fst kp \<notin> (\<lambda>r. title_key (ro_title r)) ` set SHOWCASE_PROBLEMS) titles)"
    "list_all ro_realProblem rs"
proof -
  let ?K = "(\<lambda>r. title_key (ro_title r)) ` set SHOWCASE_PROBLEMS"
  let ?merged = "map (merge_row titles backend) SHOWCASE_PROBLEMS"
  let ?rest = "map snd (filter (\<lambda>kp. fst kp \<notin> ?K) titles)"
  have ks: "map_js problem_key backend s = (Inr (map key_of backend), s)"
    by (rule map_js_pure) (use assms(1) in \<open>auto simp: list_all_iff listable_def problem_key_summary\<close>)
  have "list_all listable ?rest" using assms(1) by (auto simp: list_all_iff titles_def dest!: set_zip_rightD)
  from backend_rows [OF this, of 0 s] obtain rs where
    rs: "map_js backend_row (zip [0..<length ?rest] ?rest) s = (Inr rs, s)" "map ro_id rs = map (\<lambda>p. field p ''id'') ?rest"
      "list_all ro_realProblem rs"
    by auto
  have K: "set (map (\<lambda>r. title_key (ro_title r)) ?merged) = ?K" by (auto simp: merge_row_facts)
  have "allProblems backend s = (Inr (?merged @ rs), s)"
    unfolding allProblems_def Let_def await_ok [where m = "map_js problem_key backend" and s = s and s' = s, OF ks]
      titles_def [symmetric] K await_ok [where m = "map_js backend_row (zip [0..<length ?rest] ?rest)" and s = s and s' = s, OF rs(1)]
    by simp
  with rs(2,3) that show thesis by simp
qed

section \<open>Properties\<close>

text \<open>Every problem of the backend is in the list exactly once. When the titles differ, the rows
  that stand for real problems have the ids of the backend's problems, each once, whatever the
  showcase holds.\<close>

theorem every_problem_listed:
  assumes "list_all listable backend" and "distinct (map key_of backend)"
  shows "\<exists>rows. allProblems backend s = (Inr rows, s) \<and>
    mset (map ro_id (filter ro_realProblem rows)) = mset (map (\<lambda>p. field p ''id'') backend)"
proof -
  let ?titles = "zip (map key_of backend) backend"
  let ?K = "(\<lambda>r. title_key (ro_title r)) ` set SHOWCASE_PROBLEMS"
  let ?id = "\<lambda>kp. field (snd kp) ''id''"
  obtain rs where run: "allProblems backend s = (Inr (map (merge_row ?titles backend) SHOWCASE_PROBLEMS @ rs), s)"
    and rs: "map ro_id rs = map ?id (filter (\<lambda>kp. fst kp \<notin> ?K) ?titles)" "list_all ro_realProblem rs"
    by (rule all_rows [OF assms(1)])
  have f: "filter ro_realProblem rs = rs" using rs(2) by (simp add: list_all_iff)
  have d: "distinct (map fst ?titles)" using assms(2) by simp
  have "mset (map ro_id (filter ro_realProblem (map (merge_row ?titles backend) SHOWCASE_PROBLEMS @ rs))) =
      image_mset ?id (mset (filter (\<lambda>kp. fst kp \<in> ?K) ?titles) + mset (filter (\<lambda>kp. fst kp \<notin> ?K) ?titles))"
    unfolding filter_append map_append mset_append merged_ids [OF d] f rs(1)
    by (simp only: mset_map image_mset_union)
  also have "\<dots> = mset (map ?id ?titles)"
    by (simp only: mset_map mset_filter flip: multiset_partition)
  also have "map ?id ?titles = map (\<lambda>p. field p ''id'') (map snd ?titles)"
    by (simp only: map_map comp_def)
  also have "map snd ?titles = backend" by simp
  finally show ?thesis using run by simp
qed

text \<open>a showcase entry without a problem of its own opens another problem: when no problem of the
  backend has its title, its link leads to the first problem of the backend's list.\<close>

theorem showcase_opens_first:
  assumes "list_all listable (p # ps)" and "sp \<in> set SHOWCASE_PROBLEMS"
    and "\<forall>q\<in>set (p # ps). key_of q \<noteq> title_key (ro_title sp)" and "\<not> js_starts_with (text_in p ''id'') ''showcase-''"
  shows "\<exists>rows r. allProblems (p # ps) s = (Inr rows, s) \<and> r \<in> set rows \<and> ro_title r = ro_title sp \<and>
    handleSolve numText (p # ps) r s = (Inr (''/problems/'' @ text_in p ''id''), s)"
proof -
  let ?titles = "zip (map key_of (p # ps)) (p # ps)"
  let ?r = "merge_row ?titles (p # ps) sp"
  obtain rs where run: "allProblems (p # ps) s = (Inr (map (merge_row ?titles (p # ps)) SHOWCASE_PROBLEMS @ rs), s)"
    by (rule all_rows [OF assms(1)])
  have "fst ` set (rev ?titles) = key_of ` set (p # ps)"
    by (metis list.set_map map_fst_zip length_map set_rev)
  then have none: "map_of (rev ?titles) (title_key (ro_title sp)) = None"
    using assms(3) unfolding map_of_eq_None_iff by auto
  have p: "field p ''id'' = JStr (text_in p ''id'')" "text_in p ''id'' \<noteq> []"
    using assms(1) by (simp_all add: listable_def summary_def)
  then have "ro_id ?r = JStr (text_in p ''id'')"
    unfolding merge_row_def none by (simp add: js_or_def)
  with p have "handleSolve numText (p # ps) ?r s = (Inr (''/problems/'' @ text_in p ''id''), s)"
    using assms(4) by (simp add: handleSolve_def as_text_def await_def)
  moreover have "ro_title ?r = ro_title sp" by (rule merge_row_facts)
  ultimately show ?thesis using run assms(2) by fastforce
qed

text \<open>the pages of the table. Whatever the user clicks, the current page is one of 1 to 54; the
  tables of these pages, one after another, are the first 540 rows of the list.\<close>

theorem list_pages:
  "lp_currentPage (fold list_step es first_list_page) \<in> {1..54} \<and>
   concat (map (\<lambda>n. paginatedProblems n rows) [1..<55]) = take 540 rows"
proof -
  have "lp_currentPage s \<in> {1..54} \<Longrightarrow> lp_currentPage (list_step e s) \<in> {1..54}" for e s
    by (cases e) (auto simp: toggleBookmark_def)
  then have "lp_currentPage s \<in> {1..54} \<Longrightarrow> lp_currentPage (fold list_step es s) \<in> {1..54}" for s
    by (induction es arbitrary: s) simp_all
  then have "lp_currentPage (fold list_step es first_list_page) \<in> {1..54}"
    by (simp add: first_list_page_def)
  moreover have "concat (map (\<lambda>n. paginatedProblems n rows) [1..<Suc n]) = take (n * 10) rows" for n
  proof (induction n)
    case (Suc n)
    then show ?case using take_add [of "n * 10" 10 rows]
      by (simp add: paginatedProblems_def PAGE_SIZE_def add.commute)
  qed simp
  from this [of 54] have "concat (map (\<lambda>n. paginatedProblems n rows) [1..<55]) = take 540 rows" by simp
  ultimately show ?thesis by blast
qed

section \<open>A list of one problem\<close>

definition flow_entry :: jsval where
  "flow_entry = JObj [(''id'', JStr ''p7''), (''title'', JStr ''Max Flow''), (''difficulty'', JStr ''HARD''),
     (''tags'', JArr [JStr ''graph-theory''])]"

lemma flow_listable: "list_all listable [flow_entry]"
proof -
  have "\<exists>ts. [JStr ''graph-theory''] = map JStr ts" by (rule exI [of _ "[''graph-theory'']"]) simp
  then show ?thesis by (simp add: listable_def summary_def text_in_def flow_entry_def)
qed

lemma flow_text: "text_in flow_entry ''id'' = ''p7''" "key_of flow_entry = ''max flow''"
  by code_simp+

theorem every_problem_listed_witness:
  "\<exists>rows. allProblems [flow_entry] () = (Inr rows, ()) \<and> mset (map ro_id (filter ro_realProblem rows)) = {#JStr ''p7''#}"
  using every_problem_listed [OF flow_listable, of "()"] by (simp add: flow_entry_def)

theorem showcase_opens_first_witness:
  "\<exists>rows r. allProblems [flow_entry] () = (Inr rows, ()) \<and> r \<in> set rows \<and> ro_title r = ''Two Sum'' \<and>
     handleSolve (\<lambda>n. []) [flow_entry] r () = (Inr ''/problems/p7'', ())"
proof -
  have "showcase_row 1 ''Two Sum'' ''Easy'' [''Array'', ''Hash Map''] 1 ''52.3%'' ''124.6K'' ''Google'' \<in> set SHOWCASE_PROBLEMS"
    by (simp add: SHOWCASE_PROBLEMS_def)
  moreover have "title_key ''Two Sum'' = ''two sum''" by code_simp
  ultimately show ?thesis
    using showcase_opens_first [OF flow_listable, of "showcase_row 1 ''Two Sum'' ''Easy'' [''Array'', ''Hash Map''] 1 ''52.3%'' ''124.6K'' ''Google''"
        "()" "\<lambda>n. []"]
    by (simp add: flow_text showcase_row_def js_starts_with_def)
qed

end
