(* ===== verification/Catalogue.thy ===== *)
theory Catalogue
  imports Stack ProblemList
begin

text \<open>
  The catalogue from the database to the screen: what the problem list page shows of the stored
  problems, across the browser's service, the network, the server's route, the problem service with
  its queries, and the page's merge with its showcase. It composes \<open>Client\<close>, \<open>Stack\<close>,
  \<open>App\<close>, \<open>Api\<close>, \<open>Problems\<close>, \<open>Pagination\<close> and \<open>ProblemList\<close>.
\<close>

section \<open>The route\<close>

lemma lower_problems: "js_lower ''problems'' = ''problems''"
  by code_simp

lemma problems_path: "api_path (ht_path (http_of \<lparr>og_method = m, og_url = join_url ''/api/v1'' ''/problems'', og_token = t, og_body = v\<rparr>)) =
    Some [''problems'']"
  by (simp add: http_of_def join_url_def strip_slash_def js_starts_with_def api_path_def lower_names)

lemma problems_route: "find_route (routes cast) ''GET'' [''problems''] = Some ([], [Optional_auth], List_problems)"
  by (simp add: route_tables lower_names lower_problems)

lemma problems_query: "ht_query (http_of \<lparr>og_method = m, og_url = join_url ''/api/v1'' ''/problems'', og_token = t, og_body = v\<rparr>) = JObj []"
  by (simp add: http_of_def join_url_def strip_slash_def js_starts_with_def; code_simp)

section \<open>What is listed\<close>

text \<open>Asked without a query, the service lists the active problems, the newest first, twenty at most.\<close>

lemma plain_query:
  "tag_condition (JObj []) = Inr None" "problem_filter rx (JObj []) None = p_isActive"
  "problem_order (JObj []) = (\<lambda>a b. p_createdAt b \<le> p_createdAt a)" "skip_of (JObj []) = 0" "limit_of (JObj []) = 20"
  by (simp_all add: tag_condition_def problem_filter_def difficulty_filter_def problem_order_def skip_of_def
      limit_of_def page_of_def int_or_def fun_eq_iff)

lemma listable_item: "pi_id p \<noteq> [] \<Longrightarrow> listable (item_json p)"
  by (auto simp: listable_def summary_def text_in_def item_json_def)

lemma item_facts: "field (item_json p) ''id'' = JStr (pi_id p)" "key_of (item_json p) = title_key (pi_title p)"
  by (simp_all add: item_json_def key_of_def text_in_def)

lemma catalogue_item_facts: "pi_id (catalogue_item v u p) = p_id p" "pi_title (catalogue_item v u p) = p_title p"
  by (simp_all add: catalogue_item_def)

text \<open>The documents of a listing are stored under different identifiers.\<close>

lemma listing_stored:
  assumes "listing P m ds"
  shows "\<forall>d\<in>set ds. \<exists>i. m i = Some d \<and> P d" and "\<exists>ks. distinct ks \<and> map m ks = map Some ds"
proof -
  from assms obtain ks where ks: "distinct ks" "set ks = matching P m" "ds = map (\<lambda>k. the (m k)) ks"
    unfolding listing_def by blast
  have m: "\<exists>d. m k = Some d \<and> P d" if "k \<in> set ks" for k
    using that unfolding ks(2) by (auto simp: matching_def)
  show "\<forall>d\<in>set ds. \<exists>i. m i = Some d \<and> P d" using m by (fastforce simp: ks(3))
  have "map m ks = map Some ds" unfolding ks(3) using m by fastforce
  with ks(1) show "\<exists>ks. distinct ks \<and> map m ks = map Some ds" by blast
qed

lemma distinct_keys:
  assumes "\<forall>d\<in>set ds. \<exists>i. m i = Some d \<and> P d" and "\<exists>ks. distinct ks \<and> map m ks = map Some ds"
    and "\<And>i j d e. m i = Some d \<Longrightarrow> m j = Some e \<Longrightarrow> P d \<Longrightarrow> P e \<Longrightarrow> f d = f e \<Longrightarrow> i = j"
  shows "distinct (map f ds)"
proof -
  from assms(2) obtain ks where ks: "distinct ks" "map m ks = map Some ds" by blast
  then have len: "length ks = length ds" by (metis length_map)
  have at: "m (ks ! i) = Some (ds ! i) \<and> P (ds ! i)" if "i < length ds" for i
    using that ks(2) len assms(1) by (metis nth_map nth_mem option.inject)
  show ?thesis unfolding distinct_conv_nth
    using at assms(3) ks(1) len by (metis length_map nth_eq_iff_index_eq nth_map)
qed

context stack
begin

lemma serve_problems_data:
  assumes run: "serve (ap_api A) rq w = (Inr r, w')"
    and rq: "rq_method rq = ''GET''" "rq_path rq = [''problems'']" "rq_query rq = JObj []"
    and data: "field (rs_body r) ''data'' \<noteq> JUndefined"
  shows "\<exists>u v ps. listing p_isActive (db_problems (view w)) ps \<and> sorted_wrt (\<lambda>a b. p_createdAt b \<le> p_createdAt a) ps \<and>
    field (field (rs_body r) ''data'') ''problems'' = JArr (map item_json (map (catalogue_item v u) (take 20 ps)))"
proof -
  let ?c = "\<lparr>cx_user = None, cx_params = [], cx_body = rq_body rq\<rparr>"
  note f = trans [OF arg_cong2 [where f = "find_route (routes (castId (a_auth (ap_api A))))", OF rq(1,2)] problems_route]
  obtain x w1 where g: "run_guards (ap_api A) rq [Optional_auth] ?c w = (Inr x, w1)"
    and k: "(case x of Inl r \<Rightarrow> ret r | Inr c \<Rightarrow> handle (ap_api A) rq c List_problems) w1 = (Inr r, w')"
    by (rule serve_route [OF f run data])
  have same: "db_problems (view w1) = db_problems (view w)"
    using movesD [OF calm_guards g] by (simp add: calm_def)
  from g obtain c where x: "x = Inr c" by (auto elim!: await_cases)
  from k obtain items pg where l: "listProblems (a_backend (ap_api A)) (a_regex (ap_api A)) (JObj []) (map_option u_id (cx_user c)) w1 =
      (Inr (items, pg), w')" and r: "r = paged ''problems'' (map item_json items) pg"
    by (auto simp: x handle_def problem_controller_def rq(3) elim!: await_cases)
  from listProblems_catalogue [OF l] obtain ps where "listing p_isActive (db_problems (view w1)) ps"
    "sorted_wrt (\<lambda>a b. p_createdAt b \<le> p_createdAt a) ps"
    "items = map (catalogue_item (view w1) (map_option u_id (cx_user c))) (take 20 ps)"
    by (auto simp: plain_query slice_def)
  with same show ?thesis by (auto simp: r paged_def)
qed

lemma problems_over_net:
  assumes "problemService_getProblems (api_net A toNumber numText) (JObj []) b = (Inr v, b1)"
  shows "\<exists>u d ps. listing p_isActive (db_problems (data_of (br_world b))) ps \<and>
    sorted_wrt (\<lambda>a b. p_createdAt b \<le> p_createdAt a) ps \<and>
    v = JArr (map item_json (map (catalogue_item d u) (take 20 ps)))"
proof -
  let ?N = "api_net A toNumber numText"
  let ?og = "\<lparr>og_method = ''GET'', og_url = join_url ''/api/v1'' ''/problems'', og_token = stored_token b, og_body = JUndefined\<rparr>"
  from assms obtain res b0 where s: "send ?N ''GET'' ''/problems'' JUndefined b = (Inr res, b0)"
    and d: "field res ''data'' \<noteq> JUndefined" "v = js_or (field (field res ''data'') ''problems'') (JArr [])"
    by (auto simp: problemService_getProblems_def with_query_def api_get_def data_field_def prop_of_def
        elim!: await_cases split: if_splits)
  from send_api [OF s refl problems_path] obtain i tp w r w' where
    r: "serve (ap_api A) (routed (http_of ?og) [''problems''] JUndefined i tp) w = (Inr r, w')"
    and w: "view w = data_of (br_world b)" "res = rs_body r"
    by auto
  from serve_problems_data [OF r] d(1) w(2) obtain u e ps where
    "listing p_isActive (db_problems (view w)) ps" "sorted_wrt (\<lambda>a b. p_createdAt b \<le> p_createdAt a) ps"
    "field (field (rs_body r) ''data'') ''problems'' = JArr (map item_json (map (catalogue_item e u) (take 20 ps)))"
    by (auto simp: routed_def problems_query) (auto simp: http_of_def Let_def)
  then show ?thesis using w d(2) by (auto simp: js_or_def)
qed

end

section \<open>Properties\<close>

text \<open>C17: the list page shows the stored problems. Whenever the page's request succeeds over the
  network, its rows for real problems are, each once and whatever the showcase holds, the newest
  twenty of the active problems that are stored at that moment, provided that no two active
  problems have the same title up to case and outer white space. So an active problem is missing
  from the list only when twenty others are at least as new.\<close>

theorem catalogue_on_screen:
  assumes "stack A view"
    and load: "problemService_getProblems (api_net A toNumber numText) (JObj []) b = (Inr v, b1)"
    and ids: "\<forall>i p. db_problems (view (dm_world (sv_daemon (br_world b)))) i = Some p \<longrightarrow> p_id p = i \<and> i \<noteq> []"
    and titles: "\<forall>i j p q. db_problems (view (dm_world (sv_daemon (br_world b)))) i = Some p \<and>
      db_problems (view (dm_world (sv_daemon (br_world b)))) j = Some q \<and> p_isActive p \<and> p_isActive q \<and>
      title_key (p_title p) = title_key (p_title q) \<longrightarrow> i = j"
  shows "\<exists>items ps rows. v = JArr items \<and> listing p_isActive (db_problems (view (dm_world (sv_daemon (br_world b))))) ps \<and>
    sorted_wrt (\<lambda>a b. p_createdAt b \<le> p_createdAt a) ps \<and> allProblems items s = (Inr rows, s) \<and>
    mset (map ro_id (filter ro_realProblem rows)) = mset (map (\<lambda>p. JStr (p_id p)) (take 20 ps))"
proof -
  let ?m = "db_problems (view (dm_world (sv_daemon (br_world b))))"
  obtain u d ps where ps: "listing p_isActive ?m ps" "sorted_wrt (\<lambda>a b. p_createdAt b \<le> p_createdAt a) ps"
    and v: "v = JArr (map item_json (map (catalogue_item d u) (take 20 ps)))"
    using stack.problems_over_net [OF assms(1) load] by blast
  let ?items = "map item_json (map (catalogue_item d u) (take 20 ps))"
  note stored = listing_stored [OF ps(1)]
  have "list_all listable ?items"
    using stored(1) ids by (fastforce simp: list_all_iff catalogue_item_facts dest: in_set_takeD intro: listable_item)
  moreover have "distinct (map key_of ?items)"
  proof -
    have "distinct (map (\<lambda>p. title_key (p_title p)) ps)"
      by (rule distinct_keys [OF stored]) (use titles in blast)
    moreover have "map key_of ?items = take 20 (map (\<lambda>p. title_key (p_title p)) ps)"
      by (simp add: item_facts catalogue_item_facts take_map)
    ultimately show ?thesis by simp
  qed
  ultimately have "\<exists>rows. allProblems ?items s = (Inr rows, s) \<and>
      mset (map ro_id (filter ro_realProblem rows)) = mset (map (\<lambda>p. field p ''id'') ?items)"
    by (rule every_problem_listed)
  then obtain rows where "allProblems ?items s = (Inr rows, s)"
    "mset (map ro_id (filter ro_realProblem rows)) = mset (map (\<lambda>p. field p ''id'') ?items)"
    by (elim exE conjE)
  moreover have "map (\<lambda>p. field p ''id'') ?items = map (\<lambda>p. JStr (p_id p)) (take 20 ps)"
    by (simp add: item_facts catalogue_item_facts)
  ultimately show ?thesis
    by (intro exI [of _ ?items] exI [of _ ps] exI [of _ rows]) (simp only: ps v simp_thms)
qed

section \<open>The catalogue in memory\<close>

lemma sample_list:
  obtains v b1 where "problemService_getProblems (sample_net sample_app) (JObj []) sample_browser = (Inr v, b1)"
proof -
  have "(case problemService_getProblems (sample_net sample_app) (JObj []) sample_browser of (Inr v, b1) \<Rightarrow> True | _ \<Rightarrow> False)"
    by code_simp
  then show thesis by (auto split: prod.splits sum.splits intro: that)
qed

lemma sample_catalogue: "db_problems (world_view (dm_world (sv_daemon (br_world sample_browser)))) = [''p'' \<mapsto> sample_problem]"
  by (simp add: sample_browser_def initial_session_def login_server_def world_view_def login_world_def full_world_def)

lemma one_stored:
  "\<forall>i p. db_problems (world_view (dm_world (sv_daemon (br_world sample_browser)))) i = Some p \<longrightarrow> p_id p = i \<and> i \<noteq> []"
  "\<forall>i j p q. db_problems (world_view (dm_world (sv_daemon (br_world sample_browser)))) i = Some p \<and>
      db_problems (world_view (dm_world (sv_daemon (br_world sample_browser)))) j = Some q \<and> p_isActive p \<and> p_isActive q \<and>
      title_key (p_title p) = title_key (p_title q) \<longrightarrow> i = j"
  unfolding sample_catalogue by (simp_all add: sample_problem_def)

lemma listing_one:
  assumes "listing P [i \<mapsto> d] ds" and "P d"
  shows "ds = [d]"
proof -
  from assms obtain ks where ks: "distinct ks" "set ks = {i}" "ds = map (\<lambda>k. the ([i \<mapsto> d] k)) ks"
    unfolding listing_def matching_def by (auto split: if_splits)
  from ks(1,2) have "length ks = 1" using distinct_card [of ks] by simp
  then obtain k where k: "ks = [k]" by (metis One_nat_def length_0_conv length_Suc_conv)
  then have "k = i" using ks(2) by simp
  with k ks(3) show ?thesis by simp
qed

theorem catalogue_on_screen_witness:
  "\<exists>items b1 rows. problemService_getProblems (sample_net sample_app) (JObj []) sample_browser = (Inr (JArr items), b1) \<and>
     allProblems items () = (Inr rows, ()) \<and> map ro_id (filter ro_realProblem rows) = [JStr ''p'']"
proof -
  obtain v b1 where run: "problemService_getProblems (sample_net sample_app) (JObj []) sample_browser = (Inr v, b1)"
    by (rule sample_list)
  obtain items ps rows where v: "v = JArr items" and ps: "listing p_isActive [''p'' \<mapsto> sample_problem] ps"
    and rows: "allProblems items () = (Inr rows, ())"
      "mset (map ro_id (filter ro_realProblem rows)) = mset (map (\<lambda>p. JStr (p_id p)) (take 20 ps))"
    using catalogue_on_screen [OF mem_stack.stack_axioms run [unfolded sample_net_def] one_stored, of "()",
        unfolded sample_catalogue]
    by (elim exE conjE)
  have "ps = [sample_problem]" by (rule listing_one [OF ps]) (simp add: sample_problem_def)
  then have "map ro_id (filter ro_realProblem rows) = [JStr ''p'']" using rows(2) by (simp add: sample_problem_def del: mset_map)
  with run [unfolded v] rows(1) show ?thesis
    by (intro exI [of _ items] exI [of _ b1] exI [of _ rows] conjI)
qed

end
