(* ===== verification/JudgePage.thy ===== *)
theory JudgePage
  imports ProblemPage
begin

text \<open>
  Running and submitting from the problem page (\<open>frontend/src/pages/ProblemDetails.jsx\<close>) as a
  machine: the state of the page, the requests and timers it is waiting for, and one function per
  event. An answer of the API is an event that carries the error or the value of the service call.
\<close>

section \<open>State\<close>

text \<open>A poll belongs to the closure of one submission: its id and the time of its start.\<close>

record poll =
  po_submissionId :: jsval
  po_startTime :: int

text \<open>
  \<open>jp_intervals\<close> are the intervals the browser has running, \<open>jp_pollTimer\<close> is what
  \<open>pollTimerRef\<close> remembers. \<open>jp_posts\<close> and \<open>jp_polls\<close> are the requests without an answer yet,
  \<open>jp_mocks\<close> and \<open>jp_runs\<close> count the timeouts of the two demonstrations.
\<close>

record judge_page =
  jp_problem :: jsval
  jp_language :: string
  jp_sourceCode :: string
  jp_activeTab :: string
  jp_isRunning :: bool
  jp_isSubmitting :: bool
  jp_statusMessage :: string
  jp_result :: jsval
  jp_error :: jsval
  jp_history :: "jsval list"
  jp_pollTimer :: "nat option"
  jp_intervals :: "(nat \<times> poll) list"
  jp_posts :: "jsval list"
  jp_polls :: "poll list"
  jp_mocks :: nat
  jp_runs :: nat
  jp_nextTimer :: nat

definition initial_page :: judge_page where
  "initial_page = \<lparr>jp_problem = JNull, jp_language = ''CPP'', jp_sourceCode = [], jp_activeTab = ''testcases'',
     jp_isRunning = False, jp_isSubmitting = False, jp_statusMessage = [], jp_result = JNull, jp_error = JNull,
     jp_history = [], jp_pollTimer = None, jp_intervals = [], jp_posts = [], jp_polls = [], jp_mocks = 0, jp_runs = 0,
     jp_nextTimer = 1\<rparr>"

definition drop_nth :: "nat \<Rightarrow> 'a list \<Rightarrow> 'a list" where
  "drop_nth k xs = take k xs @ drop (Suc k) xs"

text \<open>\<open>if (pollTimerRef.current) { clearInterval(pollTimerRef.current); pollTimerRef.current = null }\<close>.\<close>

definition clearTimer :: "judge_page \<Rightarrow> judge_page" where
  "clearTimer p = (case jp_pollTimer p of
     Some t \<Rightarrow> p\<lparr>jp_pollTimer := None, jp_intervals := filter (\<lambda>i. fst i \<noteq> t) (jp_intervals p)\<rparr>
   | None \<Rightarrow> p)"

text \<open>\<open>setIsSubmitting(false); setStatusMessage('')\<close>, and a result put in front of the history.\<close>

definition stop_waiting :: "judge_page \<Rightarrow> judge_page" where
  "stop_waiting p = p\<lparr>jp_isSubmitting := False, jp_statusMessage := []\<rparr>"

definition remember :: "jsval \<Rightarrow> judge_page \<Rightarrow> judge_page" where
  "remember r p = p\<lparr>jp_history := r # jp_history p\<rparr>"

section \<open>Run\<close>

definition run_result :: jsval where
  "run_result = JObj [(''verdict'', JStr ''ACCEPTED''), (''runtime'', JStr ''2 ms''), (''memory'', JStr ''10.4 MB''),
     (''passedCount'', js_int 3), (''totalCount'', js_int 3), (''details'', JArr
       [JObj [(''testCase'', js_int 1), (''status'', JStr ''Passed''), (''time'', JStr ''1 ms'')],
        JObj [(''testCase'', js_int 2), (''status'', JStr ''Passed''), (''time'', JStr ''1 ms'')],
        JObj [(''testCase'', js_int 3), (''status'', JStr ''Passed''), (''time'', JStr ''2 ms'')]])]"

definition handleRun :: "judge_page \<Rightarrow> judge_page" where
  "handleRun p = p\<lparr>jp_isRunning := True, jp_activeTab := ''results'',
     jp_statusMessage := ''Compiling and running sample test cases...'', jp_runs := jp_runs p + 1\<rparr>"

definition run_done :: "judge_page \<Rightarrow> judge_page" where
  "run_done p = p\<lparr>jp_isRunning := False, jp_statusMessage := [], jp_result := run_result, jp_runs := jp_runs p - 1\<rparr>"

section \<open>Submit\<close>

definition mock_result :: "string \<Rightarrow> string \<Rightarrow> string \<Rightarrow> jsval" where
  "mock_result runtime memory submittedAt = JObj
     [(''verdict'', JStr ''ACCEPTED''), (''runtime'', JStr runtime), (''memory'', JStr memory), (''passedCount'', js_int 6),
      (''totalCount'', js_int 6), (''score'', js_int 100), (''submittedAt'', JStr submittedAt)]"

text \<open>\<open>handleSubmit\<close> up to its first \<open>await\<close>; \<open>user\<close> is the user of the session.\<close>

definition handleSubmit :: "jsval \<Rightarrow> judge_page \<Rightarrow> judge_page" where
  "handleSubmit user p =
     (if js_trim (jp_sourceCode p) = [] then p\<lparr>jp_error := JStr ''Source code cannot be empty.''\<rparr>
      else let q = (clearTimer p)\<lparr>jp_isSubmitting := True, jp_activeTab := ''results'', jp_error := JNull,
             jp_statusMessage := ''Submitting code to judge...'', jp_result := JNull\<rparr> in
        if \<not> truthy user then q\<lparr>jp_mocks := jp_mocks q + 1\<rparr>
        else q\<lparr>jp_posts := jp_posts q @ [JObj [(''problemId'', targetProblemId (jp_problem p)),
               (''language'', JStr (jp_language p)), (''sourceCode'', JStr (jp_sourceCode p))]]\<rparr>)"

definition show_mock :: "string \<Rightarrow> string \<Rightarrow> string \<Rightarrow> judge_page \<Rightarrow> judge_page" where
  "show_mock runtime memory time p = (let r = mock_result runtime memory time in
     remember r ((stop_waiting p)\<lparr>jp_result := r\<rparr>))"

definition mock_done :: "string \<Rightarrow> judge_page \<Rightarrow> judge_page" where
  "mock_done time p = show_mock ''3 ms'' ''10.2 MB'' time (p\<lparr>jp_mocks := jp_mocks p - 1\<rparr>)"

definition is_final :: "jsval \<Rightarrow> bool" where
  "is_final sub \<longleftrightarrow> field sub ''status'' = JStr ''COMPLETED'' \<or> field sub ''status'' = JStr ''FAILED''"

definition start_polling :: "jsval \<Rightarrow> int \<Rightarrow> judge_page \<Rightarrow> judge_page" where
  "start_polling submissionId clock p = p\<lparr>jp_pollTimer := Some (jp_nextTimer p),
     jp_intervals := jp_intervals p @ [(jp_nextTimer p, \<lparr>po_submissionId = submissionId, po_startTime = clock\<rparr>)],
     jp_nextTimer := jp_nextTimer p + 1\<rparr>"

text \<open>The answer to \<open>createSubmission\<close>; a missing submission is a \<open>TypeError\<close> in the same \<open>try\<close>.\<close>

definition created :: "err + jsval \<Rightarrow> int \<Rightarrow> string \<Rightarrow> judge_page \<Rightarrow> judge_page" where
  "created r clock time p = (case r of
     Inl _ \<Rightarrow> show_mock ''2 ms'' ''10.5 MB'' time p
   | Inr sub \<Rightarrow>
       if sub = JUndefined \<or> sub = JNull then show_mock ''2 ms'' ''10.5 MB'' time p
       else let q = p\<lparr>jp_result := sub\<rparr> in
         if is_final sub then remember sub (stop_waiting q)
         else start_polling (field sub ''id'') clock (q\<lparr>jp_statusMessage := ''Evaluation queued...''\<rparr>))"

definition poll_failed :: "err \<Rightarrow> judge_page \<Rightarrow> judge_page" where
  "poll_failed e p = (stop_waiting (clearTimer p))\<lparr>jp_error := js_or (JStr (emessage e)) (JStr ''Error checking status'')\<rparr>"

definition no_status :: "jsval \<Rightarrow> err" where
  "no_status v = js_error ''TypeError''
     (if v = JNull then ''Cannot read properties of null (reading status)''
      else ''Cannot read properties of undefined (reading status)'')"

text \<open>The answer to a poll.\<close>

definition polled :: "poll \<Rightarrow> err + jsval \<Rightarrow> int \<Rightarrow> judge_page \<Rightarrow> judge_page" where
  "polled pl r clock p = (case r of
     Inl e \<Rightarrow> poll_failed e p
   | Inr updated \<Rightarrow>
       let q = p\<lparr>jp_result := updated\<rparr> in
       if updated = JUndefined \<or> updated = JNull then poll_failed (no_status updated) q
       else let m = (if field updated ''status'' = JStr ''RUNNING'' then q\<lparr>jp_statusMessage := ''Running test cases...''\<rparr> else q) in
         if is_final updated then remember updated (stop_waiting (clearTimer m))
         else if clock - po_startTime pl > 25000 then
           (stop_waiting (clearTimer m))\<lparr>jp_error := JStr ''Execution timed out while waiting for worker.''\<rparr>
         else m)"

section \<open>Events\<close>

text \<open>
  A click on a button that is disabled does nothing; an answer, a tick or a timeout needs what it
  answers or ends. \<open>Posted k\<close> and \<open>Polled k\<close> answer the \<open>k\<close>-th waiting request.
\<close>

datatype judge_event =
    Click_run
  | Run_done
  | Click_submit
  | Mock_done string
  | Posted nat "err + jsval" int string
  | Tick nat
  | Polled nat "err + jsval" int
  | Edited string
  | Language string
  | Loaded jsval
  | Unmounted

definition busy :: "judge_page \<Rightarrow> bool" where
  "busy p \<longleftrightarrow> jp_isRunning p \<or> jp_isSubmitting p"

fun react :: "jsval \<Rightarrow> judge_event \<Rightarrow> judge_page \<Rightarrow> judge_page" where
  "react user Click_run p = (if busy p then p else handleRun p)"
| "react user Run_done p = (if jp_runs p = 0 then p else run_done p)"
| "react user Click_submit p = (if busy p then p else handleSubmit user p)"
| "react user (Mock_done time) p = (if jp_mocks p = 0 then p else mock_done time p)"
| "react user (Posted k r clock time) p =
     (if k < length (jp_posts p) then created r clock time (p\<lparr>jp_posts := drop_nth k (jp_posts p)\<rparr>) else p)"
| "react user (Tick t) p = (case map_of (jp_intervals p) t of
     Some pl \<Rightarrow> p\<lparr>jp_polls := jp_polls p @ [pl]\<rparr> | None \<Rightarrow> p)"
| "react user (Polled k r clock) p =
     (if k < length (jp_polls p) then polled (jp_polls p ! k) r clock (p\<lparr>jp_polls := drop_nth k (jp_polls p)\<rparr>) else p)"
| "react user (Edited src) p = p\<lparr>jp_sourceCode := src\<rparr>"
| "react user (Language l) p = (case starter_code (jp_problem p) l of
     JStr src \<Rightarrow> p\<lparr>jp_language := l, jp_sourceCode := (if truthy (jp_problem p) then src else jp_sourceCode p)\<rparr>
   | _ \<Rightarrow> p\<lparr>jp_language := l\<rparr>)"
| "react user (Loaded v) p = (case starter_code v (jp_language p) of
     JStr src \<Rightarrow> p\<lparr>jp_problem := v, jp_sourceCode := src, jp_error := JNull\<rparr>
   | _ \<Rightarrow> p\<lparr>jp_problem := v, jp_error := JNull\<rparr>)"
| "react user Unmounted p = clearTimer p"

section \<open>The results panel\<close>

definition banner_title :: "jsval \<Rightarrow> jsval" where
  "banner_title r = js_or (field r ''verdict'') (JStr ''ACCEPTED'')"

definition passed_text :: "jsval \<Rightarrow> jsval \<times> jsval" where
  "passed_text r = (js_or (field r ''passedCount'') (js_int 3), js_or (field r ''totalCount'') (js_int 3))"

definition cost_text :: "jsval \<Rightarrow> jsval \<times> jsval" where
  "cost_text r = (js_or (field r ''runtime'') (JStr ''2 ms''), js_or (field r ''memory'') (JStr ''10.4 MB''))"

definition breakdown :: "jsval \<Rightarrow> (nat \<times> string) list" where
  "breakdown r = map (\<lambda>n. (n, ''Passed'')) [1, 2, 3]"

definition history_row :: "jsval \<Rightarrow> jsval list" where
  "history_row sub = [js_or (field sub ''verdict'') (JStr ''Accepted''), js_or (field sub ''submittedAt'') (JStr ''Just now''),
     js_or (field sub ''runtime'') (JStr ''2 ms''), js_or (field sub ''memory'') (JStr ''10.2 MB'')]"

section \<open>Pages whose polls are answered in time\<close>

text \<open>
  The pages reached when every poll is answered before the next tick, with the number of
  submissions that were started. The session may change between two events.
\<close>

definition starts :: "judge_page \<Rightarrow> bool" where
  "starts p \<longleftrightarrow> \<not> busy p \<and> js_trim (jp_sourceCode p) \<noteq> []"

definition answered_in_time :: "judge_event \<Rightarrow> judge_page \<Rightarrow> bool" where
  "answered_in_time e p \<longleftrightarrow> (case e of Tick t \<Rightarrow> jp_polls p = [] | Click_submit \<Rightarrow> False | Unmounted \<Rightarrow> False | _ \<Rightarrow> True)"

inductive attended :: "nat \<Rightarrow> judge_page \<Rightarrow> bool" where
  opened: "attended 0 initial_page"
| submit: "attended n p \<Longrightarrow> attended (if starts p then n + 1 else n) (react user Click_submit p)"
| event: "attended n p \<Longrightarrow> answered_in_time e p \<Longrightarrow> attended n (react user e p)"

text \<open>What the page waits for: nothing, an answer to a submission, the demonstration, or the polls.\<close>

definition waits :: "jsval list \<Rightarrow> nat \<Rightarrow> (nat \<times> poll) list \<Rightarrow> poll list \<Rightarrow> judge_page \<Rightarrow> bool" where
  "waits posts mocks intervals polls p \<longleftrightarrow> jp_posts p = posts \<and> jp_mocks p = mocks \<and> jp_intervals p = intervals \<and>
     jp_pollTimer p = (case intervals of [] \<Rightarrow> None | i # _ \<Rightarrow> Some (fst i)) \<and> jp_polls p = polls"

definition orderly :: "judge_page \<Rightarrow> bool" where
  "orderly p \<longleftrightarrow> jp_runs p = (if jp_isRunning p then 1 else 0) \<and> \<not> (jp_isRunning p \<and> jp_isSubmitting p) \<and>
     (if jp_isSubmitting p then (\<exists>a. waits [a] 0 [] [] p) \<or> waits [] 1 [] [] p \<or>
         (\<exists>t pl. waits [] 0 [(t, pl)] [] p \<or> waits [] 0 [(t, pl)] [pl] p)
      else waits [] 0 [] [] p)"

definition counted :: "nat \<Rightarrow> judge_page \<Rightarrow> bool" where
  "counted n p \<longleftrightarrow> orderly p \<and> length (jp_history p) + (if jp_isSubmitting p then 1 else 0) \<le> n"

lemma drop_nth_one [simp]: "drop_nth k [x] = (if k = 0 then [] else [x])"
  by (simp add: drop_nth_def)

lemmas settle_defs = stop_waiting_def remember_def clearTimer_def poll_failed_def show_mock_def Let_def

lemma counted_submit:
  assumes "counted n p"
  shows "counted (if starts p then n + 1 else n) (react user Click_submit p)"
  using assms
  by (auto simp: counted_def orderly_def waits_def starts_def busy_def handleSubmit_def clearTimer_def Let_def)

lemma counted_run: "counted n p \<Longrightarrow> counted n (react user Click_run p)" "counted n p \<Longrightarrow> counted n (react user Run_done p)"
  by (auto simp: counted_def orderly_def waits_def busy_def handleRun_def run_done_def split: if_splits)

lemma counted_mock: "counted n p \<Longrightarrow> counted n (react user (Mock_done time) p)"
  by (auto simp: counted_def orderly_def waits_def mock_done_def settle_defs split: if_splits)

lemma counted_posted: "counted n p \<Longrightarrow> counted n (react user (Posted k r clock time) p)"
  by (auto simp: counted_def orderly_def waits_def created_def start_polling_def settle_defs split: if_splits sum.splits)

lemma counted_tick: "counted n p \<Longrightarrow> jp_polls p = [] \<Longrightarrow> counted n (react user (Tick t) p)"
  by (auto simp: counted_def orderly_def waits_def split: if_splits option.splits)

text \<open>One poll is waiting, of the interval the page remembers.\<close>

definition polling :: "nat \<Rightarrow> nat \<Rightarrow> poll \<Rightarrow> poll list \<Rightarrow> judge_page \<Rightarrow> bool" where
  "polling n t pl polls p \<longleftrightarrow> waits [] 0 [(t, pl)] polls p \<and> jp_isSubmitting p \<and> \<not> jp_isRunning p \<and> jp_runs p = 0 \<and>
     length (jp_history p) < n"

definition settled :: "nat \<Rightarrow> judge_page \<Rightarrow> bool" where
  "settled n p \<longleftrightarrow> waits [] 0 [] [] p \<and> \<not> jp_isSubmitting p \<and> \<not> jp_isRunning p \<and> jp_runs p = 0 \<and> length (jp_history p) \<le> n"

lemma polling_counted: "polling n t pl polls p \<Longrightarrow> polls = [] \<or> polls = [pl] \<Longrightarrow> counted n p"
  by (auto simp: polling_def counted_def orderly_def)

lemma settled_counted: "settled n p \<Longrightarrow> counted n p"
  by (simp add: settled_def counted_def orderly_def)

lemma settles:
  assumes "polling n t pl [] p"
  shows "settled n (stop_waiting (clearTimer p))" "settled n (remember v (stop_waiting (clearTimer p)))"
  using assms by (simp_all add: polling_def settled_def waits_def stop_waiting_def clearTimer_def remember_def)

lemma polling_parts [simp]:
  "polling n t pl polls (p\<lparr>jp_result := v\<rparr>) = polling n t pl polls p"
  "polling n t pl polls (p\<lparr>jp_statusMessage := m\<rparr>) = polling n t pl polls p"
  "settled n (p\<lparr>jp_error := e\<rparr>) = settled n p"
  by (simp_all add: polling_def settled_def waits_def)

lemma polled_polling:
  assumes "polling n t pl [] p"
  shows "settled n (polled pl' r clock p) \<or> polling n t pl [] (polled pl' r clock p)"
proof (cases r)
  case (Inl e)
  then show ?thesis using settles [OF assms] by (simp add: polled_def poll_failed_def)
next
  case (Inr v)
  let ?q = "p\<lparr>jp_result := v\<rparr>"
  let ?m = "if field v ''status'' = JStr ''RUNNING'' then ?q\<lparr>jp_statusMessage := ''Running test cases...''\<rparr> else ?q"
  have q: "polling n t pl [] ?q" and m: "polling n t pl [] ?m" using assms by simp_all
  show ?thesis using settles [OF q] settles [OF m] m
    unfolding Inr by (simp add: polled_def poll_failed_def Let_def del: polling_parts(1,2))
qed

lemma counted_polled:
  assumes "counted n p"
  shows "counted n (react user (Polled k r clock) p)"
proof (cases "k < length (jp_polls p)")
  case True
  with assms obtain t pl where p: "polling n t pl [pl] p" "k = 0"
    by (auto simp: counted_def orderly_def waits_def polling_def split: if_splits)
  then have "polling n t pl [] (p\<lparr>jp_polls := []\<rparr>)" "jp_polls p = [pl]"
    by (simp_all add: polling_def waits_def)
  with p(2) polled_polling [of n t pl "p\<lparr>jp_polls := []\<rparr>"] polling_counted settled_counted show ?thesis
    by (simp, blast)
qed (use assms in simp)

lemma counted_editor: "counted n p \<Longrightarrow> counted n (react user (Edited src) p)" "counted n p \<Longrightarrow> counted n (react user (Language l) p)"
    "counted n p \<Longrightarrow> counted n (react user (Loaded v) p)"
  by (auto simp: counted_def orderly_def waits_def split: if_splits jsval.splits)

lemma attended_counted: "attended n p \<Longrightarrow> counted n p"
proof (induction rule: attended.induct)
  case opened
  show ?case by (simp add: counted_def orderly_def waits_def initial_page_def)
next
  case (submit n p user)
  then show ?case by (intro counted_submit)
next
  case (event n p e user)
  then show ?case
    by (cases e) (simp_all only: answered_in_time_def judge_event.case counted_run counted_mock counted_posted counted_tick
        counted_polled counted_editor)
qed

section \<open>Rounds of polling\<close>

definition poll_round :: "nat \<Rightarrow> (err + jsval) \<times> int \<Rightarrow> judge_page \<Rightarrow> judge_page" where
  "poll_round t a p = react JNull (Polled 0 (fst a) (snd a)) (react JNull (Tick t) p)"

definition poll_rounds :: "nat \<Rightarrow> ((err + jsval) \<times> int) list \<Rightarrow> judge_page \<Rightarrow> judge_page" where
  "poll_rounds t answers p = fold (poll_round t) answers p"

lemma round_settled: "settled n p \<Longrightarrow> poll_round t a p = p"
  by (simp add: poll_round_def settled_def waits_def)

lemma rounds_settled: "settled n p \<Longrightarrow> poll_rounds t answers p = p"
  unfolding poll_rounds_def by (induction answers) (simp_all add: round_settled)

lemma round_polling:
  assumes "polling n t pl [] p"
  shows "poll_round t a p = polled pl (fst a) (snd a) p"
proof -
  have "p\<lparr>jp_polls := []\<rparr> = p" using assms by (cases p) (simp add: polling_def waits_def)
  from arg_cong [OF this, of "polled pl (fst a) (snd a)"] show ?thesis
    using assms by (simp add: poll_round_def polling_def waits_def drop_nth_def)
qed

text \<open>What an answer that ends the polling leaves on the page: its result, recorded, or an error.\<close>

definition outcome :: "err + jsval \<Rightarrow> judge_page \<Rightarrow> judge_page \<Rightarrow> bool" where
  "outcome r p q \<longleftrightarrow> (case r of
     Inr v \<Rightarrow> if is_final v then jp_result q = v \<and> jp_history q = v # jp_history p \<and> jp_error q = jp_error p
       else truthy (jp_error q) \<and> jp_history q = jp_history p
   | Inl e \<Rightarrow> jp_error q = js_or (JStr (emessage e)) (JStr ''Error checking status'') \<and> jp_history q = jp_history p)"

definition open_answer :: "err + jsval \<Rightarrow> bool" where
  "open_answer r \<longleftrightarrow> (\<exists>v. r = Inr v \<and> \<not> is_final v)"

lemma outcome_same:
  "jp_history p' = jp_history p \<Longrightarrow> jp_error p' = jp_error p \<Longrightarrow> outcome r p' q = outcome r p q"
  by (simp add: outcome_def split: sum.split)

lemma clearTimer_parts [simp]:
  "jp_history (clearTimer p) = jp_history p" "jp_error (clearTimer p) = jp_error p" "jp_result (clearTimer p) = jp_result p"
  by (simp_all add: clearTimer_def split: option.split)

lemma polled_outcome:
  assumes "polling n t pl [] p"
  shows "settled n (polled pl' r clock p) \<and> outcome r p (polled pl' r clock p) \<or>
    polling n t pl [] (polled pl' r clock p) \<and> open_answer r \<and> clock - po_startTime pl' \<le> 25000 \<and>
      jp_history (polled pl' r clock p) = jp_history p \<and> jp_error (polled pl' r clock p) = jp_error p"
proof (cases r)
  case (Inl e)
  then show ?thesis using settles [OF assms]
    by (simp add: polled_def poll_failed_def outcome_def stop_waiting_def)
next
  case (Inr v)
  let ?q = "p\<lparr>jp_result := v\<rparr>"
  let ?m = "if field v ''status'' = JStr ''RUNNING'' then ?q\<lparr>jp_statusMessage := ''Running test cases...''\<rparr> else ?q"
  have q: "polling n t pl [] ?q" and m: "polling n t pl [] ?m" using assms by simp_all
  have same: "jp_history ?m = jp_history p" "jp_error ?m = jp_error p" "jp_result ?m = v" by simp_all
  have absent: "\<not> is_final JUndefined" "\<not> is_final JNull" by (simp_all add: is_final_def)
  consider "v = JUndefined \<or> v = JNull" | "v \<noteq> JUndefined" "v \<noteq> JNull" "is_final v"
    | "v \<noteq> JUndefined" "v \<noteq> JNull" "\<not> is_final v" by blast
  then show ?thesis
  proof cases
    case 1
    then have "\<not> is_final v" using absent by blast
    with 1 settles [OF q] Inr show ?thesis
      by (auto simp: polled_def poll_failed_def outcome_def stop_waiting_def js_or_def no_status_def)
  next
    case 2
    then have "polled pl' r clock p = remember v (stop_waiting (clearTimer ?m))" by (simp add: polled_def Inr Let_def)
    with settles(2) [OF m, of v] 2 same show ?thesis by (simp add: outcome_def Inr remember_def stop_waiting_def)
  next
    case 3
    then have run: "polled pl' r clock p = (if clock - po_startTime pl' > 25000
        then (stop_waiting (clearTimer ?m))\<lparr>jp_error := JStr ''Execution timed out while waiting for worker.''\<rparr> else ?m)"
      by (simp add: polled_def Inr Let_def)
    show ?thesis
    proof (cases "clock - po_startTime pl' > 25000")
      case True
      with run 3 settles(1) [OF m] same show ?thesis by (simp add: outcome_def Inr stop_waiting_def)
    next
      case False
      with run 3 m same show ?thesis by (simp add: open_answer_def Inr)
    qed
  qed
qed

text \<open>The page after some rounds: ended by the first answer that ends it, or still polling.\<close>

definition ended_by :: "((err + jsval) \<times> int) list \<Rightarrow> judge_page \<Rightarrow> judge_page \<Rightarrow> bool" where
  "ended_by answers p q \<longleftrightarrow> (\<exists>j<length answers. (\<forall>i<j. open_answer (fst (answers ! i))) \<and> outcome (fst (answers ! j)) p q)"

lemma ended_by_Cons: "outcome (fst a) p q \<Longrightarrow> ended_by (a # answers) p q"
  unfolding ended_by_def by (rule exI [of _ 0]) simp

lemma ended_by_later: "open_answer (fst a) \<Longrightarrow> ended_by answers p q \<Longrightarrow> ended_by (a # answers) p q"
proof -
  assume a: "open_answer (fst a)" and "ended_by answers p q"
  then obtain j where j: "j < length answers" "\<forall>i<j. open_answer (fst (answers ! i))" "outcome (fst (answers ! j)) p q"
    unfolding ended_by_def by blast
  have "\<forall>i<Suc j. open_answer (fst ((a # answers) ! i))" using a j(2) by (simp add: nth_Cons split: nat.split)
  then show "ended_by (a # answers) p q" unfolding ended_by_def using j by (intro exI [of _ "Suc j"]) simp
qed

lemma rounds_end:
  "polling n t pl [] p \<Longrightarrow> settled n (poll_rounds t answers p) \<and> ended_by answers p (poll_rounds t answers p) \<or>
     polling n t pl [] (poll_rounds t answers p) \<and> list_all (\<lambda>a. snd a - po_startTime pl \<le> 25000) answers"
proof (induction answers arbitrary: p)
  case (Cons a answers)
  let ?q = "polled pl (fst a) (snd a) p"
  have step: "poll_rounds t (a # answers) p = poll_rounds t answers ?q"
    by (simp add: poll_rounds_def round_polling [OF Cons.prems])
  from polled_outcome [OF Cons.prems, of pl "fst a" "snd a"] show ?case
  proof (elim disjE conjE)
    assume "settled n ?q" "outcome (fst a) p ?q"
    then show ?thesis by (simp add: step rounds_settled ended_by_Cons)
  next
    assume q: "polling n t pl [] ?q" "open_answer (fst a)" "snd a - po_startTime pl \<le> 25000"
      "jp_history ?q = jp_history p" "jp_error ?q = jp_error p"
    have "ended_by answers ?q r = ended_by answers p r" for r
      unfolding ended_by_def using outcome_same [OF q(4,5)] by simp
    with Cons.IH [OF q(1)] ended_by_later [OF q(2)] q(3) show ?thesis by (auto simp: step)
  qed
qed (simp add: poll_rounds_def)

section \<open>Properties\<close>

text \<open>C11: one submission at a time. As long as every poll is answered before the next tick, the page
  waits for at most one submission: the requests, the intervals and the demonstration together are
  one exactly when the buttons are disabled for a submission; every running interval is the one the
  page can still clear, every waiting poll belongs to it, and no submission is recorded twice.\<close>

theorem one_submission_at_a_time:
  assumes "attended n p"
  shows "length (jp_posts p) + length (jp_intervals p) + jp_mocks p = (if jp_isSubmitting p then 1 else 0) \<and>
    map fst (jp_intervals p) = (case jp_pollTimer p of None \<Rightarrow> [] | Some t \<Rightarrow> [t]) \<and>
    length (jp_polls p) \<le> length (jp_intervals p) \<and> set (jp_polls p) \<subseteq> snd ` set (jp_intervals p) \<and>
    length (jp_history p) + (if jp_isSubmitting p then 1 else 0) \<le> n"
  using attended_counted [OF assms] by (auto simp: counted_def orderly_def waits_def split: if_splits)

text \<open>C12: a submission does not wait for ever. Whatever the API answers to the polls, and however
  often it says that the submission is still queued or running, after 21 rounds of polling, one
  every 1200 milliseconds, no timer is left and the page has the outcome of the first answer that
  ended the wait: if it was a final result, this result is shown, is put in front of the history,
  and there is no new error; otherwise an error is shown and the history is unchanged. All answers
  before it were results that were not final.\<close>

theorem polling_settles:
  assumes "attended n p" and "jp_intervals p = [(t, pl)]" and "jp_polls p = []"
    and "length answers = 21" and "\<forall>k<21. po_startTime pl + 1200 * (int k + 1) \<le> snd (answers ! k)"
  shows "\<not> jp_isSubmitting (poll_rounds t answers p) \<and> jp_intervals (poll_rounds t answers p) = [] \<and>
    jp_pollTimer (poll_rounds t answers p) = None \<and>
    (\<exists>j<21. (\<forall>i<j. \<exists>v. fst (answers ! i) = Inr v \<and> \<not> is_final v) \<and>
      (case fst (answers ! j) of
         Inr v \<Rightarrow> if is_final v then jp_result (poll_rounds t answers p) = v \<and>
             jp_history (poll_rounds t answers p) = v # jp_history p \<and> jp_error (poll_rounds t answers p) = jp_error p
           else truthy (jp_error (poll_rounds t answers p)) \<and> jp_history (poll_rounds t answers p) = jp_history p
       | Inl e \<Rightarrow> jp_error (poll_rounds t answers p) = JStr (if emessage e = [] then ''Error checking status'' else emessage e) \<and>
           jp_history (poll_rounds t answers p) = jp_history p))"
proof -
  have p: "polling n t pl [] p"
    using attended_counted [OF assms(1)] assms(2,3)
    by (auto simp: counted_def orderly_def waits_def polling_def split: if_splits)
  have "answers ! 20 \<in> set answers" using assms(4) by simp
  moreover have "\<not> snd (answers ! 20) - po_startTime pl \<le> 25000" using assms(5) [rule_format, of 20] by simp
  ultimately have "\<not> list_all (\<lambda>a. snd a - po_startTime pl \<le> 25000) answers" unfolding list_all_iff by blast
  with rounds_end [OF p, of answers] have s: "settled n (poll_rounds t answers p)" and e: "ended_by answers p (poll_rounds t answers p)"
    by blast+
  have msg: "js_or (JStr (emessage e)) (JStr ''Error checking status'') =
      JStr (if emessage e = [] then ''Error checking status'' else emessage e)" for e
    by (simp add: js_or_def)
  show ?thesis
    using s e unfolding ended_by_def outcome_def open_answer_def assms(4) msg by (simp add: settled_def waits_def)
qed

text \<open>a submission that the judge refused is shown as accepted. Whatever error answers the
  request (an expired session, an inactive problem, an unreachable server), the page shows the
  verdict ACCEPTED, no error message, and an accepted entry in front of the history.\<close>

theorem refused_shown_accepted:
  assumes "k < length (jp_posts p)"
  shows "banner_title (jp_result (react user (Posted k (Inl e) clock time) p)) = JStr ''ACCEPTED'' \<and>
    jp_error (react user (Posted k (Inl e) clock time) p) = jp_error p \<and>
    (\<exists>r. jp_history (react user (Posted k (Inl e) clock time) p) = r # jp_history p \<and>
      field r ''verdict'' = JStr ''ACCEPTED'')"
  using assms by (simp add: created_def show_mock_def remember_def stop_waiting_def mock_result_def banner_title_def
      js_or_def Let_def)

text \<open>the panel of a judged submission shows its verdict and nothing else of the judgement: for
  every stored submission, as the API describes it, the panel says that 3 of 3 test cases passed,
  in 2 ms and 10.4 MB, and that each of three cases passed.\<close>

theorem results_panel_constant:
  "banner_title (toSafeSubmission inc s) = JStr (verdict_name (s_verdict s)) \<and>
   passed_text (toSafeSubmission inc s) = (js_int 3, js_int 3) \<and>
   cost_text (toSafeSubmission inc s) = (JStr ''2 ms'', JStr ''10.4 MB'') \<and>
   breakdown (toSafeSubmission inc s) = [(1, ''Passed''), (2, ''Passed''), (3, ''Passed'')]"
proof -
  have "verdict_name (s_verdict s) \<noteq> []" by (cases "s_verdict s") simp_all
  then show ?thesis
    by (simp add: banner_title_def passed_text_def cost_text_def breakdown_def toSafeSubmission_def js_or_def)
qed

text \<open>Events one after another.\<close>

definition reacts :: "jsval \<Rightarrow> judge_event list \<Rightarrow> judge_page \<Rightarrow> judge_page" where
  "reacts user es p = fold (react user) es p"

definition with_status :: "string \<Rightarrow> string \<Rightarrow> jsval" where
  "with_status i st = JObj [(''id'', JStr i), (''status'', JStr st)]"

text \<open>Changing the text, the language or the problem does not touch what the page waits for.\<close>

definition editing :: "judge_event \<Rightarrow> bool" where
  "editing e \<longleftrightarrow> (case e of Edited _ \<Rightarrow> True | Language _ \<Rightarrow> True | Loaded _ \<Rightarrow> True | _ \<Rightarrow> False)"

lemma editing_keeps:
  assumes "editing e"
  shows "waits posts mocks intervals polls (react user e p) = waits posts mocks intervals polls p"
    "jp_isSubmitting (react user e p) = jp_isSubmitting p" "jp_isRunning (react user e p) = jp_isRunning p"
    "jp_history (react user e p) = jp_history p" "jp_nextTimer (react user e p) = jp_nextTimer p"
  using assms by (cases e; simp add: editing_def waits_def split: jsval.split)+

lemma edits_keep:
  assumes "list_all editing es"
  shows "waits posts mocks intervals polls (reacts user es p) = waits posts mocks intervals polls p"
    "jp_isSubmitting (reacts user es p) = jp_isSubmitting p" "jp_isRunning (reacts user es p) = jp_isRunning p"
    "jp_history (reacts user es p) = jp_history p" "jp_nextTimer (reacts user es p) = jp_nextTimer p"
  using assms unfolding reacts_def by (induction es arbitrary: p) (simp_all add: editing_keeps)

text \<open>A page that waits for nothing asks for nothing, until the next submission.\<close>

lemma silent:
  assumes "Click_submit \<notin> set es" and "jp_posts p = []" and "jp_intervals p = []" and "jp_polls p = []"
  shows "jp_posts (reacts user es p) = [] \<and> jp_intervals (reacts user es p) = [] \<and> jp_polls (reacts user es p) = []"
  using assms unfolding reacts_def
proof (induction es arbitrary: p)
  case (Cons e es)
  then have "jp_posts (react user e p) = [] \<and> jp_intervals (react user e p) = [] \<and> jp_polls (react user e p) = []"
    by (cases e) (auto simp: handleRun_def run_done_def mock_done_def settle_defs split: jsval.split option.split)
  with Cons show ?case by simp
qed simp

text \<open>The two pages on the way: one poll of an ended submission is on its way, and so is the next submission.\<close>

lemma ended_with_late_poll:
  assumes "attended n p" and "jp_intervals p = [(t, pl)]" and "jp_polls p = [pl]" and v: "is_final v"
  and q_def: "q = reacts user [Tick t, Polled 0 (Inr v) c] p"
  shows "waits [] 0 [] [pl] q" "\<not> jp_isSubmitting q" "\<not> jp_isRunning q" "jp_history q = v # jp_history p"
proof -
  have p: "polling n t pl [pl] p"
    using attended_counted [OF assms(1)] assms(2,3)
    by (auto simp: counted_def orderly_def waits_def polling_def split: if_splits)
  have "v \<noteq> JUndefined" "v \<noteq> JNull" using v by (auto simp: is_final_def)
  then show "waits [] 0 [] [pl] q" "\<not> jp_isSubmitting q" "\<not> jp_isRunning q" "jp_history q = v # jp_history p"
    using p v by (auto simp: q_def reacts_def polling_def waits_def polled_def settle_defs drop_nth_def)
qed

lemma next_submission_queued:
  assumes "waits [] 0 [] [pl] p" and "\<not> jp_isSubmitting p" and "\<not> jp_isRunning p" and "truthy user"
    and "js_trim (jp_sourceCode p) \<noteq> []" and "sub \<noteq> JUndefined" and "sub \<noteq> JNull" and "\<not> is_final sub"
  and q_def: "q = reacts user [Click_submit, Posted 0 (Inr sub) c time] p"
  shows "waits [] 0 [(jp_nextTimer p, \<lparr>po_submissionId = field sub ''id'', po_startTime = c\<rparr>)] [pl] q" "jp_isSubmitting q"
    "\<not> jp_isRunning q" "jp_history q = jp_history p"
  using assms(1-8)
  by (simp_all add: q_def reacts_def waits_def busy_def handleSubmit_def created_def start_polling_def clearTimer_def Let_def drop_nth_def)

lemma late_poll_ends:
  assumes "waits [] 0 [(t, next)] [pl] p" and "\<not> jp_isRunning p" and r: "\<And>v. r = Inr v \<Longrightarrow> is_final v"
  and q_def: "q = react user (Polled 0 r c) p"
  shows "waits [] 0 [] [] q" "\<not> busy q"
    "case r of Inr v \<Rightarrow> jp_result q = v \<and> jp_history q = v # jp_history p | Inl e \<Rightarrow> truthy (jp_error q)"
proof -
  have "v \<noteq> JUndefined \<and> v \<noteq> JNull" if "r = Inr v" for v using r [OF that] by (auto simp: is_final_def)
  then show "waits [] 0 [] [] q" "\<not> busy q"
    "case r of Inr v \<Rightarrow> jp_result q = v \<and> jp_history q = v # jp_history p | Inl e \<Rightarrow> truthy (jp_error q)"
    using assms(1,2) r
    by (cases r; auto simp: q_def waits_def busy_def polled_def settle_defs drop_nth_def js_or_def)+
qed

text \<open>C13: a slow answer ends the wrong submission. Take any page that is polling with a poll under
  way, and any texts, ids and times: at the next tick a second poll leaves; the first is answered
  with the final result; the user may edit, and submits again; the new submission is queued, and
  polled for. If the second poll of the first submission is answered only then, by an error or by
  a final result, this answer stops the polling of the new submission: the page is ready for yet
  another one, the final result of the first is shown and recorded a second time (or an error is
  shown), and until another submission is made nothing ever asks for the result of the new one.\<close>

theorem slow_poll_ends_next:
  assumes "attended n p" and "jp_intervals p = [(t, pl)]" and "jp_polls p = [pl]" and "is_final v"
    and "list_all editing es" and "js_trim (jp_sourceCode (reacts user ([Tick t, Polled 0 (Inr v) c1] @ es) p)) \<noteq> []"
    and "truthy user" and "sub \<noteq> JUndefined" and "sub \<noteq> JNull" and "\<not> is_final sub" and "\<forall>v'. r = Inr v' \<longrightarrow> is_final v'"
  shows "\<exists>p1 p2. p1 = reacts user ([Tick t, Polled 0 (Inr v) c1] @ es @ [Click_submit, Posted 0 (Inr sub) c2 time]) p \<and>
    p2 = react user (Polled 0 r c3) p1 \<and>
    map snd (jp_intervals p1) = [\<lparr>po_submissionId = field sub ''id'', po_startTime = c2\<rparr>] \<and> jp_isSubmitting p1 \<and>
    \<not> busy p2 \<and> jp_intervals p2 = [] \<and>
    (case r of Inr v' \<Rightarrow> jp_result p2 = v' \<and> jp_history p2 = v' # v # jp_history p | Inl e \<Rightarrow> truthy (jp_error p2)) \<and>
    (\<forall>later someone. Click_submit \<notin> set later \<longrightarrow>
       jp_posts (reacts someone later p2) = [] \<and> jp_polls (reacts someone later p2) = [])"
proof -
  let ?a = "reacts user [Tick t, Polled 0 (Inr v) c1] p"
  let ?b = "reacts user es ?a"
  let ?c = "reacts user [Click_submit, Posted 0 (Inr sub) c2 time] ?b"
  let ?d = "react user (Polled 0 r c3) ?c"
  have joined: "reacts user (xs @ ys) q = reacts user ys (reacts user xs q)" for xs ys q
    by (simp add: reacts_def)
  note a = ended_with_late_poll [OF assms(1-4) refl, of user c1]
  have b: "waits [] 0 [] [pl] ?b" "\<not> jp_isSubmitting ?b" "\<not> jp_isRunning ?b" "jp_history ?b = v # jp_history p"
    using a by (simp_all add: edits_keep [OF assms(5)])
  have src: "js_trim (jp_sourceCode ?b) \<noteq> []" using assms(6) unfolding joined .
  note c = next_submission_queued [OF b(1-3) assms(7) src assms(8-10) refl, of c2 time]
  have final: "is_final v'" if "r = Inr v'" for v' using assms(11) that by blast
  have hist: "jp_history ?c = v # jp_history p" unfolding c(4) by (rule b(4))
  note d = late_poll_ends [OF c(1,3) final refl, where c = c3 and user = user, unfolded hist]
  have quiet: "jp_posts ?d = []" "jp_intervals ?d = []" "jp_polls ?d = []" using d(1) unfolding waits_def by blast+
  show ?thesis
  proof (intro exI conjI)
    show "?c = reacts user ([Tick t, Polled 0 (Inr v) c1] @ es @ [Click_submit, Posted 0 (Inr sub) c2 time]) p"
      by (simp only: joined)
    show "\<forall>later someone. Click_submit \<notin> set later \<longrightarrow>
       jp_posts (reacts someone later ?d) = [] \<and> jp_polls (reacts someone later ?d) = []"
      using silent [OF _ quiet] by blast
    show "map snd (jp_intervals ?c) = [\<lparr>po_submissionId = field sub ''id'', po_startTime = c2\<rparr>]"
      using c(1) by (simp only: waits_def list.map snd_conv)
    show "jp_isSubmitting ?c" by (rule c(2))
    show "\<not> busy ?d" by (rule d(2))
    show "jp_intervals ?d = []" by (rule quiet(2))
    show "case r of Inr v' \<Rightarrow> jp_result ?d = v' \<and> jp_history ?d = v' # v # jp_history p | Inl e \<Rightarrow> truthy (jp_error ?d)"
      by (rule d(3))
  qed (rule refl)
qed

section \<open>Two pages\<close>

definition posted_page :: judge_page where
  "posted_page = react (JBool True) Click_submit (react JNull (Edited ''x'') initial_page)"

definition polling_page :: judge_page where
  "polling_page = react JNull (Posted 0 (Inr (with_status ''s'' ''QUEUED'')) 0 []) posted_page"

lemma posted_facts: "length (jp_posts posted_page) = 1" "jp_isSubmitting posted_page" "starts (react JNull (Edited ''x'') initial_page)"
    "jp_mocks posted_page = 0"
  by code_simp+

lemma polling_facts: "jp_intervals polling_page = [(1, \<lparr>po_submissionId = JStr ''s'', po_startTime = 0\<rparr>)]" "jp_polls polling_page = []"
    "jp_isSubmitting polling_page"
  by code_simp+

lemma attended_posted: "attended 1 posted_page"
  using attended.submit [OF attended.event [OF attended.opened, of "Edited ''x''" JNull], of "JBool True"] posted_facts(3)
  by (simp add: posted_page_def answered_in_time_def)

lemma attended_polling: "attended 1 polling_page"
  unfolding polling_page_def by (rule attended.event [OF attended_posted]) (simp add: answered_in_time_def)

theorem one_submission_at_a_time_witness: "attended 1 posted_page \<and> length (jp_intervals posted_page) = 0 \<and>
    length (jp_history posted_page) = 0"
  using one_submission_at_a_time [OF attended_posted] attended_posted posted_facts by simp

theorem polling_settles_witness:
  "jp_isSubmitting polling_page \<and>
   \<not> jp_isSubmitting (poll_rounds 1 (map (\<lambda>k. (Inr (with_status ''s'' ''RUNNING''), 1200 * (int k + 1))) [0..<21]) polling_page)"
proof -
  have "\<forall>k<21. po_startTime \<lparr>po_submissionId = JStr ''s'', po_startTime = 0\<rparr> + 1200 * (int k + 1) \<le>
      snd (map (\<lambda>k. (Inr (with_status ''s'' ''RUNNING'') :: err + jsval, 1200 * (int k + 1))) [0..<21] ! k)"
    by simp
  from polling_settles [OF attended_polling polling_facts(1,2) _ this] polling_facts(3) show ?thesis by simp
qed

theorem refused_shown_accepted_witness:
  "banner_title (jp_result (react JNull (Posted 0 (Inl (plain_error ''Problem is not active'')) 0 []) posted_page)) = JStr ''ACCEPTED''"
  using refused_shown_accepted [of 0 posted_page] posted_facts(1) by simp

definition asking_page :: judge_page where
  "asking_page = react JNull (Tick 1) polling_page"

lemma asking_facts: "jp_intervals asking_page = [(1, \<lparr>po_submissionId = JStr ''s'', po_startTime = 0\<rparr>)]"
    "jp_polls asking_page = [\<lparr>po_submissionId = JStr ''s'', po_startTime = 0\<rparr>]"
  by code_simp+

lemma attended_asking: "attended 1 asking_page"
  unfolding asking_page_def by (rule attended.event [OF attended_polling]) (simp add: answered_in_time_def polling_facts)

theorem slow_poll_ends_next_witness:
  "\<exists>p2. p2 = react (JBool True) (Polled 0 (Inr (with_status ''s'' ''COMPLETED'')) 2700)
       (reacts (JBool True) ([Tick 1, Polled 0 (Inr (with_status ''s'' ''COMPLETED'')) 2500] @ [Edited ''y''] @
          [Click_submit, Posted 0 (Inr (with_status ''b'' ''QUEUED'')) 2600 []]) asking_page) \<and>
     jp_intervals p2 = [] \<and> jp_result p2 = with_status ''s'' ''COMPLETED''"
proof -
  have "js_trim (jp_sourceCode (reacts (JBool True) ([Tick 1, Polled 0 (Inr (with_status ''s'' ''COMPLETED'')) 2500] @ [Edited ''y'']) asking_page)) \<noteq> []"
    by code_simp
  from slow_poll_ends_next [OF attended_asking asking_facts _ _ this, of "with_status ''b'' ''QUEUED''" "Inr (with_status ''s'' ''COMPLETED'')" 2600 "[]" 2700]
  show ?thesis by (simp add: is_final_def with_status_def editing_def)
qed

end
