(* ===== verification/AdminForm.thy ===== *)
theory AdminForm
  imports ProblemPage Problems
begin

text \<open>
  The form of an administrator for a problem (\<open>frontend/src/pages/admin/AdminProblemForm.jsx\<close>): its
  fields and their handlers, what is sent, and how the form and the API's validation fit. The
  texts of a loaded problem are texts, as the API sends them.
\<close>

section \<open>State\<close>

record example_row =
  er_input :: string
  er_output :: string
  er_explanation :: string

record test_row =
  tr_id :: nat
  tr_input :: string
  tr_expectedOutput :: string

text \<open>\<open>pf_leaving\<close>: the timeout that goes back to the list was started.\<close>

record problem_form =
  pf_isEdit :: bool
  pf_problemId :: string
  pf_title :: string
  pf_slug :: string
  pf_difficulty :: string
  pf_selectedTopics :: "string list"
  pf_selectedCompanies :: "string list"
  pf_description :: string
  pf_inputFormat :: string
  pf_outputFormat :: string
  pf_constraints :: string
  pf_examples :: "example_row list"
  pf_testCaseTab :: string
  pf_sampleTestCases :: "test_row list"
  pf_hiddenTestCases :: "test_row list"
  pf_settings :: "string \<Rightarrow> bool"
  pf_isLoading :: bool
  pf_isSaving :: bool
  pf_error :: "string option"
  pf_success :: "string option"
  pf_leaving :: bool

definition empty_example :: example_row where
  "empty_example = \<lparr>er_input = [], er_output = [], er_explanation = []\<rparr>"

definition empty_test :: "nat \<Rightarrow> test_row" where
  "empty_test n = \<lparr>tr_id = n, tr_input = [], tr_expectedOutput = []\<rparr>"

definition new_form :: "string option \<Rightarrow> problem_form" where
  "new_form problemId = \<lparr>pf_isEdit = (problemId \<noteq> None), pf_problemId = default_to ''undefined'' problemId, pf_title = [],
     pf_slug = ''two-sum'', pf_difficulty = ''EASY'', pf_selectedTopics = [''Array'', ''Hash Table''],
     pf_selectedCompanies = [''Google'', ''Amazon''], pf_description = [], pf_inputFormat = [], pf_outputFormat = [],
     pf_constraints = [], pf_examples = [empty_example], pf_testCaseTab = ''sample'', pf_sampleTestCases = [empty_test 1],
     pf_hiddenTestCases = [empty_test 1], pf_settings = (\<lambda>k. k = ''isPublic''), pf_isLoading = (problemId \<noteq> None),
     pf_isSaving = False, pf_error = None, pf_success = None, pf_leaving = False\<rparr>"

section \<open>Slugs\<close>

definition is_slug :: "char \<Rightarrow> bool" where
  "is_slug c \<longleftrightarrow> is_digit c \<or> (97 \<le> code_unit c \<and> code_unit c \<le> 122)"

text \<open>\<open>replace(/[^a-z0-9]+/g, '-')\<close> and \<open>replace(/(^-|-$)/g, '')\<close>.\<close>

function dash_others :: "string \<Rightarrow> string" where
  "dash_others [] = []"
| "dash_others (c # s) = (if is_slug c then c # dash_others s
     else CHR ''-'' # dash_others (dropWhile (\<lambda>d. \<not> is_slug d) s))"
  by pat_completeness auto

termination
  by (relation "measure length") (auto simp: le_imp_less_Suc length_dropWhile_le)

definition strip_dashes :: "string \<Rightarrow> string" where
  "strip_dashes s =
     (let t = (case s of c # r \<Rightarrow> if c = CHR ''-'' then r else s | [] \<Rightarrow> []) in
      if t \<noteq> [] \<and> last t = CHR ''-'' then butlast t else t)"

definition generated_slug :: "string \<Rightarrow> string" where
  "generated_slug val = strip_dashes (dash_others (js_lower val))"

definition typed_slug :: "string \<Rightarrow> string" where
  "typed_slug val = filter (\<lambda>c. is_slug c \<or> c = CHR ''-'') (js_lower val)"

section \<open>Handlers\<close>

datatype form_event =
    Title string | Slug string | Difficulty string | Topic string | Company string
  | Description string | Toolbar string | Input_format string | Output_format string | Constraints string
  | Add_example | Remove_example nat | Example nat string string
  | Test_tab string | Add_test | Remove_test nat | Test nat string string | Setting string bool

definition toggled :: "'a \<Rightarrow> 'a list \<Rightarrow> 'a list" where
  "toggled x xs = (if x \<in> set xs then filter (\<lambda>y. y \<noteq> x) xs else xs @ [x])"

text \<open>\<open>rows.filter((_, i) => i !== idx)\<close>, unless it is the only row.\<close>

definition without_row :: "nat \<Rightarrow> 'a list \<Rightarrow> 'a list" where
  "without_row i rows = (if length rows \<le> 1 then rows else take i rows @ drop (Suc i) rows)"

definition set_example :: "string \<Rightarrow> string \<Rightarrow> example_row \<Rightarrow> example_row" where
  "set_example k v ex = (if k = ''input'' then ex\<lparr>er_input := v\<rparr> else if k = ''output'' then ex\<lparr>er_output := v\<rparr>
     else ex\<lparr>er_explanation := v\<rparr>)"

definition set_test :: "string \<Rightarrow> string \<Rightarrow> test_row \<Rightarrow> test_row" where
  "set_test k v tc = (if k = ''input'' then tc\<lparr>tr_input := v\<rparr> else tc\<lparr>tr_expectedOutput := v\<rparr>)"

definition update_at :: "nat \<Rightarrow> ('a \<Rightarrow> 'a) \<Rightarrow> 'a list \<Rightarrow> 'a list" where
  "update_at i f xs = (if i < length xs then xs[i := f (xs ! i)] else xs)"

definition change_tests :: "(test_row list \<Rightarrow> test_row list) \<Rightarrow> problem_form \<Rightarrow> problem_form" where
  "change_tests g f = (if pf_testCaseTab f = ''sample'' then f\<lparr>pf_sampleTestCases := g (pf_sampleTestCases f)\<rparr>
     else f\<lparr>pf_hiddenTestCases := g (pf_hiddenTestCases f)\<rparr>)"

fun form_step :: "form_event \<Rightarrow> problem_form \<Rightarrow> problem_form" where
  "form_step (Title val) f = (if pf_isEdit f then f\<lparr>pf_title := val\<rparr>
     else f\<lparr>pf_title := val, pf_slug := (if generated_slug val = [] then ''new-problem'' else generated_slug val)\<rparr>)"
| "form_step (Slug val) f = f\<lparr>pf_slug := typed_slug val\<rparr>"
| "form_step (Difficulty d) f = (if d \<in> {''EASY'', ''MEDIUM'', ''HARD''} then f\<lparr>pf_difficulty := d\<rparr> else f)"
| "form_step (Topic t) f = f\<lparr>pf_selectedTopics := toggled t (pf_selectedTopics f)\<rparr>"
| "form_step (Company c) f = f\<lparr>pf_selectedCompanies := toggled c (pf_selectedCompanies f)\<rparr>"
| "form_step (Description val) f = f\<lparr>pf_description := val\<rparr>"
| "form_step (Toolbar syntax) f = f\<lparr>pf_description := pf_description f @ syntax\<rparr>"
| "form_step (Input_format val) f = f\<lparr>pf_inputFormat := val\<rparr>"
| "form_step (Output_format val) f = f\<lparr>pf_outputFormat := val\<rparr>"
| "form_step (Constraints val) f = f\<lparr>pf_constraints := val\<rparr>"
| "form_step Add_example f = f\<lparr>pf_examples := pf_examples f @ [empty_example]\<rparr>"
| "form_step (Remove_example i) f = f\<lparr>pf_examples := without_row i (pf_examples f)\<rparr>"
| "form_step (Example i k v) f = f\<lparr>pf_examples := update_at i (set_example k v) (pf_examples f)\<rparr>"
| "form_step (Test_tab t) f = f\<lparr>pf_testCaseTab := t\<rparr>"
| "form_step Add_test f = change_tests (\<lambda>ts. ts @ [empty_test (length ts + 1)]) f"
| "form_step (Remove_test i) f = change_tests (without_row i) f"
| "form_step (Test i k v) f = change_tests (update_at i (set_test k v)) f"
| "form_step (Setting k b) f = f\<lparr>pf_settings := (pf_settings f)(k := b)\<rparr>"

section \<open>Loading a problem to edit\<close>

definition text_or :: "jsval \<Rightarrow> string \<Rightarrow> string" where
  "text_or v d = (case v of JStr s \<Rightarrow> if s = [] then d else s | _ \<Rightarrow> d)"

definition loaded_example :: "jsval \<Rightarrow> example_row" where
  "loaded_example ex = \<lparr>er_input = text_or (field ex ''input'') [], er_output = text_or (field ex ''output'') [],
     er_explanation = text_or (field ex ''explanation'') []\<rparr>"

definition fill_form :: "jsval \<Rightarrow> problem_form \<Rightarrow> problem_form" where
  "fill_form p f = f\<lparr>pf_title := text_or (field p ''title'') [],
     pf_slug := text_or (field p ''slug'') (dash_others (js_lower (text_or (field p ''title'') []))),
     pf_difficulty := text_or (field p ''difficulty'') ''EASY'',
     pf_selectedTopics := (case field p ''tags'' of JArr ts \<Rightarrow> map text_of ts | _ \<Rightarrow> [''Array'']),
     pf_description := text_or (field p ''description'') [], pf_inputFormat := text_or (field p ''inputFormat'') [],
     pf_outputFormat := text_or (field p ''outputFormat'') [], pf_constraints := text_or (field p ''constraints'') [],
     pf_examples := (case field p ''examples'' of JArr (ex # exs) \<Rightarrow> map loaded_example (ex # exs) | _ \<Rightarrow> pf_examples f)\<rparr>"

definition message_or :: "err \<Rightarrow> string \<Rightarrow> string" where
  "message_or e d = (if emessage e = [] then d else emessage e)"

definition loadProblem :: "'w net \<Rightarrow> problem_form \<Rightarrow> ('w browser, problem_form) io" where
  "loadProblem N f =
     (if \<not> pf_isEdit f then ret f
      else await (try_catch
          (await (problemService_getProblemById N (pf_problemId f)) (\<lambda>p.
           await (prop_of p ''title'') (\<lambda>_. ret (fill_form p (f\<lparr>pf_error := None\<rparr>)))))
          (\<lambda>e. ret (f\<lparr>pf_error := Some (message_or e ''Failed to load problem data for editing'')\<rparr>))) (\<lambda>g.
        ret (g\<lparr>pf_isLoading := False\<rparr>)))"

section \<open>Saving\<close>

definition form_error :: "problem_form \<Rightarrow> string option" where
  "form_error f =
     (if js_trim (pf_title f) = [] then Some ''Problem title is required''
      else if js_trim (pf_description f) = [] then Some ''Problem statement description is required''
      else if js_trim (pf_inputFormat f) = [] then Some ''Input format is required''
      else if js_trim (pf_outputFormat f) = [] then Some ''Output format is required''
      else if js_trim (pf_constraints f) = [] then Some ''Constraints are required''
      else None)"

definition form_payload :: "problem_form \<Rightarrow> jsval" where
  "form_payload f = JObj
     [(''title'', JStr (js_trim (pf_title f))), (''difficulty'', JStr (pf_difficulty f)),
      (''tags'', JArr (map JStr (pf_selectedTopics f))), (''description'', JStr (js_trim (pf_description f))),
      (''inputFormat'', JStr (js_trim (pf_inputFormat f))), (''outputFormat'', JStr (js_trim (pf_outputFormat f))),
      (''constraints'', JStr (js_trim (pf_constraints f))),
      (''examples'', JArr (map (\<lambda>ex. JObj [(''input'', JStr (er_input ex)), (''output'', JStr (er_output ex))]) (pf_examples f)))]"

definition submit_form :: "'w net \<Rightarrow> problem_form \<Rightarrow> ('w browser, problem_form) io" where
  "submit_form N f = (let g = f\<lparr>pf_error := None, pf_success := None\<rparr> in
     case form_error g of
       Some m \<Rightarrow> ret (g\<lparr>pf_error := Some m\<rparr>)
     | None \<Rightarrow> try_catch
         (await (if pf_isEdit g then problemService_updateProblem N (pf_problemId g) (form_payload g)
                 else problemService_createProblem N (form_payload g)) (\<lambda>_.
          ret (g\<lparr>pf_success := Some (if pf_isEdit g then ''Problem updated successfully!'' else ''Problem created successfully!''),
            pf_leaving := True\<rparr>)))
         (\<lambda>e. ret (g\<lparr>pf_error := Some (message_or e ''Failed to save problem'')\<rparr>)))"

section \<open>Facts on the form\<close>

definition well_formed :: "problem_form \<Rightarrow> bool" where
  "well_formed f \<longleftrightarrow> pf_difficulty f \<in> {''EASY'', ''MEDIUM'', ''HARD''} \<and> pf_examples f \<noteq> []"

lemma without_row_ne: "xs \<noteq> [] \<Longrightarrow> without_row i xs \<noteq> []"
  by (cases xs rule: remdups_adj.cases) (auto simp: without_row_def)

lemma update_at_ne [simp]: "update_at i f xs = [] \<longleftrightarrow> xs = []"
  by (simp add: update_at_def)

lemma well_formed_step: "well_formed f \<Longrightarrow> well_formed (form_step e f)"
  by (cases e) (auto simp: well_formed_def change_tests_def without_row_ne)

lemma well_formed_steps: "well_formed f \<Longrightarrow> well_formed (fold form_step es f)"
  by (induction es arbitrary: f) (simp_all add: well_formed_step)

lemma well_formed_new: "well_formed (new_form problemId)"
  by (simp add: well_formed_def new_form_def)

definition sent_example :: "example_row \<Rightarrow> jsval" where
  "sent_example ex = JObj [(''input'', JStr (er_input ex)), (''output'', JStr (er_output ex))]"

lemma sent_examples: "json_sent (JArr (map (\<lambda>ex. JObj [(''input'', JStr (er_input ex)), (''output'', JStr (er_output ex))]) exs)) =
    JArr (map sent_example exs)"
  by (simp add: sent_example_def)

lemma sent_texts: "json_sent (JArr (map JStr ts)) = JArr (map JStr ts)"
  by simp

lemma first_bad_sent: "first_bad n (map sent_example exs) = None"
  by (induction exs arbitrary: n) (simp_all add: bad_example_def sent_example_def)

lemma clean_sent: "clean_example (sent_example ex) = sent_example ex"
  by (simp add: clean_example_def sent_example_def)

lemma create_body:
  "json_sent (problem_payload (form_payload f)) = JObj
     [(''title'', JStr (js_trim (pf_title f))), (''description'', JStr (js_trim (pf_description f))),
      (''difficulty'', JStr (pf_difficulty f)), (''tags'', JArr (map JStr (pf_selectedTopics f))),
      (''inputFormat'', JStr (js_trim (pf_inputFormat f))), (''outputFormat'', JStr (js_trim (pf_outputFormat f))),
      (''constraints'', JStr (js_trim (pf_constraints f))), (''examples'', JArr (map sent_example (pf_examples f)))]"
  by (simp add: problem_payload_def form_payload_def array_or_empty_def sent_example_def)

lemma update_body:
  "json_sent (update_payload (form_payload f)) = JObj
     [(''title'', JStr (js_trim (pf_title f))), (''description'', JStr (js_trim (pf_description f))),
      (''difficulty'', JStr (pf_difficulty f)), (''tags'', JArr (map JStr (pf_selectedTopics f))),
      (''inputFormat'', JStr (js_trim (pf_inputFormat f))), (''outputFormat'', JStr (js_trim (pf_outputFormat f))),
      (''constraints'', JStr (js_trim (pf_constraints f))), (''examples'', JArr (map sent_example (pf_examples f)))]"
  by (simp add: update_payload_def update_fields_def form_payload_def sent_example_def)

lemma blank_text [simp]: "blank (JStr s) \<longleftrightarrow> js_trim s = []"
  by (simp add: blank_def)

lemma no_form_error:
  "form_error f = None \<longleftrightarrow> js_trim (pf_title f) \<noteq> [] \<and> js_trim (pf_description f) \<noteq> [] \<and> js_trim (pf_inputFormat f) \<noteq> [] \<and>
     js_trim (pf_outputFormat f) \<noteq> [] \<and> js_trim (pf_constraints f) \<noteq> []"
  by (simp add: form_error_def)

lemma difficulty_texts: "d \<in> {''EASY'', ''MEDIUM'', ''HARD''} \<Longrightarrow> valid_difficulty (JStr d)"
  by (auto simp: valid_difficulty_def VALID_DIFFICULTIES_def)

lemma check_sent: "exs \<noteq> [] \<Longrightarrow> check_examples (JArr (map sent_example exs)) = Inr ()"
  by (simp add: check_examples_def items_of_def first_bad_sent)

lemma new_problem_examples:
  assumes "validateCreateProblem (json_sent (problem_payload (form_payload f))) = Inr data"
  shows "p_examples (new_problem data a i t) = map (\<lambda>ex. (er_input ex, er_output ex)) (pf_examples f)"
  using assms
  by (auto simp: validateCreateProblem_def create_body Let_def new_problem_def assign_fields_def allowed_fields_def
      apply_field_def items_of_def clean_sent example_of_def sent_example_def text_of_def clean_example_def
      problem_server_fields_def
      split: if_splits sum.splits)

lemma clean_tags_same: "\<forall>t\<in>set ts. js_trim t = t \<and> t \<noteq> [] \<Longrightarrow> clean_tags (JArr (map JStr ts)) = JArr (map JStr ts)"
  by (induction ts) (simp_all add: clean_tags_def items_of_def text_of_def)

lemma check_pairs: "xs \<noteq> [] \<Longrightarrow>
    check_examples (JArr (map (\<lambda>(i, q). JObj [(''input'', JStr i), (''output'', JStr q)]) xs)) = Inr ()"
proof -
  have "first_bad n (map (\<lambda>(i, q). JObj [(''input'', JStr i), (''output'', JStr q)]) xs) = None" for n
    by (induction xs arbitrary: n) (auto simp: bad_example_def)
  then show "xs \<noteq> [] \<Longrightarrow> ?thesis" by (simp add: check_examples_def items_of_def)
qed

lemma difficulty_name_valid: "valid_difficulty (JStr (difficulty_name d))" "difficulty_of (difficulty_name d) = d"
  by (cases d; simp add: valid_difficulty_def VALID_DIFFICULTIES_def)+

lemma validate_same:
  fixes l :: difficulty
  assumes "t \<noteq> []" "js_trim t = t" "length t \<le> 200" "d \<noteq> []" "js_trim d = d" "i \<noteq> []" "js_trim i = i" "q \<noteq> []" "js_trim q = q"
    "c \<noteq> []" "js_trim c = c" "\<forall>t\<in>set ts. js_trim t = t \<and> t \<noteq> []" "xs \<noteq> []"
  defines "body \<equiv> JObj
     [(''title'', JStr t), (''description'', JStr d), (''difficulty'', JStr (difficulty_name l)), (''tags'', JArr (map JStr ts)),
      (''inputFormat'', JStr i), (''outputFormat'', JStr q), (''constraints'', JStr c),
      (''examples'', JArr (map (\<lambda>(i, q). JObj [(''input'', JStr i), (''output'', JStr q)]) xs))]"
  shows "validateUpdateProblem body = Inr body"
  using assms(1-11,13) clean_tags_same [OF assms(12)]
  by (simp add: body_def validateUpdateProblem_def rewrite_def update_title_def nonempty_text_def update_difficulty_def update_tags_def
      update_examples_def check_pairs difficulty_name_valid trimmed_def text_of_def del_fields_def problem_server_fields_def
      allowed_fields_def)

lemma assign_same:
  assumes "js_trim (p_title p) = p_title p" "js_trim (p_description p) = p_description p" "js_trim (p_inputFormat p) = p_inputFormat p"
    "js_trim (p_outputFormat p) = p_outputFormat p" "js_trim (p_constraints p) = p_constraints p"
  shows "assign_fields (JObj
     [(''title'', JStr (p_title p)), (''description'', JStr (p_description p)),
      (''difficulty'', JStr (difficulty_name (p_difficulty p))), (''tags'', JArr (map JStr (p_tags p))),
      (''inputFormat'', JStr (p_inputFormat p)), (''outputFormat'', JStr (p_outputFormat p)),
      (''constraints'', JStr (p_constraints p)),
      (''examples'', JArr (map (\<lambda>(i, q). JObj [(''input'', JStr i), (''output'', JStr q)]) (p_examples p)))]) p = p"
proof -
  have "map (example_of \<circ> (\<lambda>(i, q). JObj [(''input'', JStr i), (''output'', JStr q)])) xs = xs"
    "map (text_of \<circ> JStr) ts = ts" for xs ts
    by (auto simp: example_of_def text_of_def intro!: map_idI)
  then show ?thesis
    using assms
    by (cases p) (simp add: assign_fields_def allowed_fields_def apply_field_def items_of_def text_of_def difficulty_name_valid
      del: difficulty_of.simps)
qed

section \<open>Properties\<close>

text \<open>C15: the form and the API agree on what a problem needs, up to the length of the title and the
  examples. Whatever was entered in a new form, when the form reports no error, the API's
  validation accepts what is sent exactly when the title has at most 200 characters, and the
  stored problem satisfies the schema exactly when no example has an empty input or output.\<close>

theorem form_accepted:
  assumes "f = fold form_step es (new_form None)" and "form_error f = None"
  defines "body \<equiv> json_sent (problem_payload (form_payload f))"
  shows "((\<exists>data. validateCreateProblem body = Inr data) \<longleftrightarrow> length (js_trim (pf_title f)) \<le> 200) \<and>
    (\<forall>data. validateCreateProblem body = Inr data \<longrightarrow>
      (problem_data_schema data (new_problem data a i t) \<longleftrightarrow> (\<forall>ex\<in>set (pf_examples f). er_input ex \<noteq> [] \<and> er_output ex \<noteq> [])))"
proof -
  have w: "valid_difficulty (JStr (pf_difficulty f))" "pf_examples f \<noteq> []"
    using well_formed_steps [OF well_formed_new, of es None] difficulty_texts
    unfolding assms(1) well_formed_def by blast+
  have "(\<exists>data. validateCreateProblem body = Inr data) \<longleftrightarrow> length (js_trim (pf_title f)) \<le> 200"
    using assms(2) w unfolding no_form_error
    by (auto simp: validateCreateProblem_def body_def create_body check_sent text_of_def Let_def split: if_splits)
  moreover have "problem_data_schema data (new_problem data a i t) \<longleftrightarrow> (\<forall>ex\<in>set (pf_examples f). er_input ex \<noteq> [] \<and> er_output ex \<noteq> [])"
    if v: "validateCreateProblem body = Inr data" for data
    using validateCreateProblem_sound [OF v, of a i t] new_problem_examples [OF v [unfolded body_def], of a i t]
    by (auto simp: list_all_iff)
  ultimately show ?thesis by blast
qed

text \<open>the test cases, the companies, the slug and the settings that an administrator enters are
  never sent: what the form sends does not depend on them.\<close>

theorem tests_not_sent:
  assumes "\<forall>e\<in>set es. case e of Slug _ \<Rightarrow> True | Company _ \<Rightarrow> True | Test_tab _ \<Rightarrow> True | Add_test \<Rightarrow> True | Remove_test _ \<Rightarrow> True
      | Test _ _ _ \<Rightarrow> True | Setting _ _ \<Rightarrow> True | _ \<Rightarrow> False"
  shows "form_payload (fold form_step es f) = form_payload f"
  using assms
proof (induction es arbitrary: f)
  case (Cons e es)
  then have "form_payload (form_step e f) = form_payload f"
    by (cases e) (simp_all add: form_payload_def change_tests_def)
  with Cons show ?case by simp
qed simp

text \<open>C16: editing without changes is harmless: when a stored problem is loaded into the form as the API
  describes it and the form is saved as it is, the API's validation accepts the update, and the
  update leaves every field of the problem as it was.\<close>

theorem edit_unchanged:
  assumes "problem_schema p"
    and "js_trim (p_title p) = p_title p" "js_trim (p_description p) = p_description p" "js_trim (p_inputFormat p) = p_inputFormat p"
      "js_trim (p_outputFormat p) = p_outputFormat p" "js_trim (p_constraints p) = p_constraints p"
    and "\<forall>t\<in>set (p_tags p). js_trim t = t \<and> t \<noteq> []"
  shows "\<exists>data. validateUpdateProblem (json_sent (update_payload (form_payload (fill_form (toSafeProblem p) f)))) = Inr data \<and>
    assign_fields data p = p"
proof -
  let ?g = "fill_form (toSafeProblem p) f"
  have ex: "p_examples p \<noteq> []" using assms(1) by (simp add: problem_schema_def)
  have g: "pf_title ?g = p_title p" "pf_description ?g = p_description p" "pf_inputFormat ?g = p_inputFormat p"
    "pf_outputFormat ?g = p_outputFormat p" "pf_constraints ?g = p_constraints p"
    "pf_difficulty ?g = difficulty_name (p_difficulty p)" "pf_selectedTopics ?g = p_tags p"
    using assms(1) by (cases "p_difficulty p"; simp add: fill_form_def toSafeProblem_def text_or_def text_of_def problem_schema_def comp_def)+
  have "pf_examples ?g = map (\<lambda>(i, q). \<lparr>er_input = i, er_output = q, er_explanation = []\<rparr>) (p_examples p)"
    using ex by (cases "p_examples p") (auto simp: fill_form_def toSafeProblem_def loaded_example_def text_or_def)
  then have e: "map sent_example (pf_examples ?g) = map (\<lambda>(i, q). JObj [(''input'', JStr i), (''output'', JStr q)]) (p_examples p)"
    by (auto simp: sent_example_def)
  let ?body = "JObj
     [(''title'', JStr (p_title p)), (''description'', JStr (p_description p)),
      (''difficulty'', JStr (difficulty_name (p_difficulty p))), (''tags'', JArr (map JStr (p_tags p))),
      (''inputFormat'', JStr (p_inputFormat p)), (''outputFormat'', JStr (p_outputFormat p)),
      (''constraints'', JStr (p_constraints p)),
      (''examples'', JArr (map (\<lambda>(i, q). JObj [(''input'', JStr i), (''output'', JStr q)]) (p_examples p)))]"
  have body: "json_sent (update_payload (form_payload ?g)) = ?body"
    unfolding update_body g e assms(2-6) ..
  have "validateUpdateProblem ?body = Inr ?body"
    using assms ex by (simp add: validate_same problem_schema_def)
  moreover have "assign_fields ?body p = p"
    using assms(2-6) by (simp add: assign_same)
  ultimately show ?thesis unfolding body by blast
qed

abbreviation single_dashes :: "string \<Rightarrow> bool" where
  "single_dashes s \<equiv> successively (\<lambda>a b. a \<noteq> CHR ''-'' \<or> b \<noteq> CHR ''-'') s"

lemma dash_not_slug: "\<not> is_slug (CHR ''-'')"
  by (simp add: is_slug_def is_digit_def code_unit_def)

lemma dash_others_hd: "s = [] \<or> is_slug (hd s) \<Longrightarrow> dash_others s = [] \<or> hd (dash_others s) \<noteq> CHR ''-''"
  using dash_not_slug by (cases s) auto

lemma dash_others_clean: "single_dashes (dash_others s) \<and> (\<forall>c\<in>set (dash_others s). is_slug c \<or> c = CHR ''-'')"
proof (induction s rule: dash_others.induct)
  case (2 c s)
  have "dropWhile (\<lambda>d. \<not> is_slug d) s = [] \<or> is_slug (hd (dropWhile (\<lambda>d. \<not> is_slug d) s))"
    using hd_dropWhile [of "\<lambda>d. \<not> is_slug d" s] by blast
  from dash_others_hd [OF this] 2 dash_not_slug show ?case by (auto simp: successively_Cons)
qed simp

lemma strip_dashes_clean:
  assumes "single_dashes s"
  shows "single_dashes (strip_dashes s) \<and> set (strip_dashes s) \<subseteq> set s \<and>
    (strip_dashes s \<noteq> [] \<longrightarrow> hd (strip_dashes s) \<noteq> CHR ''-'' \<and> last (strip_dashes s) \<noteq> CHR ''-'')"
proof -
  define t where "t = (case s of c # r \<Rightarrow> if c = CHR ''-'' then r else s | [] \<Rightarrow> [])"
  have t: "single_dashes t" "set t \<subseteq> set s" "t \<noteq> [] \<Longrightarrow> hd t \<noteq> CHR ''-''"
    using assms by (auto simp: t_def successively_Cons split: list.splits)
  show ?thesis
  proof (cases "t \<noteq> [] \<and> last t = CHR ''-''")
    case True
    then have strip: "strip_dashes s = butlast t" and split: "t = butlast t @ [CHR ''-'']"
      by (simp_all add: strip_dashes_def t_def [symmetric], metis append_butlast_last_id)
    have "single_dashes (butlast t @ [CHR ''-''])" using t(1) by (rule subst [OF split])
    then have "single_dashes (butlast t)" "butlast t \<noteq> [] \<Longrightarrow> last (butlast t) \<noteq> CHR ''-''"
      by (simp_all add: successively_append_iff)
    moreover have "butlast t \<noteq> [] \<Longrightarrow> hd (butlast t) \<noteq> CHR ''-''"
      using t(3) True split by (metis hd_append2)
    ultimately show ?thesis using t(2) unfolding strip by (auto dest: in_set_butlastD)
  next
    case False
    then have "strip_dashes s = t" by (auto simp: strip_dashes_def t_def [symmetric])
    with t False show ?thesis by auto
  qed
qed

text \<open>the slug made from a title holds small letters, digits and single dashes only, with none at
  its ends.\<close>

theorem generated_slug_clean:
  "(\<forall>c\<in>set (generated_slug val). is_slug c \<or> c = CHR ''-'') \<and> single_dashes (generated_slug val) \<and>
   (generated_slug val = [] \<or> hd (generated_slug val) \<noteq> CHR ''-'' \<and> last (generated_slug val) \<noteq> CHR ''-'')"
  using dash_others_clean [of "js_lower val"] strip_dashes_clean [of "dash_others (js_lower val)"]
  by (auto simp: generated_slug_def)

section \<open>A form\<close>

definition sample_entries :: "form_event list" where
  "sample_entries = [Title ''Sum'', Description ''Add.'', Input_format ''a b'', Output_format ''c'', Constraints ''none'',
     Example 0 ''input'' ''1 2'', Add_test, Test 1 ''input'' ''3 4'']"

lemma sample_form_ok: "form_error (fold form_step sample_entries (new_form None)) = None"
    "length (js_trim (pf_title (fold form_step sample_entries (new_form None)))) \<le> 200"
  by code_simp+

theorem form_accepted_witness:
  "\<exists>data. validateCreateProblem (json_sent (problem_payload (form_payload (fold form_step sample_entries (new_form None))))) = Inr data"
  using form_accepted [OF refl sample_form_ok(1)] sample_form_ok(2) by blast

theorem tests_not_sent_witness:
  "form_payload (fold form_step [Add_test, Test 1 ''input'' ''3 4''] (new_form None)) = form_payload (new_form None)"
  by (rule tests_not_sent) simp

theorem edit_unchanged_witness:
  "\<exists>data. validateUpdateProblem (json_sent (update_payload (form_payload (fill_form (toSafeProblem sample_problem) (new_form (Some ''p'')))))) =
     Inr data \<and> assign_fields data sample_problem = sample_problem"
proof -
  have "js_trim ''Sum'' = ''Sum''" "js_trim ''Add.'' = ''Add.''" "js_trim ''n'' = ''n''" "js_trim ''n > 0'' = ''n > 0''"
    "js_trim ''math'' = ''math''"
    by code_simp+
  then show ?thesis by (intro edit_unchanged) (simp_all add: sample_problem_def problem_schema_def)
qed

end
