(* ===== verification/AdminTests.thy ===== *)
theory AdminTests
  imports ProblemPage TestCases
begin

text \<open>
  The pages of an administrator that list problems and test cases
  (\<open>frontend/src/pages/admin/AdminProblems.jsx\<close>, \<open>AdminTestCases.jsx\<close>, and the count of
  \<open>AdminDashboard.jsx\<close>): loading, the dialogs, saving and deactivating. Requests that the code
  starts together are made one after the other; orders of test cases are numbers, as the API sends
  them.
\<close>

section \<open>AdminProblems.jsx\<close>

record problems_page =
  pp_problems :: "jsval list"
  pp_error :: "string option"
  pp_success :: "string option"
  pp_searchQuery :: string
  pp_difficulty :: string
  pp_deactivating :: jsval

definition failed_with :: "err \<Rightarrow> string \<Rightarrow> string option" where
  "failed_with e fallback = Some (if emessage e = [] then fallback else emessage e)"

definition load_problems :: "'w net \<Rightarrow> problems_page \<Rightarrow> ('w browser, problems_page) io" where
  "load_problems N s = (let t = s\<lparr>pp_error := None\<rparr> in try_catch
     (await (problemService_getProblems N (JObj [])) (\<lambda>data. await (items data) (\<lambda>ps. ret (t\<lparr>pp_problems := ps\<rparr>))))
     (\<lambda>e. ret (t\<lparr>pp_error := failed_with e ''Failed to load problems''\<rparr>)))"

fun filter_js :: "('a \<Rightarrow> ('s, bool) io) \<Rightarrow> 'a list \<Rightarrow> ('s, 'a list) io" where
  "filter_js P [] = ret []"
| "filter_js P (x # xs) = await (P x) (\<lambda>ok. await (filter_js P xs) (\<lambda>ys. ret (if ok then x # ys else ys)))"

text \<open>\<open>p.title.toLowerCase().includes(query) || p.tags?.some(...)\<close>; tags are texts.\<close>

definition found_by :: "string \<Rightarrow> jsval \<Rightarrow> ('s, bool) io" where
  "found_by query p = await (text_at p ''title'') (\<lambda>t.
     ret (js_includes (js_lower t) query \<or>
       (case field p ''tags'' of JArr ts \<Rightarrow> list_ex (\<lambda>t. case t of JStr s \<Rightarrow> js_includes (js_lower s) query | _ \<Rightarrow> False) ts
        | _ \<Rightarrow> False)))"

definition admin_filtered :: "problems_page \<Rightarrow> ('s, jsval list) io" where
  "admin_filtered s =
     (let result = (if pp_difficulty s = ''ALL'' then pp_problems s
        else filter (\<lambda>p. field p ''difficulty'' = JStr (pp_difficulty s)) (pp_problems s)) in
      if js_trim (pp_searchQuery s) = [] then ret result
      else filter_js (found_by (js_lower (pp_searchQuery s))) result)"

definition confirm_problem :: "'w net \<Rightarrow> problems_page \<Rightarrow> ('w browser, problems_page) io" where
  "confirm_problem N s =
     (if \<not> truthy (pp_deactivating s) then ret s
      else let t = s\<lparr>pp_error := None\<rparr> in try_catch
        (await (problemService_deactivateProblem N (js_text (n_numText N) (field (pp_deactivating s) ''id''))) (\<lambda>_.
         load_problems N (t\<lparr>pp_success := Some (''Problem \"'' @ js_text (n_numText N) (field (pp_deactivating s) ''title'') @
           ''\" deactivated successfully.''), pp_deactivating := JNull\<rparr>)))
        (\<lambda>e. ret (t\<lparr>pp_error := failed_with e ''Failed to deactivate problem''\<rparr>)))"

text \<open>The number of problems of the dashboard: \<open>None\<close> keeps the text of the design.\<close>

definition realProblemCount :: "'w net \<Rightarrow> ('w browser, nat option) io" where
  "realProblemCount N = try_catch
     (await (problemService_getProblems N (JObj [])) (\<lambda>ps. ret (case ps of JArr (p # r) \<Rightarrow> Some (length (p # r)) | _ \<Rightarrow> None)))
     (\<lambda>_. ret None)"

section \<open>AdminTestCases.jsx\<close>

record tests_page =
  at_problemId :: string
  at_problem :: jsval
  at_testCases :: "jsval list"
  at_error :: "string option"
  at_success :: "string option"
  at_isModalOpen :: bool
  at_editing :: jsval
  at_modalInput :: jsval
  at_modalOutput :: jsval
  at_modalVisibility :: jsval
  at_modalOrder :: jsval
  at_deactivating :: jsval

definition load_tests :: "'w net \<Rightarrow> tests_page \<Rightarrow> ('w browser, tests_page) io" where
  "load_tests N s = (let t = s\<lparr>at_error := None\<rparr> in try_catch
     (await (problemService_getProblemById N (at_problemId s)) (\<lambda>probData.
      await (testCaseService_getTestCasesForProblem N (at_problemId s)) (\<lambda>tcData.
      await (items tcData) (\<lambda>tcs. ret (t\<lparr>at_problem := probData, at_testCases := tcs\<rparr>)))))
     (\<lambda>e. ret (t\<lparr>at_error := failed_with e ''Failed to load test cases''\<rparr>)))"

definition order_of :: "jsval \<Rightarrow> rat" where
  "order_of tc = (case nullish (field tc ''order'') (js_int 0) of JNum (Finite q) \<Rightarrow> q | _ \<Rightarrow> 0)"

definition maxOrder :: "jsval list \<Rightarrow> rat" where
  "maxOrder tcs = foldl (\<lambda>m tc. max m (order_of tc)) 0 tcs"

definition handleOpenAddModal :: "tests_page \<Rightarrow> tests_page" where
  "handleOpenAddModal s = s\<lparr>at_editing := JNull, at_modalInput := JStr [], at_modalOutput := JStr [],
     at_modalVisibility := JStr ''PUBLIC'',
     at_modalOrder := (if at_testCases s \<noteq> [] then JNum (Finite (maxOrder (at_testCases s) + 1)) else js_int 1),
     at_isModalOpen := True\<rparr>"

definition handleOpenEditModal :: "jsval \<Rightarrow> tests_page \<Rightarrow> tests_page" where
  "handleOpenEditModal tc s = s\<lparr>at_editing := tc, at_modalInput := js_or (field tc ''input'') (JStr []),
     at_modalOutput := js_or (field tc ''expectedOutput'') (JStr []),
     at_modalVisibility := js_or (field tc ''visibility'') (JStr ''PUBLIC''),
     at_modalOrder := nullish (field tc ''order'') (js_int 1), at_isModalOpen := True\<rparr>"

definition modal_payload :: "'w net \<Rightarrow> tests_page \<Rightarrow> jsval" where
  "modal_payload N s = JObj [(''input'', at_modalInput s), (''expectedOutput'', at_modalOutput s),
     (''visibility'', at_modalVisibility s), (''order'', JNum (n_toNumber N (at_modalOrder s)))]"

definition handleSaveModal :: "'w net \<Rightarrow> tests_page \<Rightarrow> ('w browser, tests_page) io" where
  "handleSaveModal N s = (let t = s\<lparr>at_error := None\<rparr> in try_catch
     (await (if truthy (at_editing s)
         then await (testCaseService_updateTestCase N (js_text (n_numText N) (field (at_editing s) ''id'')) (modal_payload N s)) (\<lambda>_.
           ret ''Test case updated successfully.'')
         else await (testCaseService_createTestCase N (at_problemId s) (modal_payload N s)) (\<lambda>_.
           ret ''Test case created successfully.'')) (\<lambda>m.
      load_tests N (t\<lparr>at_success := Some m, at_isModalOpen := False\<rparr>)))
     (\<lambda>e. ret (t\<lparr>at_error := failed_with e ''Failed to save test case''\<rparr>)))"

definition confirm_test :: "'w net \<Rightarrow> tests_page \<Rightarrow> ('w browser, tests_page) io" where
  "confirm_test N s =
     (if \<not> truthy (at_deactivating s) then ret s
      else let t = s\<lparr>at_error := None\<rparr> in try_catch
        (await (testCaseService_deactivateTestCase N (js_text (n_numText N) (field (at_deactivating s) ''id''))) (\<lambda>_.
         load_tests N (t\<lparr>at_success := Some ''Test case deactivated successfully.'', at_deactivating := JNull\<rparr>)))
        (\<lambda>e. ret (t\<lparr>at_error := failed_with e ''Failed to deactivate test case''\<rparr>)))"

definition publicTestCases :: "tests_page \<Rightarrow> jsval list" where
  "publicTestCases s = filter (\<lambda>tc. field tc ''visibility'' = JStr ''PUBLIC'') (at_testCases s)"

definition hiddenTestCases :: "tests_page \<Rightarrow> jsval list" where
  "hiddenTestCases s = filter (\<lambda>tc. field tc ''visibility'' = JStr ''HIDDEN'') (at_testCases s)"

section \<open>Facts\<close>

lemma foldl_max_ge: "m \<le> foldl (\<lambda>m tc. max m (order_of tc)) m tcs \<and>
    (\<forall>tc\<in>set tcs. order_of tc \<le> foldl (\<lambda>m tc. max m (order_of tc)) m tcs)"
proof (induction tcs arbitrary: m)
  case (Cons tc tcs)
  from Cons [of "max m (order_of tc)"] show ?case by auto
qed simp

lemma load_tests_total: "\<exists>t b'. load_tests N s b = (Inr t, b') \<and> at_isModalOpen t = at_isModalOpen s \<and> at_success t = at_success s"
proof -
  obtain r b1 where "await (problemService_getProblemById N (at_problemId s)) (\<lambda>probData.
      await (testCaseService_getTestCasesForProblem N (at_problemId s)) (\<lambda>tcData.
      await (items tcData) (\<lambda>tcs. ret (s\<lparr>at_error := None, at_problem := probData, at_testCases := tcs\<rparr>)))) b = (r, b1)"
    by force
  then show ?thesis
    by (cases r) (auto simp: load_tests_def try_catch_def Let_def elim!: await_cases)
qed

section \<open>Properties\<close>

text \<open>a new test case comes last: the order the dialog proposes is greater than the order of every
  test case of the page, and at least 1.\<close>

theorem proposed_order_last:
  "\<exists>q. at_modalOrder (handleOpenAddModal s) = JNum (Finite q) \<and> 1 \<le> q \<and> (\<forall>tc\<in>set (at_testCases s). order_of tc < q)"
proof (cases "at_testCases s")
  case Nil
  then show ?thesis by (simp add: handleOpenAddModal_def js_int_def)
next
  case (Cons tc tcs)
  have "0 \<le> maxOrder (at_testCases s)" "\<forall>tc\<in>set (at_testCases s). order_of tc \<le> maxOrder (at_testCases s)"
    using foldl_max_ge unfolding maxOrder_def by blast+
  then show ?thesis using Cons by (fastforce simp: handleOpenAddModal_def)
qed

text \<open>saving a test case never loses what was typed: whatever the network answers, saving ends;
  either the dialog is closed and a success is shown, or the dialog and its texts are as they were
  and an error is shown.\<close>

theorem save_keeps_or_closes:
  assumes "at_isModalOpen s" and "at_success s = None"
  shows "\<exists>t b'. handleSaveModal N s b = (Inr t, b') \<and>
    (\<not> at_isModalOpen t \<and> at_success t \<noteq> None \<or>
     (\<exists>m. t = s\<lparr>at_error := Some m\<rparr>))"
proof -
  let ?t = "s\<lparr>at_error := None\<rparr>"
  let ?act = "if truthy (at_editing s)
      then await (testCaseService_updateTestCase N (js_text (n_numText N) (field (at_editing s) ''id'')) (modal_payload N s)) (\<lambda>_.
        ret ''Test case updated successfully.'')
      else await (testCaseService_createTestCase N (at_problemId s) (modal_payload N s)) (\<lambda>_.
        ret ''Test case created successfully.'')"
  obtain r b1 where act: "?act b = (r, b1)" by force
  show ?thesis
  proof (cases r)
    case (Inl e)
    with act show ?thesis by (auto simp: handleSaveModal_def await_def try_catch_def failed_with_def Let_def)
  next
    case (Inr m)
    obtain t b2 where "load_tests N (?t\<lparr>at_success := Some m, at_isModalOpen := False\<rparr>) b1 = (Inr t, b2)"
      "\<not> at_isModalOpen t" "at_success t = Some m"
      using load_tests_total [of N "?t\<lparr>at_success := Some m, at_isModalOpen := False\<rparr>" b1] by auto
    with act Inr show ?thesis by (auto simp: handleSaveModal_def await_def try_catch_def Let_def)
  qed
qed

section \<open>A dialog\<close>

definition open_dialog :: tests_page where
  "open_dialog = handleOpenAddModal \<lparr>at_problemId = ''p'', at_problem = JNull, at_testCases = [], at_error = None,
     at_success = None, at_isModalOpen = False, at_editing = JNull, at_modalInput = JStr [], at_modalOutput = JStr [],
     at_modalVisibility = JStr ''PUBLIC'', at_modalOrder = js_int 1, at_deactivating = JNull\<rparr>"

theorem save_keeps_or_closes_witness:
  "\<exists>t b'. handleSaveModal (answering 400 JNull) open_dialog signed_in = (Inr t, b') \<and>
    (\<not> at_isModalOpen t \<and> at_success t \<noteq> None \<or> (\<exists>m. t = open_dialog\<lparr>at_error := Some m\<rparr>))"
  by (rule save_keeps_or_closes) (simp_all add: open_dialog_def handleOpenAddModal_def)

end
