(* ===== verification/HistoryPage.thy ===== *)
theory HistoryPage
  imports Client Models
begin

text \<open>
  The history of submissions (\<open>frontend/src/pages/SubmissionHistory.jsx\<close>) as a machine of events,
  with the requests that have no answer yet, and the texts of \<open>frontend/src/utils/formatters.js\<close>.
  An answer to a load is the pair of the history and the list of problems, as \<open>Promise.all\<close>
  gives it.
\<close>

section \<open>formatters.js\<close>

text \<open>The dash of a missing run time is outside the code units of the model; it is a hyphen here.\<close>

definition formatRuntime :: "(jsnum \<Rightarrow> string) \<Rightarrow> jsval \<Rightarrow> string" where
  "formatRuntime numText ms = (if ms = JNull \<or> ms = JUndefined then [CHR ''-''] else js_text numText ms @ '' ms'')"

text \<open>The label and the colour of a verdict.\<close>

definition verdict_label :: "jsval \<Rightarrow> jsval" where
  "verdict_label v =
     (if v = JStr ''ACCEPTED'' then JStr ''Accepted''
      else if v = JStr ''WRONG_ANSWER'' then JStr ''Wrong Answer''
      else if v = JStr ''COMPILATION_ERROR'' then JStr ''Compilation Error''
      else if v = JStr ''RUNTIME_ERROR'' then JStr ''Runtime Error''
      else if v = JStr ''TIME_LIMIT_EXCEEDED'' then JStr ''Time Limit Exceeded''
      else if v = JStr ''MEMORY_LIMIT_EXCEEDED'' then JStr ''Memory Limit Exceeded''
      else if v = JStr ''PENDING'' then JStr ''Pending''
      else if v = JStr ''RUNNING'' then JStr ''Running''
      else if v = JStr ''QUEUED'' then JStr ''Queued''
      else if v = JStr ''FAILED'' then JStr ''Failed''
      else js_or v (JStr ''Unknown''))"

definition verdict_color :: "jsval \<Rightarrow> string" where
  "verdict_color v =
     (if v = JStr ''ACCEPTED'' then ''emerald''
      else if v = JStr ''WRONG_ANSWER'' then ''amber''
      else if v = JStr ''COMPILATION_ERROR'' \<or> v = JStr ''FAILED'' then ''rose''
      else if v = JStr ''RUNTIME_ERROR'' then ''red''
      else if v = JStr ''TIME_LIMIT_EXCEEDED'' then ''orange''
      else if v = JStr ''MEMORY_LIMIT_EXCEEDED'' then ''purple''
      else if v \<in> {JStr ''PENDING'', JStr ''RUNNING'', JStr ''QUEUED''} then ''blue''
      else ''slate'')"

section \<open>State\<close>

record load =
  ld_page :: jsval
  ld_language :: string
  ld_verdict :: string

record history_page =
  hp_submissions :: jsval
  hp_pagination :: jsval
  hp_problemsMap :: "(jsval \<times> jsval) list"
  hp_selected :: jsval
  hp_isLoading :: bool
  hp_isLoadingCode :: bool
  hp_error :: "string option"
  hp_languageFilter :: string
  hp_verdictFilter :: string
  hp_loads :: "load list"
  hp_opens :: "jsval list"

definition no_pages :: jsval where
  "no_pages = JObj [(''page'', js_int 1), (''totalPages'', js_int 1), (''total'', js_int 0)]"

definition loadSubmissions :: "jsval \<Rightarrow> string \<Rightarrow> string \<Rightarrow> history_page \<Rightarrow> history_page" where
  "loadSubmissions page lang verd h = h\<lparr>hp_isLoading := True, hp_error := None,
     hp_loads := hp_loads h @ [\<lparr>ld_page = page, ld_language = lang, ld_verdict = verd\<rparr>]\<rparr>"

text \<open>The page when it is mounted: the first load is under way.\<close>

definition mounted_history :: history_page where
  "mounted_history = loadSubmissions (js_int 1) [] [] \<lparr>hp_submissions = JArr [], hp_pagination = no_pages, hp_problemsMap = [],
     hp_selected = JNull, hp_isLoading = True, hp_isLoadingCode = False, hp_error = None, hp_languageFilter = [],
     hp_verdictFilter = [], hp_loads = [], hp_opens = []\<rparr>"

text \<open>The parameters of the request: \<open>{ page, limit: 20 }\<close> and the filters that are set.\<close>

definition load_params :: "load \<Rightarrow> jsval" where
  "load_params l = JObj ([(''page'', ld_page l), (''limit'', js_int 20)] @
     (if ld_language l = [] then [] else [(''language'', JStr (ld_language l))]) @
     (if ld_verdict l = [] then [] else [(''verdict'', JStr (ld_verdict l))]))"

definition requestHistory :: "'w net \<Rightarrow> load \<Rightarrow> ('w browser, jsval \<times> jsval) io" where
  "requestHistory N l =
     await (submissionService_getMySubmissions N (load_params l)) (\<lambda>subData.
     await (try_catch (problemService_getProblems N (JObj [])) (\<lambda>_. ret (JArr []))) (\<lambda>probList.
     ret (subData, probList)))"

definition load_failed :: "err \<Rightarrow> history_page \<Rightarrow> history_page" where
  "load_failed e h = h\<lparr>hp_error := Some (if emessage e = [] then ''Failed to load submissions'' else emessage e)\<rparr>"

definition titles_of :: "jsval \<Rightarrow> (jsval \<times> jsval) list option" where
  "titles_of ps = (case ps of
     JArr vs \<Rightarrow> if JNull \<in> set vs \<or> JUndefined \<in> set vs then None else Some (map (\<lambda>p. (field p ''id'', field p ''title'')) vs)
   | _ \<Rightarrow> None)"

definition load_answered :: "err + jsval \<times> jsval \<Rightarrow> history_page \<Rightarrow> history_page" where
  "load_answered r h = (let g = (case r of
       Inl e \<Rightarrow> load_failed e h
     | Inr (subData, probList) \<Rightarrow>
         if subData = JUndefined \<or> subData = JNull then load_failed (js_error ''TypeError'' ''Cannot read properties'') h
         else let s = h\<lparr>hp_submissions := js_or (field subData ''submissions'') (JArr []),
             hp_pagination := js_or (field subData ''pagination'') no_pages\<rparr> in
           (case titles_of probList of
             Some m \<Rightarrow> s\<lparr>hp_problemsMap := m\<rparr>
           | None \<Rightarrow> load_failed (js_error ''TypeError'' ''probList.forEach'') s)) in
     g\<lparr>hp_isLoading := False\<rparr>)"

definition handleOpenSubmission :: "jsval \<Rightarrow> history_page \<Rightarrow> history_page" where
  "handleOpenSubmission sub h = (let g = h\<lparr>hp_selected := sub\<rparr> in
     if truthy (field sub ''sourceCode'') then g
     else g\<lparr>hp_isLoadingCode := True, hp_opens := hp_opens g @ [sub]\<rparr>)"

definition open_answered :: "err + jsval \<Rightarrow> history_page \<Rightarrow> history_page" where
  "open_answered r h = (case r of Inl _ \<Rightarrow> h | Inr full \<Rightarrow> h\<lparr>hp_selected := full\<rparr>)\<lparr>hp_isLoadingCode := False\<rparr>"

section \<open>Events\<close>

definition without :: "nat \<Rightarrow> 'a list \<Rightarrow> 'a list" where
  "without k xs = take k xs @ drop (Suc k) xs"

definition page_number :: "jsval \<Rightarrow> string \<Rightarrow> rat" where
  "page_number v k = (case field v k of JNum (Finite q) \<Rightarrow> q | _ \<Rightarrow> 0)"

datatype history_event =
    Filter_language string | Filter_verdict string | Refresh | Previous_page | Following_page
  | Loaded_page nat "err + jsval \<times> jsval" | Open_submission jsval | Opened nat "err + jsval" | Close_modal

text \<open>The pager is shown when nothing is loading and there are more pages; refreshing is disabled
  while a load is under way.\<close>

fun history_step :: "history_event \<Rightarrow> history_page \<Rightarrow> history_page" where
  "history_step (Filter_language val) h = loadSubmissions (js_int 1) val (hp_verdictFilter h) (h\<lparr>hp_languageFilter := val\<rparr>)"
| "history_step (Filter_verdict val) h = loadSubmissions (js_int 1) (hp_languageFilter h) val (h\<lparr>hp_verdictFilter := val\<rparr>)"
| "history_step Refresh h = (if hp_isLoading h then h
     else loadSubmissions (field (hp_pagination h) ''page'') (hp_languageFilter h) (hp_verdictFilter h) h)"
| "history_step Previous_page h = (if hp_isLoading h \<or> page_number (hp_pagination h) ''page'' \<le> 1 then h
     else loadSubmissions (JNum (Finite (page_number (hp_pagination h) ''page'' - 1))) (hp_languageFilter h) (hp_verdictFilter h) h)"
| "history_step Following_page h =
     (if hp_isLoading h \<or> page_number (hp_pagination h) ''totalPages'' \<le> page_number (hp_pagination h) ''page'' then h
      else loadSubmissions (JNum (Finite (page_number (hp_pagination h) ''page'' + 1))) (hp_languageFilter h) (hp_verdictFilter h) h)"
| "history_step (Loaded_page k r) h =
     (if k < length (hp_loads h) then load_answered r (h\<lparr>hp_loads := without k (hp_loads h)\<rparr>) else h)"
| "history_step (Open_submission sub) h = handleOpenSubmission sub h"
| "history_step (Opened k r) h =
     (if k < length (hp_opens h) then open_answered r (h\<lparr>hp_opens := without k (hp_opens h)\<rparr>) else h)"
| "history_step Close_modal h = h\<lparr>hp_selected := JNull\<rparr>"

section \<open>Answers in order\<close>

text \<open>
  The pages reached when the history of a load is what \<open>answer\<close> says, and when the filters are
  changed only after the load before was answered.
\<close>

definition in_order :: "(load \<Rightarrow> jsval) \<Rightarrow> history_event \<Rightarrow> history_page \<Rightarrow> bool" where
  "in_order answer e h \<longleftrightarrow> (case e of
     Filter_language _ \<Rightarrow> hp_loads h = []
   | Filter_verdict _ \<Rightarrow> hp_loads h = []
   | Loaded_page k r \<Rightarrow> (\<exists>ps m. r = Inr (answer (hp_loads h ! k), ps) \<and> titles_of ps = Some m)
   | _ \<Rightarrow> True)"

inductive history_reached :: "(load \<Rightarrow> jsval) \<Rightarrow> history_page \<Rightarrow> bool" for answer where
  mount: "history_reached answer mounted_history"
| step: "history_reached answer h \<Longrightarrow> in_order answer e h \<Longrightarrow> history_reached answer (history_step e h)"

definition up_to_date :: "(load \<Rightarrow> jsval) \<Rightarrow> history_page \<Rightarrow> bool" where
  "up_to_date answer h \<longleftrightarrow>
     (if hp_isLoading h then \<exists>page. hp_loads h = [\<lparr>ld_page = page, ld_language = hp_languageFilter h, ld_verdict = hp_verdictFilter h\<rparr>]
      else hp_loads h = [] \<and> (\<exists>page. hp_submissions h = js_or (field (answer \<lparr>ld_page = page,
        ld_language = hp_languageFilter h, ld_verdict = hp_verdictFilter h\<rparr>) ''submissions'') (JArr [])))"

lemma up_to_date_step:
  assumes "up_to_date answer h" and "in_order answer e h" and "\<forall>l. answer l \<noteq> JUndefined \<and> answer l \<noteq> JNull"
  shows "up_to_date answer (history_step e h)"
proof (cases e)
  case (Loaded_page k r)
  show ?thesis
  proof (cases "k < length (hp_loads h)")
    case True
    with assms(1) obtain page where l: "hp_loads h = [\<lparr>ld_page = page, ld_language = hp_languageFilter h, ld_verdict = hp_verdictFilter h\<rparr>]"
      and k: "k = 0"
      by (auto simp: up_to_date_def split: if_splits)
    from assms(2) obtain ps m where r: "r = Inr (answer (hp_loads h ! 0), ps)" and m: "titles_of ps = Some m"
      by (auto simp: in_order_def Loaded_page k)
    show ?thesis
      using assms(3) by (auto simp: up_to_date_def Loaded_page k l r m load_answered_def without_def Let_def)
  qed (use assms(1) Loaded_page in simp)
next
  case (Opened k r)
  then show ?thesis
    using assms(1) by (cases r) (auto simp: up_to_date_def open_answered_def)
qed (use assms(1,2) in \<open>auto simp: up_to_date_def in_order_def loadSubmissions_def handleOpenSubmission_def Let_def split: if_splits\<close>)

section \<open>Properties\<close>

text \<open>The table belongs to the filters. When the filters are changed only after the load before was
  answered, then whenever nothing is loading, the submissions shown are those that the API gives
  for the language and the verdict that are selected.\<close>

theorem history_matches_filters:
  assumes "history_reached answer h" and "\<forall>l. answer l \<noteq> JUndefined \<and> answer l \<noteq> JNull" and "\<not> hp_isLoading h"
  shows "\<exists>page. hp_submissions h = js_or (field (answer \<lparr>ld_page = page, ld_language = hp_languageFilter h,
    ld_verdict = hp_verdictFilter h\<rparr>) ''submissions'') (JArr [])"
proof -
  from assms(1) have "up_to_date answer h"
  proof induction
    case mount
    show ?case by (simp add: up_to_date_def mounted_history_def loadSubmissions_def)
  next
    case (step h e)
    then show ?case by (intro up_to_date_step) (use assms(2) in auto)
  qed
  with assms(3) show ?thesis by (simp add: up_to_date_def)
qed

text \<open>a late answer replaces a newer one. When a filter is changed twice and the answers arrive in
  the other order, the page shows the submissions of the first choice under the second one, and
  is not loading any more; and an answer that arrives after the dialog of a submission was closed
  opens it again.\<close>

theorem late_answer_wins:
  assumes "hp_loads h = []" and "hp_opens h = []"
  shows "hp_languageFilter (fold history_step [Filter_language ''CPP'', Filter_language ''PYTHON'', Loaded_page 1 (Inr (JObj [], JArr [])),
      Loaded_page 0 (Inr (JObj [(''submissions'', JArr subs)], JArr []))] h) = ''PYTHON'' \<and>
    hp_submissions (fold history_step [Filter_language ''CPP'', Filter_language ''PYTHON'', Loaded_page 1 (Inr (JObj [], JArr [])),
      Loaded_page 0 (Inr (JObj [(''submissions'', JArr subs)], JArr []))] h) = JArr subs \<and>
    hp_selected (fold history_step [Open_submission (JObj []), Close_modal, Opened 0 (Inr full)] h) = full"
  using assms by (simp add: loadSubmissions_def load_answered_def without_def titles_of_def js_or_def handleOpenSubmission_def
      open_answered_def Let_def)

text \<open>verdicts are told apart: the labels of the verdicts of the judge are different texts.\<close>

theorem verdict_labels_differ:
  "verdict_label (JStr (verdict_name a)) = verdict_label (JStr (verdict_name b)) \<longleftrightarrow> a = b"
  by (cases a; cases b) (simp_all add: verdict_label_def js_or_def)

section \<open>A page\<close>

definition one_submission :: "load \<Rightarrow> jsval" where
  "one_submission l = JObj [(''submissions'', JArr [JStr (ld_language l)])]"

definition answered_page :: history_page where
  "answered_page = history_step (Loaded_page 0 (Inr (one_submission (hp_loads mounted_history ! 0), JArr []))) mounted_history"

lemma answered_page_reached: "history_reached one_submission answered_page"
  unfolding answered_page_def
  by (rule history_reached.step [OF history_reached.mount]) (simp add: in_order_def titles_of_def)

lemma answered_page_facts: "\<not> hp_isLoading answered_page" "hp_loads answered_page = []" "hp_opens answered_page = []"
  by code_simp+

theorem history_matches_filters_witness:
  "\<exists>page. hp_submissions answered_page = js_or (field (one_submission \<lparr>ld_page = page, ld_language = hp_languageFilter answered_page,
    ld_verdict = hp_verdictFilter answered_page\<rparr>) ''submissions'') (JArr [])"
  by (rule history_matches_filters [OF answered_page_reached _ answered_page_facts(1)]) (simp add: one_submission_def)

theorem late_answer_wins_witness:
  "hp_selected (fold history_step [Open_submission (JObj []), Close_modal, Opened 0 (Inr (JBool True))] answered_page) = JBool True"
  using late_answer_wins [OF answered_page_facts(2,3)] by blast

end
