(* ===== verification/AuthForms.thy ===== *)
theory AuthForms
  imports Client Accounts
begin

text \<open>
  The forms of visitors (\<open>frontend/src/pages/Login.jsx\<close>, \<open>frontend/src/pages/Signup.jsx\<close>): their
  checks, what they send, and where they lead.
\<close>

section \<open>State\<close>

text \<open>\<open>af_navigated\<close> is where \<open>navigate\<close> went, if it was called.\<close>

record auth_form =
  af_isRegister :: bool
  af_name :: string
  af_email :: string
  af_username :: string
  af_password :: string
  af_error :: "string option"
  af_isLoading :: bool
  af_navigated :: "string option"

definition empty_auth_form :: auth_form where
  "empty_auth_form = \<lparr>af_isRegister = False, af_name = [], af_email = [], af_username = [], af_password = [],
     af_error = None, af_isLoading = False, af_navigated = None\<rparr>"

section \<open>Login.jsx\<close>

definition toggleMode :: "auth_form \<Rightarrow> auth_form" where
  "toggleMode f = f\<lparr>af_isRegister := \<not> af_isRegister f, af_error := None\<rparr>"

text \<open>The way back: \<open>location.state?.from?.pathname || '/problems'\<close>.\<close>

definition return_path :: "string option \<Rightarrow> string" where
  "return_path from = (case from of Some (c # s) \<Rightarrow> c # s | _ \<Rightarrow> ''/problems'')"

definition form_failed :: "err \<Rightarrow> string \<Rightarrow> auth_form \<Rightarrow> auth_form" where
  "form_failed e fallback f = f\<lparr>af_error := Some (if emessage e = [] then fallback else emessage e)\<rparr>"

definition submit_login :: "'w net \<Rightarrow> string option \<Rightarrow> auth_form \<Rightarrow> ('w browser, auth_form) io" where
  "submit_login N from f = (let g = f\<lparr>af_error := None\<rparr> in
     await (try_catch
       (await (if af_isRegister g
           then if js_trim (af_name g) = [] then throw (plain_error ''Name is required'')
             else await (session_register N (af_name g) (af_email g) (af_password g)) (\<lambda>_. ret ())
           else await (session_login N (af_email g) (af_password g)) (\<lambda>_. ret ())) (\<lambda>_.
        ret (g\<lparr>af_navigated := Some (return_path from)\<rparr>)))
       (\<lambda>e. ret (form_failed e ''Authentication failed'' g))) (\<lambda>h.
     ret (h\<lparr>af_isLoading := False\<rparr>)))"

section \<open>Signup.jsx\<close>

definition special_chars :: string where
  "special_chars = ''!@#$%^&*()_+-=[]{};:|,.<>/?'' @ [CHR 0x27, CHR 0x22, CHR 0x5C]"

text \<open>The three checks of the password: length, a digit, a special character.\<close>

definition passwordChecks :: "string \<Rightarrow> bool \<times> bool \<times> bool" where
  "passwordChecks password = (8 \<le> length password, list_ex is_digit password, list_ex (\<lambda>c. c \<in> set special_chars) password)"

definition signup_error :: "auth_form \<Rightarrow> string option" where
  "signup_error f =
     (if js_trim (af_name f) = [] then Some ''Full name is required''
      else if js_trim (af_email f) = [] then Some ''Email address is required''
      else if js_trim (af_username f) = [] then Some ''Username is required''
      else if passwordChecks (af_password f) \<noteq> (True, True, True) then Some ''Password does not meet all requirements''
      else None)"

definition submit_signup :: "'w net \<Rightarrow> auth_form \<Rightarrow> ('w browser, auth_form) io" where
  "submit_signup N f = (let g = f\<lparr>af_error := None\<rparr> in
     case signup_error g of
       Some m \<Rightarrow> ret (g\<lparr>af_error := Some m\<rparr>)
     | None \<Rightarrow> await (try_catch
         (await (session_register N (af_name g) (af_email g) (af_password g)) (\<lambda>_.
          ret (g\<lparr>af_navigated := Some ''/problems''\<rparr>)))
         (\<lambda>e. ret (form_failed e ''Registration failed. Please try again.'' g))) (\<lambda>h.
       ret (h\<lparr>af_isLoading := False\<rparr>)))"

text \<open>The body of the registration, as it is sent.\<close>

definition signup_body :: "auth_form \<Rightarrow> jsval" where
  "signup_body f = json_sent (JObj
     [(''name'', JStr (af_name f)), (''email'', JStr (af_email f)), (''password'', JStr (af_password f))])"

lemma del_account_fields:
  "del_fields account_server_fields (JObj [(''name'', a), (''email'', b), (''password'', c)]) =
     JObj [(''name'', a), (''email'', b), (''password'', c)]"
  by (simp add: del_fields_def account_server_fields_def)

section \<open>Properties\<close>

text \<open>what passes the signup form passes the API, but for four conditions that the form does not
  check: when the form reports no error, the API's validation accepts the body it sends exactly
  when the name has between 2 and 100 characters, the address is well formed, and the password has
  at most 128 characters; and the account it then describes has the trimmed name and the
  lower-case address.\<close>

theorem signup_accepted:
  assumes "signup_error f = None"
  shows "validateRegister (signup_body f) =
    Inr (JObj [(''name'', JStr (js_trim (af_name f))), (''email'', JStr (js_lower (js_trim (af_email f)))),
      (''password'', JStr (af_password f))]) \<longleftrightarrow>
    2 \<le> length (js_trim (af_name f)) \<and> length (js_trim (af_name f)) \<le> 100 \<and> email_ok (js_trim (af_email f)) \<and>
    length (af_password f) \<le> 128"
proof -
  have "8 \<le> length (af_password f)"
    using assms by (auto simp: signup_error_def passwordChecks_def split: if_splits)
  then show ?thesis
    by (auto simp: validateRegister_def signup_body_def del_account_fields)
qed

text \<open>the login form either leaves the page with an open session or stays with an error: whatever
  the network answers, it is not loading any more, it navigates exactly when it shows no error,
  and when it navigates, the session of the browser has the token that was stored.\<close>

theorem login_form_outcome:
  assumes "af_navigated f = None"
  shows "\<exists>g b'. submit_login N from f b = (Inr g, b') \<and> \<not> af_isLoading g \<and>
    (af_navigated g = None \<longleftrightarrow> af_error g \<noteq> None) \<and>
    (af_navigated g \<noteq> None \<longrightarrow> af_navigated g = Some (return_path from) \<and>
      br_storage b' = Some (js_text (n_numText N) (br_token b')))"
proof -
  let ?g = "f\<lparr>af_error := None\<rparr>"
  let ?act = "if af_isRegister ?g
      then if js_trim (af_name ?g) = [] then throw (plain_error ''Name is required'')
        else await (session_register N (af_name ?g) (af_email ?g) (af_password ?g)) (\<lambda>_. ret ())
      else await (session_login N (af_email ?g) (af_password ?g)) (\<lambda>_. ret ())"
  have stored: "br_storage b2 = Some (js_text (n_numText N) (br_token b2))"
    if "session_login N e p b1 = (Inr x, b2)" for e p b1 x and b2
    using that by (auto simp: session_login_def set_session_def elim!: await_cases)
  obtain r b' where act: "?act b = (r, b')" by force
  show ?thesis
  proof (cases r)
    case (Inl e)
    with act show ?thesis
      using assms by (auto simp: submit_login_def Let_def await_def try_catch_def form_failed_def)
  next
    case (Inr u)
    then have "br_storage b' = Some (js_text (n_numText N) (br_token b'))"
      using act stored by (auto simp: session_register_def elim!: await_cases split: if_splits)
    with act Inr show ?thesis
      by (simp add: submit_login_def Let_def await_def try_catch_def)
  qed
qed

section \<open>A signup\<close>

definition sample_signup :: auth_form where
  "sample_signup = empty_auth_form\<lparr>af_name := ''Bob'', af_email := ''Bob@x.org'', af_username := ''bob'', af_password := ''secret-12''\<rparr>"

lemma sample_signup_facts: "signup_error sample_signup = None" "email_ok (js_trim (af_email sample_signup))"
    "js_trim (af_name sample_signup) = ''Bob''" "af_navigated sample_signup = None"
  by code_simp+

theorem signup_accepted_witness:
  "\<exists>v. validateRegister (signup_body sample_signup) = Inr v"
proof -
  have "length (af_password sample_signup) \<le> 128" by (simp add: sample_signup_def)
  with signup_accepted [OF sample_signup_facts(1)] sample_signup_facts show ?thesis by auto
qed

theorem login_form_outcome_witness:
  "\<exists>g b'. submit_login (answering 200 login_answer) None sample_signup (initial_session None ()) = (Inr g, b') \<and>
    \<not> af_isLoading g"
  using login_form_outcome [OF sample_signup_facts(4)] by blast

end
