(* ===== verification/Logger.thy ===== *)
theory Logger
  imports Client Config
begin

text \<open>
  The structured logger of \<open>backend/src/utils/logger.js\<close>: the redaction of metadata, the levels, and the
  text of an entry. \<open>JSON.stringify\<close> is written out; the text of a number is an argument, and so is
  the time stamp. Metadata is an object, given by its properties in their order; a property named
  \<open>__proto__\<close> is not in the model.
\<close>

section \<open>Redaction\<close>

definition SENSITIVE_KEYS :: "string list" where
  "SENSITIVE_KEYS = [''password'', ''passwordhash'', ''token'', ''jwt'', ''secret'', ''authorization'', ''sourcecode'',
     ''input'', ''expectedoutput'']"

definition sensitive :: "string \<Rightarrow> bool" where
  "sensitive key \<longleftrightarrow> js_lower key \<in> set SENSITIVE_KEYS"

definition redacted :: jsval where
  "redacted = JStr ''[REDACTED]''"

fun redact :: "nat \<Rightarrow> jsval \<Rightarrow> jsval" where
  "redact depth (JArr vs) = (if 5 < depth then JArr vs else JArr (map (redact (depth + 1)) vs))"
| "redact depth (JObj fs) = (if 5 < depth then JObj fs
     else JObj (map (\<lambda>(key, v). (key,
       if sensitive key then redacted else if is_object v then redact (depth + 1) v else v)) fs))"
| "redact depth v = v"

section \<open>JSON.stringify\<close>

definition hex_lower :: "nat \<Rightarrow> char" where
  "hex_lower n = char_of (if n < 10 then 48 + n else 87 + n)"

definition json_char :: "char \<Rightarrow> string" where
  "json_char c = (let n = code_unit c in
     if n = 34 \<or> n = 92 then [CHR 0x5C, c]
     else if n = 8 then [CHR 0x5C, CHR ''b'']
     else if n = 9 then [CHR 0x5C, CHR ''t'']
     else if n = 10 then [CHR 0x5C, CHR ''n'']
     else if n = 12 then [CHR 0x5C, CHR ''f'']
     else if n = 13 then [CHR 0x5C, CHR ''r'']
     else if n < 32 then [CHR 0x5C] @ ''u00'' @ [hex_lower (n div 16), hex_lower (n mod 16)]
     else [c])"

definition json_string :: "string \<Rightarrow> string" where
  "json_string s = CHR 0x22 # concat (map json_char s) @ [CHR 0x22]"

fun json_text :: "(jsnum \<Rightarrow> string) \<Rightarrow> jsval \<Rightarrow> string" where
  "json_text num (JBool b) = (if b then ''true'' else ''false'')"
| "json_text num (JNum n) = (case n of Finite q \<Rightarrow> num n | _ \<Rightarrow> ''null'')"
| "json_text num (JStr s) = json_string s"
| "json_text num (JArr vs) = ''['' @ js_join '','' (map (json_text num) vs) @ '']''"
| "json_text num (JObj fs) = CHR 0x7B # js_join '',''
     (map (\<lambda>(key, v). json_string key @ '':'' @ json_text num v) (filter (\<lambda>p. snd p \<noteq> JUndefined) fs)) @ [CHR 0x7D]"
| "json_text num v = ''null''"

section \<open>Writing an entry\<close>

datatype log_level = Debug | Info | Warn | Error

fun LOG_LEVELS :: "log_level \<Rightarrow> nat" where
  "LOG_LEVELS Debug = 10"
| "LOG_LEVELS Info = 20"
| "LOG_LEVELS Warn = 30"
| "LOG_LEVELS Error = 40"

fun level_text :: "log_level \<Rightarrow> string" where
  "level_text Debug = ''debug''"
| "level_text Info = ''info''"
| "level_text Warn = ''warn''"
| "level_text Error = ''error''"

text \<open>
  The threshold of a setting. An inherited property of the table (\<open>constructor\<close>,
  \<open>__proto__\<close>) is a value no number is below: \<open>None\<close>.
\<close>

definition CURRENT_LEVEL :: "configuration \<Rightarrow> nat option" where
  "CURRENT_LEVEL cfg = (let l = js_lower (cf_logLevel cfg) in
     if l = ''constructor'' \<or> l = ''__proto__'' then None
     else case find (\<lambda>v. level_text v = l) [Debug, Info, Warn, Error] of
       Some v \<Rightarrow> Some (LOG_LEVELS v) | None \<Rightarrow> Some (LOG_LEVELS Info))"

definition below_threshold :: "configuration \<Rightarrow> log_level \<Rightarrow> bool" where
  "below_threshold cfg level = (case CURRENT_LEVEL cfg of Some n \<Rightarrow> LOG_LEVELS level < n | None \<Rightarrow> False)"

definition newline :: char where
  "newline = CHR 0x0A"

definition escape_seq :: "string \<Rightarrow> string" where
  "escape_seq s = CHR 0x1B # ''['' @ s @ ''m''"

definition color_of :: "log_level \<Rightarrow> string" where
  "color_of level = escape_seq (case level of Error \<Rightarrow> ''31'' | Warn \<Rightarrow> ''33'' | Info \<Rightarrow> ''36'' | Debug \<Rightarrow> ''90'')"

text \<open>\<open>{ timestamp, level, message, ...sanitizedMeta }\<close>.\<close>

definition log_entry :: "string \<Rightarrow> log_level \<Rightarrow> string \<Rightarrow> jsval \<Rightarrow> jsval" where
  "log_entry timestamp level message sanitizedMeta =
     (case sanitizedMeta of JObj fs \<Rightarrow> foldl (\<lambda>e (k, v). set_field k v e)
        (JObj [(''timestamp'', JStr timestamp), (''level'', JStr (level_text level)), (''message'', JStr message)]) fs
      | _ \<Rightarrow> JObj [(''timestamp'', JStr timestamp), (''level'', JStr (level_text level)), (''message'', JStr message)])"

text \<open>The text an entry writes to the standard output, if it writes any.\<close>

definition writeLog ::
  "(jsnum \<Rightarrow> string) \<Rightarrow> configuration \<Rightarrow> string \<Rightarrow> log_level \<Rightarrow> string \<Rightarrow> (string \<times> jsval) list \<Rightarrow> string option" where
  "writeLog num cfg timestamp level message meta =
     (if cf_env cfg = ''test'' then None
      else if below_threshold cfg level then None
      else let sanitizedMeta = redact 0 (JObj meta) in
        if cf_env cfg = ''production'' then
          Some (json_text num (log_entry timestamp level message sanitizedMeta) @ [newline])
        else
          let requestId = field (JObj meta) ''requestId'';
              reqStr = (if truthy requestId then '' ['' @ js_text num requestId @ '']'' else []);
              metaStr = (if keys_of sanitizedMeta \<noteq> [] then '' '' @ json_text num sanitizedMeta else []) in
          Some (color_of level @ ''['' @ timestamp @ ''] ['' @ js_upper (level_text level) @ '']'' @ reqStr @ escape_seq ''0'' @
            '' '' @ message @ metaStr @ [newline]))"

section \<open>The reference: every secret removed\<close>

text \<open>
  What must not be told, in any spelling: the password and its hash, tokens and secrets, the
  source code of a submission, and the data of a test.
\<close>

definition secret_field :: "string \<Rightarrow> bool" where
  "secret_field key \<longleftrightarrow> js_lower key \<in>
     {''password'', ''passwordhash'', ''token'', ''jwt'', ''secret'', ''authorization''} \<union>
     {''sourcecode''} \<union> {''input'', ''expectedoutput''}"

lemma sensitive_secret [simp]: "sensitive key \<longleftrightarrow> secret_field key"
  by (auto simp: sensitive_def SENSITIVE_KEYS_def secret_field_def)

text \<open>Every secret replaced, at any depth, and the depth of a value.\<close>

fun erase :: "jsval \<Rightarrow> jsval" where
  "erase (JArr vs) = JArr (map erase vs)"
| "erase (JObj fs) = JObj (map (\<lambda>(key, v). (key, if secret_field key then redacted else erase v)) fs)"
| "erase v = v"

fun nesting :: "jsval \<Rightarrow> nat" where
  "nesting (JArr vs) = Suc (foldr max (map nesting vs) 0)"
| "nesting (JObj fs) = Suc (foldr max (map (\<lambda>(key, v). nesting v) fs) 0)"
| "nesting v = 0"

lemma le_foldr_max: "x \<in> set xs \<Longrightarrow> x \<le> foldr max xs (0 :: nat)"
  by (induction xs) (auto simp: le_max_iff_disj)

lemma erase_plain: "\<not> is_object v \<Longrightarrow> erase v = v"
  by (cases v) auto

text \<open>Up to six levels of objects and arrays, the redaction is complete.\<close>

lemma redact_complete: "nesting v + d \<le> 6 \<Longrightarrow> redact d v = erase v"
proof (induction d v rule: redact.induct)
  case (1 d vs)
  have "nesting v + (d + 1) \<le> 6" if "v \<in> set vs" for v
    using "1.prems" le_foldr_max [of "nesting v" "map nesting vs"] that by simp
  with "1.IH" "1.prems" show ?case by simp
next
  case (2 d fs)
  have d: "\<not> 5 < d" using "2.prems" by simp
  have "redact (d + 1) v = erase v" if kv: "(key, v) \<in> set fs" "\<not> sensitive key" "is_object v" for key v
  proof -
    have "nesting v \<in> set (map (\<lambda>(key, v). nesting v) fs)" using kv(1) by force
    from le_foldr_max [OF this] "2.prems" have "nesting v + (d + 1) \<le> 6" by simp
    with "2.IH" [OF d kv(1) refl kv(2,3)] show ?thesis by simp
  qed
  with d show ?case by (auto simp: erase_plain)
qed simp_all

lemma truthy_erase [simp]: "truthy (erase v) = truthy v"
  by (cases v rule: truthy.cases) auto

lemma erase_simps [simp]: "erase v = JUndefined \<longleftrightarrow> v = JUndefined" "erase v = JNull \<longleftrightarrow> v = JNull"
  by (cases v; simp)+

lemma js_text_erase [simp]: "js_text num (erase v) = js_text num v"
proof (induction v rule: erase.induct)
  case (1 vs)
  then show ?case by (auto simp: comp_def intro!: arg_cong [where f = "js_join '',''"])
qed simp_all

lemma map_of_erase: "\<not> secret_field k \<Longrightarrow>
  map_of (map (\<lambda>(key, v). (key, if secret_field key then redacted else erase v)) fs) k = map_option erase (map_of fs k)"
  by (induction fs) auto

lemma field_erase: "\<not> secret_field k \<Longrightarrow> field (erase (JObj fs)) k = erase (field (JObj fs) k)"
  by (auto simp: map_of_erase split: option.split)

lemma requestId_plain: "\<not> secret_field ''requestId''"
  by code_simp

section \<open>What a log shows\<close>

text \<open>C20: the log does not tell a secret: for metadata of up to six levels, an entry depends only on
  what is left when the values of all passwords and their hashes, tokens and secrets, source codes,
  and inputs and expected outputs of tests are removed, at every depth and in any spelling of their
  names; two calls whose metadata differ in such values only write the same text.\<close>

theorem log_hides_secrets:
  assumes "nesting (JObj meta) \<le> 6" and "nesting (JObj meta') \<le> 6"
    and same: "erase (JObj meta) = erase (JObj meta')"
  shows "writeLog num cfg timestamp level message meta = writeLog num cfg timestamp level message meta'"
proof -
  have s: "redact 0 (JObj meta) = redact 0 (JObj meta')"
    using assms by (simp only: redact_complete add_0_right)
  have id: "erase (field (JObj meta) ''requestId'') = erase (field (JObj meta') ''requestId'')"
    by (simp only: field_erase [OF requestId_plain, symmetric] same)
  have "truthy (field (JObj meta) ''requestId'') = truthy (field (JObj meta') ''requestId'')"
    by (metis id truthy_erase)
  moreover have "js_text num (field (JObj meta) ''requestId'') = js_text num (field (JObj meta') ''requestId'')"
    by (metis id js_text_erase)
  ultimately show ?thesis by (simp only: writeLog_def Let_def s)
qed

definition production_settings :: configuration where
  "production_settings = load_config (\<lambda>s. NaN) production_environment"

definition request_meta :: "string \<Rightarrow> (string \<times> jsval) list" where
  "request_meta s = [(''requestId'', JStr ''r1''), (''user'', JObj [(''name'', JStr ''Ann''), (''Password'', JStr s)])]"

theorem log_hides_secrets_witness:
  "writeLog (\<lambda>n. ''1'') production_settings ''now'' Error ''failed'' (request_meta ''a-secret'') =
     writeLog (\<lambda>n. ''1'') production_settings ''now'' Error ''failed'' (request_meta ''another'') \<and> request_meta ''a-secret'' \<noteq> request_meta ''another''"
proof -
  have "erase (JObj (request_meta ''a-secret'')) = erase (JObj (request_meta ''another''))" by code_simp
  moreover have "nesting (JObj (request_meta s)) \<le> 6" for s by (simp add: request_meta_def)
  ultimately show ?thesis using log_hides_secrets by (simp add: request_meta_def)
qed

text \<open>the limit of the redaction: six objects around the one with the password hide nothing any more,
  and the password is passed on.\<close>

definition wrap :: "jsval \<Rightarrow> jsval" where
  "wrap v = JObj [(''data'', v)]"

theorem deep_secret_logged:
  "redact 0 ((wrap ^^ 6) (JObj [(''password'', JStr s)])) = (wrap ^^ 6) (JObj [(''password'', JStr s)]) \<and>
   redact 0 ((wrap ^^ 5) (JObj [(''password'', JStr s)])) = (wrap ^^ 5) (JObj [(''password'', redacted)])"
proof -
  have "\<not> secret_field ''data''" "secret_field ''password''" by code_simp+
  then show ?thesis by (simp add: wrap_def numeral_eq_Suc)
qed

section \<open>One line per entry\<close>

definition printable :: "string \<Rightarrow> bool" where
  "printable s \<longleftrightarrow> (\<forall>c\<in>set s. 32 \<le> code_unit c)"

lemma printable_append [simp]: "printable (a @ b) \<longleftrightarrow> printable a \<and> printable b"
  by (auto simp: printable_def)

lemma printable_Cons [simp]: "printable (c # b) \<longleftrightarrow> 32 \<le> code_unit c \<and> printable b"
  by (auto simp: printable_def)

lemma printable_Nil [simp]: "printable []"
  by (simp add: printable_def)

lemma printable_concat: "(\<And>s. s \<in> set ss \<Longrightarrow> printable s) \<Longrightarrow> printable (concat ss)"
  by (auto simp: printable_def)

lemma printable_join: "printable sep \<Longrightarrow> (\<And>s. s \<in> set ss \<Longrightarrow> printable s) \<Longrightarrow> printable (js_join sep ss)"
  by (induction sep ss rule: js_join.induct) auto

lemma printable_json_char: "printable (json_char c)"
proof -
  have "32 \<le> code_unit (hex_lower n)" if "n < 16" for n
    using that by (simp add: hex_lower_def code_unit_char_of)
  moreover have "code_unit c div 16 < 16" if "code_unit c < 32" using that by simp
  ultimately show ?thesis
    by (auto simp: json_char_def Let_def) (simp_all add: code_unit_def)
qed

lemma printable_json_string: "printable (json_string s)"
  unfolding json_string_def by (auto simp: code_unit_def intro!: printable_concat printable_json_char)

lemma printable_json_text: "(\<And>n. printable (num n)) \<Longrightarrow> printable (json_text num v)"
proof (induction num v rule: json_text.induct)
  case (5 num fs)
  have "printable (json_string key @ '':'' @ json_text num w)" if "(key, w) \<in> set (filter (\<lambda>p. snd p \<noteq> JUndefined) fs)"
    for key w
  proof -
    have "printable (json_text num w)" using "5.IH" [OF that refl] "5.prems" by blast
    then show ?thesis by (simp add: printable_json_string code_unit_def)
  qed
  then show ?case by (auto simp: code_unit_def intro!: printable_join)
qed (auto simp: code_unit_def printable_json_string split: jsnum.split intro!: printable_join)

text \<open>in production an entry is exactly one line, whatever the message and the metadata hold: no control
  character is written before the line feed that ends it, so an entry cannot be forged from within
  another.\<close>

theorem production_one_line:
  assumes "\<And>n. printable (num n)" and "cf_env cfg = ''production''"
    and "writeLog num cfg timestamp level message meta = Some out"
  shows "\<exists>line. out = line @ [newline] \<and> printable line \<and> newline \<notin> set line"
proof -
  let ?l = "json_text num (log_entry timestamp level message (redact 0 (JObj meta)))"
  have "out = ?l @ [newline]"
    using assms(2,3) by (simp add: writeLog_def Let_def split: if_splits)
  moreover have p: "printable ?l" by (rule printable_json_text) (rule assms(1))
  moreover have "newline \<notin> set ?l"
  proof
    assume "newline \<in> set ?l"
    with p have "32 \<le> code_unit newline" by (simp add: printable_def)
    then show False by (simp add: newline_def code_unit_def)
  qed
  ultimately show ?thesis by blast
qed

theorem production_one_line_witness:
  "\<exists>line. writeLog (\<lambda>n. ''1'') production_settings ''now'' Error [CHR ''a'', newline, CHR ''b''] [] = Some (line @ [newline]) \<and>
     newline \<notin> set line"
proof -
  have e: "cf_env production_settings = ''production''" "cf_logLevel production_settings = ''info''"
    by (simp_all add: production_settings_def load_config_def node_env_def env_text_def production_environment_def)
  have "js_lower ''info'' = ''info''" by code_simp
  with e obtain out where w: "writeLog (\<lambda>n. ''1'') production_settings ''now'' Error [CHR ''a'', newline, CHR ''b''] [] = Some out"
    by (simp add: writeLog_def below_threshold_def CURRENT_LEVEL_def Let_def)
  have "printable ''1''" by (simp add: code_unit_def)
  from production_one_line [OF this e(1) w] show ?thesis by (auto simp: w)
qed

text \<open>which entries are written: outside tests, those of at least the level the setting names, in any case;
  a setting that names no level counts as info, but for the two names the table inherits, with
  which everything is written.\<close>

theorem logged_from_level:
  assumes "cf_env cfg \<noteq> ''test''"
  shows "writeLog num cfg timestamp level message meta = None \<longleftrightarrow>
    (\<exists>v. js_lower (cf_logLevel cfg) = level_text v \<and> LOG_LEVELS level < LOG_LEVELS v) \<or>
    (level = Debug \<and> js_lower (cf_logLevel cfg) \<notin> {''debug'', ''warn'', ''error'', ''constructor'', ''__proto__''})"
proof -
  have hidden: "writeLog num cfg timestamp level message meta = None \<longleftrightarrow> below_threshold cfg level"
    using assms by (simp add: writeLog_def Let_def)
  have names: "(\<exists>v. P v) \<longleftrightarrow> P Debug \<or> P Info \<or> P Warn \<or> P Error" for P
    by (metis log_level.exhaust)
  have by_name: "(case (if s = ''constructor'' \<or> s = ''__proto__'' then None
        else case find (\<lambda>v. level_text v = s) [Debug, Info, Warn, Error] of
          Some v \<Rightarrow> Some (LOG_LEVELS v) | None \<Rightarrow> Some (LOG_LEVELS Info)) of
        Some n \<Rightarrow> LOG_LEVELS level < n | None \<Rightarrow> False) \<longleftrightarrow>
      (\<exists>v. s = level_text v \<and> LOG_LEVELS level < LOG_LEVELS v) \<or>
      (level = Debug \<and> s \<notin> {''debug'', ''warn'', ''error'', ''constructor'', ''__proto__''})" for s
  proof (cases "s \<in> {''debug'', ''info'', ''warn'', ''error'', ''constructor'', ''__proto__''}")
    case True
    then show ?thesis unfolding names by (cases level) auto
  next
    case False
    then show ?thesis unfolding names by (cases level) auto
  qed
  show ?thesis unfolding hidden below_threshold_def CURRENT_LEVEL_def Let_def by (rule by_name)
qed

theorem logged_from_level_witness:
  "writeLog (\<lambda>n. ''1'') production_settings ''now'' Debug ''m'' [] = None \<and>
   writeLog (\<lambda>n. ''1'') production_settings ''now'' Warn ''m'' [] \<noteq> None"
proof -
  have e: "cf_env production_settings \<noteq> ''test''" "cf_logLevel production_settings = ''info''"
    by (simp_all add: production_settings_def load_config_def node_env_def env_text_def production_environment_def)
  have l: "js_lower ''info'' = level_text Info" by code_simp
  have "\<exists>v. ''info'' = level_text v \<and> LOG_LEVELS Debug < LOG_LEVELS v" by (rule exI [of _ Info]) simp
  moreover have "\<not> (\<exists>v. ''info'' = level_text v \<and> LOG_LEVELS Warn < LOG_LEVELS v)"
  proof
    assume "\<exists>v. ''info'' = level_text v \<and> LOG_LEVELS Warn < LOG_LEVELS v"
    then obtain v where "''info'' = level_text v" "LOG_LEVELS Warn < LOG_LEVELS v" by blast
    then show False by (cases v) auto
  qed
  ultimately show ?thesis
    unfolding logged_from_level [OF e(1)] e(2) l by simp
qed

end
