(* ===== verification/RedisClient.thy ===== *)
theory RedisClient
  imports Config
begin

text \<open>
  How \<open>backend/src/config/redis.js\<close> creates a client: the options every connection gets, and the three
  forms of the constructor call (Sentinel, URL, host and port). The client itself belongs to a
  library; the shared connection, the readiness check and the closing are in \<open>Lifecycle\<close>.
\<close>

section \<open>Options\<close>

text \<open>An option is a value, or the function that gives the delay before a reconnection.\<close>

datatype setting = Value jsval | Delay "nat \<Rightarrow> nat"

type_synonym settings = "(string \<times> setting) list"

text \<open>\<open>{ ...base, ...more }\<close>.\<close>

definition spread :: "settings \<Rightarrow> settings \<Rightarrow> settings" where
  "spread base extra = foldl (\<lambda>m (k, v). assoc_put k v m) base extra"

definition getRedisConfigOptions :: "settings \<Rightarrow> settings" where
  "getRedisConfigOptions overrides = spread
     [(''maxRetriesPerRequest'', Value JNull), (''enableReadyCheck'', Value (JBool False)),
      (''lazyConnect'', Value (JBool False)), (''retryStrategy'', Delay retryStrategy)] overrides"

section \<open>The constructor call\<close>

datatype redis_call = WithOptions settings | WithUrl string settings

fun call_settings :: "redis_call \<Rightarrow> settings" where
  "call_settings (WithOptions o') = o'"
| "call_settings (WithUrl url o') = o'"

definition or_undefined :: "string option \<Rightarrow> setting" where
  "or_undefined s = Value (case s of None \<Rightarrow> JUndefined | Some t \<Rightarrow> if t = [] then JUndefined else JStr t)"

text \<open>\<open>const [host, port] = entry.trim().split(':')\<close>; a missing port is NaN as a number.\<close>

definition sentinel_of :: "(string \<Rightarrow> jsnum) \<Rightarrow> string \<Rightarrow> jsval" where
  "sentinel_of toNumber entry =
     (let parts = js_split (CHR '':'') (js_trim entry);
          port = (case parts of h # p # _ \<Rightarrow> toNumber p | _ \<Rightarrow> NaN) in
      JObj [(''host'', JStr (hd parts)),
        (''port'', if truthy (JNum port) then JNum port else js_int 26379)])"

definition sentinels_of :: "(string \<Rightarrow> jsnum) \<Rightarrow> string \<Rightarrow> jsval" where
  "sentinels_of toNumber hosts = JArr (map (sentinel_of toNumber) (js_split (CHR '','') hosts))"

definition createRedisClient ::
  "(string \<Rightarrow> jsnum) \<Rightarrow> environment \<Rightarrow> configuration \<Rightarrow> settings \<Rightarrow> redis_call" where
  "createRedisClient toNumber E cfg options =
     (let redisOptions = getRedisConfigOptions options in
      if env_set E ''REDIS_SENTINEL_HOSTS'' then
        WithOptions (spread
          [(''sentinels'', Value (sentinels_of toNumber (env_text E ''REDIS_SENTINEL_HOSTS'' []))),
           (''name'', Value (JStr (env_text E ''REDIS_SENTINEL_MASTER_NAME'' ''mymaster''))),
           (''password'', or_undefined (cf_redisPassword cfg)),
           (''sentinelPassword'', or_undefined (E ''REDIS_SENTINEL_PASSWORD''))] redisOptions)
      else case cf_redisUrl cfg of
        Some url \<Rightarrow> if url \<noteq> [] then WithUrl url redisOptions
          else WithOptions (spread [(''host'', Value (JStr (cf_redisHost cfg))), (''port'', Value (js_int (cf_redisPort cfg))),
            (''password'', or_undefined (cf_redisPassword cfg))] redisOptions)
      | None \<Rightarrow> WithOptions (spread [(''host'', Value (JStr (cf_redisHost cfg))), (''port'', Value (js_int (cf_redisPort cfg))),
            (''password'', or_undefined (cf_redisPassword cfg))] redisOptions))"

text \<open>The metadata of the \<open>error\<close> handler's log entry.\<close>

definition client_error_meta :: "configuration \<Rightarrow> err \<Rightarrow> (string \<times> jsval) list" where
  "client_error_meta cfg e = [(''error'', JStr (emessage e)), (''host'', JStr (cf_redisHost cfg)),
     (''port'', js_int (cf_redisPort cfg))]"

section \<open>Facts\<close>

lemma map_of_spread: "distinct (map fst extra) \<Longrightarrow> map_of (spread base extra) = map_of base ++ map_of extra"
proof (induction extra arbitrary: base)
  case (Cons p extra)
  obtain k v where p: "p = (k, v)" by fastforce
  with Cons.prems have new: "k \<notin> dom (map_of extra)" by (simp add: dom_map_of_conv_image_fst)
  have step: "spread base (p # extra) = spread (assoc_put k v base) extra" by (simp add: spread_def p)
  have "map_of (spread base (p # extra)) = (map_of base)(k \<mapsto> v) ++ map_of extra"
    unfolding step using Cons.prems by (simp only: Cons.IH map_of_assoc_put list.map distinct.simps)
  also have "\<dots> = map_of base ++ map_of (p # extra)"
    using new by (auto simp: p map_add_def fun_eq_iff dom_def split: option.splits)
  finally show ?case .
qed (simp add: spread_def)

lemma keys_spread: "distinct (map fst base) \<Longrightarrow> distinct (map fst (spread base extra))"
proof (induction extra arbitrary: base)
  case (Cons p extra)
  obtain k v where p: "p = (k, v)" by fastforce
  have "distinct (map fst l) \<Longrightarrow> distinct (map fst (assoc_put k v l))" for l :: settings
  proof (induction k v l rule: assoc_put.induct)
    case (2 k v k' v' r)
    have "set (map fst (assoc_put k v r)) = insert k (set (map fst r))"
      by (induction k v r rule: assoc_put.induct) auto
    with 2 show ?case by auto
  qed simp
  with Cons show ?case by (simp add: spread_def p)
qed (simp add: spread_def)

lemma options_of: "distinct (map fst overrides) \<Longrightarrow> map_of (getRedisConfigOptions overrides) k =
  (case map_of overrides k of Some v \<Rightarrow> Some v | None \<Rightarrow> map_of
     [(''maxRetriesPerRequest'', Value JNull), (''enableReadyCheck'', Value (JBool False)),
      (''lazyConnect'', Value (JBool False)), (''retryStrategy'', Delay retryStrategy)] k)"
  unfolding getRedisConfigOptions_def by (subst map_of_spread) (simp_all add: map_add_def split: option.split)

lemma distinct_options: "distinct (map fst (getRedisConfigOptions overrides))"
  unfolding getRedisConfigOptions_def by (rule keys_spread) simp

lemma call_settings_options:
  assumes "map_of (getRedisConfigOptions options) k = Some v"
  shows "map_of (call_settings (createRedisClient toNumber E cfg options)) k = Some v"
proof -
  have "map_of (spread base (getRedisConfigOptions options)) k = Some v" for base
    by (simp add: map_of_spread [OF distinct_options] assms)
  then show ?thesis using assms by (auto simp: createRedisClient_def Let_def split: option.split)
qed

lemma map_of_call:
  assumes "k \<notin> {''maxRetriesPerRequest'', ''enableReadyCheck'', ''lazyConnect'', ''retryStrategy''}"
    and "distinct (map fst options)" and "map_of options k = None"
  shows "map_of (call_settings (createRedisClient toNumber E cfg options)) k =
    map_of (call_settings (createRedisClient toNumber E cfg [])) k"
proof -
  have none: "map_of (getRedisConfigOptions options) k = None" "map_of (getRedisConfigOptions []) k = None"
    using assms by (simp_all add: options_of)
  have "map_of (spread base (getRedisConfigOptions options)) k = map_of base k"
    "map_of (spread base (getRedisConfigOptions [])) k = map_of base k" for base
    using none by (simp_all add: map_of_spread [OF distinct_options] map_add_def)
  with none show ?thesis by (auto simp: createRedisClient_def Let_def split: option.split)
qed

text \<open>what the queue library demands of a connection holds in every form of the call, whatever the
  environment: unless a caller overrides them, requests are retried without limit, the ready check
  is off, and the delay before the n-th reconnection grows with n up to 3 seconds; and a caller's
  own option always wins.\<close>

theorem client_options:
  assumes "distinct (map fst options)"
  shows "map_of (call_settings (createRedisClient toNumber E cfg options)) k =
      (case map_of options k of
         Some v \<Rightarrow> Some v
       | None \<Rightarrow>
           if k = ''maxRetriesPerRequest'' then Some (Value JNull)
           else if k \<in> {''enableReadyCheck'', ''lazyConnect''} then Some (Value (JBool False))
           else if k = ''retryStrategy'' then Some (Delay retryStrategy)
           else map_of (call_settings (createRedisClient toNumber E cfg [])) k) \<and>
    retryStrategy n \<le> 3000 \<and> retryStrategy n \<le> retryStrategy (Suc n)"
proof (intro conjI)
  show "retryStrategy n \<le> 3000" "retryStrategy n \<le> retryStrategy (Suc n)"
    by (simp_all add: retryStrategy_def)
  show "map_of (call_settings (createRedisClient toNumber E cfg options)) k =
      (case map_of options k of
         Some v \<Rightarrow> Some v
       | None \<Rightarrow>
           if k = ''maxRetriesPerRequest'' then Some (Value JNull)
           else if k \<in> {''enableReadyCheck'', ''lazyConnect''} then Some (Value (JBool False))
           else if k = ''retryStrategy'' then Some (Delay retryStrategy)
           else map_of (call_settings (createRedisClient toNumber E cfg [])) k)"
  proof (cases "map_of options k")
    case (Some v)
    then have "map_of (getRedisConfigOptions options) k = Some v" by (simp add: options_of [OF assms])
    from call_settings_options [OF this] Some show ?thesis by simp
  next
    case None
    show ?thesis
    proof (cases "k \<in> {''maxRetriesPerRequest'', ''enableReadyCheck'', ''lazyConnect'', ''retryStrategy''}")
      case True
      then obtain v where "map_of (getRedisConfigOptions options) k = Some v"
        and "v = (if k = ''maxRetriesPerRequest'' then Value JNull
           else if k \<in> {''enableReadyCheck'', ''lazyConnect''} then Value (JBool False) else Delay retryStrategy)"
        using None by (auto simp: options_of [OF assms])
      with call_settings_options [OF this(1)] True None show ?thesis by auto
    next
      case False
      with map_of_call [OF False assms None] None show ?thesis by auto
    qed
  qed
qed

theorem client_options_witness:
  "map_of (call_settings (createRedisClient (\<lambda>s. NaN) Map.empty (load_config (\<lambda>s. NaN) Map.empty)
     [(''lazyConnect'', Value (JBool True))])) ''maxRetriesPerRequest'' = Some (Value JNull)"
  using client_options [of "[(''lazyConnect'', Value (JBool True))]" "\<lambda>s. NaN" Map.empty
      "load_config (\<lambda>s. NaN) Map.empty" "''maxRetriesPerRequest''"] by simp

section \<open>The list of Sentinel hosts\<close>

definition host_text :: "string \<times> nat \<Rightarrow> string" where
  "host_text hp = fst hp @ '':'' @ digits_of (snd hp)"

definition host_name :: "string \<Rightarrow> bool" where
  "host_name h \<longleftrightarrow> h \<noteq> [] \<and> \<not> is_ws (hd h) \<and> CHR '','' \<notin> set h \<and> CHR '':'' \<notin> set h"

lemma js_trim_tight: "s \<noteq> [] \<Longrightarrow> \<not> is_ws (hd s) \<Longrightarrow> \<not> is_ws (last s) \<Longrightarrow> js_trim s = s"
proof -
  assume s: "s \<noteq> []" "\<not> is_ws (hd s)" "\<not> is_ws (last s)"
  have "js_trim_start s = s" using s by (cases s) (simp_all add: js_trim_start_def)
  moreover have "js_trim_end s = s"
    using s by (cases s rule: rev_cases) (simp_all add: js_trim_end_def)
  ultimately show ?thesis by (simp add: js_trim_def)
qed

lemma js_split_two: "c \<notin> set a \<Longrightarrow> c \<notin> set b \<Longrightarrow> js_split c (a @ c # b) = [a, b]"
  by (induction a) (auto simp: js_split_no_sep)

lemma digits_plain:
  "digits_of n \<noteq> []" "\<not> is_ws (last (digits_of n))" "CHR '','' \<notin> set (digits_of n)" "CHR '':'' \<notin> set (digits_of n)"
proof -
  have d: "digits_of n \<noteq> []" "\<And>c. c \<in> set (digits_of n) \<Longrightarrow> is_digit c" using digits_of_props by auto
  then show "digits_of n \<noteq> []" by simp
  from d have "is_digit (last (digits_of n))" by simp
  then show "\<not> is_ws (last (digits_of n))" by (auto simp: is_digit_def is_ws_def)
  have "\<not> is_digit (CHR '','')" "\<not> is_digit (CHR '':'')" by code_simp+
  with d(2) show "CHR '','' \<notin> set (digits_of n)" "CHR '':'' \<notin> set (digits_of n)" by blast+
qed

lemma host_text_parts:
  assumes "host_name h"
  shows "js_trim (host_text (h, p)) = host_text (h, p)"
    and "js_split (CHR '':'') (host_text (h, p)) = [h, digits_of p]"
    and "CHR '','' \<notin> set (host_text (h, p))"
proof -
  from assms have h: "h \<noteq> []" "\<not> is_ws (hd h)" "CHR '','' \<notin> set h" "CHR '':'' \<notin> set h"
    by (simp_all add: host_name_def)
  show "js_trim (host_text (h, p)) = host_text (h, p)"
    using h digits_plain [of p] by (intro js_trim_tight) (simp_all add: host_text_def)
  show "js_split (CHR '':'') (host_text (h, p)) = [h, digits_of p]"
    using js_split_two [OF h(4) digits_plain(4)] by (simp add: host_text_def)
  show "CHR '','' \<notin> set (host_text (h, p))"
    using h(3) digits_plain(3) by (simp add: host_text_def)
qed

text \<open>a list of Sentinel hosts, written \<open>host:port,host:port\<close>, is read back as it was: the same hosts in the
  same order with the same ports, for a number conversion that reads decimal digits.\<close>

theorem sentinels_roundtrip:
  assumes "hosts \<noteq> []" and "\<And>h p. (h, p) \<in> set hosts \<Longrightarrow> host_name h \<and> 0 < p"
    and number: "\<And>n. toNumber (digits_of n) = Finite (of_nat n)"
    and "E ''REDIS_SENTINEL_HOSTS'' = Some (js_join '','' (map host_text hosts))"
  shows "map_of (call_settings (createRedisClient toNumber E cfg [])) ''sentinels'' =
    Some (Value (JArr (map (\<lambda>(h, p). JObj [(''host'', JStr h), (''port'', js_int (int p))]) hosts)))"
proof -
  let ?s = "js_join '','' (map host_text hosts)"
  have split: "js_split (CHR '','') ?s = map host_text hosts"
    using assms(1,2) by (intro js_split_join) (auto dest: host_text_parts(3))
  have one: "sentinel_of toNumber (host_text (h, p)) = JObj [(''host'', JStr h), (''port'', js_int (int p))]"
    if hp: "(h, p) \<in> set hosts" for h p
    using assms(2) [OF hp] host_text_parts [of h p] by (simp add: sentinel_of_def number js_int_def)
  have s: "?s \<noteq> []" using split assms(1) by (cases hosts) (auto simp: js_join_Cons host_text_def)
  then have "env_set E ''REDIS_SENTINEL_HOSTS''" "env_text E ''REDIS_SENTINEL_HOSTS'' [] = ?s"
    using assms(4) by (simp_all add: env_set_def env_text_def)
  moreover have "sentinels_of toNumber ?s =
      JArr (map (\<lambda>(h, p). JObj [(''host'', JStr h), (''port'', js_int (int p))]) hosts)"
    unfolding sentinels_of_def split using one by auto
  moreover have "map_of (getRedisConfigOptions []) ''sentinels'' = None" by (simp add: options_of)
  ultimately show ?thesis
    by (simp add: createRedisClient_def map_of_spread [OF distinct_options] map_add_def)
qed

definition decimal :: "string \<Rightarrow> jsnum" where
  "decimal s = (if s \<noteq> [] \<and> list_all is_digit s then Finite (of_nat (digits_value s)) else NaN)"

definition sentinel_env :: environment where
  "sentinel_env = [''REDIS_SENTINEL_HOSTS'' \<mapsto> ''s1:1,s2:2'']"

theorem sentinels_roundtrip_witness:
  "map_of (call_settings (createRedisClient decimal sentinel_env (load_config decimal sentinel_env) [])) ''sentinels'' =
     Some (Value (JArr [JObj [(''host'', JStr ''s1''), (''port'', js_int 1)],
       JObj [(''host'', JStr ''s2''), (''port'', js_int 2)]]))"
proof -
  let ?hosts = "[(''s1'', 1), (''s2'', 2)] :: (string \<times> nat) list"
  have n: "decimal (digits_of m) = Finite (of_nat m)" for m
    using digits_of_props [of m] by (simp add: decimal_def list_all_iff)
  have names: "host_name ''s1''" "host_name ''s2''" by code_simp+
  then have ok: "host_name h \<and> 0 < q" if "(h, q) \<in> set ?hosts" for h q using that by auto
  have t: "js_join '','' (map host_text ?hosts) = ''s1:1,s2:2''"
    by (simp add: host_text_def digits_of.simps) code_simp
  then have e: "sentinel_env ''REDIS_SENTINEL_HOSTS'' = Some (js_join '','' (map host_text ?hosts))"
    unfolding t by (simp add: sentinel_env_def)
  from sentinels_roundtrip [of ?hosts decimal sentinel_env "load_config decimal sentinel_env", OF _ ok n e]
  show ?thesis by simp
qed

text \<open>A comma at the end of the list adds a host without a name.\<close>

theorem trailing_comma_sentinel:
  "sentinels_of decimal ''s1:1,'' =
     JArr [sentinel_of decimal ''s1:1'', JObj [(''host'', JStr []), (''port'', js_int 26379)]]"
  by code_simp

end
