(* ===== verification/AppRoutes.thy ===== *)
theory AppRoutes
  imports Client
begin

text \<open>
  The pages of the frontend and who is shown them: the routes of \<open>frontend/src/App.jsx\<close> with their
  guards, and the links of \<open>components/layout/Navbar.jsx\<close>. Matching a location to a route belongs to
  the router library: it is a parameter that picks one of the declared paths, or none.
\<close>

section \<open>App.jsx\<close>

datatype page =
    Home | Login | Signup | Problems | ProblemDetails | Profile | SubmissionHistory
  | AdminDashboard | AdminProblems | AdminProblemForm string | AdminTestCases

datatype element = Page page | Protected page | ForAdmin page | Navigate string

definition app_routes :: "(string \<times> element) list" where
  "app_routes =
     [(''/'', Page Home),
      (''/login'', Page Login),
      (''/signup'', Page Signup),
      (''/problems'', Page Problems),
      (''/problems/:problemId'', Page ProblemDetails),
      (''/profile'', Page Profile),
      (''/submissions'', Protected SubmissionHistory),
      (''/admin'', ForAdmin AdminDashboard),
      (''/admin/problems'', ForAdmin AdminProblems),
      (''/admin/problems/create'', ForAdmin (AdminProblemForm ''create'')),
      (''/admin/problems/:problemId/edit'', ForAdmin (AdminProblemForm ''edit'')),
      (''/admin/problems/:problemId/test-cases'', ForAdmin AdminTestCases),
      (''*'', Navigate ''/'')]"

text \<open>What a location shows: a page, the spinner, another location, or nothing.\<close>

datatype screen = Shows page | Waits | GoesTo string | Blank

definition guarded_by :: "shown \<Rightarrow> page \<Rightarrow> screen" where
  "guarded_by g p = (case g of Spinner \<Rightarrow> Waits | Redirect to' \<Rightarrow> GoesTo to' | Children \<Rightarrow> Shows p)"

fun render_element :: "'w browser \<Rightarrow> element \<Rightarrow> screen" where
  "render_element b (Page p) = Shows p"
| "render_element b (Protected p) = guarded_by (ProtectedRoute b) p"
| "render_element b (ForAdmin p) = guarded_by (AdminRoute b) p"
| "render_element b (Navigate to') = GoesTo to'"

text \<open>\<open>pick\<close> is the router: the path it chooses among the declared ones, for a location.\<close>

definition render_app :: "(string list \<Rightarrow> string \<Rightarrow> string option) \<Rightarrow> 'w browser \<Rightarrow> string \<Rightarrow> screen" where
  "render_app pick b location = (case pick (map fst app_routes) location of
     None \<Rightarrow> Blank
   | Some path \<Rightarrow> (case map_of app_routes path of None \<Rightarrow> Blank | Some e \<Rightarrow> render_element b e))"

definition isLightPage :: "string \<Rightarrow> bool" where
  "isLightPage pathname \<longleftrightarrow> pathname \<in> {''/'', ''/login'', ''/signup'', ''/profile''} \<or>
     js_starts_with pathname ''/problems'' \<or> js_starts_with pathname ''/admin''"

text \<open>Whether the layout shows the global bar.\<close>

definition shows_navbar :: "string \<Rightarrow> bool" where
  "shows_navbar pathname \<longleftrightarrow> \<not> isLightPage pathname"

section \<open>Navbar.jsx\<close>

definition navLinks :: "'w browser \<Rightarrow> (string \<times> string) list" where
  "navLinks b = [(''Problems'', ''/problems''), (''Submissions'', ''/submissions'')] @
     (if field (br_user b) ''role'' = JStr ''ADMIN'' then [(''Admin Dashboard'', ''/admin'')] else [])"

definition visible_links :: "'w browser \<Rightarrow> (string \<times> string) list" where
  "visible_links b = filter (\<lambda>(name, path). path = ''/problems'' \<or> isAuthenticated b) (navLinks b)"

definition active_link :: "string \<Rightarrow> string \<Rightarrow> bool" where
  "active_link pathname path \<longleftrightarrow> js_starts_with pathname path"

definition handleLogout :: "('w browser, string) io" where
  "handleLogout = await session_logout (\<lambda>_. ret ''/login'')"

section \<open>Who is shown what\<close>

text \<open>A router that answers with one of the paths it is given.\<close>

definition picks_declared :: "(string list \<Rightarrow> string \<Rightarrow> string option) \<Rightarrow> bool" where
  "picks_declared pick \<longleftrightarrow> (\<forall>ps l p. pick ps l = Some p \<longrightarrow> p \<in> set ps)"

fun admin_page :: "page \<Rightarrow> bool" where
  "admin_page AdminDashboard = True"
| "admin_page AdminProblems = True"
| "admin_page (AdminProblemForm mode) = True"
| "admin_page AdminTestCases = True"
| "admin_page p = False"

lemma route_elements:
  "map_of app_routes path = Some e \<Longrightarrow>
     (case e of Page p \<Rightarrow> \<not> admin_page p \<and> p \<noteq> SubmissionHistory
      | Protected p \<Rightarrow> p = SubmissionHistory | ForAdmin p \<Rightarrow> admin_page p | Navigate l \<Rightarrow> l = ''/'')"
proof -
  assume "map_of app_routes path = Some e"
  then have "(path, e) \<in> set app_routes" by (rule map_of_SomeD)
  then show ?thesis by (auto simp: app_routes_def)
qed

lemma render_app_element:
  assumes "render_app pick b location = Shows p"
  obtains path e where "map_of app_routes path = Some e" "render_element b e = Shows p"
  using assms by (auto simp: render_app_def split: option.splits)

text \<open>whatever the router does, a page of the administration is shown to administrators and to visitors
  who are not authenticated, never to an authenticated user of another role; the history of
  submissions is shown to authenticated users only; and neither while the session is restored.\<close>

theorem guarded_pages:
  assumes "render_app pick b location = Shows p"
  shows "(admin_page p \<longrightarrow> \<not> br_isLoading b \<and>
      (\<not> isAuthenticated b \<or> field (br_user b) ''role'' = JStr ''ADMIN'')) \<and>
    (p = SubmissionHistory \<longrightarrow> \<not> br_isLoading b \<and> isAuthenticated b)"
proof -
  from assms obtain path e where e: "map_of app_routes path = Some e" "render_element b e = Shows p"
    by (rule render_app_element)
  from route_elements [OF e(1)] e(2) show ?thesis
    by (cases e) (auto simp: guarded_by_def ProtectedRoute_def AdminRoute_def split: shown.splits if_splits)
qed

definition exact_router :: "string list \<Rightarrow> string \<Rightarrow> string option" where
  "exact_router ps l = (if l \<in> set ps then Some l else if ''*'' \<in> set ps then Some ''*'' else None)"

lemma exact_router_declared: "picks_declared exact_router"
  by (simp add: picks_declared_def exact_router_def)

theorem guarded_pages_witness:
  "render_app exact_router signed_in ''/submissions'' = Shows SubmissionHistory \<and> isAuthenticated signed_in"
proof -
  have s: "render_app exact_router signed_in ''/submissions'' = Shows SubmissionHistory" by code_simp
  from guarded_pages [OF s] s show ?thesis by simp
qed

text \<open>with a router that answers every location with a declared path, every location leads somewhere: to a
  page, to the spinner, or to one of three locations that show a page to everyone who is sent there.\<close>

theorem every_location_leads:
  assumes "picks_declared pick" and "pick (map fst app_routes) location = Some path"
  shows "render_app pick b location \<noteq> Blank \<and>
    (\<forall>l. render_app pick b location = GoesTo l \<longrightarrow> l \<in> {''/'', ''/login'', ''/problems''} \<and>
       (\<exists>p. map_of app_routes l = Some (Page p)))"
proof -
  from assms have "path \<in> set (map fst app_routes)" unfolding picks_declared_def by blast
  then obtain e where e: "map_of app_routes path = Some e" by (metis map_of_eq_None_iff not_None_eq list.set_map)
  have "map_of app_routes ''/'' = Some (Page Home)" "map_of app_routes ''/login'' = Some (Page Login)"
    "map_of app_routes ''/problems'' = Some (Page Problems)" by (simp_all add: app_routes_def)
  with route_elements [OF e] e assms(2) show ?thesis
    by (cases e) (auto simp: render_app_def guarded_by_def ProtectedRoute_def AdminRoute_def split: shown.splits)
qed

theorem every_location_leads_witness: "render_app exact_router signed_in ''/nowhere'' = GoesTo ''/''"
proof -
  have "exact_router (map fst app_routes) ''/nowhere'' = Some ''*''" by code_simp
  from every_location_leads [OF exact_router_declared this, of signed_in]
  have "render_app exact_router signed_in ''/nowhere'' \<noteq> Blank" by blast
  then show ?thesis by (auto simp: render_app_def exact_router_def app_routes_def)
qed

text \<open>The link to the administration is offered exactly to authenticated administrators, and leaving it
  to log out ends both the stored and the shown session.\<close>

theorem navbar_links:
  "((''Admin Dashboard'', ''/admin'') \<in> set (visible_links b) \<longleftrightarrow>
      isAuthenticated b \<and> field (br_user b) ''role'' = JStr ''ADMIN'') \<and>
   (''Problems'', ''/problems'') \<in> set (visible_links b) \<and>
   (\<exists>b'. handleLogout b = (Inr ''/login'', b') \<and> \<not> isAuthenticated b' \<and> stored_token b' = None)"
  by (auto simp: visible_links_def navLinks_def handleLogout_def session_logout_def removeItem_def set_session_def
      await_def isAuthenticated_def stored_token_def)

text \<open>The global bar is left to one page: every declared location but the history of submissions has a bar
  of its own.\<close>

theorem navbar_only_on_history:
  "filter shows_navbar (map fst app_routes) = [''/submissions'', ''*'']"
  by code_simp

end
