(* ===== verification/SeedData.thy ===== *)
theory SeedData
  imports Models
begin

text \<open>
  The users, problems and test cases of the development database, as
  \<open>backend/src/scripts/seed.js\<close> lists them. A text with line breaks is given by its lines
  (\<open>lf_lines\<close>); one that ends with a line break has an empty last line.
\<close>

section \<open>Entries\<close>

record seed_user =
  su_name :: string
  su_email :: string
  su_password :: string
  su_role :: role
  su_isActive :: bool

record seed_test =
  st_input :: string
  st_expectedOutput :: string
  st_visibility :: visibility
  st_order :: nat

record seed_problem =
  sp_title :: string
  sp_difficulty :: difficulty
  sp_tags :: "string list"
  sp_description :: string
  sp_inputFormat :: string
  sp_outputFormat :: string
  sp_constraints :: string
  sp_examples :: "(string \<times> string) list"
  sp_testCases :: "seed_test list"

definition lf_lines :: "string list \<Rightarrow> string" where
  "lf_lines ls = js_join [CHR 0x0A] ls"

definition SEED_USERS :: "seed_user list" where
  "SEED_USERS =
     [\<lparr>su_name = ''CodeArena User'', su_email = ''user@codearena.dev'', su_password = ''User@12345'',
       su_role = USER, su_isActive = True\<rparr>,
      \<lparr>su_name = ''CodeArena Admin'', su_email = ''admin@codearena.dev'', su_password = ''Admin@12345'',
       su_role = ADMIN, su_isActive = True\<rparr>]"

section \<open>Problems\<close>

definition seed_sum :: seed_problem where
  "seed_sum =
     \<lparr>sp_title = ''Sum of Two Numbers'', sp_difficulty = EASY,
      sp_tags = [''arrays'', ''math''],
      sp_description = ''Given two integers A and B, calculate and print their sum.'',
      sp_inputFormat = ''A single line containing two space-separated integers A and B.'',
      sp_outputFormat = ''Print the sum of A and B on a single line.'',
      sp_constraints = ''-10^9 <= A, B <= 10^9'',
      sp_examples = [
        (lf_lines [''2 3'', []], lf_lines [''5'', []]),
        (lf_lines [''-10 20'', []], lf_lines [''10'', []])],
      sp_testCases = [
        \<lparr>st_input = lf_lines [''2 3'', []], st_expectedOutput = lf_lines [''5'', []], st_visibility = PUBLIC, st_order = 1\<rparr>,
        \<lparr>st_input = lf_lines [''-10 20'', []], st_expectedOutput = lf_lines [''10'', []], st_visibility = PUBLIC, st_order = 2\<rparr>,
        \<lparr>st_input = lf_lines [''0 0'', []], st_expectedOutput = lf_lines [''0'', []], st_visibility = HIDDEN, st_order = 3\<rparr>,
        \<lparr>st_input = lf_lines [''1000000000 -1000000000'', []], st_expectedOutput = lf_lines [''0'', []], st_visibility = HIDDEN, st_order = 4\<rparr>,
        \<lparr>st_input = lf_lines [''500000000 500000000'', []], st_expectedOutput = lf_lines [''1000000000'', []], st_visibility = HIDDEN, st_order = 5\<rparr>,
        \<lparr>st_input = lf_lines [''-500000000 -500000000'', []], st_expectedOutput = lf_lines [''-1000000000'', []], st_visibility = HIDDEN, st_order = 6\<rparr>]\<rparr>"

definition seed_maximum :: seed_problem where
  "seed_maximum =
     \<lparr>sp_title = ''Maximum Element in an Array'', sp_difficulty = EASY,
      sp_tags = [''arrays'', ''implementation''],
      sp_description = ''Given an integer N followed by an array of N integers, find and print the maximum element in the array.'',
      sp_inputFormat = lf_lines [''The first line contains an integer N, the number of elements in the array.'', ''The second line contains N space-separated integers.''],
      sp_outputFormat = ''Print the maximum element on a single line.'',
      sp_constraints = lf_lines [''1 <= N <= 10^5'', ''-10^9 <= A[i] <= 10^9''],
      sp_examples = [
        (lf_lines [''5'', ''1 7 3 9 2'', []], lf_lines [''9'', []]),
        (lf_lines [''4'', ''-5 -2 -10 -3'', []], lf_lines [''-2'', []])],
      sp_testCases = [
        \<lparr>st_input = lf_lines [''5'', ''1 7 3 9 2'', []], st_expectedOutput = lf_lines [''9'', []], st_visibility = PUBLIC, st_order = 1\<rparr>,
        \<lparr>st_input = lf_lines [''4'', ''-5 -2 -10 -3'', []], st_expectedOutput = lf_lines [''-2'', []], st_visibility = PUBLIC, st_order = 2\<rparr>,
        \<lparr>st_input = lf_lines [''1'', ''42'', []], st_expectedOutput = lf_lines [''42'', []], st_visibility = HIDDEN, st_order = 3\<rparr>,
        \<lparr>st_input = lf_lines [''6'', ''-100 -50 -1000 -20 -1 -999'', []], st_expectedOutput = lf_lines [''-1'', []], st_visibility = HIDDEN, st_order = 4\<rparr>,
        \<lparr>st_input = lf_lines [''5'', ''10 10 10 10 10'', []], st_expectedOutput = lf_lines [''10'', []], st_visibility = HIDDEN, st_order = 5\<rparr>,
        \<lparr>st_input = lf_lines [''7'', ''100 200 50 800 300 800 150'', []], st_expectedOutput = lf_lines [''800'', []], st_visibility = HIDDEN, st_order = 6\<rparr>]\<rparr>"

definition seed_count_even :: seed_problem where
  "seed_count_even =
     \<lparr>sp_title = ''Count Even Numbers'', sp_difficulty = EASY,
      sp_tags = [''arrays'', ''math''],
      sp_description = ''Given an integer N followed by an array of N integers, count and print how many elements in the array are even numbers.'',
      sp_inputFormat = lf_lines [''The first line contains an integer N.'', ''The second line contains N space-separated integers.''],
      sp_outputFormat = ''Print the number of even integers in the array on a single line.'',
      sp_constraints = lf_lines [''1 <= N <= 10^5'', ''-10^9 <= A[i] <= 10^9''],
      sp_examples = [
        (lf_lines [''5'', ''1 2 3 4 5'', []], lf_lines [''2'', []]),
        (lf_lines [''4'', ''2 4 6 8'', []], lf_lines [''4'', []])],
      sp_testCases = [
        \<lparr>st_input = lf_lines [''5'', ''1 2 3 4 5'', []], st_expectedOutput = lf_lines [''2'', []], st_visibility = PUBLIC, st_order = 1\<rparr>,
        \<lparr>st_input = lf_lines [''4'', ''2 4 6 8'', []], st_expectedOutput = lf_lines [''4'', []], st_visibility = PUBLIC, st_order = 2\<rparr>,
        \<lparr>st_input = lf_lines [''4'', ''1 3 5 7'', []], st_expectedOutput = lf_lines [''0'', []], st_visibility = HIDDEN, st_order = 3\<rparr>,
        \<lparr>st_input = lf_lines [''1'', ''0'', []], st_expectedOutput = lf_lines [''1'', []], st_visibility = HIDDEN, st_order = 4\<rparr>,
        \<lparr>st_input = lf_lines [''6'', ''-2 -3 -4 0 5 8'', []], st_expectedOutput = lf_lines [''4'', []], st_visibility = HIDDEN, st_order = 5\<rparr>,
        \<lparr>st_input = lf_lines [''7'', ''-11 -13 -17 22 24 26 28'', []], st_expectedOutput = lf_lines [''4'', []], st_visibility = HIDDEN, st_order = 6\<rparr>]\<rparr>"

definition seed_reverse :: seed_problem where
  "seed_reverse =
     \<lparr>sp_title = ''Reverse a String'', sp_difficulty = EASY,
      sp_tags = [''strings'', ''implementation''],
      sp_description = ''Given a string S, print the string in reverse order.'',
      sp_inputFormat = ''A single line containing the string S.'',
      sp_outputFormat = ''Print the reversed string on a single line.'',
      sp_constraints = lf_lines [''1 <= length of S <= 10^5'', ''S consists of printable ASCII characters.''],
      sp_examples = [
        (lf_lines [''codearena'', []], lf_lines [''aneraedoc'', []]),
        (lf_lines [''hello'', []], lf_lines [''olleh'', []])],
      sp_testCases = [
        \<lparr>st_input = lf_lines [''codearena'', []], st_expectedOutput = lf_lines [''aneraedoc'', []], st_visibility = PUBLIC, st_order = 1\<rparr>,
        \<lparr>st_input = lf_lines [''hello'', []], st_expectedOutput = lf_lines [''olleh'', []], st_visibility = PUBLIC, st_order = 2\<rparr>,
        \<lparr>st_input = lf_lines [''a'', []], st_expectedOutput = lf_lines [''a'', []], st_visibility = HIDDEN, st_order = 3\<rparr>,
        \<lparr>st_input = lf_lines [''racecar'', []], st_expectedOutput = lf_lines [''racecar'', []], st_visibility = HIDDEN, st_order = 4\<rparr>,
        \<lparr>st_input = lf_lines [''1234567890'', []], st_expectedOutput = lf_lines [''0987654321'', []], st_visibility = HIDDEN, st_order = 5\<rparr>,
        \<lparr>st_input = lf_lines [''Algorithm'', []], st_expectedOutput = lf_lines [''mhtiroglA'', []], st_visibility = HIDDEN, st_order = 6\<rparr>]\<rparr>"

definition seed_second_largest :: seed_problem where
  "seed_second_largest =
     \<lparr>sp_title = ''Second Largest Element'', sp_difficulty = MEDIUM,
      sp_tags = [''arrays'', ''sorting''],
      sp_description = ''Given an array of N integers, find the second largest distinct element in the array. If fewer than two distinct elements exist, print -1.'',
      sp_inputFormat = lf_lines [''The first line contains an integer N.'', ''The second line contains N space-separated integers.''],
      sp_outputFormat = ''Print the second largest distinct element, or -1 if no such element exists.'',
      sp_constraints = lf_lines [''1 <= N <= 10^5'', ''-10^9 <= A[i] <= 10^9''],
      sp_examples = [
        (lf_lines [''5'', ''12 35 1 10 34'', []], lf_lines [''34'', []]),
        (lf_lines [''3'', ''10 10 10'', []], lf_lines [''-1'', []])],
      sp_testCases = [
        \<lparr>st_input = lf_lines [''5'', ''12 35 1 10 34'', []], st_expectedOutput = lf_lines [''34'', []], st_visibility = PUBLIC, st_order = 1\<rparr>,
        \<lparr>st_input = lf_lines [''3'', ''10 10 10'', []], st_expectedOutput = lf_lines [''-1'', []], st_visibility = PUBLIC, st_order = 2\<rparr>,
        \<lparr>st_input = lf_lines [''1'', ''50'', []], st_expectedOutput = lf_lines [''-1'', []], st_visibility = HIDDEN, st_order = 3\<rparr>,
        \<lparr>st_input = lf_lines [''4'', ''-10 -20 -30 -40'', []], st_expectedOutput = lf_lines [''-20'', []], st_visibility = HIDDEN, st_order = 4\<rparr>,
        \<lparr>st_input = lf_lines [''6'', ''5 5 4 4 3 3'', []], st_expectedOutput = lf_lines [''4'', []], st_visibility = HIDDEN, st_order = 5\<rparr>,
        \<lparr>st_input = lf_lines [''7'', ''100 200 300 400 500 500 499'', []], st_expectedOutput = lf_lines [''499'', []], st_visibility = HIDDEN, st_order = 6\<rparr>]\<rparr>"

definition seed_two_sum :: seed_problem where
  "seed_two_sum =
     \<lparr>sp_title = ''Two Sum'', sp_difficulty = MEDIUM,
      sp_tags = [''arrays'', ''hash-map''],
      sp_description = ''Given an array of N integers and a target value T, determine whether there exist two distinct indices i and j (i != j) such that A[i] + A[j] == T. Print YES if such a pair exists, otherwise print NO.'',
      sp_inputFormat = lf_lines [''The first line contains two space-separated integers N and T.'', ''The second line contains N space-separated integers.''],
      sp_outputFormat = ''Print YES if two distinct elements sum to T, otherwise print NO.'',
      sp_constraints = lf_lines [''2 <= N <= 10^5'', ''-10^9 <= A[i], T <= 10^9''],
      sp_examples = [
        (lf_lines [''4 9'', ''2 7 11 15'', []], lf_lines [''YES'', []]),
        (lf_lines [''3 6'', ''3 1 4'', []], lf_lines [''NO'', []])],
      sp_testCases = [
        \<lparr>st_input = lf_lines [''4 9'', ''2 7 11 15'', []], st_expectedOutput = lf_lines [''YES'', []], st_visibility = PUBLIC, st_order = 1\<rparr>,
        \<lparr>st_input = lf_lines [''3 6'', ''3 1 4'', []], st_expectedOutput = lf_lines [''NO'', []], st_visibility = PUBLIC, st_order = 2\<rparr>,
        \<lparr>st_input = lf_lines [''2 10'', ''5 5'', []], st_expectedOutput = lf_lines [''YES'', []], st_visibility = HIDDEN, st_order = 3\<rparr>,
        \<lparr>st_input = lf_lines [''4 0'', ''-5 2 5 1'', []], st_expectedOutput = lf_lines [''YES'', []], st_visibility = HIDDEN, st_order = 4\<rparr>,
        \<lparr>st_input = lf_lines [''5 100'', ''10 20 30 40 50'', []], st_expectedOutput = lf_lines [''NO'', []], st_visibility = HIDDEN, st_order = 5\<rparr>,
        \<lparr>st_input = lf_lines [''6 15'', ''1 2 4 7 11 15'', []], st_expectedOutput = lf_lines [''YES'', []], st_visibility = HIDDEN, st_order = 6\<rparr>]\<rparr>"

definition seed_longest_subarray :: seed_problem where
  "seed_longest_subarray =
     \<lparr>sp_title = ''Longest Subarray With Given Sum'', sp_difficulty = MEDIUM,
      sp_tags = [''arrays'', ''prefix-sum'', ''sliding-window''],
      sp_description = ''Given an array of N integers and a target sum K, find the length of the longest contiguous subarray whose sum equals K. If no such subarray exists, print 0.'',
      sp_inputFormat = lf_lines [''The first line contains two integers N and K.'', ''The second line contains N space-separated integers.''],
      sp_outputFormat = ''Print the length of the longest subarray with sum equal to K.'',
      sp_constraints = lf_lines [''1 <= N <= 10^5'', ''-10^9 <= A[i], K <= 10^9''],
      sp_examples = [
        (lf_lines [''6 15'', ''10 5 2 7 1 9'', []], lf_lines [''4'', []]),
        (lf_lines [''3 5'', ''1 2 3'', []], lf_lines [''2'', []])],
      sp_testCases = [
        \<lparr>st_input = lf_lines [''6 15'', ''10 5 2 7 1 9'', []], st_expectedOutput = lf_lines [''4'', []], st_visibility = PUBLIC, st_order = 1\<rparr>,
        \<lparr>st_input = lf_lines [''3 5'', ''1 2 3'', []], st_expectedOutput = lf_lines [''2'', []], st_visibility = PUBLIC, st_order = 2\<rparr>,
        \<lparr>st_input = lf_lines [''4 10'', ''1 2 3 4'', []], st_expectedOutput = lf_lines [''4'', []], st_visibility = HIDDEN, st_order = 3\<rparr>,
        \<lparr>st_input = lf_lines [''5 50'', ''1 2 3 4 5'', []], st_expectedOutput = lf_lines [''0'', []], st_visibility = HIDDEN, st_order = 4\<rparr>,
        \<lparr>st_input = lf_lines [''5 0'', ''1 -1 2 -2 3'', []], st_expectedOutput = lf_lines [''4'', []], st_visibility = HIDDEN, st_order = 5\<rparr>,
        \<lparr>st_input = lf_lines [''7 3'', ''-1 2 3 -2 1 1 -2'', []], st_expectedOutput = lf_lines [''6'', []], st_visibility = HIDDEN, st_order = 6\<rparr>]\<rparr>"

definition seed_parentheses :: seed_problem where
  "seed_parentheses =
     \<lparr>sp_title = ''Valid Parentheses'', sp_difficulty = MEDIUM,
      sp_tags = [''strings'', ''stack''],
      sp_description = ''Given a string S consisting of the characters \"(\", \")\", \"{\", \"}\", \"[\" and \"]\", determine if the input string is valid. A string is valid if open brackets are closed by the same type of brackets in the correct order, and every close bracket has a corresponding open bracket of the same type. Print YES if valid, otherwise print NO.'',
      sp_inputFormat = ''A single line containing the bracket string S.'',
      sp_outputFormat = ''Print YES if the brackets are balanced, otherwise print NO.'',
      sp_constraints = lf_lines [''1 <= length of S <= 10^5'', ''S consists only of \"()[]{}\".''],
      sp_examples = [
        (lf_lines [''()[]{}'', []], lf_lines [''YES'', []]),
        (lf_lines [''(]'', []], lf_lines [''NO'', []])],
      sp_testCases = [
        \<lparr>st_input = lf_lines [''()[]{}'', []], st_expectedOutput = lf_lines [''YES'', []], st_visibility = PUBLIC, st_order = 1\<rparr>,
        \<lparr>st_input = lf_lines [''(]'', []], st_expectedOutput = lf_lines [''NO'', []], st_visibility = PUBLIC, st_order = 2\<rparr>,
        \<lparr>st_input = lf_lines [''([{}])'', []], st_expectedOutput = lf_lines [''YES'', []], st_visibility = HIDDEN, st_order = 3\<rparr>,
        \<lparr>st_input = lf_lines [''([)]'', []], st_expectedOutput = lf_lines [''NO'', []], st_visibility = HIDDEN, st_order = 4\<rparr>,
        \<lparr>st_input = lf_lines [''(((((((()'', []], st_expectedOutput = lf_lines [''NO'', []], st_visibility = HIDDEN, st_order = 5\<rparr>,
        \<lparr>st_input = lf_lines [''{[]()}'', []], st_expectedOutput = lf_lines [''YES'', []], st_visibility = HIDDEN, st_order = 6\<rparr>]\<rparr>"

definition seed_lis :: seed_problem where
  "seed_lis =
     \<lparr>sp_title = ''Longest Increasing Subsequence Length'', sp_difficulty = HARD,
      sp_tags = [''dynamic-programming'', ''binary-search''],
      sp_description = ''Given an array of N integers, find the length of the longest strictly increasing subsequence.'',
      sp_inputFormat = lf_lines [''The first line contains an integer N.'', ''The second line contains N space-separated integers.''],
      sp_outputFormat = ''Print the length of the longest strictly increasing subsequence.'',
      sp_constraints = lf_lines [''1 <= N <= 2000'', ''-10^9 <= A[i] <= 10^9''],
      sp_examples = [
        (lf_lines [''8'', ''10 9 2 5 3 7 101 18'', []], lf_lines [''4'', []]),
        (lf_lines [''6'', ''0 1 0 3 2 3'', []], lf_lines [''4'', []])],
      sp_testCases = [
        \<lparr>st_input = lf_lines [''8'', ''10 9 2 5 3 7 101 18'', []], st_expectedOutput = lf_lines [''4'', []], st_visibility = PUBLIC, st_order = 1\<rparr>,
        \<lparr>st_input = lf_lines [''6'', ''0 1 0 3 2 3'', []], st_expectedOutput = lf_lines [''4'', []], st_visibility = PUBLIC, st_order = 2\<rparr>,
        \<lparr>st_input = lf_lines [''5'', ''5 4 3 2 1'', []], st_expectedOutput = lf_lines [''1'', []], st_visibility = HIDDEN, st_order = 3\<rparr>,
        \<lparr>st_input = lf_lines [''6'', ''7 7 7 7 7 7'', []], st_expectedOutput = lf_lines [''1'', []], st_visibility = HIDDEN, st_order = 4\<rparr>,
        \<lparr>st_input = lf_lines [''7'', ''1 2 3 4 5 6 7'', []], st_expectedOutput = lf_lines [''7'', []], st_visibility = HIDDEN, st_order = 5\<rparr>,
        \<lparr>st_input = lf_lines [''10'', ''0 -1 2 -2 3 4 -3 5 6 7'', []], st_expectedOutput = lf_lines [''7'', []], st_visibility = HIDDEN, st_order = 6\<rparr>]\<rparr>"

definition seed_path_sum :: seed_problem where
  "seed_path_sum =
     \<lparr>sp_title = ''Minimum Path Sum'', sp_difficulty = HARD,
      sp_tags = [''dynamic-programming'', ''matrix''],
      sp_description = ''Given an M x N grid filled with non-negative integers, find a path from top-left cell (0, 0) to bottom-right cell (M-1, N-1) which minimizes the sum of all numbers along its path. You can only move either right or down at any point in time.'',
      sp_inputFormat = lf_lines [''The first line contains two integers M and N, representing the rows and columns of the grid.'', ''The next M lines each contain N space-separated non-negative integers.''],
      sp_outputFormat = ''Print the minimum path sum from (0, 0) to (M-1, N-1).'',
      sp_constraints = lf_lines [''1 <= M, N <= 200'', ''0 <= Grid[i][j] <= 1000''],
      sp_examples = [
        (lf_lines [''3 3'', ''1 3 1'', ''1 5 1'', ''4 2 1'', []], lf_lines [''7'', []]),
        (lf_lines [''2 3'', ''1 2 3'', ''4 5 6'', []], lf_lines [''12'', []])],
      sp_testCases = [
        \<lparr>st_input = lf_lines [''3 3'', ''1 3 1'', ''1 5 1'', ''4 2 1'', []], st_expectedOutput = lf_lines [''7'', []], st_visibility = PUBLIC, st_order = 1\<rparr>,
        \<lparr>st_input = lf_lines [''2 3'', ''1 2 3'', ''4 5 6'', []], st_expectedOutput = lf_lines [''12'', []], st_visibility = PUBLIC, st_order = 2\<rparr>,
        \<lparr>st_input = lf_lines [''1 1'', ''5'', []], st_expectedOutput = lf_lines [''5'', []], st_visibility = HIDDEN, st_order = 3\<rparr>,
        \<lparr>st_input = lf_lines [''1 4'', ''1 2 3 4'', []], st_expectedOutput = lf_lines [''10'', []], st_visibility = HIDDEN, st_order = 4\<rparr>,
        \<lparr>st_input = lf_lines [''4 1'', ''2'', ''3'', ''5'', ''1'', []], st_expectedOutput = lf_lines [''11'', []], st_visibility = HIDDEN, st_order = 5\<rparr>,
        \<lparr>st_input = lf_lines [''3 4'', ''1 2 5 1'', ''1 8 1 2'', ''4 2 1 1'', []], st_expectedOutput = lf_lines [''10'', []], st_visibility = HIDDEN, st_order = 6\<rparr>]\<rparr>"

definition seed_islands :: seed_problem where
  "seed_islands =
     \<lparr>sp_title = ''Number of Islands'', sp_difficulty = HARD,
      sp_tags = [''graphs'', ''bfs'', ''dfs'', ''matrix''],
      sp_description = ''Given an M x N 2D binary grid which represents a map of \"1\"s (land) and \"0\"s (water), return the number of islands. An island is surrounded by water and is formed by connecting adjacent lands horizontally or vertically (4-directional connectivity). You may assume all four edges of the grid are completely surrounded by water.'',
      sp_inputFormat = lf_lines [''The first line contains two integers M and N, the number of rows and columns.'', ''The next M lines each contain N space-separated integers (either 0 or 1).''],
      sp_outputFormat = ''Print the total number of islands on a single line.'',
      sp_constraints = lf_lines [''1 <= M, N <= 200'', ''Grid[i][j] is either 0 or 1.''],
      sp_examples = [
        (lf_lines [''4 5'', ''1 1 1 1 0'', ''1 1 0 1 0'', ''1 1 0 0 0'', ''0 0 0 0 0'', []], lf_lines [''1'', []]),
        (lf_lines [''4 5'', ''1 1 0 0 0'', ''1 1 0 0 0'', ''0 0 1 0 0'', ''0 0 0 1 1'', []], lf_lines [''3'', []])],
      sp_testCases = [
        \<lparr>st_input = lf_lines [''4 5'', ''1 1 1 1 0'', ''1 1 0 1 0'', ''1 1 0 0 0'', ''0 0 0 0 0'', []], st_expectedOutput = lf_lines [''1'', []], st_visibility = PUBLIC, st_order = 1\<rparr>,
        \<lparr>st_input = lf_lines [''4 5'', ''1 1 0 0 0'', ''1 1 0 0 0'', ''0 0 1 0 0'', ''0 0 0 1 1'', []], st_expectedOutput = lf_lines [''3'', []], st_visibility = PUBLIC, st_order = 2\<rparr>,
        \<lparr>st_input = lf_lines [''3 3'', ''0 0 0'', ''0 0 0'', ''0 0 0'', []], st_expectedOutput = lf_lines [''0'', []], st_visibility = HIDDEN, st_order = 3\<rparr>,
        \<lparr>st_input = lf_lines [''3 3'', ''1 1 1'', ''1 1 1'', ''1 1 1'', []], st_expectedOutput = lf_lines [''1'', []], st_visibility = HIDDEN, st_order = 4\<rparr>,
        \<lparr>st_input = lf_lines [''3 3'', ''1 0 1'', ''0 1 0'', ''1 0 1'', []], st_expectedOutput = lf_lines [''5'', []], st_visibility = HIDDEN, st_order = 5\<rparr>,
        \<lparr>st_input = lf_lines [''5 5'', ''1 0 0 0 1'', ''0 1 0 1 0'', ''0 0 1 0 0'', ''0 1 0 1 0'', ''1 0 0 0 1'', []], st_expectedOutput = lf_lines [''9'', []], st_visibility = HIDDEN, st_order = 6\<rparr>]\<rparr>"

definition seed_shortest_path :: seed_problem where
  "seed_shortest_path =
     \<lparr>sp_title = ''Shortest Path in an Unweighted Graph'', sp_difficulty = HARD,
      sp_tags = [''graphs'', ''bfs'', ''shortest-path''],
      sp_description = ''Given an unweighted, undirected graph with V vertices (labeled 1 to V) and E edges, along with two vertices S (source) and D (destination), find the shortest number of edges in a path between S and D. If no path exists between S and D, print -1.'',
      sp_inputFormat = lf_lines [''The first line contains two integers V and E.'', ''The next E lines each contain two integers u and v, representing an undirected edge between vertex u and vertex v.'', ''The last line contains two integers S and D, representing the source and destination vertices.''],
      sp_outputFormat = ''Print the minimum number of edges between S and D, or -1 if no path exists.'',
      sp_constraints = lf_lines [''1 <= V <= 10^5'', ''0 <= E <= 2 * 10^5'', ''1 <= u, v, S, D <= V''],
      sp_examples = [
        (lf_lines [''4 4'', ''1 2'', ''2 3'', ''3 4'', ''1 3'', ''1 4'', []], lf_lines [''2'', []]),
        (lf_lines [''3 1'', ''1 2'', ''1 3'', []], lf_lines [''-1'', []])],
      sp_testCases = [
        \<lparr>st_input = lf_lines [''4 4'', ''1 2'', ''2 3'', ''3 4'', ''1 3'', ''1 4'', []], st_expectedOutput = lf_lines [''2'', []], st_visibility = PUBLIC, st_order = 1\<rparr>,
        \<lparr>st_input = lf_lines [''3 1'', ''1 2'', ''1 3'', []], st_expectedOutput = lf_lines [''-1'', []], st_visibility = PUBLIC, st_order = 2\<rparr>,
        \<lparr>st_input = lf_lines [''3 2'', ''1 2'', ''2 3'', ''1 1'', []], st_expectedOutput = lf_lines [''0'', []], st_visibility = HIDDEN, st_order = 3\<rparr>,
        \<lparr>st_input = lf_lines [''5 4'', ''1 2'', ''2 3'', ''3 4'', ''4 5'', ''1 5'', []], st_expectedOutput = lf_lines [''4'', []], st_visibility = HIDDEN, st_order = 4\<rparr>,
        \<lparr>st_input = lf_lines [''5 5'', ''1 2'', ''2 3'', ''3 4'', ''4 5'', ''1 5'', ''1 5'', []], st_expectedOutput = lf_lines [''1'', []], st_visibility = HIDDEN, st_order = 5\<rparr>,
        \<lparr>st_input = lf_lines [''6 4'', ''1 2'', ''2 3'', ''4 5'', ''5 6'', ''1 6'', []], st_expectedOutput = lf_lines [''-1'', []], st_visibility = HIDDEN, st_order = 6\<rparr>]\<rparr>"

definition SEED_PROBLEMS :: "seed_problem list" where
  "SEED_PROBLEMS =
     [seed_sum, seed_maximum, seed_count_even, seed_reverse,
      seed_second_largest, seed_two_sum, seed_longest_subarray, seed_parentheses,
      seed_lis, seed_path_sum, seed_islands, seed_shortest_path]"

section \<open>What the script announces of them\<close>

text \<open>Titles are told apart, as are the orders of the tests of a problem.\<close>

definition well_formed_seed :: "seed_problem \<Rightarrow> bool" where
  "well_formed_seed p \<longleftrightarrow>
     sp_title p \<noteq> [] \<and> length (sp_title p) \<le> 200 \<and> js_trim (sp_title p) = sp_title p \<and> sp_examples p \<noteq> [] \<and>
     list_all (\<lambda>(i, q). i \<noteq> [] \<and> q \<noteq> []) (sp_examples p) \<and>
     list_all (\<lambda>s. s \<noteq> [] \<and> js_trim s = s) [sp_description p, sp_inputFormat p, sp_outputFormat p, sp_constraints p] \<and>
     list_all (\<lambda>t. st_input t \<noteq> [] \<and> st_expectedOutput t \<noteq> []) (sp_testCases p) \<and>
     map st_order (sp_testCases p) = [1, 2, 3, 4, 5, 6] \<and>
     map st_visibility (sp_testCases p) = [PUBLIC, PUBLIC, HIDDEN, HIDDEN, HIDDEN, HIDDEN]"

lemmas seed_defs =
  seed_sum_def seed_maximum_def seed_count_even_def seed_reverse_def seed_second_largest_def seed_two_sum_def
  seed_longest_subarray_def seed_parentheses_def seed_lis_def seed_path_sum_def seed_islands_def
  seed_shortest_path_def

lemma seed_well_formed: "list_all well_formed_seed SEED_PROBLEMS"
  by code_simp

lemma seed_titles: "distinct (map sp_title SEED_PROBLEMS)"
  by code_simp

lemma seed_difficulties:
  "map sp_difficulty SEED_PROBLEMS = [EASY, EASY, EASY, EASY, MEDIUM, MEDIUM, MEDIUM, MEDIUM, HARD, HARD, HARD, HARD]"
  by code_simp

end
