(* ===== verification/Upserts.thy ===== *)
theory Upserts
  imports Mongo
begin

text \<open>
  Find or insert: what a step that brings one document of a collection to a given state does to the
  contents, whichever the collection is. \<open>K\<close> says which documents the step looks for, \<open>G\<close> what the
  document is like in the end, \<open>ident\<close> is the id of a document.
\<close>

section \<open>Putting one document\<close>

definition keyed :: "('d \<Rightarrow> oid) \<Rightarrow> (oid \<rightharpoonup> 'd) \<Rightarrow> bool" where
  "keyed ident m \<longleftrightarrow> (\<forall>j d. m j = Some d \<longrightarrow> ident d = j)"

definition single :: "('d \<Rightarrow> bool) \<Rightarrow> (oid \<rightharpoonup> 'd) \<Rightarrow> bool" where
  "single K m \<longleftrightarrow> (\<forall>i j d e. m i = Some d \<longrightarrow> m j = Some e \<longrightarrow> K d \<longrightarrow> K e \<longrightarrow> i = j)"

definition kept :: "('d \<Rightarrow> bool) \<Rightarrow> (oid \<rightharpoonup> 'd) \<Rightarrow> (oid \<rightharpoonup> 'd) \<Rightarrow> bool" where
  "kept Q m m' \<longleftrightarrow> (\<forall>j d. Q d \<longrightarrow> (m j = Some d \<longleftrightarrow> m' j = Some d))"

definition stored_once :: "('d \<Rightarrow> bool) \<Rightarrow> ('d \<Rightarrow> bool) \<Rightarrow> (oid \<rightharpoonup> 'd) \<Rightarrow> bool" where
  "stored_once K G m \<longleftrightarrow> (\<exists>i d. m i = Some d \<and> G d \<and> (\<forall>j e. m j = Some e \<longrightarrow> K e \<longrightarrow> j = i))"

definition puts ::
  "('d \<Rightarrow> oid) \<Rightarrow> ('d \<Rightarrow> bool) \<Rightarrow> ('d \<Rightarrow> bool) \<Rightarrow> (oid \<rightharpoonup> 'd) \<Rightarrow> 'd \<Rightarrow> (oid \<rightharpoonup> 'd) \<Rightarrow> bool" where
  "puts ident K G m d m' \<longleftrightarrow> m' = m(ident d \<mapsto> d) \<and> G d \<and> K d \<and>
     (m (ident d) = None \<and> matching K m = {} \<or>
      (\<exists>old. m (ident d) = Some old \<and> K old \<and> (G old \<longrightarrow> d = old)))"

lemma kept_refl [simp]: "kept Q m m"
  by (simp add: kept_def)

lemma kept_trans: "kept Q m m1 \<Longrightarrow> kept Q m1 m2 \<Longrightarrow> kept Q m m2"
  by (simp add: kept_def)

lemma kept_mono: "kept Q m m' \<Longrightarrow> (\<And>d. Q' d \<Longrightarrow> Q d) \<Longrightarrow> kept Q' m m'"
  by (simp add: kept_def)

lemma single_kept: "single K m \<Longrightarrow> kept K m m' \<Longrightarrow> single K m'"
  unfolding single_def kept_def by metis

lemma stored_once_kept: "stored_once K G m \<Longrightarrow> kept K m m' \<Longrightarrow> (\<And>d. G d \<Longrightarrow> K d) \<Longrightarrow> stored_once K G m'"
  unfolding stored_once_def kept_def by metis

lemma stored_once_single: "stored_once K G m \<Longrightarrow> single K m"
  unfolding stored_once_def single_def by metis

lemma puts_keyed: "puts ident K G m d m' \<Longrightarrow> keyed ident m \<Longrightarrow> keyed ident m'"
  by (auto simp: puts_def keyed_def)

lemma puts_kept: "puts ident K G m d m' \<Longrightarrow> kept (\<lambda>d. \<not> K d) m m'"
  by (auto simp: puts_def kept_def)

lemma puts_stored: "puts ident K G m d m' \<Longrightarrow> m' (ident d) = Some d \<and> G d"
  by (simp add: puts_def)

lemma puts_once: "puts ident K G m d m' \<Longrightarrow> single K m \<Longrightarrow> stored_once K G m'"
proof -
  assume p: "puts ident K G m d m'" and s: "single K m"
  have "j = ident d" if e: "m' j = Some e" "K e" for j e
  proof (rule ccontr)
    assume "j \<noteq> ident d"
    with p e have mj: "m j = Some e" by (simp add: puts_def)
    with e have "j \<in> matching K m" by (auto simp: matching_def)
    then have "matching K m \<noteq> {}" by blast
    with p obtain old where "m (ident d) = Some old" "K old" unfolding puts_def by blast
    with s mj e \<open>j \<noteq> ident d\<close> show False unfolding single_def by blast
  qed
  moreover have "m' (ident d) = Some d" "G d" using p by (simp_all add: puts_def)
  ultimately show ?thesis unfolding stored_once_def by blast
qed

lemma puts_idle: "puts ident K G m d m' \<Longrightarrow> stored_once K G m \<Longrightarrow> (\<And>e. G e \<Longrightarrow> K e) \<Longrightarrow> m' = m"
proof -
  assume p: "puts ident K G m d m'" and s: "stored_once K G m" and GK: "\<And>e. G e \<Longrightarrow> K e"
  from s obtain i e where e: "m i = Some e" "G e" "\<And>j e. m j = Some e \<Longrightarrow> K e \<Longrightarrow> j = i"
    unfolding stored_once_def by blast
  have "K e" by (rule GK) (rule e(2))
  with e(1) have "matching K m \<noteq> {}" unfolding matching_def by blast
  with p obtain old where old: "m (ident d) = Some old" "K old" "G old \<longrightarrow> d = old" unfolding puts_def by blast
  have "ident d = i" using e(3) [OF old(1,2)] .
  with old e(1,2) have "m (ident d) = Some d" by simp
  then have "m(ident d \<mapsto> d) = m" by (rule map_upd_triv)
  with p show "m' = m" by (simp only: puts_def)
qed

section \<open>Deleting documents\<close>

definition removing :: "('d \<Rightarrow> bool) \<Rightarrow> (oid \<rightharpoonup> 'd) \<Rightarrow> (oid \<rightharpoonup> 'd)" where
  "removing P m = (\<lambda>j. case m j of Some d \<Rightarrow> if P d then None else Some d | None \<Rightarrow> None)"

lemma removing_Some [simp]: "removing P m j = Some d \<longleftrightarrow> m j = Some d \<and> \<not> P d"
  by (auto simp: removing_def split: option.splits)

lemma removing_idle: "(\<And>j d. m j = Some d \<Longrightarrow> \<not> P d) \<Longrightarrow> removing P m = m"
  by (auto simp: removing_def fun_eq_iff split: option.splits)

lemma kept_removing: "kept (\<lambda>d. \<not> P d) m (removing P m)"
  by (auto simp: kept_def)

end
