(* ===== verification/Seed.thy ===== *)
theory Seed
  imports SeedData Upserts Accounts Problems
begin

text \<open>
  The script that fills a development database, \<open>backend/src/scripts/seed.js\<close>: users, problems and
  their tests are brought to the listed state, whether or not they exist. The script announces that
  it can be run repeatedly without duplicating records and that it leaves other records alone. The
  first is proved, and more: a second run changes no field of the model, which has no \<open>updatedAt\<close>
  (that of every seeded test is written again); the second holds for users and problems but not for the tests of a seeded problem.
\<close>

section \<open>The script\<close>

text \<open>
  The operations it uses beyond those of \<open>Mongo\<close>: \<open>findOneAndUpdate\<close> with \<open>upsert\<close>, which updates a
  document that matches or inserts a new one, \<open>deleteMany\<close>, and the connection.
\<close>

record 'w seed_host =
  sd_connect :: "('w, unit) io"
  sd_disconnect :: "('w, unit) io"
  sd_upsert :: "(testcase \<Rightarrow> bool) \<Rightarrow> (testcase \<Rightarrow> testcase) \<Rightarrow> (oid \<Rightarrow> date \<Rightarrow> testcase) \<Rightarrow> ('w, testcase) io"
  sd_deleteMany :: "(testcase \<Rightarrow> bool) \<Rightarrow> ('w, unit) io"

definition seed_user_fields :: "seed_user \<Rightarrow> string \<Rightarrow> user \<Rightarrow> user" where
  "seed_user_fields u hash d = d\<lparr>u_name := js_trim (su_name u), u_role := su_role u,
     u_isActive := su_isActive u, u_passwordHash := hash\<rparr>"

definition user_delta :: "user \<Rightarrow> user \<Rightarrow> user \<Rightarrow> user" where
  "user_delta old new d = d\<lparr>
     u_name := (if u_name new = u_name old then u_name d else u_name new),
     u_passwordHash := (if u_passwordHash new = u_passwordHash old then u_passwordHash d else u_passwordHash new),
     u_role := (if u_role new = u_role old then u_role d else u_role new),
     u_isActive := (if u_isActive new = u_isActive old then u_isActive d else u_isActive new)\<rparr>"

definition new_seed_user :: "seed_user \<Rightarrow> string \<Rightarrow> oid \<Rightarrow> date \<Rightarrow> user" where
  "new_seed_user u hash i t =
     \<lparr>u_id = i, u_name = js_trim (su_name u), u_email = js_lower (js_trim (su_email u)), u_passwordHash = hash,
      u_role = su_role u, u_isActive = su_isActive u, u_createdAt = t\<rparr>"

definition seedUser :: "'w backend \<Rightarrow> 'w auth_env \<Rightarrow> seed_user \<Rightarrow> ('w, user) io" where
  "seedUser B E u =
     await (findOne (Users B) (\<lambda>d. u_email d = su_email u)) (\<lambda>found. case found of
       Some existing \<Rightarrow>
         await (argonVerify E (u_passwordHash existing) (su_password u)) (\<lambda>isMatch.
         await (if isMatch then ret (u_passwordHash existing) else argonHash E (su_password u)) (\<lambda>hash.
         let new = seed_user_fields u hash existing in
         await (save_valid (Users B) user_schema (u_id existing) new (user_delta existing new)) (\<lambda>_.
         ret new)))
     | None \<Rightarrow>
         await (argonHash E (su_password u)) (\<lambda>passwordHash.
         create_valid (Users B) user_schema (new_seed_user u passwordHash)))"

text \<open>\<open>adminUser\<close> is the last administrator; the number of users is counted but not used.\<close>

fun seed_users :: "'w backend \<Rightarrow> 'w auth_env \<Rightarrow> seed_user list \<Rightarrow> user option \<Rightarrow> ('w, user option) io" where
  "seed_users B E [] adminUser = ret adminUser"
| "seed_users B E (u # us) adminUser =
     await (seedUser B E u) (\<lambda>d. seed_users B E us (if su_role u = ADMIN then Some d else adminUser))"

definition seed_problem_fields :: "seed_problem \<Rightarrow> oid \<Rightarrow> problem \<Rightarrow> problem" where
  "seed_problem_fields p authorId d = d\<lparr>p_description := js_trim (sp_description p), p_difficulty := sp_difficulty p,
     p_tags := sp_tags p, p_inputFormat := js_trim (sp_inputFormat p), p_outputFormat := js_trim (sp_outputFormat p),
     p_constraints := js_trim (sp_constraints p), p_examples := sp_examples p, p_authorId := authorId,
     p_isActive := True\<rparr>"

definition seed_problem_delta :: "problem \<Rightarrow> problem \<Rightarrow> problem \<Rightarrow> problem" where
  "seed_problem_delta old new d = (problem_delta old new d)\<lparr>
     p_authorId := (if p_authorId new = p_authorId old then p_authorId d else p_authorId new)\<rparr>"

definition new_seed_problem :: "seed_problem \<Rightarrow> oid \<Rightarrow> oid \<Rightarrow> date \<Rightarrow> problem" where
  "new_seed_problem p authorId i t = seed_problem_fields p authorId
     \<lparr>p_id = i, p_title = js_trim (sp_title p), p_description = [], p_difficulty = EASY, p_tags = [], p_inputFormat = [],
      p_outputFormat = [], p_constraints = [], p_examples = [], p_authorId = authorId, p_isActive = True,
      p_createdAt = t\<rparr>"

definition at_order :: "oid \<Rightarrow> seed_test \<Rightarrow> testcase \<Rightarrow> bool" where
  "at_order problemId tc t \<longleftrightarrow> t_problemId t = problemId \<and> t_order t = Finite (of_nat (st_order tc))"

definition seed_test_fields :: "oid \<Rightarrow> seed_test \<Rightarrow> testcase \<Rightarrow> testcase" where
  "seed_test_fields problemId tc t = t\<lparr>t_problemId := problemId, t_input := st_input tc,
     t_expectedOutput := st_expectedOutput tc, t_visibility := st_visibility tc,
     t_order := Finite (of_nat (st_order tc)), t_isActive := True\<rparr>"

definition new_seed_test :: "oid \<Rightarrow> seed_test \<Rightarrow> oid \<Rightarrow> date \<Rightarrow> testcase" where
  "new_seed_test problemId tc i t =
     \<lparr>t_id = i, t_problemId = problemId, t_input = st_input tc, t_expectedOutput = st_expectedOutput tc,
      t_visibility = st_visibility tc, t_order = Finite (of_nat (st_order tc)), t_isActive = True, t_createdAt = t\<rparr>"

fun seedTests :: "'w seed_host \<Rightarrow> oid \<Rightarrow> seed_test list \<Rightarrow> oid list \<Rightarrow> ('w, oid list) io" where
  "seedTests S problemId [] seededTcIds = ret seededTcIds"
| "seedTests S problemId (tc # tcs) seededTcIds =
     await (sd_upsert S (at_order problemId tc) (seed_test_fields problemId tc) (new_seed_test problemId tc)) (\<lambda>doc.
       seedTests S problemId tcs (seededTcIds @ [t_id doc]))"

definition stale_test :: "oid \<Rightarrow> oid list \<Rightarrow> testcase \<Rightarrow> bool" where
  "stale_test problemId seededTcIds t \<longleftrightarrow> t_problemId t = problemId \<and> t_id t \<notin> set seededTcIds"

definition seedProblem :: "'w backend \<Rightarrow> 'w seed_host \<Rightarrow> oid \<Rightarrow> seed_problem \<Rightarrow> ('w, problem) io" where
  "seedProblem B S authorId pDef =
     await (findOne (Problems B) (\<lambda>d. p_title d = sp_title pDef)) (\<lambda>found.
     await (case found of
         Some old \<Rightarrow> let new = seed_problem_fields pDef authorId old in
           await (save_valid (Problems B) problem_schema (p_id old) new (seed_problem_delta old new)) (\<lambda>_. ret new)
       | None \<Rightarrow> create_valid (Problems B) problem_schema (new_seed_problem pDef authorId)) (\<lambda>problem.
     await (seedTests S (p_id problem) (sp_testCases pDef) []) (\<lambda>seededTcIds.
     await (sd_deleteMany S (stale_test (p_id problem) seededTcIds)) (\<lambda>_.
     ret problem))))"

text \<open>The counters of the summary.\<close>

record seed_counts =
  sc_easy :: nat
  sc_medium :: nat
  sc_hard :: nat
  sc_public :: nat
  sc_hidden :: nat

definition no_seed_counts :: seed_counts where
  "no_seed_counts = \<lparr>sc_easy = 0, sc_medium = 0, sc_hard = 0, sc_public = 0, sc_hidden = 0\<rparr>"

definition count_difficulty :: "difficulty \<Rightarrow> seed_counts \<Rightarrow> seed_counts" where
  "count_difficulty d c = (case d of
     EASY \<Rightarrow> c\<lparr>sc_easy := sc_easy c + 1\<rparr> | MEDIUM \<Rightarrow> c\<lparr>sc_medium := sc_medium c + 1\<rparr> | HARD \<Rightarrow> c\<lparr>sc_hard := sc_hard c + 1\<rparr>)"

definition count_visibility :: "visibility \<Rightarrow> seed_counts \<Rightarrow> seed_counts" where
  "count_visibility v c = (case v of
     PUBLIC \<Rightarrow> c\<lparr>sc_public := sc_public c + 1\<rparr> | HIDDEN \<Rightarrow> c\<lparr>sc_hidden := sc_hidden c + 1\<rparr>)"

definition count_problem :: "difficulty \<Rightarrow> seed_problem \<Rightarrow> seed_counts \<Rightarrow> seed_counts" where
  "count_problem d pDef c = foldl (\<lambda>c tc. count_visibility (st_visibility tc) c) (count_difficulty d c) (sp_testCases pDef)"

fun seed_problems ::
  "'w backend \<Rightarrow> 'w seed_host \<Rightarrow> oid \<Rightarrow> seed_problem list \<Rightarrow> seed_counts \<Rightarrow> ('w, seed_counts) io" where
  "seed_problems B S authorId [] c = ret c"
| "seed_problems B S authorId (p # ps) c =
     await (seedProblem B S authorId p) (\<lambda>problem.
       seed_problems B S authorId ps (count_problem (p_difficulty problem) p c))"

definition no_admin :: err where
  "no_admin = plain_error ''Admin user could not be initialized as problem author.''"

definition seed_database ::
  "'w backend \<Rightarrow> 'w auth_env \<Rightarrow> 'w seed_host \<Rightarrow> seed_user list \<Rightarrow> seed_problem list \<Rightarrow> ('w, seed_counts) io" where
  "seed_database B E S us ps =
     await (sd_connect S) (\<lambda>_.
     await (seed_users B E us None) (\<lambda>adminUser. case adminUser of
       None \<Rightarrow> throw no_admin
     | Some admin \<Rightarrow>
         await (seed_problems B S (u_id admin) ps no_seed_counts) (\<lambda>c.
         await (sd_disconnect S) (\<lambda>_. ret c))))"

text \<open>The exit code and, when it is 0, the counters of the summary.\<close>

definition seed :: "'w backend \<Rightarrow> 'w auth_env \<Rightarrow> 'w seed_host \<Rightarrow> ('w, int \<times> seed_counts option) io" where
  "seed B E S =
     try_catch (await (seed_database B E S SEED_USERS SEED_PROBLEMS) (\<lambda>c. ret (0, Some c)))
       (\<lambda>error. ret (1, None))"

text \<open>Loading the script in production ends the process before anything is done.\<close>

definition seed_script ::
  "string \<Rightarrow> 'w backend \<Rightarrow> 'w auth_env \<Rightarrow> 'w seed_host \<Rightarrow> ('w, int \<times> seed_counts option) io" where
  "seed_script nodeEnv B E S = (if nodeEnv = ''production'' then ret (1, None) else seed B E S)"

section \<open>What the script relies on\<close>

text \<open>The upsert and the deletion do what the database documents; a password check is a function.\<close>

locale seeding = credentials B view E
  for B :: "'w backend" and view :: "'w \<Rightarrow> db" and E :: "'w auth_env" +
  fixes S :: "'w seed_host"
  assumes connect_keeps: "keeps view (sd_connect S)"
    and disconnect_keeps: "keeps view (sd_disconnect S)"
    and upsert_ok: "sd_upsert S P f mk w = (Inr t, w') \<Longrightarrow>
      (\<exists>i old. db_testCases (view w) i = Some old \<and> P old \<and> t = f old \<and>
         view w' = db_testCases_update (\<lambda>m. m(i \<mapsto> f old)) (view w)) \<or>
      (\<exists>i c. db_testCases (view w) i = None \<and> matching P (db_testCases (view w)) = {} \<and> t = mk i c \<and>
         view w' = db_testCases_update (\<lambda>m. m(i \<mapsto> mk i c)) (view w))"
    and deleteMany_ok: "sd_deleteMany S P w = (Inr u, w') \<Longrightarrow>
      view w' = db_testCases_update (removing P) (view w)"
    and check_function: "argonVerify E h pw w = (Inr b, w1) \<Longrightarrow> argonVerify E h pw w2 = (Inr b', w3) \<Longrightarrow> b = b'"

definition accepts :: "'w auth_env \<Rightarrow> string \<Rightarrow> string \<Rightarrow> bool" where
  "accepts E h pw \<longleftrightarrow> (\<forall>w b w'. argonVerify E h pw w = (Inr b, w') \<longrightarrow> b)"

text \<open>The documents an entry stands for.\<close>

definition is_seed_user :: "'w auth_env \<Rightarrow> seed_user \<Rightarrow> user \<Rightarrow> bool" where
  "is_seed_user E u d \<longleftrightarrow> u_email d = su_email u \<and> u_name d = su_name u \<and> u_role d = su_role u \<and>
     u_isActive d = su_isActive u \<and> accepts E (u_passwordHash d) (su_password u)"

definition is_seed_problem :: "oid \<Rightarrow> seed_problem \<Rightarrow> problem \<Rightarrow> bool" where
  "is_seed_problem a p d \<longleftrightarrow> p_title d = sp_title p \<and> p_description d = sp_description p \<and>
     p_difficulty d = sp_difficulty p \<and> p_tags d = sp_tags p \<and> p_inputFormat d = sp_inputFormat p \<and>
     p_outputFormat d = sp_outputFormat p \<and> p_constraints d = sp_constraints p \<and> p_examples d = sp_examples p \<and>
     p_authorId d = a \<and> p_isActive d"

definition is_seed_test :: "oid \<Rightarrow> seed_test \<Rightarrow> testcase \<Rightarrow> bool" where
  "is_seed_test i tc t \<longleftrightarrow> at_order i tc t \<and> t_input t = st_input tc \<and> t_expectedOutput t = st_expectedOutput tc \<and>
     t_visibility t = st_visibility tc \<and> t_isActive t"

definition well_formed_user :: "seed_user \<Rightarrow> bool" where
  "well_formed_user u \<longleftrightarrow> js_lower (js_trim (su_email u)) = su_email u \<and> js_trim (su_name u) = su_name u"

lemma is_seed_test_order: "is_seed_test i tc t \<Longrightarrow> at_order i tc t"
  by (simp add: is_seed_test_def)

lemma is_seed_user_email: "is_seed_user E u d \<Longrightarrow> u_email d = su_email u"
  by (simp add: is_seed_user_def)

lemma is_seed_problem_title: "is_seed_problem a p d \<Longrightarrow> p_title d = sp_title p"
  by (simp add: is_seed_problem_def)

context seeding
begin

lemma hash_accepted: "argonHash E pw w = (Inr h, w') \<Longrightarrow> accepts E h pw"
  unfolding accepts_def using check_hash by blast

lemma verify_accepted: "argonVerify E h pw w = (Inr True, w') \<Longrightarrow> accepts E h pw"
  unfolding accepts_def using check_function by blast

lemma save_user:
  assumes "save_valid (Users B) ok (u_id old) new (user_delta old new) w = (Inr r, w')"
    and "db_users (view w) (u_id old) = Some old" and "new = seed_user_fields u h old"
  shows "view w' = db_users_update (\<lambda>m. m(u_id new \<mapsto> new)) (view w)"
proof -
  from assms(1) have "save (Users B) (u_id old) (user_delta old new) w = (Inr r, w')"
    by (auto simp: save_valid_def split: if_splits)
  then have "view w' = db_users_update (modify (u_id old) (\<lambda>_. True) (user_delta old new)) (view w)"
    by (blast dest: users.save_ok)
  moreover have "user_delta old new old = new" "u_id new = u_id old"
    by (simp_all add: assms(3) user_delta_def seed_user_fields_def)
  ultimately show ?thesis using assms(2) by (cases "view w") (simp add: modify_def)
qed

lemma seedUser_puts:
  assumes run: "seedUser B E u w = (Inr d, w')" and key: "keyed u_id (db_users (view w))" and ok: "well_formed_user u"
  shows "\<exists>m'. puts u_id (\<lambda>d. u_email d = su_email u) (is_seed_user E u) (db_users (view w)) d m' \<and>
    view w' = db_users_update (\<lambda>_. m') (view w)"
proof -
  from run [unfolded seedUser_def] obtain found w1 where
    f: "findOne (Users B) (\<lambda>d. u_email d = su_email u) w = (Inr found, w1)" and rest: "(case found of
       Some existing \<Rightarrow>
         await (argonVerify E (u_passwordHash existing) (su_password u)) (\<lambda>isMatch.
         await (if isMatch then ret (u_passwordHash existing) else argonHash E (su_password u)) (\<lambda>hash.
         let new = seed_user_fields u hash existing in
         await (save_valid (Users B) user_schema (u_id existing) new (user_delta existing new)) (\<lambda>_.
         ret new)))
     | None \<Rightarrow>
         await (argonHash E (su_password u)) (\<lambda>passwordHash.
         create_valid (Users B) user_schema (new_seed_user u passwordHash))) w1 = (Inr d, w')"
    by (cases rule: await_cases) auto
  have v1: "view w1 = view w" using keepsD [OF users.findOne_keeps f] .
  show ?thesis
  proof (cases found)
    case None
    from rest [unfolded None option.case] obtain h w2 where h: "argonHash E (su_password u) w1 = (Inr h, w2)"
      and c: "create_valid (Users B) user_schema (new_seed_user u h) w2 = (Inr d, w')"
      by (cases rule: await_cases) auto
    have v2: "view w2 = view w" using keepsD [OF hash_keeps h] v1 by simp
    from c have "create (Users B) (new_seed_user u h) w2 = (Inr d, w')"
      by (auto simp: create_valid_def split: if_splits)
    from users.create_ok [OF this] obtain i t where i: "db_users (view w) i = None" "d = new_seed_user u h i t"
      "view w' = db_users_update (\<lambda>m. m(i \<mapsto> new_seed_user u h i t)) (view w)"
      by (auto simp: v2)
    have "is_seed_user E u d"
      using hash_accepted [OF h] ok by (simp add: i(2) new_seed_user_def is_seed_user_def well_formed_user_def)
    moreover have "matching (\<lambda>d. u_email d = su_email u) (db_users (view w)) = {}"
      using f by (auto simp: None dest: users.findOne_None)
    moreover have "u_id d = i" by (simp add: i(2) new_seed_user_def)
    ultimately show ?thesis using i
      by (intro exI [of _ "(db_users (view w))(i \<mapsto> d)"]) (auto simp: puts_def is_seed_user_email)
  next
    case (Some old)
    from f obtain j where "db_users (view w) j = Some old" and e: "u_email old = su_email u"
      by (auto simp: Some dest: users.findOne_Some)
    with key have old: "db_users (view w) (u_id old) = Some old" by (auto simp: keyed_def)
    from rest [unfolded Some option.case] obtain b w2 where
      b: "argonVerify E (u_passwordHash old) (su_password u) w1 = (Inr b, w2)" and
      rest2: "await (if b then ret (u_passwordHash old) else argonHash E (su_password u)) (\<lambda>hash.
         let new = seed_user_fields u hash old in
         await (save_valid (Users B) user_schema (u_id old) new (user_delta old new)) (\<lambda>_. ret new)) w2 = (Inr d, w')"
      by (cases rule: await_cases) auto
    have v2: "view w2 = view w" using keepsD [OF check_keeps b] v1 by simp
    from rest2 obtain h w3 where h: "(if b then ret (u_passwordHash old) else argonHash E (su_password u)) w2 = (Inr h, w3)"
      and rest3: "await (save_valid (Users B) user_schema (u_id old) (seed_user_fields u h old)
          (user_delta old (seed_user_fields u h old))) (\<lambda>_. ret (seed_user_fields u h old)) w3 = (Inr d, w')"
      by (cases rule: await_cases) (auto simp: Let_def)
    have v3: "view w3 = view w"
      using h keepsD [OF hash_keeps] v2 by (auto split: if_splits)
    have acc: "accepts E h (su_password u)"
      using h hash_accepted verify_accepted [of "u_passwordHash old"] b by (cases b) auto
    from rest3 obtain r where s: "save_valid (Users B) user_schema (u_id old) (seed_user_fields u h old)
          (user_delta old (seed_user_fields u h old)) w3 = (Inr r, w')" and d: "d = seed_user_fields u h old"
      by (cases rule: await_cases) auto
    have v: "view w' = db_users_update (\<lambda>m. m(u_id d \<mapsto> d)) (view w)"
      using save_user [OF s] old by (simp add: v3 d)
    have same: "d = old" if "is_seed_user E u old"
    proof -
      from that b have b by (auto simp: is_seed_user_def accepts_def)
      with h have "h = u_passwordHash old" by simp
      with that ok show ?thesis by (simp add: d seed_user_fields_def is_seed_user_def well_formed_user_def)
    qed
    have "is_seed_user E u d" "u_id d = u_id old"
      using acc e ok by (simp_all add: d seed_user_fields_def is_seed_user_def well_formed_user_def)
    with v old e same show ?thesis
      by (intro exI [of _ "(db_users (view w))(u_id d \<mapsto> d)"]) (auto simp: puts_def is_seed_user_email)
  qed
qed

lemma seed_users_run:
  assumes "seed_users B E us adm w = (Inr adm', w')" and "keyed u_id (db_users (view w))"
    and "\<forall>u\<in>set us. well_formed_user u" and "distinct (map su_email us)"
  shows "\<exists>m'. view w' = db_users_update (\<lambda>_. m') (view w) \<and> keyed u_id m' \<and>
    kept (\<lambda>d. u_email d \<notin> su_email ` set us) (db_users (view w)) m' \<and>
    (\<forall>u\<in>set us. single (\<lambda>d. u_email d = su_email u) (db_users (view w)) \<longrightarrow>
       stored_once (\<lambda>d. u_email d = su_email u) (is_seed_user E u) m') \<and>
    ((\<forall>u\<in>set us. stored_once (\<lambda>d. u_email d = su_email u) (is_seed_user E u) (db_users (view w))) \<longrightarrow>
       m' = db_users (view w)) \<and>
    (if \<exists>u\<in>set us. su_role u = ADMIN
     then \<exists>u\<in>set us. \<exists>v. su_role u = ADMIN \<and> adm' = Some v \<and> is_seed_user E u v \<and> m' (u_id v) = Some v
     else adm' = adm)"
  using assms
proof (induction us arbitrary: adm w)
  case Nil
  then show ?case by (intro exI [of _ "db_users (view w)"]) simp
next
  case (Cons u us)
  from Cons.prems(1) obtain d w1 where d: "seedUser B E u w = (Inr d, w1)"
    and rest: "seed_users B E us (if su_role u = ADMIN then Some d else adm) w1 = (Inr adm', w')"
    by (auto elim: await_cases)
  let ?K = "\<lambda>u d. u_email d = su_email u" and ?G = "is_seed_user E"
  from Cons.prems have wf: "well_formed_user u" by simp
  obtain m1 where p: "puts u_id (?K u) (?G u) (db_users (view w)) d m1"
    and v1: "view w1 = db_users_update (\<lambda>_. m1) (view w)"
    using seedUser_puts [OF d Cons.prems(2) wf] by blast
  have m1: "db_users (view w1) = m1" by (simp add: v1)
  have key1: "keyed u_id (db_users (view w1))" unfolding m1 using puts_keyed [OF p Cons.prems(2)] .
  have ok: "\<forall>u\<in>set us. well_formed_user u" "distinct (map su_email us)" using Cons.prems by auto
  from Cons.IH [OF rest key1 ok] obtain m' where
    v: "view w' = db_users_update (\<lambda>_. m') (view w1)" and k: "keyed u_id m'"
    and kept': "kept (\<lambda>d. u_email d \<notin> su_email ` set us) m1 m'"
    and once: "\<And>x. x \<in> set us \<Longrightarrow> single (?K x) m1 \<Longrightarrow> stored_once (?K x) (?G x) m'"
    and idle: "(\<forall>x\<in>set us. stored_once (?K x) (?G x) m1) \<Longrightarrow> m' = m1"
    and adm: "if \<exists>u\<in>set us. su_role u = ADMIN
     then \<exists>u\<in>set us. \<exists>v. su_role u = ADMIN \<and> adm' = Some v \<and> ?G u v \<and> m' (u_id v) = Some v
     else adm' = (if su_role u = ADMIN then Some d else adm)"
    unfolding m1 by blast
  have fresh: "su_email u \<notin> su_email ` set us" using Cons.prems(4) by auto
  have keep_u: "kept (?K u) m1 m'" using kept' by (rule kept_mono) (use fresh in auto)
  have keep_x: "kept (?K x) (db_users (view w)) m1" if "x \<in> set us" for x
    using puts_kept [OF p] by (rule kept_mono) (use fresh imageI [OF that, of su_email] in auto)
  have "view w' = db_users_update (\<lambda>_. m') (view w)" by (simp add: v v1)
  moreover have "kept (\<lambda>d. u_email d \<notin> su_email ` set (u # us)) (db_users (view w)) m'"
    by (rule kept_trans [OF kept_mono [OF puts_kept [OF p]] kept_mono [OF kept']]) auto
  moreover have "stored_once (?K x) (?G x) m'" if x: "x \<in> set (u # us)" "single (?K x) (db_users (view w))" for x
  proof (cases "x = u")
    case True
    with x(2) have "stored_once (?K u) (?G u) m1" using puts_once [OF p] by simp
    from stored_once_kept [OF this keep_u] show ?thesis by (simp add: True is_seed_user_email)
  next
    case False
    with x have "x \<in> set us" by simp
    with once single_kept [OF x(2) keep_x] show ?thesis by blast
  qed
  moreover have "m' = db_users (view w)"
    if all: "\<forall>x\<in>set (u # us). stored_once (?K x) (?G x) (db_users (view w))"
  proof -
    have "stored_once (?K u) (?G u) (db_users (view w))" using all by simp
    from puts_idle [OF p this] have "m1 = db_users (view w)" by (simp add: is_seed_user_email)
    with idle all show ?thesis by simp
  qed
  moreover have "if \<exists>x\<in>set (u # us). su_role x = ADMIN
     then \<exists>x\<in>set (u # us). \<exists>v. su_role x = ADMIN \<and> adm' = Some v \<and> ?G x v \<and> m' (u_id v) = Some v
     else adm' = adm"
  proof (cases "\<exists>x\<in>set us. su_role x = ADMIN")
    case False
    show ?thesis
    proof (cases "su_role u = ADMIN")
      case True
      have "m1 (u_id d) = Some d" "?G u d" using puts_stored [OF p] by auto
      then have "m' (u_id d) = Some d" using keep_u by (auto simp: kept_def is_seed_user_email)
      with adm True False \<open>?G u d\<close> show ?thesis by auto
    qed (use adm False in auto)
  qed (use adm in auto)
  ultimately show ?case using k by blast
qed

lemma upsert_puts:
  assumes "sd_upsert S (at_order i tc) (seed_test_fields i tc) (new_seed_test i tc) w = (Inr t, w')"
    and "keyed t_id (db_testCases (view w))"
  shows "\<exists>m'. puts t_id (at_order i tc) (is_seed_test i tc) (db_testCases (view w)) t m' \<and>
    view w' = db_testCases_update (\<lambda>_. m') (view w)"
  using upsert_ok [OF assms(1)]
proof (elim disjE exE conjE)
  fix k old
  assume old: "db_testCases (view w) k = Some old" "at_order i tc old" "t = seed_test_fields i tc old"
    and v: "view w' = db_testCases_update (\<lambda>m. m(k \<mapsto> seed_test_fields i tc old)) (view w)"
  have "t_id old = k" using assms(2) old(1) by (simp add: keyed_def)
  then have id: "t_id t = k" by (simp add: old(3) seed_test_fields_def)
  have "is_seed_test i tc t" by (simp add: old(3) seed_test_fields_def is_seed_test_def at_order_def)
  moreover have "is_seed_test i tc old \<longrightarrow> t = old"
    by (simp add: old(3) seed_test_fields_def is_seed_test_def at_order_def)
  ultimately have "puts t_id (at_order i tc) (is_seed_test i tc) (db_testCases (view w)) t ((db_testCases (view w))(k \<mapsto> t))"
    using old(1,2) id is_seed_test_order unfolding puts_def by blast
  then show ?thesis using v by (intro exI [of _ "(db_testCases (view w))(k \<mapsto> t)"]) (simp add: old(3))
next
  fix k c
  assume new: "db_testCases (view w) k = None" "matching (at_order i tc) (db_testCases (view w)) = {}" "t = new_seed_test i tc k c"
    and v: "view w' = db_testCases_update (\<lambda>m. m(k \<mapsto> new_seed_test i tc k c)) (view w)"
  have id: "t_id t = k" by (simp add: new(3) new_seed_test_def)
  have "is_seed_test i tc t" by (simp add: new(3) new_seed_test_def is_seed_test_def at_order_def)
  then have "puts t_id (at_order i tc) (is_seed_test i tc) (db_testCases (view w)) t ((db_testCases (view w))(k \<mapsto> t))"
    using new(1,2) id is_seed_test_order unfolding puts_def by blast
  then show ?thesis using v by (intro exI [of _ "(db_testCases (view w))(k \<mapsto> t)"]) (simp add: new(3))
qed

lemma seedTests_run:
  assumes "seedTests S i tcs ids w = (Inr ids', w')" and "keyed t_id (db_testCases (view w))"
    and "distinct (map st_order tcs)"
  shows "\<exists>m' new. ids' = ids @ new \<and> view w' = db_testCases_update (\<lambda>_. m') (view w) \<and> keyed t_id m' \<and>
    kept (\<lambda>t. \<forall>tc\<in>set tcs. \<not> at_order i tc t) (db_testCases (view w)) m' \<and>
    list_all2 (\<lambda>tc k. \<exists>t. m' k = Some t \<and> is_seed_test i tc t) tcs new \<and>
    ((\<forall>tc\<in>set tcs. stored_once (at_order i tc) (is_seed_test i tc) (db_testCases (view w))) \<longrightarrow>
       m' = db_testCases (view w))"
  using assms
proof (induction tcs arbitrary: ids w)
  case Nil
  then show ?case by (intro exI [of _ "db_testCases (view w)"]) simp
next
  case (Cons tc tcs)
  from Cons.prems(1) obtain t w1 where
    t: "sd_upsert S (at_order i tc) (seed_test_fields i tc) (new_seed_test i tc) w = (Inr t, w1)"
    and rest: "seedTests S i tcs (ids @ [t_id t]) w1 = (Inr ids', w')"
    by (auto elim: await_cases)
  let ?K = "at_order i" and ?G = "is_seed_test i"
  obtain m1 where p: "puts t_id (?K tc) (?G tc) (db_testCases (view w)) t m1"
    and v1: "view w1 = db_testCases_update (\<lambda>_. m1) (view w)"
    using upsert_puts [OF t Cons.prems(2)] by blast
  have m1: "db_testCases (view w1) = m1" by (simp add: v1)
  have key1: "keyed t_id (db_testCases (view w1))" unfolding m1 using puts_keyed [OF p Cons.prems(2)] .
  have dis: "distinct (map st_order tcs)" using Cons.prems(3) by simp
  from Cons.IH [OF rest key1 dis] obtain m' new where
    ids: "ids' = (ids @ [t_id t]) @ new" and v: "view w' = db_testCases_update (\<lambda>_. m') (view w1)" and k: "keyed t_id m'"
    and kept': "kept (\<lambda>t. \<forall>tc\<in>set tcs. \<not> ?K tc t) m1 m'"
    and new: "list_all2 (\<lambda>tc k. \<exists>t. m' k = Some t \<and> ?G tc t) tcs new"
    and idle: "(\<forall>tc\<in>set tcs. stored_once (?K tc) (?G tc) m1) \<Longrightarrow> m' = m1"
    unfolding m1 by blast
  have apart: "\<not> ?K x u" if "x \<in> set tcs" "?K tc u" for x u
    using Cons.prems(3) that imageI [OF that(1), of st_order] by (auto simp: at_order_def)
  have "view w' = db_testCases_update (\<lambda>_. m') (view w)" by (simp add: v v1)
  moreover have "kept (\<lambda>t. \<forall>x\<in>set (tc # tcs). \<not> ?K x t) (db_testCases (view w)) m'"
    by (rule kept_trans [OF kept_mono [OF puts_kept [OF p]] kept_mono [OF kept']]) auto
  moreover have "list_all2 (\<lambda>tc k. \<exists>t. m' k = Some t \<and> ?G tc t) (tc # tcs) (t_id t # new)"
  proof -
    have s: "m1 (t_id t) = Some t" "?G tc t" using puts_stored [OF p] by auto
    then have "\<forall>x\<in>set tcs. \<not> ?K x t" using apart is_seed_test_order by blast
    with kept' s have "m' (t_id t) = Some t" by (simp add: kept_def)
    with s new show ?thesis by auto
  qed
  moreover have "m' = db_testCases (view w)"
    if all: "\<forall>x\<in>set (tc # tcs). stored_once (?K x) (?G x) (db_testCases (view w))"
  proof -
    have "stored_once (?K tc) (?G tc) (db_testCases (view w))" using all by simp
    from puts_idle [OF p this is_seed_test_order] have "m1 = db_testCases (view w)" by simp
    with idle all show ?thesis by simp
  qed
  moreover have "ids' = ids @ (t_id t # new)" using ids by simp
  ultimately show ?case using k by blast
qed

end

text \<open>The tests of a problem are those of its entry, each once, and no other.\<close>

definition tests_are :: "oid \<Rightarrow> seed_test list \<Rightarrow> (oid \<rightharpoonup> testcase) \<Rightarrow> bool" where
  "tests_are i tcs m \<longleftrightarrow> (\<forall>tc\<in>set tcs. stored_once (at_order i tc) (is_seed_test i tc) m) \<and>
     (\<forall>j t. m j = Some t \<longrightarrow> t_problemId t = i \<longrightarrow> (\<exists>tc\<in>set tcs. at_order i tc t))"

lemma tests_are_kept:
  assumes "tests_are i tcs m" and "kept (\<lambda>t. t_problemId t = i) m m'"
  shows "tests_are i tcs m'"
proof -
  have "stored_once (at_order i tc) (is_seed_test i tc) m'" if "tc \<in> set tcs" for tc
  proof (rule stored_once_kept)
    show "stored_once (at_order i tc) (is_seed_test i tc) m" using assms(1) that by (simp add: tests_are_def)
    show "kept (at_order i tc) m m'" using assms(2) by (rule kept_mono) (simp add: at_order_def)
  qed (rule is_seed_test_order)
  with assms show ?thesis by (auto simp: tests_are_def kept_def)
qed

text \<open>After the deletion of the stale tests nothing else is left.\<close>

lemma tests_are_after:
  assumes key: "keyed t_id m" and all: "list_all2 (\<lambda>tc k. \<exists>t. m k = Some t \<and> is_seed_test i tc t) tcs ids"
    and dis: "distinct (map st_order tcs)"
  shows "tests_are i tcs (removing (stale_test i ids) m)"
proof -
  let ?m = "removing (stale_test i ids) m"
  have nth: "\<exists>t. m (ids ! n) = Some t \<and> is_seed_test i (tcs ! n) t" if "n < length tcs" for n
    using all that by (simp add: list_all2_conv_all_nth)
  have len: "length ids = length tcs" using all by (simp add: list_all2_lengthD)
  have left: "\<exists>n<length tcs. j = ids ! n \<and> is_seed_test i (tcs ! n) t"
    if j: "?m j = Some t" "t_problemId t = i" for j t
  proof -
    from j key have mj: "m j = Some t" "t_id t = j" "\<not> stale_test i ids t" by (auto simp: keyed_def)
    with j(2) have "j \<in> set ids" by (simp add: stale_test_def)
    then obtain n where n: "n < length tcs" "j = ids ! n" by (metis in_set_conv_nth len)
    with nth [OF n(1)] mj(1) show ?thesis by auto
  qed
  have "stored_once (at_order i tc) (is_seed_test i tc) ?m" if tc: "tc \<in> set tcs" for tc
  proof -
    from tc obtain n where n: "n < length tcs" "tc = tcs ! n" by (metis in_set_conv_nth)
    with nth obtain t where t: "m (ids ! n) = Some t" "is_seed_test i tc t" by blast
    have "t_id t = ids ! n" using key t(1) by (simp add: keyed_def)
    then have "\<not> stale_test i ids t" using n(1) len by (simp add: stale_test_def)
    with t have "?m (ids ! n) = Some t" by simp
    moreover have "j = ids ! n" if j: "?m j = Some e" "at_order i tc e" for j e
    proof -
      from j(2) have "t_problemId e = i" by (simp add: at_order_def)
      from left [OF j(1) this] obtain k where k: "k < length tcs" "j = ids ! k" "is_seed_test i (tcs ! k) e" by blast
      from is_seed_test_order [OF k(3)] j(2) have "st_order (tcs ! k) = st_order (tcs ! n)"
        by (simp add: at_order_def n(2))
      with dis k(1) n(1) have "k = n" by (simp add: distinct_conv_nth) (metis nth_map)
      with k(2) show ?thesis by simp
    qed
    ultimately show ?thesis using t(2) unfolding stored_once_def by blast
  qed
  moreover have "\<exists>tc\<in>set tcs. at_order i tc t" if "?m j = Some t" "t_problemId t = i" for j t
    using left [OF that] is_seed_test_order nth_mem by blast
  ultimately show ?thesis unfolding tests_are_def by blast
qed

section \<open>Seeding the problems\<close>

definition problem_in :: "oid \<Rightarrow> seed_problem \<Rightarrow> db \<Rightarrow> bool" where
  "problem_in a p D \<longleftrightarrow> (\<exists>i d. db_problems D i = Some d \<and> is_seed_problem a p d \<and>
     (\<forall>j e. db_problems D j = Some e \<longrightarrow> p_title e = sp_title p \<longrightarrow> j = i) \<and>
     tests_are i (sp_testCases p) (db_testCases D))"

definition only_catalogue :: "db \<Rightarrow> db \<Rightarrow> bool" where
  "only_catalogue D D' \<longleftrightarrow> D' = D\<lparr>db_problems := db_problems D', db_testCases := db_testCases D'\<rparr>"

lemma only_catalogue_trans: "only_catalogue D D1 \<Longrightarrow> only_catalogue D1 D2 \<Longrightarrow> only_catalogue D D2"
  by (cases D; cases D1; cases D2) (simp add: only_catalogue_def)

lemma well_formed_trims: "well_formed_seed p \<Longrightarrow>
  js_trim (sp_title p) = sp_title p \<and> js_trim (sp_description p) = sp_description p \<and>
  js_trim (sp_inputFormat p) = sp_inputFormat p \<and> js_trim (sp_outputFormat p) = sp_outputFormat p \<and>
  js_trim (sp_constraints p) = sp_constraints p \<and> distinct (map st_order (sp_testCases p))"
  by (simp add: well_formed_seed_def)

lemma seed_fields_are: "well_formed_seed p \<Longrightarrow> p_title d = sp_title p \<Longrightarrow> is_seed_problem a p (seed_problem_fields p a d)"
  by (simp add: is_seed_problem_def seed_problem_fields_def well_formed_trims)

lemma seed_fields_same: "well_formed_seed p \<Longrightarrow> is_seed_problem a p d \<Longrightarrow> seed_problem_fields p a d = d"
  by (cases d) (simp add: is_seed_problem_def seed_problem_fields_def well_formed_trims)

lemma no_stale_tests:
  assumes t: "tests_are i tcs m" and key: "keyed t_id m"
    and all: "list_all2 (\<lambda>tc k. \<exists>t. m k = Some t \<and> is_seed_test i tc t) tcs ids"
  shows "removing (stale_test i ids) m = m"
proof (rule removing_idle)
  fix j t
  assume j: "m j = Some t"
  show "\<not> stale_test i ids t"
  proof
    assume s: "stale_test i ids t"
    then have "t_problemId t = i" by (simp add: stale_test_def)
    with t j obtain tc where tc: "tc \<in> set tcs" "at_order i tc t" unfolding tests_are_def by blast
    then obtain n where n: "n < length tcs" "tc = tcs ! n" by (metis in_set_conv_nth)
    with all obtain e where e: "m (ids ! n) = Some e" "is_seed_test i tc e" "n < length ids"
      by (auto simp: list_all2_conv_all_nth)
    from t tc(1) have "stored_once (at_order i tc) (is_seed_test i tc) m" by (simp add: tests_are_def)
    then have "single (at_order i tc) m" by (rule stored_once_single)
    with j tc(2) e is_seed_test_order [OF e(2)] have "j = ids ! n" unfolding single_def by blast
    moreover have "t_id t = j" using key j by (simp add: keyed_def)
    ultimately show False using s e(3) by (simp add: stale_test_def)
  qed
qed

context seeding
begin

lemma seed_one_problem:
  assumes run: "(case found of
         Some old \<Rightarrow> let new = seed_problem_fields p a old in
           await (save_valid (Problems B) problem_schema (p_id old) new (seed_problem_delta old new)) (\<lambda>_. ret new)
       | None \<Rightarrow> create_valid (Problems B) problem_schema (new_seed_problem p a)) w1 = (Inr d, w2)"
    and f: "findOne (Problems B) (\<lambda>d. p_title d = sp_title p) w = (Inr found, w1)"
    and key: "keyed p_id (db_problems (view w))" and wf: "well_formed_seed p"
  shows "\<exists>m'. puts p_id (\<lambda>d. p_title d = sp_title p) (is_seed_problem a p) (db_problems (view w)) d m' \<and>
    view w2 = db_problems_update (\<lambda>_. m') (view w)"
proof -
  have v1: "view w1 = view w" using keepsD [OF problems.findOne_keeps f] .
  let ?m = "(db_problems (view w))(p_id d \<mapsto> d)"
  have "puts p_id (\<lambda>d. p_title d = sp_title p) (is_seed_problem a p) (db_problems (view w)) d ?m \<and>
    view w2 = db_problems_update (\<lambda>_. ?m) (view w)"
  proof (cases found)
    case None
    from run [unfolded None option.case] have "create (Problems B) (new_seed_problem p a) w1 = (Inr d, w2)"
      by (auto simp: create_valid_def split: if_splits)
    from problems.create_ok [OF this] obtain i t where i: "db_problems (view w) i = None" "d = new_seed_problem p a i t"
      "view w2 = db_problems_update (\<lambda>m. m(i \<mapsto> new_seed_problem p a i t)) (view w)"
      by (auto simp: v1)
    have id: "p_id d = i" by (simp add: i(2) new_seed_problem_def seed_problem_fields_def)
    have "is_seed_problem a p d"
      unfolding i(2) new_seed_problem_def using wf by (intro seed_fields_are) (simp_all add: well_formed_trims)
    moreover have "matching (\<lambda>d. p_title d = sp_title p) (db_problems (view w)) = {}"
      using f by (auto simp: None dest: problems.findOne_None)
    ultimately have "puts p_id (\<lambda>d. p_title d = sp_title p) (is_seed_problem a p) (db_problems (view w)) d ?m"
      using i(1) id is_seed_problem_title unfolding puts_def by blast
    then show ?thesis using i(2,3) id by simp
  next
    case (Some old)
    from f obtain j where "db_problems (view w) j = Some old" and e: "p_title old = sp_title p"
      by (auto simp: Some dest: problems.findOne_Some)
    with key have old: "db_problems (view w) (p_id old) = Some old" by (auto simp: keyed_def)
    let ?new = "seed_problem_fields p a old"
    from run [unfolded Some option.case Let_def] obtain r where
      s: "save_valid (Problems B) problem_schema (p_id old) ?new (seed_problem_delta old ?new) w1 = (Inr r, w2)"
      and d: "d = ?new"
      by (auto elim: await_cases)
    then have "save (Problems B) (p_id old) (seed_problem_delta old ?new) w1 = (Inr r, w2)"
      by (auto simp: save_valid_def split: if_splits)
    then have v: "view w2 = db_problems_update (modify (p_id old) (\<lambda>_. True) (seed_problem_delta old ?new)) (view w)"
      using problems.save_ok v1 by metis
    have delta: "seed_problem_delta old ?new old = ?new" "p_id ?new = p_id old"
      by (simp_all add: seed_problem_delta_def problem_delta_def seed_problem_fields_def)
    have "view w2 = db_problems_update (\<lambda>_. ?m) (view w)"
      using old by (cases "view w") (simp add: v d delta modify_def)
    moreover have "is_seed_problem a p d" unfolding d using wf e by (rule seed_fields_are)
    moreover have "is_seed_problem a p old \<longrightarrow> d = old" unfolding d using seed_fields_same [OF wf] by blast
    ultimately show ?thesis using old e is_seed_problem_title delta(2) unfolding puts_def d by metis
  qed
  then show ?thesis by blast
qed

lemma seedProblem_run:
  assumes run: "seedProblem B S a p w = (Inr d, w')" and key: "keyed p_id (db_problems (view w))"
    and tkey: "keyed t_id (db_testCases (view w))" and wf: "well_formed_seed p"
  shows "only_catalogue (view w) (view w') \<and>
    puts p_id (\<lambda>d. p_title d = sp_title p) (is_seed_problem a p) (db_problems (view w)) d (db_problems (view w')) \<and>
    keyed t_id (db_testCases (view w')) \<and>
    kept (\<lambda>t. t_problemId t \<noteq> p_id d) (db_testCases (view w)) (db_testCases (view w')) \<and>
    tests_are (p_id d) (sp_testCases p) (db_testCases (view w')) \<and>
    (tests_are (p_id d) (sp_testCases p) (db_testCases (view w)) \<longrightarrow> db_testCases (view w') = db_testCases (view w))"
proof -
  from run [unfolded seedProblem_def] obtain found w1 where
    f: "findOne (Problems B) (\<lambda>d. p_title d = sp_title p) w = (Inr found, w1)" and
    rest: "await (case found of
         Some old \<Rightarrow> let new = seed_problem_fields p a old in
           await (save_valid (Problems B) problem_schema (p_id old) new (seed_problem_delta old new)) (\<lambda>_. ret new)
       | None \<Rightarrow> create_valid (Problems B) problem_schema (new_seed_problem p a)) (\<lambda>problem.
     await (seedTests S (p_id problem) (sp_testCases p) []) (\<lambda>seededTcIds.
     await (sd_deleteMany S (stale_test (p_id problem) seededTcIds)) (\<lambda>_. ret problem))) w1 = (Inr d, w')"
    by (cases rule: await_cases) auto
  from rest obtain w2 ids w3 r where
    d: "(case found of
         Some old \<Rightarrow> let new = seed_problem_fields p a old in
           await (save_valid (Problems B) problem_schema (p_id old) new (seed_problem_delta old new)) (\<lambda>_. ret new)
       | None \<Rightarrow> create_valid (Problems B) problem_schema (new_seed_problem p a)) w1 = (Inr d, w2)"
    and ts: "seedTests S (p_id d) (sp_testCases p) [] w2 = (Inr ids, w3)"
    and del: "sd_deleteMany S (stale_test (p_id d) ids) w3 = (Inr r, w')"
    by (auto elim!: await_cases)
  obtain mp where p: "puts p_id (\<lambda>d. p_title d = sp_title p) (is_seed_problem a p) (db_problems (view w)) d mp"
    and v2: "view w2 = db_problems_update (\<lambda>_. mp) (view w)"
    using seed_one_problem [OF d f key wf] by blast
  have tkey2: "keyed t_id (db_testCases (view w2))" using tkey by (simp add: v2)
  have dis: "distinct (map st_order (sp_testCases p))" using wf by (simp add: well_formed_trims)
  from seedTests_run [OF ts tkey2 dis] obtain m' where v3: "view w3 = db_testCases_update (\<lambda>_. m') (view w2)"
    and k: "keyed t_id m'" and kept': "kept (\<lambda>t. \<forall>tc\<in>set (sp_testCases p). \<not> at_order (p_id d) tc t) (db_testCases (view w)) m'"
    and all: "list_all2 (\<lambda>tc k. \<exists>t. m' k = Some t \<and> is_seed_test (p_id d) tc t) (sp_testCases p) ids"
    and idle: "(\<forall>tc\<in>set (sp_testCases p). stored_once (at_order (p_id d) tc) (is_seed_test (p_id d) tc) (db_testCases (view w))) \<longrightarrow>
       m' = db_testCases (view w)"
    by (auto simp: v2)
  let ?mt = "removing (stale_test (p_id d) ids) m'"
  have v: "view w' = db_testCases_update (\<lambda>_. ?mt) (db_problems_update (\<lambda>_. mp) (view w))"
    using deleteMany_ok [OF del] by (simp add: v3 v2)
  have mt: "db_testCases (view w') = ?mt" "db_problems (view w') = mp" by (simp_all add: v)
  have "only_catalogue (view w) (view w')" unfolding only_catalogue_def mt by (simp add: v)
  moreover have "keyed t_id ?mt" using k by (simp add: keyed_def)
  moreover have "kept (\<lambda>t. t_problemId t \<noteq> p_id d) (db_testCases (view w)) ?mt"
    by (rule kept_trans [OF kept_mono [OF kept'] kept_mono [OF kept_removing]])
      (auto simp: at_order_def stale_test_def)
  moreover have "tests_are (p_id d) (sp_testCases p) ?mt" using k all dis by (rule tests_are_after)
  moreover have "?mt = db_testCases (view w)" if t: "tests_are (p_id d) (sp_testCases p) (db_testCases (view w))"
  proof -
    have "m' = db_testCases (view w)" using idle t by (simp add: tests_are_def)
    with no_stale_tests [OF _ k all] t show ?thesis by simp
  qed
  ultimately show ?thesis using p unfolding mt by blast
qed

lemma seed_problems_run:
  assumes "seed_problems B S a ps c w = (Inr c', w')" and "keyed p_id (db_problems (view w))"
    and "keyed t_id (db_testCases (view w))" and "\<forall>p\<in>set ps. well_formed_seed p" and "distinct (map sp_title ps)"
  shows "only_catalogue (view w) (view w') \<and> keyed p_id (db_problems (view w')) \<and> keyed t_id (db_testCases (view w')) \<and>
    kept (\<lambda>d. p_title d \<notin> sp_title ` set ps) (db_problems (view w)) (db_problems (view w')) \<and>
    kept (\<lambda>t. \<forall>d. db_problems (view w') (t_problemId t) = Some d \<longrightarrow> p_title d \<notin> sp_title ` set ps)
      (db_testCases (view w)) (db_testCases (view w')) \<and>
    (\<forall>p\<in>set ps. single (\<lambda>d. p_title d = sp_title p) (db_problems (view w)) \<longrightarrow> problem_in a p (view w')) \<and>
    ((\<forall>p\<in>set ps. problem_in a p (view w)) \<longrightarrow> view w' = view w) \<and>
    c' = foldl (\<lambda>c p. count_problem (sp_difficulty p) p c) c ps"
  using assms
proof (induction ps arbitrary: c w)
  case Nil
  then show ?case by (simp add: only_catalogue_def)
next
  case (Cons p ps)
  from Cons.prems(1) obtain d w1 where d: "seedProblem B S a p w = (Inr d, w1)"
    and rest: "seed_problems B S a ps (count_problem (p_difficulty d) p c) w1 = (Inr c', w')"
    by (auto elim: await_cases)
  let ?K = "\<lambda>p d. p_title d = sp_title p" and ?G = "is_seed_problem a"
  let ?T = "\<lambda>t. \<forall>d. db_problems (view w') (t_problemId t) = Some d \<longrightarrow> p_title d \<notin> sp_title ` set ps"
  have wf: "well_formed_seed p" using Cons.prems by simp
  note one = seedProblem_run [OF d Cons.prems(2,3) wf]
  have pu: "puts p_id (?K p) (?G p) (db_problems (view w)) d (db_problems (view w1))" using one by blast
  have key1: "keyed p_id (db_problems (view w1))" using puts_keyed [OF pu Cons.prems(2)] .
  have tkey1: "keyed t_id (db_testCases (view w1))" using one by blast
  have ok: "\<forall>p\<in>set ps. well_formed_seed p" "distinct (map sp_title ps)" using Cons.prems by auto
  note ih = Cons.IH [OF rest key1 tkey1 ok]
  have kp: "kept (\<lambda>d. p_title d \<notin> sp_title ` set ps) (db_problems (view w1)) (db_problems (view w'))" using ih by blast
  have kt: "kept ?T (db_testCases (view w1)) (db_testCases (view w'))" using ih by blast
  have fresh: "sp_title p \<notin> sp_title ` set ps" using Cons.prems(5) by auto
  have dd: "db_problems (view w1) (p_id d) = Some d" "?G p d" using puts_stored [OF pu] by auto
  then have title: "p_title d = sp_title p" by (simp add: is_seed_problem_title)
  have dd': "db_problems (view w') (p_id d) = Some d" using kp dd(1) fresh by (simp add: kept_def title)
  have keep_p: "kept (?K p) (db_problems (view w1)) (db_problems (view w'))"
    using kp by (rule kept_mono) (use fresh in auto)
  have keep_x: "kept (?K x) (db_problems (view w)) (db_problems (view w1))" if "x \<in> set ps" for x
    using puts_kept [OF pu] by (rule kept_mono) (use fresh imageI [OF that, of sp_title] in auto)
  have "only_catalogue (view w) (view w')" using one ih only_catalogue_trans by blast
  moreover have "kept (\<lambda>d. p_title d \<notin> sp_title ` set (p # ps)) (db_problems (view w)) (db_problems (view w'))"
    by (rule kept_trans [OF kept_mono [OF puts_kept [OF pu]] kept_mono [OF kp]]) auto
  moreover have "kept (\<lambda>t. \<forall>d. db_problems (view w') (t_problemId t) = Some d \<longrightarrow> p_title d \<notin> sp_title ` set (p # ps))
      (db_testCases (view w)) (db_testCases (view w'))"
  proof (rule kept_trans)
    have "kept (\<lambda>t. t_problemId t \<noteq> p_id d) (db_testCases (view w)) (db_testCases (view w1))" using one by blast
    then show "kept (\<lambda>t. \<forall>d. db_problems (view w') (t_problemId t) = Some d \<longrightarrow> p_title d \<notin> sp_title ` set (p # ps))
      (db_testCases (view w)) (db_testCases (view w1))"
      by (rule kept_mono) (use dd' title in auto)
    show "kept (\<lambda>t. \<forall>d. db_problems (view w') (t_problemId t) = Some d \<longrightarrow> p_title d \<notin> sp_title ` set (p # ps))
      (db_testCases (view w1)) (db_testCases (view w'))"
      using kt by (rule kept_mono) auto
  qed
  moreover have "problem_in a x (view w')" if x: "x \<in> set (p # ps)" "single (?K x) (db_problems (view w))" for x
  proof (cases "x = p")
    case True
    with x(2) have "stored_once (?K p) (?G p) (db_problems (view w1))" using puts_once [OF pu] by simp
    from stored_once_kept [OF this keep_p is_seed_problem_title]
    have "stored_once (?K p) (?G p) (db_problems (view w'))" .
    then have "single (?K p) (db_problems (view w'))" by (rule stored_once_single)
    then have only: "j = p_id d" if "db_problems (view w') j = Some e" "?K p e" for j e
      using that dd' title unfolding single_def by blast
    have "kept (\<lambda>t. t_problemId t = p_id d) (db_testCases (view w1)) (db_testCases (view w'))"
      using kt by (rule kept_mono) (use dd' title fresh in auto)
    moreover have "tests_are (p_id d) (sp_testCases p) (db_testCases (view w1))" using one by blast
    ultimately have "tests_are (p_id d) (sp_testCases p) (db_testCases (view w'))" by (rule tests_are_kept [rotated])
    with dd' dd(2) only show ?thesis unfolding True problem_in_def by blast
  next
    case False
    with x have "x \<in> set ps" by simp
    with ih single_kept [OF x(2) keep_x] show ?thesis by blast
  qed
  moreover have "view w' = view w" if all: "\<forall>x\<in>set (p # ps). problem_in a x (view w)"
  proof -
    from all obtain i e where e: "db_problems (view w) i = Some e" "?G p e"
        "\<forall>j e. db_problems (view w) j = Some e \<longrightarrow> p_title e = sp_title p \<longrightarrow> j = i"
        "tests_are i (sp_testCases p) (db_testCases (view w))"
      unfolding problem_in_def by auto
    then have "stored_once (?K p) (?G p) (db_problems (view w))" unfolding stored_once_def by blast
    from puts_idle [OF pu this is_seed_problem_title] have same: "db_problems (view w1) = db_problems (view w)" by simp
    with dd(1) title e(3) have "p_id d = i" by simp
    with e(4) one have "db_testCases (view w1) = db_testCases (view w)" by blast
    moreover have "only_catalogue (view w) (view w1)" using one by blast
    ultimately have "view w1 = view w" using same by (simp add: only_catalogue_def)
    with ih all show ?thesis by simp
  qed
  moreover have "c' = foldl (\<lambda>c p. count_problem (sp_difficulty p) p c) c (p # ps)"
  proof -
    have "p_difficulty d = sp_difficulty p" using dd(2) by (simp add: is_seed_problem_def)
    with ih show ?thesis by simp
  qed
  ultimately show ?case using ih by blast
qed

end

section \<open>What the script achieves\<close>

definition in_step :: "db \<Rightarrow> bool" where
  "in_step D \<longleftrightarrow> keyed u_id (db_users D) \<and> keyed p_id (db_problems D) \<and> keyed t_id (db_testCases D)"

definition seedable :: "db \<Rightarrow> bool" where
  "seedable D \<longleftrightarrow> (\<forall>u\<in>set SEED_USERS. single (\<lambda>d. u_email d = su_email u) (db_users D)) \<and>
     (\<forall>p\<in>set SEED_PROBLEMS. single (\<lambda>d. p_title d = sp_title p) (db_problems D))"

text \<open>Every user and every problem of the lists is stored, once, as listed, with the tests of its entry
  and no other; the problems belong to the administrator.\<close>

definition seeded :: "'w auth_env \<Rightarrow> db \<Rightarrow> bool" where
  "seeded E D \<longleftrightarrow> (\<forall>u\<in>set SEED_USERS. stored_once (\<lambda>d. u_email d = su_email u) (is_seed_user E u) (db_users D)) \<and>
     (\<exists>a. db_users D (u_id a) = Some a \<and> u_email a = ''admin@codearena.dev'' \<and> u_role a = ADMIN \<and>
       (\<forall>p\<in>set SEED_PROBLEMS. problem_in (u_id a) p D))"

lemma seed_users_facts:
  "\<forall>u\<in>set SEED_USERS. well_formed_user u" "distinct (map su_email SEED_USERS)"
  "\<exists>u\<in>set SEED_USERS. su_role u = ADMIN"
  "u \<in> set SEED_USERS \<Longrightarrow> su_role u = ADMIN \<Longrightarrow> su_email u = ''admin@codearena.dev''"
proof -
  have "list_all well_formed_user SEED_USERS" by code_simp
  then show "\<forall>u\<in>set SEED_USERS. well_formed_user u" by (simp add: list_all_iff)
qed (auto simp: SEED_USERS_def)

lemma seed_problems_facts:
  "\<forall>p\<in>set SEED_PROBLEMS. well_formed_seed p" "distinct (map sp_title SEED_PROBLEMS)"
  using seed_well_formed seed_titles by (simp_all add: list_all_iff)

lemma seed_tally:
  "foldl (\<lambda>c p. count_problem (sp_difficulty p) p c) no_seed_counts SEED_PROBLEMS =
     \<lparr>sc_easy = 4, sc_medium = 4, sc_hard = 4, sc_public = 24, sc_hidden = 48\<rparr>"
  by code_simp

context seeding
begin

lemma seed_run:
  assumes "seed B E S w = (Inr (0, c), w')"
  obtains w1 w2 w3 a c' where "view w1 = view w" "seed_users B E SEED_USERS None w1 = (Inr (Some a), w2)"
    "seed_problems B S (u_id a) SEED_PROBLEMS no_seed_counts w2 = (Inr c', w3)" "view w' = view w3" "c = Some c'"
proof -
  from assms obtain c' where run: "seed_database B E S SEED_USERS SEED_PROBLEMS w = (Inr c', w')" and c: "c = Some c'"
    by (auto simp: seed_def elim!: try_catch_cases await_cases)
  from run [unfolded seed_database_def] obtain u1 w1 adm w2 where con: "sd_connect S w = (Inr u1, w1)"
    and us: "seed_users B E SEED_USERS None w1 = (Inr adm, w2)"
    and rest: "(case adm of None \<Rightarrow> throw no_admin
     | Some admin \<Rightarrow> await (seed_problems B S (u_id admin) SEED_PROBLEMS no_seed_counts) (\<lambda>c.
         await (sd_disconnect S) (\<lambda>_. ret c))) w2 = (Inr c', w')"
    by (auto elim!: await_cases)
  from rest obtain a where adm: "adm = Some a" by (cases adm) auto
  from rest [unfolded adm option.case] obtain w3 where
    ps: "seed_problems B S (u_id a) SEED_PROBLEMS no_seed_counts w2 = (Inr c', w3)" and
    dis: "\<exists>u2. sd_disconnect S w3 = (Inr u2, w')"
    by (auto elim!: await_cases)
  have "view w1 = view w" "view w' = view w3"
    using keepsD [OF connect_keeps con] keepsD [OF disconnect_keeps] dis by auto
  from that [OF this(1) us [unfolded adm] ps this(2) c] show ?thesis .
qed

lemma seed_effect:
  assumes run: "seed B E S w = (Inr (0, c), w')" and D: "in_step (view w)"
  shows "in_step (view w') \<and> c = Some \<lparr>sc_easy = 4, sc_medium = 4, sc_hard = 4, sc_public = 24, sc_hidden = 48\<rparr> \<and>
    (seedable (view w) \<longrightarrow> seeded E (view w')) \<and> (seeded E (view w) \<longrightarrow> view w' = view w) \<and>
    kept (\<lambda>d. u_email d \<notin> su_email ` set SEED_USERS) (db_users (view w)) (db_users (view w')) \<and>
    kept (\<lambda>d. p_title d \<notin> sp_title ` set SEED_PROBLEMS) (db_problems (view w)) (db_problems (view w')) \<and>
    kept (\<lambda>t. \<forall>d. db_problems (view w') (t_problemId t) = Some d \<longrightarrow> p_title d \<notin> sp_title ` set SEED_PROBLEMS)
      (db_testCases (view w)) (db_testCases (view w')) \<and>
    db_submissions (view w') = db_submissions (view w) \<and> db_auditLogs (view w') = db_auditLogs (view w)"
proof -
  from seed_run [OF run] obtain w1 w2 w3 a c' where v1: "view w1 = view w"
    and us: "seed_users B E SEED_USERS None w1 = (Inr (Some a), w2)"
    and ps: "seed_problems B S (u_id a) SEED_PROBLEMS no_seed_counts w2 = (Inr c', w3)"
    and v3: "view w' = view w3" and c: "c = Some c'" .
  let ?K = "\<lambda>u d. u_email d = su_email u" and ?G = "is_seed_user E"
  have ukey: "keyed u_id (db_users (view w1))" using D by (simp add: v1 in_step_def)
  from seed_users_run [OF us ukey seed_users_facts(1,2)] seed_users_facts(3) obtain m' where
    v2: "view w2 = db_users_update (\<lambda>_. m') (view w)" and k2: "keyed u_id m'"
    and kept2: "kept (\<lambda>d. u_email d \<notin> su_email ` set SEED_USERS) (db_users (view w)) m'"
    and once: "\<And>u. u \<in> set SEED_USERS \<Longrightarrow> single (?K u) (db_users (view w)) \<Longrightarrow> stored_once (?K u) (?G u) m'"
    and idle: "\<forall>u\<in>set SEED_USERS. stored_once (?K u) (?G u) (db_users (view w)) \<Longrightarrow> m' = db_users (view w)"
    and adm: "\<exists>u\<in>set SEED_USERS. su_role u = ADMIN \<and> ?G u a \<and> m' (u_id a) = Some a"
    unfolding v1 by auto
  have a: "m' (u_id a) = Some a" "u_email a = ''admin@codearena.dev''" "u_role a = ADMIN"
    using adm seed_users_facts(4) by (auto simp: is_seed_user_def)
  have keys: "keyed p_id (db_problems (view w2))" "keyed t_id (db_testCases (view w2))"
    using D by (simp_all add: v2 in_step_def)
  note pr = seed_problems_run [OF ps keys seed_problems_facts]
  have oc: "only_catalogue (view w2) (view w')" using pr by (simp add: v3)
  then have same: "db_users (view w') = m'" "db_submissions (view w') = db_submissions (view w)"
    "db_auditLogs (view w') = db_auditLogs (view w)"
    unfolding only_catalogue_def v2 by (cases "view w'"; simp)+
  have "in_step (view w')" using pr k2 same by (simp add: in_step_def v3)
  moreover have "c = Some \<lparr>sc_easy = 4, sc_medium = 4, sc_hard = 4, sc_public = 24, sc_hidden = 48\<rparr>"
    using pr by (simp only: c seed_tally)
  moreover have "seeded E (view w')" if "seedable (view w)"
  proof -
    have "\<forall>p\<in>set SEED_PROBLEMS. problem_in (u_id a) p (view w')"
      using pr that by (simp add: v3 seedable_def v2)
    with once that a show ?thesis unfolding seeded_def same seedable_def by blast
  qed
  moreover have "view w' = view w" if s: "seeded E (view w)"
  proof -
    from s have "m' = db_users (view w)" unfolding seeded_def by (blast intro: idle)
    then have v2w: "view w2 = view w" by (simp add: v2)
    from s obtain b where b: "db_users (view w) (u_id b) = Some b" "u_email b = ''admin@codearena.dev''"
      "\<forall>p\<in>set SEED_PROBLEMS. problem_in (u_id b) p (view w)" unfolding seeded_def by blast
    from adm obtain u where u: "u \<in> set SEED_USERS" "su_role u = ADMIN" by blast
    with s have "single (?K u) (db_users (view w))" unfolding seeded_def by (blast intro: stored_once_single)
    moreover have "db_users (view w) (u_id a) = Some a" using a(1) \<open>m' = db_users (view w)\<close> by simp
    moreover have "?K u a" "?K u b" using a(2) b(2) seed_users_facts(4) [OF u] by simp_all
    ultimately have "u_id b = u_id a" using b(1) unfolding single_def by blast
    with pr b(3) show ?thesis by (simp add: v3 v2w)
  qed
  moreover have "kept (\<lambda>d. p_title d \<notin> sp_title ` set SEED_PROBLEMS) (db_problems (view w)) (db_problems (view w'))"
    "kept (\<lambda>t. \<forall>d. db_problems (view w') (t_problemId t) = Some d \<longrightarrow> p_title d \<notin> sp_title ` set SEED_PROBLEMS)
      (db_testCases (view w)) (db_testCases (view w'))"
    using pr by (simp_all add: v3 v2)
  ultimately show ?thesis using kept2 unfolding same by blast
qed

end

section \<open>Properties\<close>

text \<open>C21: the script can be run again: in a database where no seeded address and no seeded title occurs twice, a
  run that exits with 0 leaves exactly the listed users and problems, each once, with exactly the
  listed tests, and a second run that exits with 0 adds no document, removes none and changes none
  in a field of the model; both announce 4 problems of each difficulty, 24 public and 48 hidden
  tests. The documents of the model have no \<open>updatedAt\<close>: a second run does write that of the 72 tests.\<close>

theorem seed_idempotent:
  assumes "seeding B view E S" and "in_step (view w)" and "seedable (view w)"
    and "seed B E S w = (Inr (0, c), w1)" and "seed B E S w1 = (Inr (0, c2), w2)"
  shows "seeded E (view w1) \<and> view w2 = view w1 \<and> c2 = c \<and>
    c = Some \<lparr>sc_easy = 4, sc_medium = 4, sc_hard = 4, sc_public = 24, sc_hidden = 48\<rparr>"
proof -
  note first = seeding.seed_effect [OF assms(1,4,2)]
  then have s: "seeded E (view w1)" "in_step (view w1)" using assms(3) by blast+
  from seeding.seed_effect [OF assms(1,5) s(2)] s(1) first show ?thesis by blast
qed

text \<open>what a run leaves alone, whatever was there: users with other addresses, problems with other titles
  and their tests, all submissions and the audit log.\<close>

theorem seed_keeps_others:
  assumes "seeding B view E S" and "in_step (view w)" and "seed B E S w = (Inr (0, c), w1)"
  shows "kept (\<lambda>d. u_email d \<notin> su_email ` set SEED_USERS) (db_users (view w)) (db_users (view w1)) \<and>
    kept (\<lambda>d. p_title d \<notin> sp_title ` set SEED_PROBLEMS) (db_problems (view w)) (db_problems (view w1)) \<and>
    kept (\<lambda>t. \<forall>d. db_problems (view w1) (t_problemId t) = Some d \<longrightarrow> p_title d \<notin> sp_title ` set SEED_PROBLEMS)
      (db_testCases (view w)) (db_testCases (view w1)) \<and>
    db_submissions (view w1) = db_submissions (view w) \<and> db_auditLogs (view w1) = db_auditLogs (view w)"
  using seeding.seed_effect [OF assms(1,3,2)] by blast

text \<open>The tests an administrator added to a seeded problem are not left alone: after a run every test of a
  problem with a seeded title is one of its entry.\<close>

theorem seed_only_listed_tests:
  assumes "seeding B view E S" and "in_step (view w)" and "seedable (view w)" and "seed B E S w = (Inr (0, c), w1)"
    and "p \<in> set SEED_PROBLEMS" and "db_problems (view w1) i = Some d" and "p_title d = sp_title p"
    and "db_testCases (view w1) j = Some t" and "t_problemId t = i"
  shows "\<exists>tc\<in>set (sp_testCases p). is_seed_test i tc t"
proof -
  have "seeded E (view w1)" using seeding.seed_effect [OF assms(1,4,2)] assms(3) by blast
  then have tests: "tests_are i (sp_testCases p) (db_testCases (view w1))"
    using assms(5-7) unfolding seeded_def problem_in_def by blast
  then obtain tc where tc: "tc \<in> set (sp_testCases p)" "at_order i tc t" using assms(8,9) unfolding tests_are_def by blast
  with tests obtain k e where k: "db_testCases (view w1) k = Some e" "is_seed_test i tc e"
      "\<forall>j e. db_testCases (view w1) j = Some e \<longrightarrow> at_order i tc e \<longrightarrow> j = k"
    unfolding tests_are_def stored_once_def by blast
  with assms(8) tc have "e = t" by (metis option.inject)
  with k tc show ?thesis by blast
qed

text \<open>In production the script does nothing.\<close>

theorem seed_not_in_production: "seed_script ''production'' B E S w = (Inr (1, None), w)"
  by (simp add: seed_script_def)

section \<open>On the backend in memory\<close>

definition mem_seed :: "world seed_host" where
  "mem_seed =
     \<lparr>sd_connect = ret (), sd_disconnect = ret (),
      sd_upsert = (\<lambda>P f mk w. let l = w_testCases w in
        case find (\<lambda>k. P (the (map_of l k))) (alist_keys l) of
          Some k \<Rightarrow> (Inr (f (the (map_of l k))), w\<lparr>w_testCases := (k, f (the (map_of l k))) # l\<rparr>)
        | None \<Rightarrow> (Inr (mk (fresh_oid l) (w_time w)), w\<lparr>w_testCases := (fresh_oid l, mk (fresh_oid l) (w_time w)) # l\<rparr>)),
      sd_deleteMany = (\<lambda>P w. let l = w_testCases w in
        (Inr (), w\<lparr>w_testCases := map (\<lambda>k. (k, the (map_of l k))) (filter (\<lambda>k. \<not> P (the (map_of l k))) (alist_keys l))\<rparr>))\<rparr>"

lemma map_of_keys: "map_of (map (\<lambda>k. (k, f k)) ks) j = (if j \<in> set ks then Some (f j) else None)"
  by (induction ks) auto

lemma mem_deleted:
  "map_of (map (\<lambda>k. (k, the (map_of l k))) (filter (\<lambda>k. \<not> P (the (map_of l k))) (alist_keys l))) = removing P (map_of l)"
proof
  fix j
  show "map_of (map (\<lambda>k. (k, the (map_of l k))) (filter (\<lambda>k. \<not> P (the (map_of l k))) (alist_keys l))) j =
      removing P (map_of l) j"
    unfolding map_of_keys by (cases "map_of l j") (auto simp: removing_def)
qed

interpretation mem_seeding: seeding "mem_backend accept_all q" world_view plain_auth mem_seed for q
proof (intro seeding.intro seeding_axioms.intro plain.credentials_axioms)
  fix P f mk t and w w' :: world
  let ?l = "w_testCases w"
  assume run: "sd_upsert mem_seed P f mk w = (Inr t, w')"
  show "(\<exists>i old. db_testCases (world_view w) i = Some old \<and> P old \<and> t = f old \<and>
         world_view w' = db_testCases_update (\<lambda>m. m(i \<mapsto> f old)) (world_view w)) \<or>
      (\<exists>i c. db_testCases (world_view w) i = None \<and> matching P (db_testCases (world_view w)) = {} \<and> t = mk i c \<and>
         world_view w' = db_testCases_update (\<lambda>m. m(i \<mapsto> mk i c)) (world_view w))"
  proof (cases "find (\<lambda>k. P (the (map_of ?l k))) (alist_keys ?l)")
    case None
    then have "matching P (map_of ?l) = {}" by (auto simp: matching_keys find_None_iff)
    with None run show ?thesis
      by (intro disjI2 exI [of _ "fresh_oid ?l"] exI [of _ "w_time w"])
        (auto simp: mem_seed_def world_view_def Let_def)
  next
    case (Some k)
    then obtain i where "i < length (alist_keys ?l)" "k = alist_keys ?l ! i" and P: "P (the (map_of ?l k))"
      by (auto simp: find_Some_iff)
    then have "k \<in> set (alist_keys ?l)" using nth_mem by metis
    with P Some run show ?thesis
      by (intro disjI1 exI [of _ k] exI [of _ "the (map_of ?l k)"])
        (auto simp: mem_seed_def world_view_def Let_def)
  qed
next
  fix P u and w w' :: world
  assume "sd_deleteMany mem_seed P w = (Inr u, w')"
  then show "world_view w' = db_testCases_update (removing P) (world_view w)"
    by (auto simp: mem_seed_def world_view_def Let_def mem_deleted)
qed (auto simp: mem_seed_def keeps_def ret_def)

lemma seed_schemas:
  "\<forall>u\<in>set SEED_USERS. su_name u \<noteq> [] \<and> length (su_name u) \<le> 100 \<and> email_ok (su_email u)"
  "\<forall>p\<in>set SEED_PROBLEMS. \<forall>a d. p_title d = sp_title p \<longrightarrow> problem_schema (seed_problem_fields p a d)"
proof -
  have "list_all (\<lambda>u. su_name u \<noteq> [] \<and> length (su_name u) \<le> 100 \<and> email_ok (su_email u)) SEED_USERS" by code_simp
  then show "\<forall>u\<in>set SEED_USERS. su_name u \<noteq> [] \<and> length (su_name u) \<le> 100 \<and> email_ok (su_email u)"
    by (simp add: list_all_iff)
  show "\<forall>p\<in>set SEED_PROBLEMS. \<forall>a d. p_title d = sp_title p \<longrightarrow> problem_schema (seed_problem_fields p a d)"
    using seed_well_formed
    by (auto simp: list_all_iff well_formed_seed_def problem_schema_def seed_problem_fields_def)
qed

text \<open>There, nothing fails.\<close>

lemma mem_find: "\<exists>found. findOne (mem_coll get upd time) P w = (Inr found, w) \<and>
  (\<forall>d. found = Some d \<longrightarrow> P d \<and> (\<exists>i. map_of (get w) i = Some d))"
  by (auto simp: mem_coll_def find_Some_iff set_alist_docs [symmetric] in_set_conv_nth)

lemma mem_seedUser:
  assumes u: "u \<in> set SEED_USERS" and key: "keyed u_id (map_of (w_users w))"
  shows "\<exists>d w'. seedUser (mem_backend accept_all q) plain_auth u w = (Inr d, w')"
proof -
  obtain found where f: "findOne (mem_coll w_users w_users_update w_time) (\<lambda>d. u_email d = su_email u) w = (Inr found, w)"
    and fd: "\<forall>d. found = Some d \<longrightarrow> u_email d = su_email u \<and> (\<exists>i. map_of (w_users w) i = Some d)"
    using mem_find [of w_users w_users_update w_time "\<lambda>d. u_email d = su_email u" w] by blast
  have wf: "js_lower (js_trim (su_email u)) = su_email u" "js_trim (su_name u) = su_name u"
    using seed_users_facts(1) u by (simp_all add: well_formed_user_def)
  have sch: "su_name u \<noteq> []" "length (su_name u) \<le> 100" "email_ok (su_email u)" using seed_schemas(1) u by simp_all
  show ?thesis
  proof (cases found)
    case None
    then show ?thesis
      by (simp add: seedUser_def await_def f create_valid_def user_schema_def new_seed_user_def wf sch)
        (simp add: mem_coll_def Let_def)
  next
    case (Some old)
    with fd key have old: "map_of (w_users w) (u_id old) = Some old" "u_email old = su_email u" by (auto simp: keyed_def)
    then show ?thesis
      by (auto simp: Some seedUser_def await_def f save_valid_def user_schema_def seed_user_fields_def wf sch Let_def ret_def)
        (simp_all add: mem_coll_def)
  qed
qed

lemma mem_seed_users:
  "set us \<subseteq> set SEED_USERS \<Longrightarrow> keyed u_id (map_of (w_users w)) \<Longrightarrow>
   \<exists>a w'. seed_users (mem_backend accept_all q) plain_auth us adm w = (Inr a, w')"
proof (induction us arbitrary: adm w)
  case (Cons u us)
  obtain d w1 where d: "seedUser (mem_backend accept_all q) plain_auth u w = (Inr d, w1)"
    using mem_seedUser [of u w q] Cons.prems by auto
  have "keyed u_id (db_users (world_view w))" using Cons.prems(2) by (simp add: world_view_def)
  moreover have "well_formed_user u" using seed_users_facts(1) Cons.prems(1) by simp
  ultimately obtain m' where "puts u_id (\<lambda>d. u_email d = su_email u) (is_seed_user plain_auth u) (db_users (world_view w)) d m'"
      "world_view w1 = db_users_update (\<lambda>_. m') (world_view w)"
    using mem_seeding.seedUser_puts [OF d] by blast
  with puts_keyed \<open>keyed u_id (db_users (world_view w))\<close> have "keyed u_id (db_users (world_view w1))" by fastforce
  then have k1: "keyed u_id (map_of (w_users w1))" by (simp add: world_view_def)
  have sub: "set us \<subseteq> set SEED_USERS" using Cons.prems(1) by simp
  from Cons.IH [OF sub k1] d show ?case by (simp add: await_def)
qed simp

lemma mem_seedTests: "\<exists>ids w'. seedTests mem_seed i tcs is w = (Inr ids, w') \<and> w_problems w' = w_problems w"
proof (induction tcs arbitrary: "is" w)
  case (Cons tc tcs)
  obtain t w1 where t: "sd_upsert mem_seed (at_order i tc) (seed_test_fields i tc) (new_seed_test i tc) w = (Inr t, w1)"
    and w1: "w_problems w1 = w_problems w"
    by (cases "find (\<lambda>k. at_order i tc (the (map_of (w_testCases w) k))) (alist_keys (w_testCases w))")
      (auto simp: mem_seed_def Let_def)
  from Cons.IH [of "is @ [t_id t]" w1] t w1 show ?case by (auto simp: await_def)
qed simp

lemma mem_seedProblem:
  assumes p: "p \<in> set SEED_PROBLEMS" and key: "keyed p_id (map_of (w_problems w))"
  shows "\<exists>d w'. seedProblem (mem_backend accept_all q) mem_seed a p w = (Inr d, w')"
proof -
  obtain found where f: "findOne (mem_coll w_problems w_problems_update w_time) (\<lambda>d. p_title d = sp_title p) w = (Inr found, w)"
    and fd: "\<forall>d. found = Some d \<longrightarrow> p_title d = sp_title p \<and> (\<exists>i. map_of (w_problems w) i = Some d)"
    using mem_find [of w_problems w_problems_update w_time "\<lambda>d. p_title d = sp_title p" w] by blast
  have sch: "problem_schema (seed_problem_fields p a d)" if "p_title d = sp_title p" for d
    using seed_schemas(2) p that by blast
  have tr: "js_trim (sp_title p) = sp_title p" using well_formed_trims seed_problems_facts(1) p by blast
  obtain d w1 where d: "(case found of
         Some old \<Rightarrow> let new = seed_problem_fields p a old in
           await (save_valid (Problems (mem_backend accept_all q)) problem_schema (p_id old) new (seed_problem_delta old new)) (\<lambda>_. ret new)
       | None \<Rightarrow> create_valid (Problems (mem_backend accept_all q)) problem_schema (new_seed_problem p a)) w = (Inr d, w1)"
  proof (cases found)
    case None
    show ?thesis
      by (rule that [of "new_seed_problem p a (fresh_oid (w_problems w)) (w_time w)"])
        (auto simp: None create_valid_def new_seed_problem_def sch tr mem_coll_def Let_def)
  next
    case (Some old)
    with fd key have "map_of (w_problems w) (p_id old) = Some old" "p_title old = sp_title p" by (auto simp: keyed_def)
    then show ?thesis
      by (intro that) (auto simp: Some save_valid_def sch mem_coll_def Let_def await_def ret_def)
  qed
  obtain ids w2 where ids: "seedTests mem_seed (p_id d) (sp_testCases p) [] w1 = (Inr ids, w2)"
    using mem_seedTests by blast
  have "\<exists>w3. sd_deleteMany mem_seed (stale_test (p_id d) ids) w2 = (Inr (), w3)" by (simp add: mem_seed_def Let_def)
  with f d ids show ?thesis by (auto simp: seedProblem_def await_def)
qed

lemma mem_seed_problems:
  "set ps \<subseteq> set SEED_PROBLEMS \<Longrightarrow> keyed p_id (db_problems (world_view w)) \<Longrightarrow> keyed t_id (db_testCases (world_view w)) \<Longrightarrow>
   \<exists>c' w'. seed_problems (mem_backend accept_all q) mem_seed a ps c w = (Inr c', w')"
proof (induction ps arbitrary: c w)
  case (Cons p ps)
  have k: "keyed p_id (map_of (w_problems w))" using Cons.prems(2) by (simp add: world_view_def)
  obtain d w1 where d: "seedProblem (mem_backend accept_all q) mem_seed a p w = (Inr d, w1)"
    using mem_seedProblem [OF _ k, of p q a] Cons.prems(1) by auto
  have wf: "well_formed_seed p" using seed_problems_facts(1) Cons.prems(1) by simp
  note one = mem_seeding.seedProblem_run [OF d Cons.prems(2,3) wf]
  then have pu: "puts p_id (\<lambda>d. p_title d = sp_title p) (is_seed_problem a p) (db_problems (world_view w)) d (db_problems (world_view w1))"
    and tk: "keyed t_id (db_testCases (world_view w1))" by blast+
  have sub: "set ps \<subseteq> set SEED_PROBLEMS" using Cons.prems(1) by simp
  from Cons.IH [OF sub puts_keyed [OF pu Cons.prems(2)] tk] d show ?case by (simp add: await_def)
qed simp

lemma mem_seed_succeeds:
  assumes "in_step (world_view w)"
  shows "\<exists>c w'. seed (mem_backend accept_all q) plain_auth mem_seed w = (Inr (0, c), w') \<and> in_step (world_view w')"
proof -
  have k: "keyed u_id (map_of (w_users w))" "keyed u_id (db_users (world_view w))"
    using assms by (simp_all add: in_step_def world_view_def)
  obtain adm w1 where us: "seed_users (mem_backend accept_all q) plain_auth SEED_USERS None w = (Inr adm, w1)"
    using mem_seed_users [OF order_refl k(1)] by blast
  from mem_seeding.seed_users_run [OF us k(2) seed_users_facts(1,2)] seed_users_facts(3)
  obtain m' a where v1: "world_view w1 = db_users_update (\<lambda>_. m') (world_view w)" and adm: "adm = Some a" by auto
  have "keyed p_id (db_problems (world_view w1))" "keyed t_id (db_testCases (world_view w1))"
    using assms by (simp_all add: v1 in_step_def)
  then obtain c w2 where ps: "seed_problems (mem_backend accept_all q) mem_seed (u_id a) SEED_PROBLEMS no_seed_counts w1 = (Inr c, w2)"
    using mem_seed_problems [OF order_refl] by blast
  have con: "sd_connect mem_seed = ret ()" "sd_disconnect mem_seed = ret ()" by (simp_all add: mem_seed_def)
  have run: "seed (mem_backend accept_all q) plain_auth mem_seed w = (Inr (0, Some c), w2)"
    by (simp add: seed_def try_catch_def await_def seed_database_def con us adm ps ret_def)
  with mem_seeding.seed_effect [OF run assms] show ?thesis by blast
qed

lemma full_world_in_step: "in_step (world_view full_world)" "seedable (world_view full_world)"
proof -
  show "in_step (world_view full_world)"
    by (auto simp: in_step_def keyed_def world_view_def full_world_def sample_world_def sample_user_def sample_admin_def
        sample_problem_def sample_test_def split: if_splits)
  have "single (\<lambda>d. p_title d = x) [''p'' \<mapsto> sample_problem]" for x by (auto simp: single_def split: if_splits)
  moreover have "single (\<lambda>d. u_email d = x) (map_of [(''u'', sample_user), (''a'', sample_admin)])" for x
    by (auto simp: single_def sample_user_def sample_admin_def split: if_splits)
  ultimately show "seedable (world_view full_world)"
    by (auto simp: seedable_def world_view_def full_world_def)
qed

theorem seed_idempotent_witness:
  "\<exists>c w1 w2. seed (mem_backend accept_all True) plain_auth mem_seed full_world = (Inr (0, c), w1) \<and>
     seed (mem_backend accept_all True) plain_auth mem_seed w1 = (Inr (0, c), w2) \<and>
     seeded plain_auth (world_view w1) \<and> world_view w2 = world_view w1"
proof -
  obtain c w1 where r1: "seed (mem_backend accept_all True) plain_auth mem_seed full_world = (Inr (0, c), w1)"
    and s1: "in_step (world_view w1)" using mem_seed_succeeds [OF full_world_in_step(1)] by blast
  obtain c2 w2 where r2: "seed (mem_backend accept_all True) plain_auth mem_seed w1 = (Inr (0, c2), w2)"
    using mem_seed_succeeds [OF s1] by blast
  from seed_idempotent [OF mem_seeding.seeding_axioms full_world_in_step r1 r2] r1 r2 show ?thesis by blast
qed

theorem seed_keeps_others_witness:
  "\<exists>c w1. seed (mem_backend accept_all True) plain_auth mem_seed full_world = (Inr (0, c), w1) \<and>
     db_problems (world_view w1) ''p'' = Some sample_problem"
proof -
  obtain c w1 where r1: "seed (mem_backend accept_all True) plain_auth mem_seed full_world = (Inr (0, c), w1)"
    using mem_seed_succeeds [OF full_world_in_step(1)] by blast
  have "list_all (\<lambda>p. sp_title p \<noteq> ''Sum'') SEED_PROBLEMS" by code_simp
  then have "p_title sample_problem \<notin> sp_title ` set SEED_PROBLEMS" by (auto simp: list_all_iff sample_problem_def)
  moreover have "db_problems (world_view full_world) ''p'' = Some sample_problem"
    by (simp add: world_view_def full_world_def)
  ultimately have "db_problems (world_view w1) ''p'' = Some sample_problem"
    using seed_keeps_others [OF mem_seeding.seeding_axioms full_world_in_step(1) r1] unfolding kept_def by blast
  with r1 show ?thesis by blast
qed

end
