(* ===== verification/Spec2Isabelle.thy ===== *)
theory Spec2Isabelle
  imports ExecService Contention Catalogue JudgePage AdminForm AdminTests HistoryPage AuthForms
    Logger RedisClient AppRoutes Seed
begin

text \<open>
  CodeArena, an online judge: an HTTP API (\<open>backend/src\<close>) stores problems, test cases, users and
  submissions in MongoDB and puts a job for every submission in a Redis queue; worker processes
  take the jobs and judge the submission with the execution engine (\<open>execution-engine/src\<close>), which
  compiles and runs the program in a container and compares its output.

  \<^bold>\<open>Conventions.\<close> A function that awaits or throws is a computation of \<open>Effects\<close>: from a state to
  the thrown error or the value, and the new state. What the code calls and the repository does not
  hold (the database driver, Redis, the queue library, Docker, the file system, the clock, random
  numbers, password hashing, tokens) is a record of such computations, an argument of the
  definitions; what the code relies on is a locale over that record, interpreted on an
  implementation in memory (\<open>Backing\<close>, \<open>Workspace\<close>, \<open>Registry\<close>, \<open>Accounts\<close>, \<open>ApiGuards\<close>), where
  the witnesses run. Values of unknown type are \<open>jsval\<close> (\<open>Js\<close>); strings are lists of code units up
  to 0xFF; numbers are exact. Dates are integers (milliseconds).

  \<^bold>\<open>Foundations.\<close>
  \<open>Prelude\<close>: lists and options. \<open>Js\<close>: values, truthiness, property access, string functions.
  \<open>Effects\<close>: \<open>await\<close>, \<open>throw\<close>, \<open>try/catch/finally\<close>, views that a computation keeps (\<open>keeps\<close>) or
  moves along a relation (\<open>moves\<close>), promises that may stay pending.
  \<open>Mongo\<close>: collections with their filters and updates, and the contract of one collection.

  \<^bold>\<open>Execution engine.\<close>
  \<open>EngineConfig\<close> (\<open>config/constants.js\<close>, \<open>config/languages.js\<close>, \<open>utils/errors.js\<close>): verdicts, limits,
  languages.
  \<open>Evaluator\<close> (\<open>evaluator/output.evaluator.js\<close>): normalisation and comparison of outputs; it is
  equivalent to a comparison line by line.
  \<open>Sandbox\<close> (\<open>runner/docker.sandbox.js\<close>, \<open>runner/process.runner.js\<close>, \<open>compiler/cpp.compiler.js\<close>,
  \<open>utils/sanitizer.js\<close>): the options of the container, and the event handlers of a child process
  as functions on a state, folded over the sequence of events.
  \<open>Workspace\<close> (\<open>utils/workspace.js\<close>): paths, and directories, which are removed only by a path of a
  managed name below one of the two bases; a symbolic link above it leads the removal elsewhere.
  \<open>ExecService\<close> (\<open>executor/execution.service.js\<close>, \<open>runner/*.runtime.js\<close>): validation, compilation,
  run and verdict; nothing is run outside the sandbox in the docker mode, and the workspace is
  removed however the run ends.

  \<^bold>\<open>Submissions.\<close>
  \<open>Models\<close> (\<open>modules/*/*.model.js\<close>): documents, validators, safe views.
  \<open>SubmissionExec\<close> (\<open>submission-execution.service.js\<close>, \<open>execution.adapter.js\<close>): judging against the
  active tests in order; the verdict is that of the first failing test.
  \<open>Metrics\<close> (\<open>metrics.service.js\<close>): counters, histograms, route labels, exposition text.
  \<open>Worker\<close> (\<open>workers/submission.worker.js\<close>): the claim, the run, the retry and the failure of a job.
  \<open>Contention\<close>: several workers and one submission. The database calls of the runs interleave as
  the actions of a cluster (\<open>act\<close>), and \<open>processSubmission_acts\<close> shows that a run of the worker's
  code performs such actions. Under the stale timeout there is one owner at a time, a final result
  stays, and a submission whose workers die can be claimed again.
  \<open>Tracing\<close> (\<open>tracing.service.js\<close>): W3C trace contexts.
  \<open>Submissions\<close> (\<open>submission.service.js\<close>, \<open>submission.validation.js\<close>, the producer of
  \<open>submission.queue.js\<close>): creation, access, history. \<open>Pagination\<close>: the pages of every list.

  \<^bold>\<open>Catalogue and accounts.\<close>
  \<open>Problems\<close>, \<open>TestCases\<close>, \<open>AuditLog\<close>, \<open>Accounts\<close>, \<open>Users\<close>: the services and validators of
  \<open>modules/problems\<close>, \<open>test-cases\<close>, \<open>audit\<close>, \<open>auth\<close> and \<open>users\<close>, with \<open>utils/jwt.js\<close>,
  \<open>utils/password.js\<close>, \<open>middleware/authenticate.js\<close> and \<open>middleware/authorize.js\<close>.
  \<open>Registry\<close> (\<open>workers/worker-registry.service.js\<close>): the records of worker processes.

  \<^bold>\<open>Processes.\<close>
  \<open>Config\<close> (\<open>config/env.js\<close>, \<open>config/database.js\<close>): the environment and its validation, and the
  connection with retries. \<open>Lifecycle\<close>: start and shutdown of workers and servers (\<open>server.js\<close>,
  \<open>config/redis.js\<close>), where the calls of a shutdown may stay pending and a timer forces the exit,
  if it has been set by then. \<open>Api\<close>: routes, guards, controllers and the error handler; \<open>ApiGuards\<close>: only
  administrators change the catalogue. \<open>App\<close> (\<open>app.js\<close>, \<open>middleware/request-id.js\<close>): the application
  around the routers.

  \<open>RedisClient\<close> (\<open>config/redis.js\<close>): the options of a client; a list of Sentinel hosts is read back as
  written. \<open>Logger\<close> (\<open>utils/logger.js\<close>): redaction, levels, entries; an entry does not depend on the
  passwords, tokens, source texts and test data of its metadata, down to six levels of nesting, and is one line in production.

  \<^bold>\<open>Development database.\<close>
  \<open>SeedData\<close>, \<open>Seed\<close> (\<open>scripts/seed.js\<close>): the listed users, problems and tests, and the script that
  stores them; running it again changes no field of the model. \<open>Upserts\<close>: finding or inserting one
  document of any collection.

  \<^bold>\<open>Browser.\<close>
  \<open>Client\<close> (\<open>frontend/src/services/api\<close>, \<open>context/AuthContext.jsx\<close>, the route guards): requests,
  services and the session; the stored token and the session stay in step. \<open>ProblemPage\<close>,
  \<open>JudgePage\<close> (\<open>pages/ProblemDetails.jsx\<close>): the problem a page shows and submits to, and the polling
  of a submission as a machine of events; with prompt answers there is one submission at a time,
  and it settles within 21 polls. \<open>ProblemList\<close> (\<open>pages/Problems.jsx\<close>): every problem of the
  backend is listed once. \<open>AdminForm\<close>, \<open>AdminTests\<close> (\<open>pages/admin\<close>): the forms of
  administrators, which agree with the API's validation but for the length of the title and empty
  examples. \<open>HistoryPage\<close> (\<open>pages/SubmissionHistory.jsx\<close>, \<open>utils/formatters.js\<close>): with answers in
  order the table belongs to the filters. \<open>AuthForms\<close> (\<open>pages/Login.jsx\<close>, \<open>pages/Signup.jsx\<close>).
  \<open>AppRoutes\<close> (\<open>App.jsx\<close>, \<open>components/layout/Navbar.jsx\<close>): which page a location shows to whom; the
  router's matching is a parameter.
  In these machines an answer is an event with the error or the value of the service call. \<open>Stack\<close>:
  the browser over the API, where the requests of \<open>Client\<close> are answered by \<open>App\<close>.
  \<open>Catalogue\<close>: from the database to the list page; it shows the newest twenty active problems.

  \<^bold>\<open>Bounds and termination.\<close> No definition uses fuel: loops are structural recursion or have a
  measure (the connection loop, scanning of paths and routes), and processes that may not end are
  sequences of events, or promises with a pending outcome.

  \<^bold>\<open>Idealisations.\<close> The engine as the submission service and the worker see it, and the calls of the
  HTTP handlers, settle: a run or a request that stays pending for ever is outside \<open>SubmissionExec\<close>,
  \<open>Worker\<close>, \<open>Api\<close> and \<open>App\<close> (\<open>ExecService\<close>, \<open>Sandbox\<close> and \<open>Lifecycle\<close> have pending outcomes), and so
  is a client that goes away before its response is sent. \<open>lstat\<close> fails on missing paths only, and a
  contract of the workspaces that an execution makes has no links above them; \<open>removal\<close>, on which the
  clean-up itself is judged, has both links and failures. The contract of \<open>credentials\<close> takes tokens
  and hashes as unforgeable and loses nothing of their payload. A page loads one problem at a time, and
  the operations of the browser's session follow one another; \<open>late_restoration_shows_other\<close> shows
  what a restoration that answers after a login does.

  \<^bold>\<open>Not modelled.\<close> The calls of the logger in the services; \<open>updatedAt\<close> and index declarations; the documentation router; CORS and
  security headers beyond the origin check; parsing of bodies; the counters of the rate limiters
  (a library); the scripts that test a running system; the tests; the static pages of the frontend, its markup and styling.
\<close>

end
